(* ===== verification/Go_Prelude.thy ===== *)
theory Go_Prelude
  imports Main "HOL-Library.Word" "HOL-Library.Signed_Division"
begin

text \<open>
  Shared vocabulary of the development: the arithmetic of Go's \<^verbatim>\<open>int\<close>, \<^verbatim>\<open>int32\<close>,
  \<^verbatim>\<open>time.Time\<close> and \<^verbatim>\<open>time.Duration\<close>, the result type of fallible functions, and the
  generic lemmas the component theories share.

  \<^item> A Go \<^verbatim>\<open>int\<close> is a 64-bit two's complement integer. It is an \<^typ>\<open>int\<close> here; every
    addition, subtraction, multiplication and division of the source is written with the
    wrapping operations \<open>gadd\<close>, \<open>gsub\<close>, \<open>gmul\<close>, \<open>gdiv\<close> and \<open>grem\<close>. Division
    truncates towards zero, as in Go.
  \<^item> A \<^verbatim>\<open>time.Time\<close> is the number of nanoseconds since Go's zero time, so
    \<^verbatim>\<open>t.IsZero()\<close> is \<open>t = 0\<close>; a \<^verbatim>\<open>time.Duration\<close> is an \<^verbatim>\<open>int64\<close> of nanoseconds and
    \<^verbatim>\<open>t.Sub(u)\<close> saturates.
  \<^item> A Go \<^verbatim>\<open>(T, error)\<close> result is a sum, the error on the left; a pointer is an option.
\<close>

section \<open>Fixed-width integers\<close>

named_theorems go_arith \<open>rules that remove the wrap-around of Go arithmetic in range\<close>
named_theorems go_defs \<open>definitions of the Go arithmetic operations\<close>

type_synonym gint = int
type_synonym time = int
type_synonym duration = int

definition in_int64 :: "int \<Rightarrow> bool" where
  "in_int64 x \<longleftrightarrow> - (2 ^ 63) \<le> x \<and> x < 2 ^ 63"

definition in_int32 :: "int \<Rightarrow> bool" where
  "in_int32 x \<longleftrightarrow> - (2 ^ 31) \<le> x \<and> x < 2 ^ 31"

definition wrap64 :: "int \<Rightarrow> int" where
  "wrap64 x = (x + 2 ^ 63) mod 2 ^ 64 - 2 ^ 63"

definition wrap32 :: "int \<Rightarrow> int" where
  "wrap32 x = (x + 2 ^ 31) mod 2 ^ 32 - 2 ^ 31"

definition gadd :: "gint \<Rightarrow> gint \<Rightarrow> gint" where
  [go_defs]: "gadd x y = wrap64 (x + y)"

definition gsub :: "gint \<Rightarrow> gint \<Rightarrow> gint" where
  [go_defs]: "gsub x y = wrap64 (x - y)"

definition gmul :: "gint \<Rightarrow> gint \<Rightarrow> gint" where
  [go_defs]: "gmul x y = wrap64 (x * y)"

definition gdiv :: "gint \<Rightarrow> gint \<Rightarrow> gint" where
  [go_defs]: "gdiv x y = wrap64 (x sdiv y)"

definition grem :: "gint \<Rightarrow> gint \<Rightarrow> gint" where
  [go_defs]: "grem x y = x smod y"

section \<open>Time\<close>

definition second :: duration where
  "second = 1000000000"

definition minute :: duration where
  "minute = 60000000000"

definition t_sub :: "time \<Rightarrow> time \<Rightarrow> duration" where
  "t_sub t u = max (- (2 ^ 63)) (min (2 ^ 63 - 1) (t - u))"

definition t_truncate :: "time \<Rightarrow> duration \<Rightarrow> time" where
  "t_truncate t d = (if d \<le> 0 then t else t - t mod d)"

section \<open>Formatting\<close>

text \<open>The verbs \<^verbatim>\<open>%d\<close> and \<^verbatim>\<open>%q\<close> of \<^verbatim>\<open>fmt\<close>; names carry nothing that \<^verbatim>\<open>%q\<close> would escape.\<close>

fun digits :: "nat \<Rightarrow> string" where
  "digits n = (if n < 10 then [char_of (48 + n)] else digits (n div 10) @ [char_of (48 + n mod 10)])"

declare digits.simps [simp del]

definition fmt_d :: "int \<Rightarrow> string" where
  "fmt_d x = (if x < 0 then ''-'' @ digits (nat (- x)) else digits (nat x))"

definition fmt_q :: "string \<Rightarrow> string" where
  "fmt_q s = [CHR 0x22] @ s @ [CHR 0x22]"

section \<open>Valid processing-unit values\<close>

text \<open>
  The rule Cloud Spanner puts on \<^verbatim>\<open>processing_units\<close>, quoted in
  \<^verbatim>\<open>internal/scaling/scaling.go\<close>: multiples of 100 below 1000, multiples of 1000 from
  1000 on.
\<close>

definition valid_pu :: "int \<Rightarrow> bool" where
  "valid_pu x \<longleftrightarrow> 0 < x \<and> (if x < 1000 then x mod 100 = 0 else x mod 1000 = 0)"

text \<open>
  The range in which the scaling arithmetic cannot overflow: the Cloud Spanner API
  carries processing units as \<^verbatim>\<open>int32\<close>.
\<close>

definition pu_range :: "int \<Rightarrow> bool" where
  "pu_range x \<longleftrightarrow> 0 \<le> x \<and> x < 2 ^ 31"

section \<open>Lemmas on wrap-around\<close>

lemma wrap64_id [go_arith]: "- (2 ^ 63) \<le> x \<Longrightarrow> x < 2 ^ 63 \<Longrightarrow> wrap64 x = x"
  by (simp add: wrap64_def)

lemma wrap64_range: "in_int64 (wrap64 x)"
proof -
  have "0 \<le> (x + 2 ^ 63) mod 2 ^ 64" and "(x + 2 ^ 63) mod 2 ^ 64 < 2 ^ 64"
    by simp_all
  then show ?thesis by (simp add: wrap64_def in_int64_def)
qed

lemma wrap64_in_int64 [simp]: "in_int64 x \<Longrightarrow> wrap64 x = x"
  by (simp add: in_int64_def wrap64_id)

lemma wrap32_id [simp]: "in_int32 x \<Longrightarrow> wrap32 x = x"
  by (simp add: wrap32_def in_int32_def)

lemma wrap32_range: "in_int32 (wrap32 x)"
proof -
  have "0 \<le> (x + 2 ^ 31) mod 2 ^ 32" and "(x + 2 ^ 31) mod 2 ^ 32 < 2 ^ 32"
    by simp_all
  then show ?thesis by (simp add: wrap32_def in_int32_def)
qed

lemma in_int32_in_int64: "in_int32 x \<Longrightarrow> in_int64 x"
  by (simp add: in_int32_def in_int64_def)

lemma sdiv_nonneg: "0 \<le> x \<Longrightarrow> 0 < y \<Longrightarrow> x sdiv y = x div (y::int)"
  by (cases "x = 0") (simp_all add: signed_divide_int_def)

lemma smod_nonneg: "0 \<le> x \<Longrightarrow> 0 < y \<Longrightarrow> x smod y = x mod (y::int)"
  by (cases "x = 0") (simp_all add: signed_modulo_int_def)

lemma gdiv_nonneg [go_arith]:
  "0 \<le> x \<Longrightarrow> x < 2 ^ 63 \<Longrightarrow> 0 < y \<Longrightarrow> gdiv x y = x div y"
proof -
  assume a: "0 \<le> x" "x < 2 ^ 63" "0 < y"
  have "x div y \<le> x div 1" using a by (intro zdiv_mono2) auto
  moreover have "0 \<le> x div y" using a by (simp add: pos_imp_zdiv_nonneg_iff)
  ultimately show ?thesis using a by (simp add: gdiv_def sdiv_nonneg wrap64_id)
qed

lemma grem_nonneg [go_arith]: "0 \<le> x \<Longrightarrow> 0 < y \<Longrightarrow> grem x y = x mod y"
  by (simp add: grem_def smod_nonneg)

lemma gadd_id [go_arith]: "- (2 ^ 63) \<le> x + y \<Longrightarrow> x + y < 2 ^ 63 \<Longrightarrow> gadd x y = x + y"
  by (simp add: gadd_def wrap64_id)

lemma gsub_id [go_arith]: "- (2 ^ 63) \<le> x - y \<Longrightarrow> x - y < 2 ^ 63 \<Longrightarrow> gsub x y = x - y"
  by (simp add: gsub_def wrap64_id)

lemma gmul_id [go_arith]: "- (2 ^ 63) \<le> x * y \<Longrightarrow> x * y < 2 ^ 63 \<Longrightarrow> gmul x y = x * y"
  by (simp add: gmul_def wrap64_id)

section \<open>Lemmas on time\<close>

lemma minute_pos [simp]: "0 < minute"
  by (simp add: minute_def)

lemma t_truncate_le: "t_truncate t d \<le> t"
  by (simp add: t_truncate_def)

lemma t_truncate_mod: "0 < d \<Longrightarrow> t_truncate t d mod d = 0"
  by (simp add: t_truncate_def)

lemma t_truncate_gt: "0 < d \<Longrightarrow> t < t_truncate t d + d"
  using pos_mod_bound[of d t] by (simp add: t_truncate_def)

lemma t_truncate_unique:
  assumes "0 < d" "u mod d = 0" "t - d < u" "u \<le> t"
  shows "t_truncate t d = u"
proof -
  obtain k where k: "u = d * k" using assms(2) by (auto simp: dvd_def mod_eq_0_iff_dvd)
  have "t div d = k"
  proof (rule int_div_pos_eq)
    show "t = d * k + (t - u)" by (simp add: k)
    show "0 \<le> t - u" "t - u < d" using assms by auto
  qed
  then have "t mod d = t - d * k" by (simp add: minus_mult_div_eq_mod [symmetric])
  then show ?thesis using assms(1) by (simp add: t_truncate_def k)
qed

lemma t_sub_sign: "t_sub t u < 0 \<longleftrightarrow> t < u"
  by (auto simp: t_sub_def)

section \<open>Lemmas on lists\<close>

lemma sorted_wrt_take_drop:
  assumes "sorted_wrt R xs" "x \<in> set (take n xs)" "y \<in> set (drop n xs)"
  shows "R x y"
proof -
  have "sorted_wrt R (take n xs @ drop n xs)" using assms(1) by simp
  then show ?thesis using assms(2,3) unfolding sorted_wrt_append by blast
qed

section \<open>Lemmas on valid processing units\<close>

lemma valid_pu_ge_100: "valid_pu x \<Longrightarrow> 100 \<le> x"
  unfolding valid_pu_def by (auto split: if_splits; presburger)

lemma valid_pu_mod_100: "valid_pu x \<Longrightarrow> x mod 100 = 0"
  unfolding valid_pu_def by (auto split: if_splits; presburger)

lemma valid_pu_mod_1000: "valid_pu x \<Longrightarrow> 1000 \<le> x \<Longrightarrow> x mod 1000 = 0"
  by (auto simp: valid_pu_def)

lemma valid_puI_small: "0 < x \<Longrightarrow> x \<le> 1000 \<Longrightarrow> x mod 100 = 0 \<Longrightarrow> valid_pu x"
  unfolding valid_pu_def by (cases "x = 1000") auto

lemma valid_puI_large: "0 < x \<Longrightarrow> x mod 1000 = 0 \<Longrightarrow> valid_pu x"
  unfolding valid_pu_def by (auto split: if_splits; presburger)

end
