(* ===== verification/Api_Types.thy ===== *)
theory Api_Types
  imports Go_Prelude
begin

text \<open>
  The custom resources of \<^verbatim>\<open>api/v1beta1\<close>: \<^verbatim>\<open>SpannerAutoscaler\<close>,
  \<^verbatim>\<open>SpannerAutoscaleSchedule\<close> and \<^verbatim>\<open>SpannerManualScaling\<close>, field by field, with the
  methods the types carry (\<^verbatim>\<open>ActiveMetricFlags\<close>, \<^verbatim>\<open>ToCPUMetricType\<close>,
  \<^verbatim>\<open>Normalized\<close>, \<^verbatim>\<open>IsTerminal\<close>).

  A Go string type with declared constants is a datatype with one constructor per
  constant and one constructor for every other string, since the API server stores
  whatever string a client wrote. A pointer field is an option. Of the Kubernetes
  \<^verbatim>\<open>ObjectMeta\<close> only the fields the sources read or write are kept. Slices are lists.
\<close>

section \<open>Values of the Kubernetes libraries the types embed\<close>

text \<open>
  \<^verbatim>\<open>intstr.IntOrString\<close> is a struct with a numeric \<^verbatim>\<open>Type\<close>; \<open>intstr_Int\<close> and
  \<open>intstr_String\<close> are the two declared values of it.
\<close>

record IntOrString =
  ios_Type :: gint
  ios_IntVal :: gint
  ios_StrVal :: string

definition intstr_Int :: gint where "intstr_Int = 0"
definition intstr_String :: gint where "intstr_String = 1"

definition intstr_FromInt :: "gint \<Rightarrow> IntOrString" where
  "intstr_FromInt v = \<lparr>ios_Type = intstr_Int, ios_IntVal = wrap32 v, ios_StrVal = []\<rparr>"

definition intstr_FromString :: "string \<Rightarrow> IntOrString" where
  "intstr_FromString s = \<lparr>ios_Type = intstr_String, ios_IntVal = 0, ios_StrVal = s\<rparr>"

definition intstr_zero :: IntOrString where
  "intstr_zero = \<lparr>ios_Type = 0, ios_IntVal = 0, ios_StrVal = []\<rparr>"

record NamespacedName =
  nn_Namespace :: string
  nn_Name :: string

definition nn_String :: "NamespacedName \<Rightarrow> string" where
  "nn_String n = nn_Namespace n @ ''/'' @ nn_Name n"

record ObjectMeta =
  om_Name :: string
  om_Namespace :: string
  om_UID :: string
  om_ResourceVersion :: string
  om_CreationTimestamp :: time
  om_DeletionTimestamp :: "time option"
  om_Finalizers :: "string list"
  om_ControllerUID :: "string option"

definition object_key :: "ObjectMeta \<Rightarrow> NamespacedName" where
  "object_key m = \<lparr>nn_Namespace = om_Namespace m, nn_Name = om_Name m\<rparr>"

section \<open>SpannerAutoscaler: enumerations\<close>

datatype CPUMetricType =
    CPUMetricTypeHighPriority
  | CPUMetricTypeTotal
  | CPUMetricTypeBoth
  | CPUMetricType_other string

datatype AuthType =
    AuthTypeSA
  | AuthTypeImpersonation
  | AuthTypeADC
  | AuthType_other string

datatype ComputeType =
    ComputeTypeNode
  | ComputeTypePU
  | ComputeType_other string

datatype InstanceState =
    InstanceStateUnspecified
  | InstanceStateCreating
  | InstanceStateReady
  | InstanceState_other string

section \<open>SpannerAutoscaler: specification\<close>

record TargetInstance =
  ti_ProjectID :: string
  ti_InstanceID :: string

record ImpersonateConfig =
  ic_TargetServiceAccount :: string
  ic_Delegates :: "string list"

record IAMKeySecret =
  iks_Name :: string
  iks_Namespace :: string
  iks_Key :: string

record Authentication =
  auth_Type :: AuthType
  auth_ImpersonateConfig :: "ImpersonateConfig option"
  auth_IAMKeySecret :: "IAMKeySecret option"

record ScaleConfigNodes =
  nodes_Min :: gint
  nodes_Max :: gint

record ScaleConfigPUs =
  pus_Min :: gint
  pus_Max :: gint

record TargetCPUUtilization =
  cpu_HighPriority :: "gint option"
  cpu_Total :: "gint option"

record ScaleConfig =
  sc_ComputeType :: ComputeType
  sc_Nodes :: ScaleConfigNodes
  sc_ProcessingUnits :: ScaleConfigPUs
  sc_ScaledownStepSize :: IntOrString
  sc_ScaledownInterval :: "duration option"
  sc_ScaleupStepSize :: IntOrString
  sc_ScaleupInterval :: "duration option"
  sc_ScaledownAllowedTimes :: "string list"
  sc_ScaledownNotAllowedTimes :: "string list"
  sc_TargetCPUUtilization :: TargetCPUUtilization

record SpannerAutoscalerSpec =
  TargetInstance :: TargetInstance
  Authentication :: Authentication
  ScaleConfig :: ScaleConfig

section \<open>CPU metric flags\<close>

type_synonym CPUMetricFlags = "8 word"

definition CPUMetricFlagHighPriority :: CPUMetricFlags where
  "CPUMetricFlagHighPriority = push_bit 0 1"

definition CPUMetricFlagTotal :: CPUMetricFlags where
  "CPUMetricFlagTotal = push_bit 1 1"

definition ActiveMetricFlags :: "TargetCPUUtilization \<Rightarrow> CPUMetricFlags" where
  "ActiveMetricFlags c =
     (let f = 0;
          f = (if cpu_HighPriority c \<noteq> None then or f CPUMetricFlagHighPriority else f);
          f = (if cpu_Total c \<noteq> None then or f CPUMetricFlagTotal else f)
      in f)"

definition ToCPUMetricType :: "CPUMetricFlags \<Rightarrow> CPUMetricType" where
  "ToCPUMetricType f =
     (if f = or CPUMetricFlagHighPriority CPUMetricFlagTotal then CPUMetricTypeBoth
      else if f = CPUMetricFlagTotal then CPUMetricTypeTotal
      else if f = CPUMetricFlagHighPriority then CPUMetricTypeHighPriority
      else CPUMetricType_other [])"

section \<open>SpannerAutoscaleSchedule\<close>

datatype MaxPUPolicy =
    MaxPUPolicy_empty
  | MaxPUPolicyExceed
  | MaxPUPolicyCap
  | MaxPUPolicy_other string

definition Normalized :: "MaxPUPolicy \<Rightarrow> MaxPUPolicy" where
  "Normalized p = (if p = MaxPUPolicy_empty then MaxPUPolicyExceed else p)"

record Schedule =
  sched_Cron :: string
  sched_Duration :: string

record SpannerAutoscaleScheduleSpec =
  sas_TargetResource :: string
  sas_AdditionalProcessingUnits :: gint
  sas_MaxPUPolicy :: MaxPUPolicy
  sas_Schedule :: Schedule

record SpannerAutoscaleSchedule =
  sas_Meta :: ObjectMeta
  sas_Spec :: SpannerAutoscaleScheduleSpec

section \<open>SpannerAutoscaler: status\<close>

record ActiveSchedule =
  as_ScheduleName :: string
  as_EndTime :: time
  as_AdditionalPU :: gint
  as_MaxPUPolicy :: MaxPUPolicy

record ActiveManualScaling =
  ams_Name :: string
  ams_ProcessingUnits :: gint
  ams_Ramp :: bool
  ams_ExpiresAt :: "time option"

record SpannerAutoscalerStatus =
  Schedules :: "string list"
  CurrentlyActiveSchedules :: "ActiveSchedule list"
  LastScaleTime :: time
  LastSyncTime :: time
  CurrentProcessingUnits :: gint
  DesiredProcessingUnits_status :: gint
  DesiredMinPUs :: gint
  DesiredMaxPUs :: gint
  InstanceState :: InstanceState
  CurrentHighPriorityCPUUtilization :: gint
  CurrentTotalCPUUtilization :: gint
  CurrentCPUMetricType :: CPUMetricType
  ActiveManualScaling :: "ActiveManualScaling option"

record SpannerAutoscaler =
  sa_Meta :: ObjectMeta
  sa_Spec :: SpannerAutoscalerSpec
  sa_Status :: SpannerAutoscalerStatus

section \<open>SpannerManualScaling\<close>

record SpannerManualScalingSpec =
  ms_TargetResource :: string
  ms_ProcessingUnits :: gint
  ms_ScaleupStepSize :: "IntOrString option"
  ms_ScaleupInterval :: "duration option"
  ms_ScaledownStepSize :: "IntOrString option"
  ms_ScaledownInterval :: "duration option"
  ms_ExpiresAt :: "time option"

datatype SpannerManualScalingPhase =
    PhasePending
  | PhaseProgressing
  | PhaseActive
  | PhaseExpired
  | PhaseSuperseded
  | PhaseInvalid
  | Phase_other string

fun IsTerminal :: "SpannerManualScalingPhase \<Rightarrow> bool" where
  "IsTerminal PhaseExpired = True"
| "IsTerminal PhaseSuperseded = True"
| "IsTerminal PhaseInvalid = True"
| "IsTerminal _ = False"

record SpannerManualScalingStatus =
  ms_Phase :: SpannerManualScalingPhase
  ms_AppliedAt :: "time option"
  ms_ReachedAt :: "time option"
  ms_CurrentProcessingUnits :: gint
  ms_FinishedAt :: "time option"
  ms_Message :: string

record SpannerManualScaling =
  ms_Meta :: ObjectMeta
  ms_Spec :: SpannerManualScalingSpec
  ms_Status :: SpannerManualScalingStatus

section \<open>Lemmas on flags and policies\<close>

lemma flag_distinct [simp]:
  "CPUMetricFlagHighPriority \<noteq> 0"
  "CPUMetricFlagTotal \<noteq> 0"
  "CPUMetricFlagHighPriority \<noteq> CPUMetricFlagTotal"
  "CPUMetricFlagTotal \<noteq> CPUMetricFlagHighPriority"
  "or CPUMetricFlagHighPriority CPUMetricFlagTotal \<noteq> 0"
  "or CPUMetricFlagHighPriority CPUMetricFlagTotal \<noteq> CPUMetricFlagHighPriority"
  "or CPUMetricFlagHighPriority CPUMetricFlagTotal \<noteq> CPUMetricFlagTotal"
  by (simp_all add: CPUMetricFlagHighPriority_def CPUMetricFlagTotal_def)

text \<open>The value of the bitmask in each of the four configurations of the two targets.\<close>

lemma ActiveMetricFlags_both:
  "cpu_HighPriority c = Some h \<Longrightarrow> cpu_Total c = Some t \<Longrightarrow>
     ActiveMetricFlags c = or CPUMetricFlagHighPriority CPUMetricFlagTotal"
  by (simp add: ActiveMetricFlags_def)

lemma ActiveMetricFlags_total:
  "cpu_HighPriority c = None \<Longrightarrow> cpu_Total c = Some t \<Longrightarrow> ActiveMetricFlags c = CPUMetricFlagTotal"
  by (simp add: ActiveMetricFlags_def)

lemma ActiveMetricFlags_high:
  "cpu_HighPriority c = Some h \<Longrightarrow> cpu_Total c = None \<Longrightarrow>
     ActiveMetricFlags c = CPUMetricFlagHighPriority"
  by (simp add: ActiveMetricFlags_def)

lemma ActiveMetricFlags_none:
  "cpu_HighPriority c = None \<Longrightarrow> cpu_Total c = None \<Longrightarrow> ActiveMetricFlags c = 0"
  by (simp add: ActiveMetricFlags_def)

lemmas ActiveMetricFlags_cases =
  ActiveMetricFlags_both ActiveMetricFlags_total ActiveMetricFlags_high ActiveMetricFlags_none

lemma ActiveMetricFlags_iff:
  "ActiveMetricFlags c = or CPUMetricFlagHighPriority CPUMetricFlagTotal \<longleftrightarrow>
     cpu_HighPriority c \<noteq> None \<and> cpu_Total c \<noteq> None"
  "ActiveMetricFlags c = CPUMetricFlagTotal \<longleftrightarrow> cpu_HighPriority c = None \<and> cpu_Total c \<noteq> None"
  "ActiveMetricFlags c = CPUMetricFlagHighPriority \<longleftrightarrow>
     cpu_HighPriority c \<noteq> None \<and> cpu_Total c = None"
  by (cases "cpu_HighPriority c"; cases "cpu_Total c";
      simp add: ActiveMetricFlags_def
        flag_distinct [symmetric] CPUMetricFlagHighPriority_def CPUMetricFlagTotal_def)+

lemma Normalized_Exceed_iff:
  "Normalized p = MaxPUPolicyExceed \<longleftrightarrow> p = MaxPUPolicy_empty \<or> p = MaxPUPolicyExceed"
  by (auto simp: Normalized_def)

lemma Normalized_idem [simp]: "Normalized (Normalized p) = Normalized p"
  by (simp add: Normalized_def)

lemma IsTerminal_iff:
  "IsTerminal p \<longleftrightarrow> p = PhaseExpired \<or> p = PhaseSuperseded \<or> p = PhaseInvalid"
  by (cases p) auto

section \<open>A sample resource\<close>

text \<open>
  The autoscaler the concrete instances of the theorems use: 1000 to 10000 processing
  units, a high-priority target of 60\%, a scale-down step of 2000, no scale-up cap, ready
  with 3000 processing units at 75\% CPU.
\<close>

definition sample_meta :: ObjectMeta where
  "sample_meta = \<lparr>om_Name = ''sa'', om_Namespace = ''ns'', om_UID = ''u1'', om_ResourceVersion = ''1'',
     om_CreationTimestamp = 1, om_DeletionTimestamp = None, om_Finalizers = [], om_ControllerUID = None\<rparr>"

definition sample_config :: ScaleConfig where
  "sample_config = \<lparr>sc_ComputeType = ComputeTypePU,
     sc_Nodes = \<lparr>nodes_Min = 0, nodes_Max = 0\<rparr>,
     sc_ProcessingUnits = \<lparr>pus_Min = 1000, pus_Max = 10000\<rparr>,
     sc_ScaledownStepSize = intstr_FromInt 2000, sc_ScaledownInterval = None,
     sc_ScaleupStepSize = intstr_FromInt 0, sc_ScaleupInterval = None,
     sc_ScaledownAllowedTimes = [], sc_ScaledownNotAllowedTimes = [],
     sc_TargetCPUUtilization = \<lparr>cpu_HighPriority = Some 60, cpu_Total = None\<rparr>\<rparr>"

definition sample_spec :: SpannerAutoscalerSpec where
  "sample_spec = \<lparr>TargetInstance = \<lparr>ti_ProjectID = ''p'', ti_InstanceID = ''i''\<rparr>,
     Authentication = \<lparr>auth_Type = AuthTypeADC, auth_ImpersonateConfig = None, auth_IAMKeySecret = None\<rparr>,
     ScaleConfig = sample_config\<rparr>"

definition sample_status :: SpannerAutoscalerStatus where
  "sample_status = \<lparr>Schedules = [], CurrentlyActiveSchedules = [], LastScaleTime = 0, LastSyncTime = 1,
     CurrentProcessingUnits = 3000, DesiredProcessingUnits_status = 3000,
     DesiredMinPUs = 1000, DesiredMaxPUs = 10000, InstanceState = InstanceStateReady,
     CurrentHighPriorityCPUUtilization = 75, CurrentTotalCPUUtilization = 0,
     CurrentCPUMetricType = CPUMetricTypeHighPriority, ActiveManualScaling = None\<rparr>"

definition sample_sa :: SpannerAutoscaler where
  "sample_sa = \<lparr>sa_Meta = sample_meta, sa_Spec = sample_spec, sa_Status = sample_status\<rparr>"

lemmas sample_defs = sample_sa_def sample_meta_def sample_config_def sample_spec_def sample_status_def

end
