(* ===== verification/Step_Size.thy ===== *)
theory Step_Size
  imports Api_Types
begin

text \<open>
  \<^verbatim>\<open>internal/scaling/stepsize.go\<close>: how a configured step size is resolved
  (\<open>ResolveStepSize\<close>) and how a stepped ramp chooses the next processing-unit value
  (\<open>NextRampPU\<close>). \<^verbatim>\<open>internal/controller/stepsize.go\<close> re-exports both unchanged.

  \<^verbatim>\<open>intstr.GetScaledValueFromIntOrPercent\<close> belongs to \<^verbatim>\<open>k8s.io/apimachinery\<close>. It is
  the parameter \<open>gsv\<close> of every definition that calls it (always with
  \<^verbatim>\<open>roundUp = false\<close>): it maps a step size and a base to an error or to the resolved
  value. What is assumed of it is named where it is used (\<open>step_bounded\<close>).
\<close>

section \<open>Step sizes\<close>

type_synonym scaled_value = "IntOrString \<Rightarrow> gint \<Rightarrow> string + gint"

datatype StepDirection = StepDirectionScaledown | StepDirectionScaleup

text \<open>Rounding down to a whole 100 or 1000, so that a step is a processing-unit increment.\<close>

definition round_step_down :: "gint \<Rightarrow> gint" where
  "round_step_down sz =
     (if sz < 1000 then gmul (gdiv sz 100) 100 else gmul (gdiv sz 1000) 1000)"

text \<open>
  Rounding up towards values Spanner accepts; scale-up keeps 0 (no cap), scale-down does
  not.
\<close>

definition round_step_up :: "StepDirection \<Rightarrow> gint \<Rightarrow> gint \<Rightarrow> gint" where
  "round_step_up dir basePU sz =
     (case dir of
        StepDirectionScaledown \<Rightarrow>
          (if sz < 1000 \<and> basePU > 1000 then 1000
           else if sz < 100 \<and> basePU \<le> 1000 then 100
           else sz)
      | StepDirectionScaleup \<Rightarrow>
          (if sz \<noteq> 0 \<and> sz < 1000 \<and> gadd basePU sz > 1000 then 1000
           else if sz \<noteq> 0 \<and> sz < 100 \<and> gadd basePU sz \<le> 1000 then 100
           else sz))"

definition ResolveStepSize ::
    "scaled_value \<Rightarrow> IntOrString option \<Rightarrow> gint \<Rightarrow> StepDirection \<Rightarrow> gint" where
  "ResolveStepSize gsv s basePU dir =
     (case (case s of None \<Rightarrow> Inr 0 | Some v \<Rightarrow> gsv v basePU) of
        Inl err \<Rightarrow> (if dir = StepDirectionScaledown then 2000 else 0)
      | Inr sz \<Rightarrow> round_step_up dir basePU (round_step_down sz))"

section \<open>Ramps\<close>

record RampStep =
  rs_StepSize :: "IntOrString option"
  rs_Interval :: "duration option"
  rs_DefaultInterval :: duration

definition DurationOr :: "duration option \<Rightarrow> duration \<Rightarrow> duration" where
  "DurationOr customDuration defaultDuration =
     (case customDuration of Some d \<Rightarrow> d | None \<Rightarrow> defaultDuration)"

definition NextRampPU ::
    "scaled_value \<Rightarrow> gint \<Rightarrow> gint \<Rightarrow> RampStep \<Rightarrow> RampStep \<Rightarrow> time \<Rightarrow> time \<Rightarrow> gint \<times> duration" where
  "NextRampPU gsv current target up down lastScaleTime now =
     (if current = target then (target, 0)
      else
        let (step, dir) = (if target > current then (up, StepDirectionScaleup)
                           else (down, StepDirectionScaledown))
        in if rs_StepSize step = None then (target, 0)
           else
             let stepSize = ResolveStepSize gsv (rs_StepSize step) current dir;
                 interval = DurationOr (rs_Interval step) (rs_DefaultInterval step);
                 elapsed = t_sub now lastScaleTime
             in if lastScaleTime \<noteq> 0 \<and> interval > 0 \<and> elapsed < interval
                then (current, gsub interval elapsed)
                else
                  let next = (if stepSize > 0
                              then (if target > current then min (gadd current stepSize) target
                                    else max (gsub current stepSize) target)
                              else target)
                  in (next, interval))"

text \<open>
  A ramp over a sequence of reconciles: at each wake-up \<open>NextRampPU\<close> is asked, and when
  it moves the value the caller records the time of the wake-up as the last scale time
  (as \<^verbatim>\<open>reconcileManualScaling\<close> does with \<^verbatim>\<open>sa.Status.LastScaleTime\<close>).
\<close>

fun ramp_run ::
    "scaled_value \<Rightarrow> gint \<Rightarrow> RampStep \<Rightarrow> RampStep \<Rightarrow> gint \<times> time \<Rightarrow> time list \<Rightarrow> gint \<times> time" where
  "ramp_run gsv target up down (cur, lastT) [] = (cur, lastT)"
| "ramp_run gsv target up down (cur, lastT) (now # nows) =
     (let next = fst (NextRampPU gsv cur target up down lastT now)
      in ramp_run gsv target up down (if next \<noteq> cur then (next, now) else (cur, lastT)) nows)"

section \<open>What is assumed of the library function\<close>

text \<open>
  Resolved step sizes are Go \<^verbatim>\<open>int\<close>s well inside 64 bits: an integer step is an
  \<^verbatim>\<open>int32\<close>, a percentage is a share of the base.
\<close>

definition step_bounded :: "scaled_value \<Rightarrow> IntOrString option \<Rightarrow> bool" where
  "step_bounded gsv s \<longleftrightarrow>
     (\<forall>v base sz. s = Some v \<longrightarrow> pu_range base \<longrightarrow> gsv v base = Inr sz \<longrightarrow>
        - (2 ^ 62) \<le> sz \<and> sz < 2 ^ 62)"

definition step_nonneg :: "scaled_value \<Rightarrow> IntOrString option \<Rightarrow> bool" where
  "step_nonneg gsv s \<longleftrightarrow>
     (\<forall>v base sz. s = Some v \<longrightarrow> pu_range base \<longrightarrow> gsv v base = Inr sz \<longrightarrow> 0 \<le> sz)"

text \<open>
  Wake-up times of a ramp that respect its interval: each one at least \<open>interval\<close> after
  the previous.
\<close>

fun spaced :: "duration \<Rightarrow> time \<Rightarrow> time list \<Rightarrow> bool" where
  "spaced interval lastT [] = True"
| "spaced interval lastT (now # nows) =
     ((lastT = 0 \<or> interval \<le> 0 \<or> interval \<le> t_sub now lastT) \<and> spaced interval now nows)"

text \<open>
  A concrete resolver with the documented behaviour, used to show that the hypotheses can
  hold: an integer resolves to itself, a string \<open>N%\<close> to the rounded-down percentage of
  the base, anything else is an error.
\<close>

fun digits_value :: "nat \<Rightarrow> string \<Rightarrow> nat option" where
  "digits_value acc [] = Some acc"
| "digits_value acc (c # cs) =
     (if 48 \<le> (of_char c :: nat) \<and> (of_char c :: nat) \<le> 57
      then digits_value (acc * 10 + (of_char c - 48)) cs else None)"

definition sample_gsv :: scaled_value where
  "sample_gsv s base =
     (if ios_Type s = intstr_Int then Inr (ios_IntVal s)
      else if ios_StrVal s = [] \<or> last (ios_StrVal s) \<noteq> CHR ''%'' then Inl ''not a percentage''
      else (case digits_value 0 (butlast (ios_StrVal s)) of
              None \<Rightarrow> Inl ''not a percentage''
            | Some n \<Rightarrow> Inr (int n * base div 100)))"

section \<open>Resolved step sizes\<close>

lemma round_step_down_nonneg:
  assumes "0 \<le> sz" "sz < 2 ^ 63"
  shows "round_step_down sz = (if sz < 1000 then sz div 100 * 100 else sz div 1000 * 1000)"
proof -
  have "sz div 100 * 100 \<le> sz" "sz div 1000 * 1000 \<le> sz" by simp_all
  moreover have "0 \<le> sz div 100 * 100" "0 \<le> sz div 1000 * 1000" using assms by simp_all
  ultimately show ?thesis
    using assms by (simp add: round_step_down_def gdiv_nonneg gmul_id)
qed

lemma gdiv_neg:
  assumes "- (2 ^ 63) \<le> x" "x < 0" "0 < y"
  shows "gdiv x y = - ((- x) div y)"
proof -
  have "(- x) div y \<le> - x div 1" using assms by (intro zdiv_mono2) auto
  moreover have "0 \<le> (- x) div y" using assms by (simp add: pos_imp_zdiv_nonneg_iff)
  ultimately show ?thesis
    using assms by (simp add: gdiv_def signed_divide_int_def wrap64_id)
qed

lemma round_step_down_neg:
  assumes "- (2 ^ 62) \<le> sz" "sz < 0"
  shows "round_step_down sz = - ((- sz) div 100 * 100)"
proof -
  have "(- sz) div 100 * 100 \<le> - sz" by simp
  moreover have "0 \<le> (- sz) div 100 * 100" using assms by simp
  ultimately show ?thesis
    using assms by (simp add: round_step_down_def gdiv_neg gmul_id)
qed

lemma round_step_down_bound:
  assumes "- (2 ^ 62) \<le> sz" "sz < 2 ^ 62"
  shows "- (2 ^ 62) \<le> round_step_down sz \<and> round_step_down sz < 2 ^ 62"
proof (cases "sz < 0")
  case True
  have "(- sz) div 100 * 100 \<le> - sz" "0 \<le> (- sz) div 100 * 100" using True by simp_all
  with True assms show ?thesis by (simp add: round_step_down_neg)
next
  case False
  have "sz div 100 * 100 \<le> sz" "sz div 1000 * 1000 \<le> sz"
    "0 \<le> sz div 100 * 100" "0 \<le> sz div 1000 * 1000" using False by simp_all
  moreover have "round_step_down sz = (if sz < 1000 then sz div 100 * 100 else sz div 1000 * 1000)"
    using False assms by (intro round_step_down_nonneg) auto
  ultimately have "0 \<le> round_step_down sz" "round_step_down sz \<le> sz" by auto
  then show ?thesis using assms by simp
qed

lemma round_step_down_mod_100:
  assumes "- (2 ^ 62) \<le> sz" "sz < 2 ^ 62"
  shows "round_step_down sz mod 100 = 0"
proof (cases "sz < 0")
  case True
  have "(- ((- sz) div 100 * 100)) mod 100 = 0" by (simp add: mod_eq_0_iff_dvd)
  then show ?thesis by (simp only: round_step_down_neg [OF assms(1) True])
next
  case False
  have "sz div 1000 * 1000 mod 100 = 0" by (simp add: mod_eq_0_iff_dvd dvd_mult)
  then show ?thesis using False assms by (simp add: round_step_down_nonneg)
qed

lemma round_step_down_mod_1000:
  assumes "1000 \<le> round_step_down sz" "- (2 ^ 62) \<le> sz" "sz < 2 ^ 62"
  shows "round_step_down sz mod 1000 = 0"
proof -
  have "\<not> sz < 0"
  proof
    assume "sz < 0"
    moreover have "0 \<le> (- sz) div 100 * 100" using \<open>sz < 0\<close> by simp
    ultimately show False using assms by (simp add: round_step_down_neg)
  qed
  moreover have "\<not> sz < 1000"
  proof
    assume "sz < 1000"
    moreover have "sz div 100 * 100 \<le> sz" by simp
    ultimately show False using assms \<open>\<not> sz < 0\<close> by (simp add: round_step_down_nonneg)
  qed
  ultimately show ?thesis using assms by (simp add: round_step_down_nonneg)
qed

text \<open>
  Scale-down steps are at least 100, and at least 1000 above 1000 processing units,
  whatever the library resolved.
\<close>

lemma ResolveStepSize_down_ge:
  "(if basePU > 1000 then 1000 else 100) \<le> ResolveStepSize gsv s basePU StepDirectionScaledown"
  by (auto simp: ResolveStepSize_def round_step_up_def split: sum.splits)

lemma ResolveStepSize_up_cases:
  "ResolveStepSize gsv s basePU StepDirectionScaleup = 0 \<or>
   100 \<le> ResolveStepSize gsv s basePU StepDirectionScaleup"
  by (auto simp: ResolveStepSize_def round_step_up_def split: sum.splits)

lemma ResolveStepSize_bound:
  assumes "step_bounded gsv s" "pu_range basePU"
  shows "0 \<le> ResolveStepSize gsv s basePU dir \<and> ResolveStepSize gsv s basePU dir < 2 ^ 62"
proof -
  have lo: "0 \<le> ResolveStepSize gsv s basePU dir"
    using ResolveStepSize_down_ge[of basePU gsv s] ResolveStepSize_up_cases[of gsv s basePU]
    by (cases dir) (auto split: if_splits)
  have "ResolveStepSize gsv s basePU dir < 2 ^ 62"
  proof (cases "case s of None \<Rightarrow> Inr 0 | Some v \<Rightarrow> gsv v basePU")
    case (Inl e)
    then show ?thesis by (simp add: ResolveStepSize_def)
  next
    case (Inr sz)
    then have "- (2 ^ 62) \<le> sz \<and> sz < 2 ^ 62"
      using assms by (cases s) (auto simp: step_bounded_def)
    then have "round_step_down sz < 2 ^ 62" using round_step_down_bound by blast
    with Inr show ?thesis
      by (cases dir) (simp_all add: ResolveStepSize_def round_step_up_def)
  qed
  with lo show ?thesis ..
qed

lemma ResolveStepSize_mod:
  assumes "step_bounded gsv s" "pu_range basePU"
  shows "ResolveStepSize gsv s basePU dir mod 100 = 0"
    and "1000 \<le> ResolveStepSize gsv s basePU dir \<Longrightarrow> ResolveStepSize gsv s basePU dir mod 1000 = 0"
proof -
  define R where "R = (case s of None \<Rightarrow> Inr 0 | Some v \<Rightarrow> gsv v basePU)"
  have b: "- (2 ^ 62) \<le> sz \<and> sz < 2 ^ 62" if "R = Inr sz" for sz
    using that assms by (cases s) (auto simp: R_def step_bounded_def)
  have m: "ResolveStepSize gsv s basePU dir mod 100 = 0 \<and>
      (1000 \<le> ResolveStepSize gsv s basePU dir \<longrightarrow> ResolveStepSize gsv s basePU dir mod 1000 = 0)"
  proof (cases R)
    case (Inl e)
    then show ?thesis by (simp add: ResolveStepSize_def R_def)
  next
    case (Inr sz)
    then have "round_step_down sz mod 100 = 0"
      "1000 \<le> round_step_down sz \<Longrightarrow> round_step_down sz mod 1000 = 0"
      using b round_step_down_mod_100 round_step_down_mod_1000 by auto
    with Inr show ?thesis
      by (cases dir) (auto simp: ResolveStepSize_def round_step_up_def R_def)
  qed
  then show "ResolveStepSize gsv s basePU dir mod 100 = 0"
    "1000 \<le> ResolveStepSize gsv s basePU dir \<Longrightarrow> ResolveStepSize gsv s basePU dir mod 1000 = 0"
    by auto
qed

section \<open>One step of a ramp\<close>

text \<open>
  The direction a ramp drives in and the step configuration it reads, and the shape of
  the result when the cooldown does not hold the value back.
\<close>

definition ramp_step_of :: "gint \<Rightarrow> gint \<Rightarrow> RampStep \<Rightarrow> RampStep \<Rightarrow> RampStep" where
  "ramp_step_of current target up down = (if target > current then up else down)"

definition ramp_interval :: "gint \<Rightarrow> gint \<Rightarrow> RampStep \<Rightarrow> RampStep \<Rightarrow> duration" where
  "ramp_interval current target up down =
     DurationOr (rs_Interval (ramp_step_of current target up down))
       (rs_DefaultInterval (ramp_step_of current target up down))"

definition cooled_down :: "duration \<Rightarrow> time \<Rightarrow> time \<Rightarrow> bool" where
  "cooled_down interval lastT now \<longleftrightarrow> lastT = 0 \<or> interval \<le> 0 \<or> interval \<le> t_sub now lastT"

definition ramp_next :: "scaled_value \<Rightarrow> gint \<Rightarrow> RampStep \<Rightarrow> RampStep \<Rightarrow> gint \<Rightarrow> gint" where
  "ramp_next gsv target up down current = fst (NextRampPU gsv current target up down 0 0)"

definition ramp_bounded :: "scaled_value \<Rightarrow> gint \<Rightarrow> RampStep \<Rightarrow> RampStep \<Rightarrow> gint \<Rightarrow> bool" where
  "ramp_bounded gsv target up down current \<longleftrightarrow>
     pu_range current \<and> pu_range target \<and>
     step_bounded gsv (rs_StepSize up) \<and> step_bounded gsv (rs_StepSize down)"

lemma NextRampPU_cooled_down:
  assumes "cooled_down (ramp_interval current target up down) lastT now"
  shows "fst (NextRampPU gsv current target up down lastT now) = ramp_next gsv target up down current"
proof (cases "current = target")
  case True
  then show ?thesis by (simp add: ramp_next_def NextRampPU_def)
next
  case False
  let ?i = "ramp_interval current target up down"
  have c: "\<not> (lastT \<noteq> 0 \<and> ?i > 0 \<and> t_sub now lastT < ?i)"
    using assms by (auto simp: cooled_down_def)
  show ?thesis
  proof (cases "current < target")
    case True
    with c False show ?thesis
      by (simp add: NextRampPU_def ramp_next_def ramp_interval_def ramp_step_of_def Let_def; blast)
  next
    case nup: False
    with c False show ?thesis
      by (simp add: NextRampPU_def ramp_next_def ramp_interval_def ramp_step_of_def Let_def; blast)
  qed
qed

lemma NextRampPU_holds:
  assumes "current \<noteq> target" "rs_StepSize (ramp_step_of current target up down) \<noteq> None"
    and "\<not> cooled_down (ramp_interval current target up down) lastT now"
  shows "NextRampPU gsv current target up down lastT now =
           (current, gsub (ramp_interval current target up down) (t_sub now lastT))"
proof -
  let ?i = "ramp_interval current target up down"
  have c: "lastT \<noteq> 0 \<and> ?i > 0 \<and> t_sub now lastT < ?i"
    using assms(3) by (auto simp: cooled_down_def)
  show ?thesis
    using c assms(1,2)
    by (cases "current < target") (simp_all add: NextRampPU_def ramp_interval_def ramp_step_of_def Let_def)
qed

lemma ramp_next_target [simp]: "ramp_next gsv target up down target = target"
  by (simp add: ramp_next_def NextRampPU_def)

lemma ramp_next_up:
  assumes "ramp_bounded gsv target up down current" "current < target"
  shows "min (current + 100) target \<le> ramp_next gsv target up down current"
    and "ramp_next gsv target up down current \<le> target"
proof -
  let ?s = "ResolveStepSize gsv (rs_StepSize up) current StepDirectionScaleup"
  have s: "0 \<le> ?s" "?s < 2 ^ 62"
    using ResolveStepSize_bound [of gsv "rs_StepSize up" current] assms(1)
    by (auto simp: ramp_bounded_def)
  have c: "0 \<le> current" "current < 2 ^ 31" using assms(1) by (auto simp: ramp_bounded_def pu_range_def)
  have g: "gadd current ?s = current + ?s" using s c by (intro gadd_id) auto
  have "ramp_next gsv target up down current =
     (if rs_StepSize up = None \<or> ?s = 0 then target else min (current + ?s) target)"
    using assms(2) s g by (auto simp: ramp_next_def NextRampPU_def Let_def)
  moreover have "?s = 0 \<or> 100 \<le> ?s" by (rule ResolveStepSize_up_cases)
  ultimately show "min (current + 100) target \<le> ramp_next gsv target up down current"
    "ramp_next gsv target up down current \<le> target" by auto
qed

lemma ramp_next_down_eq:
  assumes "ramp_bounded gsv target up down current" "target < current"
  shows "ramp_next gsv target up down current =
     (if rs_StepSize down = None then target
      else max (current - ResolveStepSize gsv (rs_StepSize down) current StepDirectionScaledown) target)"
proof -
  let ?s = "ResolveStepSize gsv (rs_StepSize down) current StepDirectionScaledown"
  have s: "100 \<le> ?s" "?s < 2 ^ 62"
    using ResolveStepSize_bound [of gsv "rs_StepSize down" current]
      ResolveStepSize_down_ge [of current gsv "rs_StepSize down"] assms(1)
    by (auto simp: ramp_bounded_def split: if_splits)
  have c: "0 \<le> current" "current < 2 ^ 31" using assms(1) by (auto simp: ramp_bounded_def pu_range_def)
  have g: "gsub current ?s = current - ?s" using s c by (intro gsub_id) auto
  show ?thesis using assms(2) s g by (auto simp: ramp_next_def NextRampPU_def Let_def)
qed

lemma ramp_next_down:
  assumes "ramp_bounded gsv target up down current" "target < current"
  shows "target \<le> ramp_next gsv target up down current"
    and "ramp_next gsv target up down current \<le> max (current - 100) target"
  using ramp_next_down_eq [OF assms] ResolveStepSize_down_ge [of current gsv "rs_StepSize down"]
  by (auto split: if_splits)

section \<open>Progress of a ramp\<close>

text \<open>
  The contract a ramp relies on: a step function that never overshoots a target and moves
  at least 100 processing units towards it, or reaches it. Everything about whole ramps is
  proved from these laws.
\<close>

locale ramp_progress =
  fixes nxt :: "int \<Rightarrow> int" and target :: int and ok :: "int \<Rightarrow> bool"
  assumes nxt_target: "nxt target = target"
    and nxt_up: "ok c \<Longrightarrow> c < target \<Longrightarrow> min (c + 100) target \<le> nxt c \<and> nxt c \<le> target"
    and nxt_down: "ok c \<Longrightarrow> target < c \<Longrightarrow> target \<le> nxt c \<and> nxt c \<le> max (c - 100) target"
    and ok_nxt: "ok c \<Longrightarrow> ok (nxt c)"
begin

lemma nxt_changes: "ok c \<Longrightarrow> nxt c = c \<longleftrightarrow> c = target"
  using nxt_up [of c] nxt_down [of c] nxt_target by (cases c target rule: linorder_cases) auto

lemma nxt_closer: "ok c \<Longrightarrow> \<bar>target - nxt c\<bar> \<le> max 0 (\<bar>target - c\<bar> - 100)"
  using nxt_up [of c] nxt_down [of c] nxt_target by (cases c target rule: linorder_cases) auto

lemma nxt_between: "ok c \<Longrightarrow> min c target \<le> nxt c \<and> nxt c \<le> max c target"
  using nxt_up [of c] nxt_down [of c] nxt_target by (cases c target rule: linorder_cases) auto

lemma iterate_reaches: "ok c \<Longrightarrow> \<bar>target - c\<bar> \<le> 100 * int n \<Longrightarrow> (nxt ^^ n) c = target"
proof (induction n arbitrary: c)
  case 0
  then show ?case by simp
next
  case (Suc n)
  have "\<bar>target - nxt c\<bar> \<le> 100 * int n" using nxt_closer [OF Suc.prems(1)] Suc.prems(2) by simp
  then have "(nxt ^^ n) (nxt c) = target" using Suc.IH ok_nxt Suc.prems(1) by blast
  then show ?case by (simp add: funpow_swap1)
qed

end

lemma ramp_bounded_next:
  assumes "ramp_bounded gsv target up down c"
  shows "ramp_bounded gsv target up down (ramp_next gsv target up down c)"
  using ramp_next_up [OF assms] ramp_next_down [OF assms] assms
  by (cases c target rule: linorder_cases) (auto simp: ramp_bounded_def pu_range_def)

interpretation ramp: ramp_progress "ramp_next gsv target up down" target "ramp_bounded gsv target up down"
  for gsv target up down
  by unfold_locales (use ramp_next_up ramp_next_down ramp_bounded_next in auto)

section \<open>Whole ramps\<close>

lemma ramp_run_at_target: "fst (ramp_run gsv target up down (target, lastT) nows) = target"
  by (induction nows arbitrary: lastT) (simp_all add: NextRampPU_def)

lemma ramp_interval_next:
  assumes "ramp_bounded gsv target up down c" "ramp_next gsv target up down c \<noteq> target"
  shows "ramp_interval (ramp_next gsv target up down c) target up down = ramp_interval c target up down"
  using assms ramp.nxt_between [OF assms(1)] ramp_next_up [OF assms(1)] ramp_next_down [OF assms(1)]
  by (cases c target rule: linorder_cases) (auto simp: ramp_interval_def ramp_step_of_def)

lemma ramp_run_reaches:
  assumes "ramp_bounded gsv target up down cur"
    and "spaced (ramp_interval cur target up down) lastT nows"
    and "\<bar>target - cur\<bar> \<le> 100 * int (length nows)"
  shows "fst (ramp_run gsv target up down (cur, lastT) nows) = target"
  using assms
proof (induction nows arbitrary: cur lastT)
  case Nil
  then show ?case by simp
next
  case (Cons now nows)
  let ?n = "ramp_next gsv target up down cur"
  have n: "fst (NextRampPU gsv cur target up down lastT now) = ?n"
    using Cons.prems(2) by (intro NextRampPU_cooled_down) (simp add: cooled_down_def)
  show ?case
  proof (cases "?n = target")
    case True
    then show ?thesis using n by (simp add: ramp_run_at_target)
  next
    case False
    then have "?n \<noteq> cur" using ramp.nxt_changes [OF Cons.prems(1)] by auto
    moreover have "fst (ramp_run gsv target up down (?n, now) nows) = target"
    proof (rule Cons.IH)
      show "ramp_bounded gsv target up down ?n" using Cons.prems(1) by (rule ramp_bounded_next)
      show "spaced (ramp_interval ?n target up down) now nows"
        using Cons.prems(2) ramp_interval_next [OF Cons.prems(1) False] by simp
      show "\<bar>target - ?n\<bar> \<le> 100 * int (length nows)"
        using ramp.nxt_closer [OF Cons.prems(1)] Cons.prems(3) by simp
    qed
    ultimately show ?thesis using n by simp
  qed
qed

section \<open>Ramps and the processing-unit grid\<close>

lemma ResolveStepSize_up_ge_1000:
  assumes "step_bounded gsv s" "step_nonneg gsv s" "pu_range basePU" "1000 \<le> basePU"
  shows "ResolveStepSize gsv s basePU StepDirectionScaleup = 0 \<or>
         1000 \<le> ResolveStepSize gsv s basePU StepDirectionScaleup"
proof (cases "case s of None \<Rightarrow> Inr 0 | Some v \<Rightarrow> gsv v basePU")
  case (Inl e)
  then show ?thesis by (simp add: ResolveStepSize_def)
next
  case (Inr sz)
  then have b: "0 \<le> sz" "sz < 2 ^ 62"
    using assms by (cases s; auto simp: step_bounded_def step_nonneg_def)+
  let ?r = "round_step_down sz"
  have "0 \<le> ?r" "?r < 2 ^ 62"
    using b round_step_down_nonneg [of sz] round_step_down_bound [of sz] by auto
  then have "gadd basePU ?r = basePU + ?r" using assms by (intro gadd_id) (auto simp: pu_range_def)
  then have "gadd basePU ?r > 1000 \<or> ?r = 0" using \<open>0 \<le> ?r\<close> assms(4) by linarith
  then show ?thesis using Inr by (auto simp: ResolveStepSize_def round_step_up_def)
qed

lemma ramp_next_up_eq:
  assumes "ramp_bounded gsv target up down current" "current < target"
  shows "ramp_next gsv target up down current =
     (let s = ResolveStepSize gsv (rs_StepSize up) current StepDirectionScaleup
      in if rs_StepSize up = None \<or> s = 0 then target else min (current + s) target)"
proof -
  let ?s = "ResolveStepSize gsv (rs_StepSize up) current StepDirectionScaleup"
  have s: "0 \<le> ?s" "?s < 2 ^ 62"
    using ResolveStepSize_bound [of gsv "rs_StepSize up" current] assms(1)
    by (auto simp: ramp_bounded_def)
  have c: "0 \<le> current" "current < 2 ^ 31" using assms(1) by (auto simp: ramp_bounded_def pu_range_def)
  have g: "gadd current ?s = current + ?s" using s c by (intro gadd_id) auto
  show ?thesis using assms(2) s g by (auto simp: ramp_next_def NextRampPU_def Let_def)
qed

lemma ramp_next_valid_down:
  assumes "ramp_bounded gsv target up down c" "valid_pu c" "valid_pu target" "target < c"
  shows "valid_pu (ramp_next gsv target up down c)"
proof -
  let ?s = "ResolveStepSize gsv (rs_StepSize down) c StepDirectionScaledown"
  let ?n = "ramp_next gsv target up down c"
  have m: "?s mod 100 = 0" "1000 \<le> ?s \<Longrightarrow> ?s mod 1000 = 0"
    using ResolveStepSize_mod [of gsv "rs_StepSize down" c StepDirectionScaledown] assms(1)
    by (auto simp: ramp_bounded_def)
  have g: "(if c > 1000 then 1000 else 100) \<le> ?s" by (rule ResolveStepSize_down_ge)
  consider "?n = target" | "?n = c - ?s" "target < c - ?s"
    using ramp_next_down_eq [OF assms(1,4)] by (auto simp: max_def split: if_splits)
  then show ?thesis
  proof cases
    case 1
    with assms show ?thesis by simp
  next
    case 2
    have t: "0 < c - ?s" using 2 valid_pu_ge_100 [OF assms(3)] by simp
    show ?thesis
    proof (cases "c > 1000")
      case True
      then have "c mod 1000 = 0" "?s mod 1000 = 0" using g m assms(2) valid_pu_mod_1000 by auto
      then have "(c - ?s) mod 1000 = 0" by (simp add: mod_diff_eq [symmetric])
      with t 2 show ?thesis by (simp add: valid_puI_large)
    next
      case False
      have "c mod 100 = 0" using assms(2) by (rule valid_pu_mod_100)
      then have "(c - ?s) mod 100 = 0" using m(1) by (simp add: mod_diff_eq [symmetric])
      with t 2 False g show ?thesis by (intro valid_puI_small) auto
    qed
  qed
qed

lemma ramp_next_valid_up:
  assumes "ramp_bounded gsv target up down c" "step_nonneg gsv (rs_StepSize up)"
    and "valid_pu c" "valid_pu target" "c < target" "1000 \<le> c"
  shows "valid_pu (ramp_next gsv target up down c)"
proof -
  let ?s = "ResolveStepSize gsv (rs_StepSize up) c StepDirectionScaleup"
  let ?n = "ramp_next gsv target up down c"
  have s: "?s = 0 \<or> 1000 \<le> ?s"
    using ResolveStepSize_up_ge_1000 [of gsv "rs_StepSize up" c] assms by (auto simp: ramp_bounded_def)
  have m: "1000 \<le> ?s \<Longrightarrow> ?s mod 1000 = 0"
    using ResolveStepSize_mod [of gsv "rs_StepSize up" c StepDirectionScaleup] assms(1)
    by (auto simp: ramp_bounded_def)
  have "?n = target \<or> (1000 \<le> ?s \<and> ?n = c + ?s)"
    using ramp_next_up_eq [OF assms(1,5)] s by (auto simp: Let_def min_def split: if_splits)
  moreover have "valid_pu (c + ?s)" if "1000 \<le> ?s"
  proof -
    have "c mod 1000 = 0" using assms(3,6) by (rule valid_pu_mod_1000)
    then have "(c + ?s) mod 1000 = 0" using m [OF that] by (simp add: mod_add_eq [symmetric])
    then show ?thesis using that assms(6) by (intro valid_puI_large) auto
  qed
  ultimately show ?thesis using assms(4) by auto
qed

lemma ramp_next_valid:
  assumes "ramp_bounded gsv target up down c" "step_nonneg gsv (rs_StepSize up)"
    and "valid_pu c" "valid_pu target" "target < c \<or> 1000 \<le> c"
  shows "valid_pu (ramp_next gsv target up down c)"
  using assms ramp_next_valid_down [of gsv target up down c] ramp_next_valid_up [of gsv target up down c]
  by (cases c target rule: linorder_cases) auto

lemma NextRampPU_held_or_next:
  "fst (NextRampPU gsv current target up down lastT now) = current \<or>
   fst (NextRampPU gsv current target up down lastT now) = ramp_next gsv target up down current"
proof (cases "current = target \<or> rs_StepSize (ramp_step_of current target up down) = None")
  case True
  then show ?thesis
    by (auto simp: NextRampPU_def ramp_next_def ramp_step_of_def)
next
  case False
  then show ?thesis
    using NextRampPU_holds [of current target up down lastT now gsv]
      NextRampPU_cooled_down [of current target up down lastT now gsv]
    by fastforce
qed

lemma NextRampPU_moves:
  assumes "current \<noteq> target" "rs_StepSize (ramp_step_of current target up down) \<noteq> None"
    and "cooled_down (ramp_interval current target up down) lastT now"
  shows "NextRampPU gsv current target up down lastT now =
           (ramp_next gsv target up down current, ramp_interval current target up down)"
proof -
  let ?i = "ramp_interval current target up down"
  have c: "\<not> (lastT \<noteq> 0 \<and> ?i > 0 \<and> t_sub now lastT < ?i)"
    using assms(3) by (auto simp: cooled_down_def)
  have "snd (NextRampPU gsv current target up down lastT now) = ?i"
  proof (cases "current < target")
    case True
    with c assms(1,2) show ?thesis
      by (simp add: NextRampPU_def ramp_interval_def ramp_step_of_def Let_def; fastforce)
  next
    case False
    with c assms(1,2) show ?thesis
      by (simp add: NextRampPU_def ramp_interval_def ramp_step_of_def Let_def; fastforce)
  qed
  then show ?thesis using NextRampPU_cooled_down [OF assms(3), of gsv] by (simp add: prod_eq_iff)
qed

lemma sample_gsv_int:
  "0 \<le> v \<Longrightarrow> v < 2 ^ 31 \<Longrightarrow> step_bounded sample_gsv (Some (intstr_FromInt v)) \<and>
     step_nonneg sample_gsv (Some (intstr_FromInt v))"
  by (auto simp: step_bounded_def step_nonneg_def sample_gsv_def intstr_FromInt_def intstr_Int_def
        in_int32_def)

lemma sample_gsv_percent:
  "step_bounded sample_gsv (Some (intstr_FromString ''20%'')) \<and>
   step_nonneg sample_gsv (Some (intstr_FromString ''20%''))"
  by (auto simp: step_bounded_def step_nonneg_def sample_gsv_def intstr_FromString_def
        intstr_Int_def intstr_String_def pu_range_def)

text \<open>The step configurations the witnesses use: 20\% up, 2000 down, every minute.\<close>

definition sample_up :: RampStep where
  "sample_up = \<lparr>rs_StepSize = Some (intstr_FromString ''20%''), rs_Interval = Some minute,
                rs_DefaultInterval = minute\<rparr>"

definition sample_down :: RampStep where
  "sample_down = \<lparr>rs_StepSize = Some (intstr_FromInt 2000), rs_Interval = None,
                  rs_DefaultInterval = minute\<rparr>"

lemma sample_ramp_bounded:
  "pu_range c \<Longrightarrow> pu_range t \<Longrightarrow> ramp_bounded sample_gsv t sample_up sample_down c"
  using sample_gsv_percent sample_gsv_int [of 2000]
  by (simp add: ramp_bounded_def sample_up_def sample_down_def)

section \<open>Properties\<close>

text \<open>
  C6. A ramp always arrives: starting from \<open>cur\<close>, with wake-ups spaced by at least the
  interval of the direction of travel, the value is exactly the target after at most one
  wake-up per 100 processing units of distance, whatever step sizes are configured, a
  percentage or an error of the resolver included.
\<close>

theorem ramp_reaches_target:
  assumes "pu_range cur" "pu_range target"
    and "step_bounded gsv (rs_StepSize up)" "step_bounded gsv (rs_StepSize down)"
    and "spaced (ramp_interval cur target up down) lastT nows"
    and "\<bar>target - cur\<bar> \<le> 100 * int (length nows)"
  shows "fst (ramp_run gsv target up down (cur, lastT) nows) = target"
  using assms by (intro ramp_run_reaches) (simp_all add: ramp_bounded_def)

theorem ramp_reaches_target_witness:
  "fst (ramp_run sample_gsv 2000 sample_up sample_down (2200, 5) [5 + minute, 5 + 2 * minute]) = 2000"
proof (rule ramp_reaches_target)
  show "step_bounded sample_gsv (rs_StepSize sample_up)" "step_bounded sample_gsv (rs_StepSize sample_down)"
    using sample_gsv_percent sample_gsv_int [of 2000] by (simp_all add: sample_up_def sample_down_def)
qed (simp_all add: pu_range_def ramp_interval_def ramp_step_of_def sample_down_def DurationOr_def
      minute_def t_sub_def)

text \<open>
  A ramp step never overshoots: whatever the cooldown state, the value
  \<open>NextRampPU\<close> returns lies between the current value and the target, and it equals the
  current value only while the interval holds it back or when the target is reached.
\<close>

theorem ramp_never_overshoots:
  assumes "pu_range current" "pu_range target"
    and "step_bounded gsv (rs_StepSize up)" "step_bounded gsv (rs_StepSize down)"
  shows "min current target \<le> fst (NextRampPU gsv current target up down lastT now) \<and>
         fst (NextRampPU gsv current target up down lastT now) \<le> max current target \<and>
         (cooled_down (ramp_interval current target up down) lastT now \<longrightarrow> current \<noteq> target \<longrightarrow>
            100 \<le> \<bar>fst (NextRampPU gsv current target up down lastT now) - current\<bar> \<or>
            fst (NextRampPU gsv current target up down lastT now) = target)"
proof -
  have b: "ramp_bounded gsv target up down current" using assms by (simp add: ramp_bounded_def)
  have m: "100 \<le> \<bar>ramp_next gsv target up down current - current\<bar> \<or>
      ramp_next gsv target up down current = target" if "current \<noteq> target"
    using that ramp_next_up [OF b] ramp_next_down [OF b] by (cases current target rule: linorder_cases) auto
  show ?thesis
    using ramp.nxt_between [OF b] NextRampPU_held_or_next [of gsv current target up down lastT now]
      NextRampPU_cooled_down [of current target up down lastT now gsv] m by auto
qed

theorem ramp_never_overshoots_witness:
  "fst (NextRampPU sample_gsv 5000 6500 sample_up sample_down 0 7) = 6000 \<and>
   min 5000 6500 \<le> fst (NextRampPU sample_gsv 5000 6500 sample_up sample_down 0 7)"
proof
  show "fst (NextRampPU sample_gsv 5000 6500 sample_up sample_down 0 7) = 6000" by code_simp
  have "step_bounded sample_gsv (rs_StepSize sample_up)" "step_bounded sample_gsv (rs_StepSize sample_down)"
    using sample_gsv_percent sample_gsv_int [of 2000] by (simp_all add: sample_up_def sample_down_def)
  then show "min 5000 6500 \<le> fst (NextRampPU sample_gsv 5000 6500 sample_up sample_down 0 7)"
    using ramp_never_overshoots [of 5000 6500 sample_gsv sample_up sample_down 0 7]
    by (simp add: pu_range_def)
qed

text \<open>
  The interval is kept to the nanosecond: with a step configured and a positive
  interval, before \<open>lastT + interval\<close> the value is held and the requested requeue is
  exactly the time left, from that instant on a step is made and the requeue is the whole
  interval. So the requeue the controller asks for is never too early and never late.
\<close>

lemma ramp_cooldown_exact:
  assumes "current \<noteq> target" "rs_StepSize (ramp_step_of current target up down) \<noteq> None"
    and "ramp_interval current target up down = interval" "0 < interval" "interval < 2 ^ 62"
    and "lastT \<noteq> 0" "\<bar>now - lastT\<bar> < 2 ^ 62"
  shows "NextRampPU gsv current target up down lastT now =
     (if now < lastT + interval then (current, lastT + interval - now)
      else (ramp_next gsv target up down current, interval))"
proof -
  have e: "t_sub now lastT = now - lastT" using assms(7) by (simp add: t_sub_def)
  have r: "gsub interval (now - lastT) = lastT + interval - now"
    using assms by (simp add: gsub_id)
  have c: "cooled_down interval lastT now \<longleftrightarrow> \<not> now < lastT + interval"
    using assms(4,6) e by (auto simp: cooled_down_def)
  show ?thesis
    using NextRampPU_holds [OF assms(1,2)] NextRampPU_moves [OF assms(1,2)] c e r assms(3) by auto
qed

text \<open>
  C7. Ramps stay on Spanner's grid of processing units: from a valid value, towards a
  valid target, every value a downward ramp returns is valid, and every value an upward
  ramp returns from 1000 on is valid.
\<close>

theorem ramp_keeps_valid_pu:
  assumes "pu_range current" "pu_range target"
    and "step_bounded gsv (rs_StepSize up)" "step_bounded gsv (rs_StepSize down)"
    and "step_nonneg gsv (rs_StepSize up)"
    and "valid_pu current" "valid_pu target" "target < current \<or> 1000 \<le> current"
  shows "valid_pu (fst (NextRampPU gsv current target up down lastT now))"
  using NextRampPU_held_or_next [of gsv current target up down lastT now]
    ramp_next_valid [of gsv target up down current] assms
  by (auto simp: ramp_bounded_def)

theorem ramp_keeps_valid_pu_witness:
  "valid_pu (fst (NextRampPU sample_gsv 5000 300 sample_up sample_down 0 7)) \<and>
   fst (NextRampPU sample_gsv 5000 300 sample_up sample_down 0 7) = 3000"
proof
  show "valid_pu (fst (NextRampPU sample_gsv 5000 300 sample_up sample_down 0 7))"
    using sample_gsv_percent sample_gsv_int [of 2000]
    by (intro ramp_keeps_valid_pu) (simp_all add: pu_range_def valid_pu_def sample_up_def sample_down_def)
  show "fst (NextRampPU sample_gsv 5000 300 sample_up sample_down 0 7) = 3000" by code_simp
qed

text \<open>
  C8. The upward ramp from below 1000 is not covered by C4, and cannot be: when the step
  crosses 1000, \<open>ResolveStepSize\<close> turns a step below 1000 into 1000 and \<open>NextRampPU\<close>
  adds it without rounding the sum, so that with a target of at least 2000 it returns a
  value above 1000 that is no multiple of 1000, which Cloud Spanner rejects.
\<close>

theorem ramp_up_leaves_grid:
  assumes "valid_pu current" "current < 1000" "pu_range target" "2000 \<le> target"
    and "rs_StepSize up = Some v" "gsv v current = Inr sz" "0 \<le> sz" "sz < 1000"
    and "1000 < current + sz div 100 * 100"
  shows "fst (NextRampPU gsv current target up down 0 now) = current + 1000 \<and>
         \<not> valid_pu (current + 1000)"
proof
  have c: "0 < current" "current mod 100 = 0" using assms(1) by (auto simp: valid_pu_def valid_pu_mod_100)
  have r: "round_step_down sz = sz div 100 * 100" using assms(7,8) by (simp add: round_step_down_nonneg)
  have b: "0 \<le> sz div 100 * 100" "sz div 100 * 100 \<le> sz" using assms(7) by simp_all
  have "ResolveStepSize gsv (rs_StepSize up) current StepDirectionScaleup = 1000"
    using assms r b by (simp add: ResolveStepSize_def round_step_up_def gadd_id)
  moreover have "gadd current 1000 = current + 1000" using assms(2) c by (intro gadd_id) auto
  ultimately show "fst (NextRampPU gsv current target up down 0 now) = current + 1000"
    using assms(2,4,5) by (simp add: NextRampPU_def Let_def)
  have "(current + 1000) mod 1000 = current" using assms(2) c by simp
  then show "\<not> valid_pu (current + 1000)" using c by (simp add: valid_pu_def)
qed

theorem ramp_up_leaves_grid_witness:
  "fst (NextRampPU sample_gsv 800 5000 (sample_up\<lparr>rs_StepSize := Some (intstr_FromInt 300)\<rparr>) sample_down 0 7)
     = 1800 \<and> \<not> valid_pu 1800"
  using ramp_up_leaves_grid [of 800 5000 "sample_up\<lparr>rs_StepSize := Some (intstr_FromInt 300)\<rparr>"
      "intstr_FromInt 300" sample_gsv 300 sample_down 7]
  by (simp add: valid_pu_def pu_range_def sample_gsv_def intstr_FromInt_def in_int32_def)

end
