(* ===== verification/Cron_Cache.thy ===== *)
theory Cron_Cache
  imports Go_Prelude "HOL-Library.AList"
begin

text \<open>
  \<^verbatim>\<open>internal/cron/parser.go\<close>: the process-wide, bounded cache of parsed cron
  expressions that every caller of \<open>cron.Parse\<close> shares.

  The parser itself, \<^verbatim>\<open>cronpkg.MustNewParser(DefaultOptions).Parse\<close>, belongs to
  \<^verbatim>\<open>go-cron\<close> and is the parameter \<open>parser\<close>: it maps an expression to an error or to
  a schedule, and a schedule is its \<^verbatim>\<open>Next\<close> function. The cache is an association list
  (a Go map with its keys). \<open>Parse\<close> takes the lock twice, once to look up and once to
  store, so that other goroutines can run in between: \<open>cache_step\<close> is the step relation
  of any number of goroutines inside \<open>Parse\<close>, with one step per critical section.
\<close>

section \<open>The cache\<close>

type_synonym cron_schedule = "time \<Rightarrow> time"
type_synonym cron_parser = "string \<Rightarrow> string + cron_schedule"
type_synonym parse_cache = "(string \<times> cron_schedule) list"

definition parseCacheMaxEntries :: nat where
  "parseCacheMaxEntries = 1024"

definition parse_lookup :: "parse_cache \<Rightarrow> string \<Rightarrow> cron_schedule option" where
  "parse_lookup cache cronExpr = map_of cache cronExpr"

definition parse_store :: "parse_cache \<Rightarrow> string \<Rightarrow> cron_schedule \<Rightarrow> parse_cache" where
  "parse_store cache cronExpr schedule =
     (let cache = (if length cache \<ge> parseCacheMaxEntries then [] else cache)
      in AList.update cronExpr schedule cache)"

definition Parse ::
    "cron_parser \<Rightarrow> parse_cache \<Rightarrow> string \<Rightarrow> (string + cron_schedule) \<times> parse_cache" where
  "Parse parser cache cronExpr =
     (case parse_lookup cache cronExpr of
        Some cached \<Rightarrow> (Inr cached, cache)
      | None \<Rightarrow>
          (case parser cronExpr of
             Inl err \<Rightarrow> (Inl err, cache)
           | Inr schedule \<Rightarrow> (Inr schedule, parse_store cache cronExpr schedule)))"

section \<open>Goroutines inside Parse\<close>

datatype parse_pc =
    Calling string
  | Storing string cron_schedule
  | Returned string "string + cron_schedule"

type_synonym cache_state = "parse_cache \<times> parse_pc list"

inductive cache_step :: "cron_parser \<Rightarrow> cache_state \<Rightarrow> cache_state \<Rightarrow> bool" for parser where
  call: "cache_step parser (cache, ps) (cache, ps @ [Calling e])"
| hit: "i < length ps \<Longrightarrow> ps ! i = Calling e \<Longrightarrow> parse_lookup cache e = Some s \<Longrightarrow>
    cache_step parser (cache, ps) (cache, ps[i := Returned e (Inr s)])"
| invalid: "i < length ps \<Longrightarrow> ps ! i = Calling e \<Longrightarrow> parse_lookup cache e = None \<Longrightarrow>
    parser e = Inl err \<Longrightarrow> cache_step parser (cache, ps) (cache, ps[i := Returned e (Inl err)])"
| miss: "i < length ps \<Longrightarrow> ps ! i = Calling e \<Longrightarrow> parse_lookup cache e = None \<Longrightarrow>
    parser e = Inr s \<Longrightarrow> cache_step parser (cache, ps) (cache, ps[i := Storing e s])"
| store: "i < length ps \<Longrightarrow> ps ! i = Storing e s \<Longrightarrow>
    cache_step parser (cache, ps) (parse_store cache e s, ps[i := Returned e (Inr s)])"

inductive_cases cache_stepE: "cache_step parser st st'"

definition cache_ok :: "cron_parser \<Rightarrow> parse_cache \<Rightarrow> bool" where
  "cache_ok parser cache \<longleftrightarrow>
     distinct (map fst cache) \<and> length cache \<le> parseCacheMaxEntries \<and>
     (\<forall>(e, s) \<in> set cache. parser e = Inr s)"

fun pc_ok :: "cron_parser \<Rightarrow> parse_pc \<Rightarrow> bool" where
  "pc_ok parser (Calling e) = True"
| "pc_ok parser (Storing e s) = (parser e = Inr s)"
| "pc_ok parser (Returned e r) = (r = parser e)"

definition cache_inv :: "cron_parser \<Rightarrow> cache_state \<Rightarrow> bool" where
  "cache_inv parser st \<longleftrightarrow> cache_ok parser (fst st) \<and> list_all (pc_ok parser) (snd st)"

section \<open>Lemmas\<close>

lemma length_AList_update: "length (AList.update k v al) \<le> Suc (length al)"
  by (induction al) auto

lemma parse_store_ok:
  assumes "cache_ok parser cache" "parser e = Inr s"
  shows "cache_ok parser (parse_store cache e s)"
proof -
  define c where "c = (if length cache \<ge> parseCacheMaxEntries then [] else cache)"
  have "distinct (map fst c)" "\<forall>(k, x) \<in> set c. parser k = Inr x" "length c < parseCacheMaxEntries"
    using assms(1) by (auto simp: c_def cache_ok_def parseCacheMaxEntries_def)
  moreover have "set (AList.update e s c) \<subseteq> insert (e, s) (set c)"
    by (induction c) auto
  moreover have "length (AList.update e s c) \<le> parseCacheMaxEntries"
    using length_AList_update [of e s c] calculation(3) by linarith
  ultimately show ?thesis
    using assms(2) distinct_update [of c e s] by (auto simp: cache_ok_def parse_store_def c_def)
qed

lemma parse_lookup_ok: "cache_ok parser cache \<Longrightarrow> parse_lookup cache e = Some s \<Longrightarrow> parser e = Inr s"
  by (auto simp: parse_lookup_def cache_ok_def dest: map_of_SomeD)

lemma parse_store_lookup: "parse_lookup (parse_store cache e s) e = Some s"
  by (simp add: parse_lookup_def parse_store_def Let_def update_conv)

lemma cache_inv_step: "cache_step parser st st' \<Longrightarrow> cache_inv parser st \<Longrightarrow> cache_inv parser st'"
proof (induction rule: cache_step.induct)
  case (call cache ps e)
  then show ?case by (simp add: cache_inv_def)
next
  case (hit i ps e cache s)
  then show ?case using parse_lookup_ok by (fastforce simp: cache_inv_def list_all_length nth_list_update)
next
  case (store i ps e s cache)
  then have "parser e = Inr s" by (force simp: cache_inv_def list_all_length)
  with store show ?case using parse_store_ok
    by (auto simp: cache_inv_def list_all_length nth_list_update)
qed (auto simp: cache_inv_def list_all_length nth_list_update)

lemma cache_inv_reachable:
  assumes "(cache_step parser)\<^sup>*\<^sup>* ([], []) st"
  shows "cache_inv parser st"
  using assms
proof (induction rule: rtranclp_induct)
  case base
  then show ?case by (simp add: cache_inv_def cache_ok_def)
next
  case (step y z)
  then show ?case using cache_inv_step by blast
qed

section \<open>Properties\<close>

text \<open>
  C12. The cache is transparent and bounded under every interleaving: whatever goroutines
  run inside \<open>Parse\<close>, in whatever order, every call that returned has returned what the
  parser answers for its expression, and the cache never holds more than 1024 entries,
  with one entry per expression and no rejected expression.
\<close>

theorem cron_cache_transparent:
  assumes "(cache_step parser)\<^sup>*\<^sup>* ([], []) (cache, ps)"
  shows "(\<forall>e r. Returned e r \<in> set ps \<longrightarrow> r = parser e) \<and>
         length cache \<le> 1024 \<and> distinct (map fst cache) \<and>
         (\<forall>e s. parse_lookup cache e = Some s \<longrightarrow> parser e = Inr s)"
  using cache_inv_reachable [OF assms] parse_lookup_ok [of parser cache]
  by (auto simp: cache_inv_def cache_ok_def list_all_iff parseCacheMaxEntries_def)

theorem cron_cache_transparent_witness:
  "(cache_step (\<lambda>e. Inr (\<lambda>t. t + 1)))\<^sup>*\<^sup>* ([], []) ([(''@hourly'', \<lambda>t. t + 1)], [Returned ''@hourly'' (Inr (\<lambda>t. t + 1))])
   \<and> length [(''@hourly'', \<lambda>t. t + (1::time))] \<le> 1024"
proof -
  let ?p = "\<lambda>e::string. Inr (\<lambda>t. t + 1) :: string + cron_schedule"
  let ?s = "\<lambda>t::time. t + 1"
  have 1: "cache_step ?p ([], []) ([], [Calling ''@hourly''])"
    using cache_step.call [of ?p "[]" "[]" "''@hourly''"] by simp
  have 2: "cache_step ?p ([], [Calling ''@hourly'']) ([], [Storing ''@hourly'' ?s])"
    using cache_step.miss [of 0 "[Calling ''@hourly'']" "''@hourly''" "[]" ?p ?s]
    by (simp add: parse_lookup_def)
  have 3: "cache_step ?p ([], [Storing ''@hourly'' ?s])
      ([(''@hourly'', ?s)], [Returned ''@hourly'' (Inr ?s)])"
    using cache_step.store [of 0 "[Storing ''@hourly'' ?s]" "''@hourly''" ?s ?p "[]"]
    by (simp add: parse_store_def)
  have r: "(cache_step ?p)\<^sup>*\<^sup>* ([], []) ([(''@hourly'', ?s)], [Returned ''@hourly'' (Inr ?s)])"
    using 1 2 3 by (meson converse_rtranclp_into_rtranclp rtranclp.rtrancl_refl)
  then show ?thesis using cron_cache_transparent [OF r] by blast
qed

text \<open>
  A sequence of calls of \<open>Parse\<close> threads the cache without any caller noticing:
  on a coherent cache a call answers exactly what the parser answers, keeps the cache
  coherent and bounded, and an expression just parsed is a hit for the next call.
\<close>

lemma Parse_correct:
  assumes "cache_ok parser cache"
  shows "fst (Parse parser cache e) = parser e \<and> cache_ok parser (snd (Parse parser cache e)) \<and>
         (\<forall>s. parser e = Inr s \<longrightarrow> parse_lookup (snd (Parse parser cache e)) e = Some s)"
  using assms parse_lookup_ok [OF assms, of e] parse_store_ok [OF assms, of e]
  by (auto simp: Parse_def parse_store_lookup split: option.splits sum.splits)

end
