(* ===== verification/Scaling.thy ===== *)
theory Scaling
  imports Step_Size Cron_Cache "HOL-Library.Multiset"
begin

text \<open>
  \<^verbatim>\<open>internal/scaling/scaling.go\<close>: the decision logic the controller and the offline
  simulator share. \<open>DesiredProcessingUnits\<close> and \<open>DesiredPUFromCPU\<close> compute how many
  processing units the recorded CPU metrics call for, \<open>DesiredPURange\<close> the effective
  range under the active schedules, and \<open>Decide\<close> whether a change may be applied now
  (cooldowns, scale-down windows by cron expression).

  \<open>DesiredPUFromCPU\<close> is one Go function; its stages are separate definitions here,
  composed in the order of the source: \<open>round_up_pu\<close>, \<open>limit_scaledown\<close>,
  \<open>limit_scaleup\<close>, \<open>clamp_range\<close>. The arithmetic wraps at 64 bits; the lemmas remove the
  wrap-around under \<open>scaling_ok\<close>. \<open>cron.Parse\<close> is the parameter \<open>parse\<close>
  (\<open>Cron_Cache\<close> shows that the cache in front of the parser does not change its answers).
\<close>

section \<open>Desired processing units\<close>

abbreviation cur_pu :: "SpannerAutoscaler \<Rightarrow> gint" where
  "cur_pu sa \<equiv> CurrentProcessingUnits (sa_Status sa)"

abbreviation scale_config :: "SpannerAutoscaler \<Rightarrow> ScaleConfig" where
  "scale_config sa \<equiv> ScaleConfig (sa_Spec sa)"

definition round_up_pu :: "gint \<Rightarrow> gint" where
  "round_up_pu requiredPU =
     (if requiredPU < 1000 then gmul (gadd (gdiv requiredPU 100) 1) 100
      else gmul (gadd (gdiv requiredPU 1000) 1) 1000)"

definition limit_scaledown :: "gint \<Rightarrow> gint \<Rightarrow> gint \<Rightarrow> gint" where
  "limit_scaledown currentPU sdStepSize desiredPU =
     (let scaledDownPU = gsub currentPU sdStepSize
      in if desiredPU < scaledDownPU then scaledDownPU else desiredPU)"

definition limit_scaleup :: "gint \<Rightarrow> gint \<Rightarrow> gint \<Rightarrow> gint" where
  "limit_scaleup currentPU suStepSize desiredPU =
     (let scaledUpPU = gadd currentPU suStepSize
      in if suStepSize \<noteq> 0 \<and> scaledUpPU < desiredPU
         then (if 1000 < scaledUpPU \<and> grem scaledUpPU 1000 \<noteq> 0
               then gmul (gadd (gdiv scaledUpPU 1000) 1) 1000 else scaledUpPU)
         else desiredPU)"

definition effective_min :: "SpannerAutoscaler \<Rightarrow> gint" where
  "effective_min sa =
     (if DesiredMinPUs (sa_Status sa) > 0 then DesiredMinPUs (sa_Status sa)
      else pus_Min (sc_ProcessingUnits (scale_config sa)))"

definition effective_max :: "SpannerAutoscaler \<Rightarrow> gint" where
  "effective_max sa =
     (if DesiredMaxPUs (sa_Status sa) > 0 then DesiredMaxPUs (sa_Status sa)
      else pus_Max (sc_ProcessingUnits (scale_config sa)))"

definition clamp_range :: "gint \<Rightarrow> gint \<Rightarrow> gint \<Rightarrow> gint" where
  "clamp_range minPU maxPU desiredPU =
     (let desiredPU = (if desiredPU < minPU then minPU else desiredPU)
      in if desiredPU > maxPU then maxPU else desiredPU)"

definition DesiredPUFromCPU :: "scaled_value \<Rightarrow> gint \<Rightarrow> gint \<Rightarrow> SpannerAutoscaler \<Rightarrow> gint" where
  "DesiredPUFromCPU gsv currentCPU targetCPU sa =
     (if targetCPU = 0 then cur_pu sa
      else
        let totalCPU = gmul currentCPU (cur_pu sa);
            requiredPU = gdiv totalCPU targetCPU;
            desiredPU = round_up_pu requiredPU;
            sdStepSize = ResolveStepSize gsv (Some (sc_ScaledownStepSize (scale_config sa)))
                           (cur_pu sa) StepDirectionScaledown;
            suStepSize = ResolveStepSize gsv (Some (sc_ScaleupStepSize (scale_config sa)))
                           (cur_pu sa) StepDirectionScaleup;
            desiredPU = limit_scaledown (cur_pu sa) sdStepSize desiredPU;
            desiredPU = limit_scaleup (cur_pu sa) suStepSize desiredPU
        in clamp_range (effective_min sa) (effective_max sa) desiredPU)"

definition DesiredProcessingUnits :: "scaled_value \<Rightarrow> SpannerAutoscaler \<Rightarrow> gint" where
  "DesiredProcessingUnits gsv sa =
     (let t = sc_TargetCPUUtilization (scale_config sa);
          st = sa_Status sa;
          flags = ActiveMetricFlags t
      in if flags = or CPUMetricFlagHighPriority CPUMetricFlagTotal then
           (if CurrentCPUMetricType st \<noteq> CPUMetricTypeBoth then CurrentProcessingUnits st
            else
              let desiredByHigh =
                    DesiredPUFromCPU gsv (CurrentHighPriorityCPUUtilization st) (the (cpu_HighPriority t)) sa;
                  desiredByTotal =
                    DesiredPUFromCPU gsv (CurrentTotalCPUUtilization st) (the (cpu_Total t)) sa
              in max desiredByHigh desiredByTotal)
         else if flags = CPUMetricFlagTotal then
           (if CurrentCPUMetricType st \<noteq> CPUMetricTypeTotal then CurrentProcessingUnits st
            else DesiredPUFromCPU gsv (CurrentTotalCPUUtilization st) (the (cpu_Total t)) sa)
         else if flags = CPUMetricFlagHighPriority then
           (if CurrentCPUMetricType st \<noteq> CPUMetricTypeHighPriority then CurrentProcessingUnits st
            else DesiredPUFromCPU gsv (CurrentHighPriorityCPUUtilization st) (the (cpu_HighPriority t)) sa)
         else CurrentProcessingUnits st)"

section \<open>The effective range\<close>

fun add_schedules :: "ActiveSchedule list \<Rightarrow> gint \<times> gint \<Rightarrow> gint \<times> gint" where
  "add_schedules [] (desiredMin, desiredMax) = (desiredMin, desiredMax)"
| "add_schedules (sched # scheds) (desiredMin, desiredMax) =
     add_schedules scheds
       (gadd desiredMin (as_AdditionalPU sched),
        if Normalized (as_MaxPUPolicy sched) = MaxPUPolicyExceed
        then gadd desiredMax (as_AdditionalPU sched) else desiredMax)"

definition round_range :: "gint \<Rightarrow> gint" where
  "round_range x =
     (if x > 1000 \<and> grem x 1000 \<noteq> 0 then gmul (gadd (gdiv x 1000) 1) 1000 else x)"

definition DesiredPURange :: "SpannerAutoscaler \<Rightarrow> gint \<times> gint \<times> bool \<times> bool" where
  "DesiredPURange sa =
     (let (desiredMin, desiredMax) =
            add_schedules (CurrentlyActiveSchedules (sa_Status sa))
              (pus_Min (sc_ProcessingUnits (scale_config sa)),
               pus_Max (sc_ProcessingUnits (scale_config sa)));
          desiredMin = round_range desiredMin;
          desiredMax = round_range desiredMax;
          (desiredMin, capped) = (if desiredMin > desiredMax then (desiredMax, True) else (desiredMin, False));
          changed = (desiredMin \<noteq> DesiredMinPUs (sa_Status sa) \<or>
                     desiredMax \<noteq> DesiredMaxPUs (sa_Status sa))
      in (desiredMin, desiredMax, changed, capped))"

section \<open>Whether a change may be applied\<close>

datatype Decision =
    DecisionScale
  | DecisionSkipSame
  | DecisionSkipScaleUpInterval
  | DecisionSkipScaleDownInterval
  | DecisionSkipScaleDownWindow

fun isTimeInCronSchedules :: "cron_parser \<Rightarrow> string list \<Rightarrow> time \<Rightarrow> bool" where
  "isTimeInCronSchedules parse [] currentTime = False"
| "isTimeInCronSchedules parse (cronExpr # cronExprs) currentTime =
     (case parse cronExpr of
        Inl err \<Rightarrow> isTimeInCronSchedules parse cronExprs currentTime
      | Inr schedule \<Rightarrow>
          (let nextTime = schedule (currentTime - minute)
           in if t_truncate nextTime minute = t_truncate currentTime minute then True
              else isTimeInCronSchedules parse cronExprs currentTime))"

definition IsScaledownAllowed ::
    "cron_parser \<Rightarrow> string list \<Rightarrow> string list \<Rightarrow> time \<Rightarrow> string + bool" where
  "IsScaledownAllowed parse allowedTimes notAllowedTimes currentTime =
     (if length allowedTimes > 0 \<and> length notAllowedTimes > 0
      then Inl ''scaledownAllowedTimes and scaledownNotAllowedTimes cannot be specified together''
      else if length allowedTimes > 0 then Inr (isTimeInCronSchedules parse allowedTimes currentTime)
      else if length notAllowedTimes > 0
      then Inr (\<not> isTimeInCronSchedules parse notAllowedTimes currentTime)
      else Inr True)"

definition Decide ::
    "cron_parser \<Rightarrow> SpannerAutoscaler \<Rightarrow> gint \<Rightarrow> time \<Rightarrow> duration \<Rightarrow> duration \<Rightarrow> Decision \<times> string option" where
  "Decide parse sa desiredPU now defaultScaleUpInterval defaultScaleDownInterval =
     (let currentPU = cur_pu sa;
          sc = scale_config sa;
          lastScale = LastScaleTime (sa_Status sa)
      in if desiredPU = currentPU then (DecisionSkipSame, None)
         else if currentPU < desiredPU \<and>
                 now < lastScale + DurationOr (sc_ScaleupInterval sc) defaultScaleUpInterval
         then (DecisionSkipScaleUpInterval, None)
         else if desiredPU < currentPU \<and>
                 now < lastScale + DurationOr (sc_ScaledownInterval sc) defaultScaleDownInterval
         then (DecisionSkipScaleDownInterval, None)
         else if desiredPU < currentPU then
           (case IsScaledownAllowed parse (sc_ScaledownAllowedTimes sc) (sc_ScaledownNotAllowedTimes sc) now of
              Inl err \<Rightarrow> (DecisionSkipScaleDownWindow, Some err)
            | Inr allowed \<Rightarrow>
                (if \<not> allowed then (DecisionSkipScaleDownWindow, None) else (DecisionScale, None)))
         else (DecisionScale, None))"

section \<open>Ranges in which nothing overflows\<close>

definition scaling_ok :: "scaled_value \<Rightarrow> SpannerAutoscaler \<Rightarrow> bool" where
  "scaling_ok gsv sa \<longleftrightarrow>
     pu_range (cur_pu sa) \<and>
     step_bounded gsv (Some (sc_ScaledownStepSize (scale_config sa))) \<and>
     step_bounded gsv (Some (sc_ScaleupStepSize (scale_config sa)))"

text \<open>The step limits a configuration resolves to at the current size.\<close>

definition sd_step :: "scaled_value \<Rightarrow> SpannerAutoscaler \<Rightarrow> gint" where
  "sd_step gsv sa = ResolveStepSize gsv (Some (sc_ScaledownStepSize (scale_config sa)))
                      (cur_pu sa) StepDirectionScaledown"

definition su_step :: "scaled_value \<Rightarrow> SpannerAutoscaler \<Rightarrow> gint" where
  "su_step gsv sa = ResolveStepSize gsv (Some (sc_ScaleupStepSize (scale_config sa)))
                      (cur_pu sa) StepDirectionScaleup"

text \<open>The value the CPU alone calls for, before any limit.\<close>

definition ideal_pu :: "gint \<Rightarrow> gint \<Rightarrow> gint \<Rightarrow> gint" where
  "ideal_pu currentCPU targetCPU currentPU =
     (let r = currentCPU * currentPU div targetCPU
      in if r < 1000 then (r div 100 + 1) * 100 else (r div 1000 + 1) * 1000)"

definition round_1000 :: "int \<Rightarrow> int" where
  "round_1000 x = (if 1000 < x \<and> x mod 1000 \<noteq> 0 then (x div 1000 + 1) * 1000 else x)"

section \<open>The stages without wrap-around\<close>

lemma div_mult_bounds:
  fixes x :: int assumes "0 \<le> x" "0 < k"
  shows "0 \<le> x div k * k" "x div k * k \<le> x" "x < x div k * k + k"
proof -
  show "0 \<le> x div k * k" using assms by (simp add: pos_imp_zdiv_nonneg_iff)
  show "x div k * k \<le> x" using assms by (simp add: minus_mod_eq_div_mult [symmetric])
  show "x < x div k * k + k" using assms pos_mod_bound [of k x] minus_mod_eq_div_mult [of x k] by linarith
qed

lemma round_up_pu_eq:
  assumes "0 \<le> r" "r < 2 ^ 62"
  shows "round_up_pu r = (if r < 1000 then (r div 100 + 1) * 100 else (r div 1000 + 1) * 1000)"
proof -
  have "0 \<le> r div 100" "r div 100 \<le> r" "0 \<le> r div 1000" "r div 1000 \<le> r"
    using div_mult_bounds [of r 100] div_mult_bounds [of r 1000] assms by simp_all
  then show ?thesis
    using assms div_mult_bounds [of r 100] div_mult_bounds [of r 1000]
    by (simp add: round_up_pu_def gdiv_nonneg gadd_id gmul_id)
qed

lemma round_up_1000_eq:
  assumes "0 \<le> x" "x < 2 ^ 62 + 2 ^ 32"
  shows "gmul (gadd (gdiv x 1000) 1) 1000 = (x div 1000 + 1) * 1000"
  using assms div_mult_bounds [of x 1000] by (simp add: gdiv_nonneg gadd_id gmul_id)

lemma round_1000_ge: "0 \<le> x \<Longrightarrow> x \<le> round_1000 x"
  using div_mult_bounds(3) [of x 1000] by (simp add: round_1000_def)

lemma limit_scaleup_eq:
  assumes "0 \<le> c" "c < 2 ^ 31" "0 \<le> su" "su < 2 ^ 62"
  shows "limit_scaleup c su d = (if su \<noteq> 0 \<and> c + su < d then round_1000 (c + su) else d)"
proof -
  have "gadd c su = c + su" using assms by (intro gadd_id) auto
  moreover have "grem (c + su) 1000 = (c + su) mod 1000" using assms by (intro grem_nonneg) auto
  moreover have "gmul (gadd (gdiv (c + su) 1000) 1) 1000 = ((c + su) div 1000 + 1) * 1000"
    using assms by (intro round_up_1000_eq) auto
  ultimately show ?thesis by (simp add: limit_scaleup_def round_1000_def Let_def)
qed

lemma limit_scaledown_eq:
  assumes "0 \<le> c" "c < 2 ^ 31" "0 \<le> sd" "sd < 2 ^ 62"
  shows "limit_scaledown c sd d = max d (c - sd)"
proof -
  have "gsub c sd = c - sd" using assms by (intro gsub_id) auto
  then show ?thesis by (simp add: limit_scaledown_def Let_def max_def)
qed

lemma clamp_range_eq: "lo \<le> hi \<Longrightarrow> clamp_range lo hi d = min hi (max lo d)"
  by (simp add: clamp_range_def Let_def max_def min_def)

lemma scaling_ok_steps:
  assumes "scaling_ok gsv sa"
  shows "0 \<le> su_step gsv sa" "su_step gsv sa < 2 ^ 62" "su_step gsv sa = 0 \<or> 100 \<le> su_step gsv sa"
    "100 \<le> sd_step gsv sa" "sd_step gsv sa < 2 ^ 62"
  using assms ResolveStepSize_bound ResolveStepSize_up_cases
    ResolveStepSize_down_ge [of "cur_pu sa" gsv "Some (sc_ScaledownStepSize (scale_config sa))"]
  by (auto simp: scaling_ok_def su_step_def sd_step_def split: if_splits)

lemma scaling_ok_cur: "scaling_ok gsv sa \<Longrightarrow> 0 \<le> cur_pu sa \<and> cur_pu sa < 2 ^ 31"
  by (simp add: scaling_ok_def pu_range_def)

lemma cpu_product_bounds:
  assumes "pu_range cpu" "pu_range pu"
  shows "0 \<le> cpu * pu \<and> cpu * pu < 2 ^ 62"
proof -
  have "cpu * pu \<le> (2 ^ 31 - 1) * (2 ^ 31 - 1)"
    using assms by (intro mult_mono) (auto simp: pu_range_def)
  then show ?thesis using assms by (simp add: pu_range_def)
qed

text \<open>The stages of \<open>DesiredPUFromCPU\<close> as functions on unbounded integers.\<close>

definition limited_pu :: "scaled_value \<Rightarrow> SpannerAutoscaler \<Rightarrow> int \<Rightarrow> int" where
  "limited_pu gsv sa d =
     (let e = max d (cur_pu sa - sd_step gsv sa); up = cur_pu sa + su_step gsv sa
      in if su_step gsv sa \<noteq> 0 \<and> up < e then round_1000 up else e)"

lemma DesiredPUFromCPU_eq:
  assumes "scaling_ok gsv sa" "pu_range currentCPU" "0 < targetCPU"
  shows "DesiredPUFromCPU gsv currentCPU targetCPU sa =
     clamp_range (effective_min sa) (effective_max sa)
       (limited_pu gsv sa (ideal_pu currentCPU targetCPU (cur_pu sa)))"
proof -
  let ?p = "currentCPU * cur_pu sa"
  have p: "0 \<le> ?p" "?p < 2 ^ 62"
    using cpu_product_bounds assms by (auto simp: scaling_ok_def)
  have q: "0 \<le> ?p div targetCPU" "?p div targetCPU \<le> ?p"
    using p assms(3) zdiv_mono2 [of ?p 1 targetCPU] by (auto simp: pos_imp_zdiv_nonneg_iff)
  have "gmul currentCPU (cur_pu sa) = ?p" using p by (intro gmul_id) auto
  moreover have "gdiv ?p targetCPU = ?p div targetCPU" using p assms(3) by (intro gdiv_nonneg) auto
  moreover have "round_up_pu (?p div targetCPU) = ideal_pu currentCPU targetCPU (cur_pu sa)"
    using p q by (simp add: round_up_pu_eq ideal_pu_def Let_def)
  ultimately show ?thesis
    using assms(3) scaling_ok_steps [OF assms(1)] scaling_ok_cur [OF assms(1)]
    by (simp add: DesiredPUFromCPU_def Let_def limited_pu_def limit_scaleup_eq limit_scaledown_eq
        sd_step_def [symmetric] su_step_def [symmetric])
qed

section \<open>The ideal value is the least valid one that keeps CPU below the target\<close>

text \<open>
  The predicted CPU at \<open>p\<close> processing units is \<open>currentCPU * currentPU / p\<close>; it is below
  \<open>targetCPU\<close> iff \<open>currentCPU * currentPU < p * targetCPU\<close>.
\<close>

lemma ideal_pu_valid:
  assumes "0 \<le> cpu" "0 \<le> cur" "0 < tgt"
  shows "valid_pu (ideal_pu cpu tgt cur)"
proof -
  let ?r = "cpu * cur div tgt"
  have r: "0 \<le> ?r" using assms by (simp add: pos_imp_zdiv_nonneg_iff)
  show ?thesis
  proof (cases "?r < 1000")
    case True
    then have "?r div 100 \<le> 9" "0 \<le> ?r div 100" using r by auto
    then have "valid_pu ((?r div 100 + 1) * 100)" by (intro valid_puI_small) auto
    with True show ?thesis by (simp add: ideal_pu_def Let_def)
  next
    case False
    then have "0 \<le> ?r div 1000" using r by auto
    then have "valid_pu ((?r div 1000 + 1) * 1000)" by (intro valid_puI_large) auto
    with False show ?thesis by (simp add: ideal_pu_def Let_def)
  qed
qed

lemma ideal_pu_gt_required:
  assumes "0 \<le> cpu" "0 \<le> cur" "0 < tgt"
  shows "cpu * cur div tgt < ideal_pu cpu tgt cur"
  using assms div_mult_bounds [of "cpu * cur div tgt" 100] div_mult_bounds [of "cpu * cur div tgt" 1000]
  by (simp add: ideal_pu_def Let_def pos_imp_zdiv_nonneg_iff)

lemma div_less_iff_less_mult: "0 < k \<Longrightarrow> x div k < y \<longleftrightarrow> x < y * (k::int)"
proof
  assume k: "0 < k" and "x div k < y"
  then have "(x div k + 1) * k \<le> y * k" by (intro mult_right_mono) auto
  moreover have "x mod k < k" "x - x mod k = x div k * k"
    using k by (simp_all add: minus_mod_eq_div_mult)
  ultimately show "x < y * k" unfolding distrib_right by linarith
next
  assume k: "0 < k" and "x < y * k"
  show "x div k < y"
  proof (rule ccontr)
    assume "\<not> x div k < y"
    then have "y * k \<le> x div k * k" using k by (intro mult_right_mono) auto
    also have "\<dots> \<le> x" using k by (simp add: minus_mod_eq_div_mult [symmetric])
    finally show False using \<open>x < y * k\<close> by simp
  qed
qed

lemma ideal_pu_below_target:
  assumes "0 \<le> cpu" "0 \<le> cur" "0 < tgt"
  shows "cpu * cur < ideal_pu cpu tgt cur * tgt"
  using ideal_pu_gt_required [OF assms] assms(3) by (simp add: div_less_iff_less_mult)

lemma next_multiple_le:
  fixes r p :: int
  assumes "0 < k" "r < p" "p mod k = 0"
  shows "(r div k + 1) * k \<le> p"
proof -
  obtain q where q: "p = q * k" using assms(3) by (auto simp: dvd_def mod_eq_0_iff_dvd mult.commute)
  have "r div k < q" using assms(1,2) by (simp add: div_less_iff_less_mult q)
  then have "(r div k + 1) * k \<le> q * k" using assms(1) by (intro mult_right_mono) auto
  then show ?thesis by (simp add: q)
qed

lemma ideal_pu_least:
  assumes "0 < tgt" "valid_pu p" "cpu * cur < p * tgt"
  shows "ideal_pu cpu tgt cur \<le> p"
proof -
  let ?r = "cpu * cur div tgt"
  have r: "?r < p" using assms(1,3) by (simp add: div_less_iff_less_mult)
  show ?thesis
  proof (cases "?r < 1000")
    case True
    then show ?thesis
      using next_multiple_le [of 100 ?r p] r valid_pu_mod_100 [OF assms(2)] by (simp add: ideal_pu_def Let_def)
  next
    case False
    then show ?thesis
      using next_multiple_le [of 1000 ?r p] r valid_pu_mod_1000 [OF assms(2)] by (simp add: ideal_pu_def Let_def)
  qed
qed

lemma ideal_pu_mono:
  assumes "cpu \<le> cpu'" "0 \<le> cpu" "0 \<le> cur" "0 < tgt"
  shows "ideal_pu cpu tgt cur \<le> ideal_pu cpu' tgt cur"
proof (rule ideal_pu_least [OF assms(4)])
  show "valid_pu (ideal_pu cpu' tgt cur)" using assms by (intro ideal_pu_valid) auto
  have "cpu * cur \<le> cpu' * cur" using assms by (intro mult_right_mono) auto
  also have "\<dots> < ideal_pu cpu' tgt cur * tgt" using assms by (intro ideal_pu_below_target) auto
  finally show "cpu * cur < ideal_pu cpu' tgt cur * tgt" .
qed

text \<open>CPU below the target never asks for more than the current size; at or above it does.\<close>

lemma ideal_pu_le_cur: "cpu < tgt \<Longrightarrow> 0 < tgt \<Longrightarrow> valid_pu cur \<Longrightarrow> ideal_pu cpu tgt cur \<le> cur"
  by (rule ideal_pu_least) (auto simp: valid_pu_def mult.commute)

lemma ideal_pu_gt_cur:
  assumes "tgt \<le> cpu" "0 < tgt" "0 \<le> cur"
  shows "cur < ideal_pu cpu tgt cur"
proof -
  have "tgt * cur \<le> cpu * cur" using assms by (intro mult_right_mono) auto
  then have "cur \<le> cpu * cur div tgt" using assms(2) zdiv_mono1 [of "tgt * cur" "cpu * cur" tgt] by simp
  also have "\<dots> < ideal_pu cpu tgt cur" using assms by (intro ideal_pu_gt_required) auto
  finally show ?thesis .
qed

section \<open>The step limits\<close>

lemma round_1000_mono_lim: "0 \<le> up \<Longrightarrow> d \<le> up \<Longrightarrow> d \<le> round_1000 up"
  using round_1000_ge [of up] by linarith

lemma limited_pu_mono:
  assumes "scaling_ok gsv sa" "d \<le> d'"
  shows "limited_pu gsv sa d \<le> limited_pu gsv sa d'"
proof -
  let ?up = "cur_pu sa + su_step gsv sa"
  have "0 \<le> ?up" using scaling_ok_cur [OF assms(1)] scaling_ok_steps(1) [OF assms(1)] by simp
  then have r: "e \<le> round_1000 ?up" if "e \<le> ?up" for e using that by (rule round_1000_mono_lim)
  define f where "f e = (if su_step gsv sa \<noteq> 0 \<and> ?up < e then round_1000 ?up else e)" for e
  have "f e \<le> f e'" if "e \<le> e'" for e e' using that r [of e] by (auto simp: f_def)
  moreover have "limited_pu gsv sa x = f (max x (cur_pu sa - sd_step gsv sa))" for x
    by (simp add: limited_pu_def f_def Let_def)
  ultimately show ?thesis using assms(2) by simp
qed

lemma valid_pu_diff:
  assumes "valid_pu c" "s mod 100 = 0" "1000 \<le> s \<Longrightarrow> s mod 1000 = 0"
    and "(if c > 1000 then 1000 else 100) \<le> s" "0 < c - s"
  shows "valid_pu (c - s)"
proof (cases "c > 1000")
  case True
  then have "c mod 1000 = 0" "s mod 1000 = 0" using assms valid_pu_mod_1000 by auto
  then have "(c - s) mod 1000 = 0" by (simp add: mod_diff_eq [symmetric])
  with assms(5) show ?thesis by (simp add: valid_puI_large)
next
  case False
  have "(c - s) mod 100 = 0" using valid_pu_mod_100 [OF assms(1)] assms(2) by (simp add: mod_diff_eq [symmetric])
  with assms False show ?thesis by (intro valid_puI_small) auto
qed

lemma round_1000_valid:
  assumes "0 < x" "x mod 100 = 0"
  shows "valid_pu (round_1000 x)"
proof (cases "1000 < x \<and> x mod 1000 \<noteq> 0")
  case True
  then have "0 < (x div 1000 + 1) * 1000" using div_mult_bounds(1) [of x 1000] by simp
  moreover have "(x div 1000 + 1) * 1000 mod 1000 = 0" by simp
  ultimately show ?thesis using True by (simp add: round_1000_def valid_puI_large)
next
  case False
  then show ?thesis using assms valid_puI_small [of x] valid_puI_large [of x] by (auto simp: round_1000_def)
qed

lemma limited_pu_valid:
  assumes "scaling_ok gsv sa" "valid_pu (cur_pu sa)" "valid_pu d"
  shows "valid_pu (limited_pu gsv sa d)"
proof -
  let ?c = "cur_pu sa" and ?sd = "sd_step gsv sa" and ?su = "su_step gsv sa"
  have m: "?sd mod 100 = 0" "1000 \<le> ?sd \<Longrightarrow> ?sd mod 1000 = 0" "?su mod 100 = 0"
    using ResolveStepSize_mod assms(1) by (auto simp: scaling_ok_def sd_step_def su_step_def)
  have g: "(if ?c > 1000 then 1000 else 100) \<le> ?sd" unfolding sd_step_def by (rule ResolveStepSize_down_ge)
  have e: "valid_pu (max d (?c - ?sd))"
  proof (cases "d < ?c - ?sd")
    case True
    then have "0 < ?c - ?sd" using valid_pu_ge_100 [OF assms(3)] by linarith
    then have "valid_pu (?c - ?sd)" by (intro valid_pu_diff assms(2) m g)
    with True show ?thesis by (simp add: max_def)
  next
    case False
    then show ?thesis using assms(3) by (simp add: max_def)
  qed
  have "(?c + ?su) mod 100 = 0" using valid_pu_mod_100 [OF assms(2)] m(3) by (simp add: mod_add_eq [symmetric])
  moreover have "0 < ?c + ?su" using valid_pu_ge_100 [OF assms(2)] scaling_ok_steps(1) [OF assms(1)] by linarith
  ultimately have "valid_pu (round_1000 (?c + ?su))" by (intro round_1000_valid)
  with e show ?thesis by (simp add: limited_pu_def Let_def)
qed

lemma round_1000_le_valid:
  assumes "valid_pu d" "x < d"
  shows "round_1000 x \<le> d"
  using assms next_multiple_le [of 1000 x d] valid_pu_mod_1000 [OF assms(1)] by (auto simp: round_1000_def)

lemma limited_pu_up:
  assumes "scaling_ok gsv sa" "cur_pu sa < d"
  shows "limited_pu gsv sa d =
    (if su_step gsv sa \<noteq> 0 \<and> cur_pu sa + su_step gsv sa < d
     then round_1000 (cur_pu sa + su_step gsv sa) else d)"
  using scaling_ok_steps(4) [OF assms(1)] assms(2) by (simp add: limited_pu_def Let_def)

lemma limited_pu_down:
  assumes "scaling_ok gsv sa" "d \<le> cur_pu sa"
  shows "limited_pu gsv sa d = max d (cur_pu sa - sd_step gsv sa)"
proof -
  have "max d (cur_pu sa - sd_step gsv sa) \<le> cur_pu sa + su_step gsv sa"
    using scaling_ok_steps [OF assms(1)] assms(2) by auto
  then have "\<not> cur_pu sa + su_step gsv sa < max d (cur_pu sa - sd_step gsv sa)" by linarith
  then show ?thesis unfolding limited_pu_def Let_def by simp
qed

lemma limited_pu_direction:
  assumes "scaling_ok gsv sa" "valid_pu d"
  shows "cur_pu sa < d \<Longrightarrow> cur_pu sa < limited_pu gsv sa d \<and> limited_pu gsv sa d \<le> d"
    and "d \<le> cur_pu sa \<Longrightarrow> d \<le> limited_pu gsv sa d \<and> limited_pu gsv sa d \<le> cur_pu sa"
proof -
  let ?c = "cur_pu sa" and ?su = "su_step gsv sa"
  note s = scaling_ok_steps [OF assms(1)]
  have r: "?c + ?su \<le> round_1000 (?c + ?su)"
    using scaling_ok_cur [OF assms(1)] s(1) by (intro round_1000_ge) simp
  show "?c < d \<Longrightarrow> ?c < limited_pu gsv sa d \<and> limited_pu gsv sa d \<le> d"
    using s r round_1000_le_valid [OF assms(2), of "?c + ?su"] limited_pu_up [OF assms(1)] by auto
  show "d \<le> ?c \<Longrightarrow> d \<le> limited_pu gsv sa d \<and> limited_pu gsv sa d \<le> ?c"
    using s limited_pu_down [OF assms(1)] by auto
qed

section \<open>Metric modes\<close>

text \<open>
  The metric the status was last synced for is the one the targets call for; the pairs of
  recorded CPU value and target the decision then uses.
\<close>

definition metrics_synced :: "SpannerAutoscaler \<Rightarrow> bool" where
  "metrics_synced sa \<longleftrightarrow>
     (let f = ActiveMetricFlags (sc_TargetCPUUtilization (scale_config sa))
      in f \<noteq> 0 \<and> CurrentCPUMetricType (sa_Status sa) = ToCPUMetricType f)"

definition metric_pairs :: "SpannerAutoscaler \<Rightarrow> (gint \<times> gint) list" where
  "metric_pairs sa =
     (let t = sc_TargetCPUUtilization (scale_config sa); st = sa_Status sa
      in (case cpu_HighPriority t of None \<Rightarrow> [] | Some h \<Rightarrow> [(CurrentHighPriorityCPUUtilization st, h)]) @
         (case cpu_Total t of None \<Rightarrow> [] | Some u \<Rightarrow> [(CurrentTotalCPUUtilization st, u)]))"

lemma ToCPUMetricType_simps [simp]:
  "ToCPUMetricType (or CPUMetricFlagHighPriority CPUMetricFlagTotal) = CPUMetricTypeBoth"
  "ToCPUMetricType CPUMetricFlagTotal = CPUMetricTypeTotal"
  "ToCPUMetricType CPUMetricFlagHighPriority = CPUMetricTypeHighPriority"
  by (simp_all add: ToCPUMetricType_def flag_distinct [symmetric])

lemma DesiredProcessingUnits_unsynced:
  assumes "\<not> metrics_synced sa"
  shows "DesiredProcessingUnits gsv sa = cur_pu sa"
  using assms
  by (cases "cpu_HighPriority (sc_TargetCPUUtilization (scale_config sa))";
      cases "cpu_Total (sc_TargetCPUUtilization (scale_config sa))")
    (auto simp: DesiredProcessingUnits_def metrics_synced_def ActiveMetricFlags_cases Let_def
      flag_distinct [symmetric])

lemma DesiredProcessingUnits_synced:
  assumes "metrics_synced sa"
  shows "\<exists>x xs. map (\<lambda>(cpu, tgt). DesiredPUFromCPU gsv cpu tgt sa) (metric_pairs sa) = x # xs \<and>
           DesiredProcessingUnits gsv sa = foldr max xs x"
  using assms
  by (cases "cpu_HighPriority (sc_TargetCPUUtilization (scale_config sa))";
      cases "cpu_Total (sc_TargetCPUUtilization (scale_config sa))")
    (auto simp: DesiredProcessingUnits_def metrics_synced_def metric_pairs_def ActiveMetricFlags_cases Let_def
      flag_distinct [symmetric] max.commute)

lemma foldr_max_in: "foldr max xs x \<in> set (x # xs)" for x :: int
  by (induction xs) (auto simp: max_def)

lemma foldr_max_ge: "y \<in> set (x # xs) \<Longrightarrow> y \<le> foldr max xs x" for x :: int
  by (induction xs) (auto simp: le_max_iff_disj)

text \<open>
  The desired value is the largest one any configured metric asks for: it is asked for by
  one of them, and none asks for more.
\<close>

lemma DesiredProcessingUnits_max:
  assumes "metrics_synced sa"
  shows "\<exists>(cpu, tgt) \<in> set (metric_pairs sa). DesiredProcessingUnits gsv sa = DesiredPUFromCPU gsv cpu tgt sa"
    and "(cpu, tgt) \<in> set (metric_pairs sa) \<Longrightarrow>
           DesiredPUFromCPU gsv cpu tgt sa \<le> DesiredProcessingUnits gsv sa"
proof -
  obtain x xs where x: "map (\<lambda>(cpu, tgt). DesiredPUFromCPU gsv cpu tgt sa) (metric_pairs sa) = x # xs"
    "DesiredProcessingUnits gsv sa = foldr max xs x"
    using DesiredProcessingUnits_synced [OF assms, of gsv] by (elim exE conjE) (rule that)
  then have set: "set (x # xs) = (\<lambda>(cpu, tgt). DesiredPUFromCPU gsv cpu tgt sa) ` set (metric_pairs sa)"
    by (metis set_map)
  have "DesiredProcessingUnits gsv sa \<in> (\<lambda>(cpu, tgt). DesiredPUFromCPU gsv cpu tgt sa) ` set (metric_pairs sa)"
    unfolding x(2) set [symmetric] by (rule foldr_max_in)
  then show "\<exists>(cpu, tgt) \<in> set (metric_pairs sa). DesiredProcessingUnits gsv sa = DesiredPUFromCPU gsv cpu tgt sa"
    by auto
  show "DesiredPUFromCPU gsv cpu tgt sa \<le> DesiredProcessingUnits gsv sa" if "(cpu, tgt) \<in> set (metric_pairs sa)"
    unfolding x(2) by (rule foldr_max_ge) (use that set in force)
qed

text \<open>What the decision relies on: recorded CPU values and targets in their ranges.\<close>

definition metrics_ok :: "SpannerAutoscaler \<Rightarrow> bool" where
  "metrics_ok sa \<longleftrightarrow> metrics_synced sa \<and> (\<forall>(cpu, tgt) \<in> set (metric_pairs sa). pu_range cpu \<and> 0 < tgt)"

lemma DesiredPUFromCPU_clamped:
  assumes "targetCPU \<noteq> 0" "effective_min sa \<le> effective_max sa"
  shows "effective_min sa \<le> DesiredPUFromCPU gsv cpu targetCPU sa \<and>
         DesiredPUFromCPU gsv cpu targetCPU sa \<le> effective_max sa"
  using assms by (auto simp: DesiredPUFromCPU_def Let_def clamp_range_eq)

lemma DesiredPUFromCPU_up_iff:
  assumes "scaling_ok gsv sa" "pu_range cpu" "0 < tgt" "valid_pu (cur_pu sa)"
    and "effective_min sa \<le> cur_pu sa" "cur_pu sa \<le> effective_max sa"
  shows "cur_pu sa < DesiredPUFromCPU gsv cpu tgt sa \<longleftrightarrow> tgt \<le> cpu \<and> cur_pu sa < effective_max sa"
proof -
  let ?i = "ideal_pu cpu tgt (cur_pu sa)"
  have b: "0 \<le> cpu" "0 \<le> cur_pu sa" using assms(2) scaling_ok_cur [OF assms(1)] by (auto simp: pu_range_def)
  have v: "valid_pu ?i" using b assms(3) by (rule ideal_pu_valid)
  have e: "DesiredPUFromCPU gsv cpu tgt sa = min (effective_max sa) (max (effective_min sa) (limited_pu gsv sa ?i))"
    using DesiredPUFromCPU_eq [OF assms(1,2,3)] assms(5,6) by (simp add: clamp_range_eq)
  show ?thesis
  proof (cases "tgt \<le> cpu")
    case True
    then have "cur_pu sa < ?i" using assms(3) b by (intro ideal_pu_gt_cur) auto
    then show ?thesis using limited_pu_direction(1) [OF assms(1) v] True e by auto
  next
    case False
    then have "?i \<le> cur_pu sa" using assms(3,4) by (intro ideal_pu_le_cur) auto
    then show ?thesis using limited_pu_direction(2) [OF assms(1) v] False e assms(5) by auto
  qed
qed

lemma DesiredPUFromCPU_down:
  assumes "scaling_ok gsv sa" "pu_range cpu" "0 < tgt"
    and "effective_min sa \<le> cur_pu sa" "cur_pu sa \<le> effective_max sa" "tgt \<le> cpu"
  shows "cur_pu sa \<le> DesiredPUFromCPU gsv cpu tgt sa"
proof -
  let ?i = "ideal_pu cpu tgt (cur_pu sa)"
  have b: "0 \<le> cpu" "0 \<le> cur_pu sa" using assms(2) scaling_ok_cur [OF assms(1)] by (auto simp: pu_range_def)
  have v: "valid_pu ?i" using b assms(3) by (rule ideal_pu_valid)
  have "cur_pu sa < ?i" using assms(3,6) b by (intro ideal_pu_gt_cur) auto
  then have "cur_pu sa < limited_pu gsv sa ?i" using limited_pu_direction(1) [OF assms(1) v] by simp
  then show ?thesis
    using DesiredPUFromCPU_eq [OF assms(1,2,3)] assms(4,5) by (simp add: clamp_range_eq)
qed

lemma DesiredPUFromCPU_valid:
  assumes "scaling_ok gsv sa" "pu_range cpu" "0 < tgt" "valid_pu (cur_pu sa)"
    and "valid_pu (effective_min sa)" "valid_pu (effective_max sa)"
  shows "valid_pu (DesiredPUFromCPU gsv cpu tgt sa)"
proof -
  have "valid_pu (limited_pu gsv sa (ideal_pu cpu tgt (cur_pu sa)))"
    using assms by (intro limited_pu_valid ideal_pu_valid) (auto simp: pu_range_def scaling_ok_def)
  then show ?thesis
    using DesiredPUFromCPU_eq [OF assms(1,2,3)] assms(5,6) by (auto simp: clamp_range_def Let_def)
qed

section \<open>The effective range\<close>

lemma wrap64_add_left: "wrap64 (wrap64 x + y) = wrap64 (x + y)"
proof -
  have "wrap64 x + y + 2 ^ 63 = (x + 2 ^ 63) mod 2 ^ 64 + y" by (simp add: wrap64_def)
  moreover have "((x + 2 ^ 63) mod 2 ^ 64 + y) mod 2 ^ 64 = (x + 2 ^ 63 + y) mod 2 ^ 64"
    by (rule mod_add_left_eq)
  moreover have "x + 2 ^ 63 + y = x + y + 2 ^ 63" by simp
  ultimately have "(wrap64 x + y + 2 ^ 63) mod 2 ^ 64 = (x + y + 2 ^ 63) mod 2 ^ 64" by (simp only:)
  then show ?thesis by (simp only: wrap64_def)
qed

definition exceeds :: "ActiveSchedule \<Rightarrow> bool" where
  "exceeds s \<longleftrightarrow> Normalized (as_MaxPUPolicy s) = MaxPUPolicyExceed"

definition schedules_min :: "SpannerAutoscaler \<Rightarrow> int" where
  "schedules_min sa = pus_Min (sc_ProcessingUnits (scale_config sa)) +
     (\<Sum>s\<leftarrow>CurrentlyActiveSchedules (sa_Status sa). as_AdditionalPU s)"

definition schedules_max :: "SpannerAutoscaler \<Rightarrow> int" where
  "schedules_max sa = pus_Max (sc_ProcessingUnits (scale_config sa)) +
     (\<Sum>s\<leftarrow>filter exceeds (CurrentlyActiveSchedules (sa_Status sa)). as_AdditionalPU s)"

lemma add_schedules_wrap:
  "in_int64 a \<Longrightarrow> in_int64 b \<Longrightarrow>
     add_schedules ss (a, b) = (wrap64 (a + (\<Sum>s\<leftarrow>ss. as_AdditionalPU s)),
                                wrap64 (b + (\<Sum>s\<leftarrow>filter exceeds ss. as_AdditionalPU s)))"
proof (induction ss arbitrary: a b)
  case Nil
  then show ?case by simp
next
  case (Cons s ss)
  have "in_int64 (gadd a (as_AdditionalPU s))" "in_int64 (gadd b (as_AdditionalPU s))"
    by (simp_all add: gadd_def wrap64_range)
  with Cons show ?case
    by (cases "exceeds s") (simp_all add: exceeds_def gadd_def wrap64_add_left add.assoc)
qed

lemma round_range_eq: "0 \<le> x \<Longrightarrow> x < 2 ^ 62 \<Longrightarrow> round_range x = round_1000 x"
  by (simp add: round_range_def round_1000_def grem_nonneg round_up_1000_eq)

definition range_ok :: "SpannerAutoscaler \<Rightarrow> bool" where
  "range_ok sa \<longleftrightarrow>
     in_int64 (pus_Min (sc_ProcessingUnits (scale_config sa))) \<and>
     in_int64 (pus_Max (sc_ProcessingUnits (scale_config sa))) \<and>
     0 \<le> schedules_min sa \<and> schedules_min sa < 2 ^ 62 \<and>
     0 \<le> schedules_max sa \<and> schedules_max sa < 2 ^ 62"

lemma DesiredPURange_eq:
  assumes "range_ok sa"
  shows "DesiredPURange sa =
     (let hi = round_1000 (schedules_max sa); lo = min (round_1000 (schedules_min sa)) hi
      in (lo, hi, lo \<noteq> DesiredMinPUs (sa_Status sa) \<or> hi \<noteq> DesiredMaxPUs (sa_Status sa),
          round_1000 (schedules_min sa) > hi))"
proof -
  have "add_schedules (CurrentlyActiveSchedules (sa_Status sa))
      (pus_Min (sc_ProcessingUnits (scale_config sa)), pus_Max (sc_ProcessingUnits (scale_config sa)))
      = (schedules_min sa, schedules_max sa)"
    using assms by (simp add: add_schedules_wrap range_ok_def schedules_min_def schedules_max_def wrap64_id)
  then show ?thesis
    using assms by (simp add: DesiredPURange_def range_ok_def round_range_eq Let_def min_def)
qed

section \<open>Cron windows\<close>

text \<open>
  What is assumed of a \<^verbatim>\<open>go-cron\<close> schedule: it fires at whole minutes (the parser has no
  seconds field), and \<^verbatim>\<open>Next(t)\<close> is the first firing after \<open>t\<close>, or the zero time, or some
  time a minute or more away, when there is none within the next minute.
\<close>

definition cron_next_ok :: "(time \<Rightarrow> bool) \<Rightarrow> cron_schedule \<Rightarrow> bool" where
  "cron_next_ok fires nxt \<longleftrightarrow>
     (\<forall>t. fires t \<longrightarrow> t mod minute = 0) \<and>
     (\<forall>t u. fires u \<longrightarrow> t < u \<longrightarrow> t < nxt t \<and> nxt t \<le> u) \<and>
     (\<forall>t. nxt t = 0 \<or> t < nxt t \<and> fires (nxt t))"

lemma cron_minute_match:
  assumes "cron_next_ok fires nxt" "minute < now"
  shows "t_truncate (nxt (now - minute)) minute = t_truncate now minute \<longleftrightarrow> fires (t_truncate now minute)"
proof -
  let ?m = "t_truncate now minute" and ?n = "nxt (now - minute)"
  have m: "?m \<le> now" "now < ?m + minute" "?m mod minute = 0" "now - minute < ?m"
    using t_truncate_le t_truncate_gt [of minute now] t_truncate_mod by auto
  show ?thesis
  proof
    assume f: "fires ?m"
    then have n: "now - minute < ?n" "?n \<le> ?m" using assms(1) m(4) unfolding cron_next_ok_def by auto
    then have "?n \<noteq> 0" using assms(2) by simp
    then have "?n mod minute = 0" using assms(1) unfolding cron_next_ok_def by blast
    then have "t_truncate now minute = ?n" using n m by (intro t_truncate_unique) auto
    then show "t_truncate ?n minute = ?m" using \<open>?n mod minute = 0\<close> by (simp add: t_truncate_def)
  next
    assume e: "t_truncate ?n minute = ?m"
    have "?n \<noteq> 0"
    proof
      assume "?n = 0"
      moreover have "t_truncate 0 minute = 0" by (simp add: t_truncate_def)
      ultimately show False using e m(4) assms(2) by simp
    qed
    then have f: "fires ?n" "?n mod minute = 0" using assms(1) unfolding cron_next_ok_def by blast+
    then have "t_truncate ?n minute = ?n" by (simp add: t_truncate_def)
    then show "fires ?m" using e f(1) by simp
  qed
qed

lemma isTimeInCronSchedules_iff:
  assumes "\<And>e s. parse e = Inr s \<Longrightarrow> cron_next_ok (fires e) s" "minute < now"
  shows "isTimeInCronSchedules parse es now \<longleftrightarrow>
     (\<exists>e \<in> set es. (\<exists>s. parse e = Inr s) \<and> fires e (t_truncate now minute))"
proof (induction es)
  case Nil
  then show ?case by simp
next
  case (Cons e es)
  then show ?case
    using cron_minute_match [OF assms(1) assms(2)] by (cases "parse e") (simp_all add: Let_def)
qed

section \<open>The sample resource\<close>

lemma sample_scaling_ok: "scaling_ok sample_gsv sample_sa"
  using sample_gsv_int [of 2000] sample_gsv_int [of 0]
  by (simp add: scaling_ok_def sample_defs pu_range_def)

lemma sample_metrics: "metrics_synced sample_sa" "metric_pairs sample_sa = [(75, 60)]"
  by (simp_all add: metrics_synced_def metric_pairs_def sample_defs ActiveMetricFlags_def)

lemma sample_range:
  "effective_min sample_sa = 1000" "effective_max sample_sa = 10000" "cur_pu sample_sa = 3000"
  by (simp_all add: effective_min_def effective_max_def sample_defs)

text \<open>A cron schedule that fires every minute.\<close>

definition every_minute :: cron_schedule where
  "every_minute t = (t div minute + 1) * minute"

lemma every_minute_ok: "cron_next_ok (\<lambda>t. t mod minute = 0) every_minute"
proof -
  have n: "t < every_minute t" for t
  proof -
    have "t mod minute < minute" "t - t mod minute = t div minute * minute"
      by (simp_all add: minus_mod_eq_div_mult)
    then show ?thesis unfolding every_minute_def distrib_right by linarith
  qed
  show ?thesis
    unfolding cron_next_ok_def using n next_multiple_le [of minute] by (auto simp: every_minute_def)
qed

section \<open>Properties\<close>

text \<open>
  The autoscaler never leaves its range: whatever the metrics and step sizes, overflow
  included, the value \<open>DesiredProcessingUnits\<close> asks for lies in the effective range when
  the status has been synced for the configured metrics, and is the current value when it
  has not.
\<close>

theorem desired_pu_in_range:
  assumes "effective_min sa \<le> effective_max sa"
    and "\<forall>(cpu, tgt) \<in> set (metric_pairs sa). tgt \<noteq> 0"
  shows "if metrics_synced sa
         then effective_min sa \<le> DesiredProcessingUnits gsv sa \<and>
              DesiredProcessingUnits gsv sa \<le> effective_max sa
         else DesiredProcessingUnits gsv sa = cur_pu sa"
proof (cases "metrics_synced sa")
  case True
  then obtain cpu tgt where "(cpu, tgt) \<in> set (metric_pairs sa)"
    "DesiredProcessingUnits gsv sa = DesiredPUFromCPU gsv cpu tgt sa"
    using DesiredProcessingUnits_max(1) [OF True, of gsv] by auto
  then show ?thesis using True assms DesiredPUFromCPU_clamped [of tgt sa gsv cpu] by auto
next
  case False
  then show ?thesis using DesiredProcessingUnits_unsynced [of sa gsv] by simp
qed

theorem desired_pu_in_range_witness:
  "1000 \<le> DesiredProcessingUnits sample_gsv sample_sa \<and> DesiredProcessingUnits sample_gsv sample_sa \<le> 10000"
  using desired_pu_in_range [of sample_sa sample_gsv] by (simp add: sample_metrics sample_range)

text \<open>
  C2. What one metric asks for, exactly: there is a least valid processing-unit value at
  which the predicted CPU is strictly below the target, and \<open>DesiredPUFromCPU\<close> returns
  that value, limited to one scale-up step above (rounded up to a multiple of 1000) or one
  scale-down step below the current value, clamped to the effective range.
\<close>

theorem desired_pu_least_below_target:
  assumes "scaling_ok gsv sa" "pu_range currentCPU" "0 < targetCPU"
  shows "\<exists>ideal. valid_pu ideal \<and> currentCPU * cur_pu sa < ideal * targetCPU \<and>
     (\<forall>p. valid_pu p \<and> currentCPU * cur_pu sa < p * targetCPU \<longrightarrow> ideal \<le> p) \<and>
     DesiredPUFromCPU gsv currentCPU targetCPU sa =
       clamp_range (effective_min sa) (effective_max sa)
         (if ideal \<le> cur_pu sa then max ideal (cur_pu sa - sd_step gsv sa)
          else if su_step gsv sa \<noteq> 0 \<and> cur_pu sa + su_step gsv sa < ideal
          then round_1000 (cur_pu sa + su_step gsv sa)
          else ideal)"
proof (intro exI conjI)
  let ?i = "ideal_pu currentCPU targetCPU (cur_pu sa)"
  have b: "0 \<le> currentCPU" "0 \<le> cur_pu sa"
    using assms(2) scaling_ok_cur [OF assms(1)] by (auto simp: pu_range_def)
  show "valid_pu ?i" using b assms(3) by (rule ideal_pu_valid)
  show "currentCPU * cur_pu sa < ?i * targetCPU" using b assms(3) by (rule ideal_pu_below_target)
  show "\<forall>p. valid_pu p \<and> currentCPU * cur_pu sa < p * targetCPU \<longrightarrow> ?i \<le> p"
    using ideal_pu_least assms(3) by blast
  have "limited_pu gsv sa ?i = (if ?i \<le> cur_pu sa then max ?i (cur_pu sa - sd_step gsv sa)
      else if su_step gsv sa \<noteq> 0 \<and> cur_pu sa + su_step gsv sa < ?i
      then round_1000 (cur_pu sa + su_step gsv sa) else ?i)"
    using limited_pu_up [OF assms(1), of ?i] limited_pu_down [OF assms(1), of ?i]
    by (cases "?i \<le> cur_pu sa") auto
  then show "DesiredPUFromCPU gsv currentCPU targetCPU sa =
     clamp_range (effective_min sa) (effective_max sa)
       (if ?i \<le> cur_pu sa then max ?i (cur_pu sa - sd_step gsv sa)
        else if su_step gsv sa \<noteq> 0 \<and> cur_pu sa + su_step gsv sa < ?i
        then round_1000 (cur_pu sa + su_step gsv sa) else ?i)"
    using DesiredPUFromCPU_eq [OF assms] by simp
qed

theorem desired_pu_least_below_target_witness:
  "DesiredPUFromCPU sample_gsv 75 60 sample_sa = 4000 \<and>
   (\<exists>ideal. valid_pu ideal \<and> 75 * 3000 < ideal * 60 \<and>
      (\<forall>p. valid_pu p \<and> 75 * 3000 < p * 60 \<longrightarrow> ideal \<le> p))"
proof
  show "DesiredPUFromCPU sample_gsv 75 60 sample_sa = 4000" by code_simp
  show "\<exists>ideal. valid_pu ideal \<and> 75 * 3000 < ideal * 60 \<and>
      (\<forall>p. valid_pu p \<and> 75 * 3000 < p * 60 \<longrightarrow> ideal \<le> p)"
    using desired_pu_least_below_target [OF sample_scaling_ok, of 75 60] unfolding sample_range
    by (auto simp: pu_range_def)
qed

text \<open>
  C9. Every value the autoscaler asks for is one Cloud Spanner accepts, when the current
  value and both ends of the effective range are.
\<close>

theorem desired_pu_valid:
  assumes "scaling_ok gsv sa" "valid_pu (cur_pu sa)"
    and "valid_pu (effective_min sa)" "valid_pu (effective_max sa)"
    and "\<forall>(cpu, tgt) \<in> set (metric_pairs sa). pu_range cpu \<and> 0 < tgt"
  shows "valid_pu (DesiredProcessingUnits gsv sa)"
proof (cases "metrics_synced sa")
  case True
  then obtain cpu tgt where "(cpu, tgt) \<in> set (metric_pairs sa)"
    "DesiredProcessingUnits gsv sa = DesiredPUFromCPU gsv cpu tgt sa"
    using DesiredProcessingUnits_max(1) [OF True, of gsv] by auto
  then show ?thesis using assms DesiredPUFromCPU_valid [of gsv sa cpu tgt] by auto
next
  case False
  then show ?thesis using DesiredProcessingUnits_unsynced [of sa gsv] assms(2) by simp
qed

theorem desired_pu_valid_witness: "valid_pu (DesiredProcessingUnits sample_gsv sample_sa)"
  by (rule desired_pu_valid [OF sample_scaling_ok]) (simp_all add: sample_metrics sample_range valid_pu_def pu_range_def)

text \<open>
  The direction of every decision, for one metric or two: inside its range and below
  its maximum the instance grows exactly when some configured metric is at or above its
  target, and it shrinks only when every configured metric is below its target. So with
  two metrics scale-out is an OR and scale-in an AND.
\<close>

theorem desired_pu_direction:
  assumes "scaling_ok gsv sa" "valid_pu (cur_pu sa)" "metrics_synced sa"
    and "\<forall>(cpu, tgt) \<in> set (metric_pairs sa). pu_range cpu \<and> 0 < tgt"
    and "effective_min sa \<le> cur_pu sa" "cur_pu sa \<le> effective_max sa"
  shows "(cur_pu sa < DesiredProcessingUnits gsv sa \<longleftrightarrow>
            cur_pu sa < effective_max sa \<and> (\<exists>(cpu, tgt) \<in> set (metric_pairs sa). tgt \<le> cpu)) \<and>
         (DesiredProcessingUnits gsv sa < cur_pu sa \<longrightarrow> (\<forall>(cpu, tgt) \<in> set (metric_pairs sa). cpu < tgt))"
proof -
  obtain c t where ct: "(c, t) \<in> set (metric_pairs sa)"
    "DesiredProcessingUnits gsv sa = DesiredPUFromCPU gsv c t sa"
    using DesiredProcessingUnits_max(1) [OF assms(3), of gsv] by auto
  note ge = DesiredProcessingUnits_max(2) [OF assms(3), of _ _ gsv]
  have up: "cur_pu sa < DesiredPUFromCPU gsv cpu tgt sa \<longleftrightarrow> tgt \<le> cpu \<and> cur_pu sa < effective_max sa"
    and dn: "tgt \<le> cpu \<Longrightarrow> cur_pu sa \<le> DesiredPUFromCPU gsv cpu tgt sa"
    if "(cpu, tgt) \<in> set (metric_pairs sa)" for cpu tgt
    using DesiredPUFromCPU_up_iff [of gsv sa cpu tgt] DesiredPUFromCPU_down [of gsv sa cpu tgt] that assms by auto
  have "cur_pu sa < DesiredProcessingUnits gsv sa \<longleftrightarrow>
      cur_pu sa < effective_max sa \<and> (\<exists>(cpu, tgt) \<in> set (metric_pairs sa). tgt \<le> cpu)"
    using ct up [OF ct(1)] up ge by fastforce
  moreover have "cpu < tgt"
    if "DesiredProcessingUnits gsv sa < cur_pu sa" "(cpu, tgt) \<in> set (metric_pairs sa)" for cpu tgt
    using that ge [OF that(2)] dn [OF that(2)] by linarith
  ultimately show ?thesis by auto
qed

theorem desired_pu_direction_witness: "3000 < DesiredProcessingUnits sample_gsv sample_sa"
  using desired_pu_direction [OF sample_scaling_ok]
  by (simp add: sample_metrics sample_range valid_pu_def pu_range_def)

text \<open>
  More load never asks for less: with everything else fixed, the value a metric asks
  for is monotone in the measured CPU.
\<close>

lemma desired_pu_monotone:
  assumes "scaling_ok gsv sa" "pu_range cpu" "pu_range cpu'" "0 < targetCPU" "cpu \<le> cpu'"
  shows "DesiredPUFromCPU gsv cpu targetCPU sa \<le> DesiredPUFromCPU gsv cpu' targetCPU sa"
proof -
  have "limited_pu gsv sa (ideal_pu cpu targetCPU (cur_pu sa)) \<le> limited_pu gsv sa (ideal_pu cpu' targetCPU (cur_pu sa))"
    using assms by (intro limited_pu_mono ideal_pu_mono) (auto simp: pu_range_def scaling_ok_def)
  then show ?thesis
    unfolding DesiredPUFromCPU_eq [OF assms(1,2,4)] DesiredPUFromCPU_eq [OF assms(1,3,4)]
    by (simp add: clamp_range_def Let_def)
qed

text \<open>
  C10. The effective range, exactly: the minimum is the configured one plus the additions of
  all active schedules, the maximum the configured one plus the additions of the schedules
  whose policy is (or defaults to) Exceed, each rounded up to a multiple of 1000 above
  1000; a minimum above the maximum is lowered to it and reported as capped, so a published
  range is never inverted. The order of the schedules does not matter.
\<close>

theorem desired_range_exact:
  assumes "range_ok sa"
  shows "\<exists>lo hi changed capped. DesiredPURange sa = (lo, hi, changed, capped) \<and>
     hi = round_1000 (schedules_max sa) \<and>
     lo = min (round_1000 (schedules_min sa)) hi \<and> lo \<le> hi \<and>
     (capped \<longleftrightarrow> hi < round_1000 (schedules_min sa)) \<and>
     (changed \<longleftrightarrow> \<not> (lo = DesiredMinPUs (sa_Status sa) \<and> hi = DesiredMaxPUs (sa_Status sa))) \<and>
     (\<forall>ss. mset ss = mset (CurrentlyActiveSchedules (sa_Status sa)) \<longrightarrow>
        DesiredPURange (sa\<lparr>sa_Status := (sa_Status sa)\<lparr>CurrentlyActiveSchedules := ss\<rparr>\<rparr>) = DesiredPURange sa)"
proof -
  have perm: "DesiredPURange (sa\<lparr>sa_Status := (sa_Status sa)\<lparr>CurrentlyActiveSchedules := ss\<rparr>\<rparr>) = DesiredPURange sa"
    if "mset ss = mset (CurrentlyActiveSchedules (sa_Status sa))" for ss
  proof -
    let ?sa = "sa\<lparr>sa_Status := (sa_Status sa)\<lparr>CurrentlyActiveSchedules := ss\<rparr>\<rparr>"
    have "sum_list (map as_AdditionalPU ss) = sum_list (map as_AdditionalPU (CurrentlyActiveSchedules (sa_Status sa)))"
      using that by (metis mset_map sum_mset_sum_list)
    moreover have "sum_list (map as_AdditionalPU (filter exceeds ss)) =
        sum_list (map as_AdditionalPU (filter exceeds (CurrentlyActiveSchedules (sa_Status sa))))"
      using that by (metis mset_filter mset_map sum_mset_sum_list)
    ultimately have e: "schedules_min ?sa = schedules_min sa" "schedules_max ?sa = schedules_max sa"
      by (simp_all add: schedules_min_def schedules_max_def)
    then have "range_ok ?sa" using assms by (simp add: range_ok_def)
    then show ?thesis using assms e by (simp add: DesiredPURange_eq Let_def)
  qed
  show ?thesis
    using perm DesiredPURange_eq [OF assms] by (auto simp: Let_def)
qed

definition sample_schedules :: "ActiveSchedule list" where
  "sample_schedules =
     [\<lparr>as_ScheduleName = ''ns/a'', as_EndTime = 9, as_AdditionalPU = 500, as_MaxPUPolicy = MaxPUPolicy_empty\<rparr>,
      \<lparr>as_ScheduleName = ''ns/b'', as_EndTime = 9, as_AdditionalPU = 20000, as_MaxPUPolicy = MaxPUPolicyCap\<rparr>]"

theorem desired_range_exact_witness:
  "DesiredPURange (sample_sa\<lparr>sa_Status := sample_status\<lparr>CurrentlyActiveSchedules := sample_schedules\<rparr>\<rparr>)
     = (11000, 11000, True, True) \<and>
   (\<exists>lo hi changed capped. DesiredPURange (sample_sa\<lparr>sa_Status := sample_status\<lparr>CurrentlyActiveSchedules := sample_schedules\<rparr>\<rparr>)
     = (lo, hi, changed, capped) \<and> lo \<le> hi)"
proof
  let ?sa = "sample_sa\<lparr>sa_Status := sample_status\<lparr>CurrentlyActiveSchedules := sample_schedules\<rparr>\<rparr>"
  show "DesiredPURange ?sa = (11000, 11000, True, True)" by code_simp
  have "range_ok ?sa" by code_simp
  then show "\<exists>lo hi changed capped. DesiredPURange ?sa = (lo, hi, changed, capped) \<and> lo \<le> hi"
    using desired_range_exact [of ?sa] by blast
qed

text \<open>
  Publishing the effective range settles: after the returned range is written to the
  status, recomputing it gives the same range and reports no further change. It holds for
  every resource, overflow included.
\<close>

lemma desired_range_settles:
  "case DesiredPURange sa of (lo, hi, changed, capped) \<Rightarrow>
     DesiredPURange (sa\<lparr>sa_Status := (sa_Status sa)\<lparr>DesiredMinPUs := lo, DesiredMaxPUs := hi\<rparr>\<rparr>) =
       (lo, hi, False, capped)"
  by (cases "add_schedules (CurrentlyActiveSchedules (sa_Status sa))
              (pus_Min (sc_ProcessingUnits (scale_config sa)),
               pus_Max (sc_ProcessingUnits (scale_config sa)))")
    (simp add: DesiredPURange_def Let_def)

text \<open>
  C5. When a change is applied, in terms of the clock and the calendar: \<open>Decide\<close> answers Scale
  if and only if the value differs, the time since the last scaling is at least the interval of
  the direction (that of the spec, or the default) and, for a scale-down, the current minute is
  a firing of an allowed expression if there are any and of no forbidden one, and not both
  kinds are given. An error is reported exactly for a scale-down with both kinds whose interval
  has elapsed; during the interval the misconfiguration stays unreported.
\<close>

theorem decide_scale_iff:
  assumes "\<forall>e s. parse e = Inr s \<longrightarrow> cron_next_ok (fires e) s" "minute < now"
  shows "let c = scale_config sa;
      wait = (if cur_pu sa < desiredPU then (case sc_ScaleupInterval c of None \<Rightarrow> up | Some d \<Rightarrow> d)
              else (case sc_ScaledownInterval c of None \<Rightarrow> down | Some d \<Rightarrow> d));
      elapsed = now - LastScaleTime (sa_Status sa);
      fired = (\<lambda>es. \<exists>e \<in> set es. (\<exists>s. parse e = Inr s) \<and> fires e (t_truncate now minute))
    in (fst (Decide parse sa desiredPU now up down) = DecisionScale \<longleftrightarrow>
          desiredPU \<noteq> cur_pu sa \<and> wait \<le> elapsed \<and>
          (desiredPU < cur_pu sa \<longrightarrow>
             (sc_ScaledownAllowedTimes c = [] \<or> sc_ScaledownNotAllowedTimes c = []) \<and>
             (sc_ScaledownAllowedTimes c = [] \<or> fired (sc_ScaledownAllowedTimes c)) \<and>
             \<not> fired (sc_ScaledownNotAllowedTimes c))) \<and>
       (snd (Decide parse sa desiredPU now up down) \<noteq> None \<longleftrightarrow>
          desiredPU < cur_pu sa \<and> wait \<le> elapsed \<and>
          sc_ScaledownAllowedTimes c \<noteq> [] \<and> sc_ScaledownNotAllowedTimes c \<noteq> [])"
proof -
  let ?c = "scale_config sa" and ?last = "LastScaleTime (sa_Status sa)"
  have win: "isTimeInCronSchedules parse es now \<longleftrightarrow>
      (\<exists>e \<in> set es. (\<exists>s. parse e = Inr s) \<and> fires e (t_truncate now minute))" for es
    using isTimeInCronSchedules_iff [of parse fires now] assms by blast
  have dur: "DurationOr x y = (case x of None \<Rightarrow> y | Some d \<Rightarrow> d)" for x y
    by (simp add: DurationOr_def)
  consider "desiredPU = cur_pu sa" | "cur_pu sa < desiredPU" | "desiredPU < cur_pu sa" by linarith
  then show ?thesis
  proof cases
    case 3
    let ?wait = "case sc_ScaledownInterval ?c of None \<Rightarrow> down | Some d \<Rightarrow> d"
    have "now < ?last + ?wait \<longleftrightarrow> \<not> ?wait \<le> now - ?last" by linarith
    with 3 show ?thesis unfolding Decide_def IsScaledownAllowed_def Let_def win dur by auto
  qed (auto simp: Decide_def dur Let_def)
qed

theorem decide_scale_iff_witness:
  "fst (Decide (\<lambda>e. Inr every_minute) (sample_sa\<lparr>sa_Spec := (sa_Spec sample_sa)\<lparr>ScaleConfig :=
        sample_config\<lparr>sc_ScaledownAllowedTimes := [''* * * * *'']\<rparr>\<rparr>\<rparr>) 2000 (60 * minute + 7) minute (55 * minute)) = DecisionScale"
  using decide_scale_iff [of "\<lambda>e. Inr every_minute" "\<lambda>e t. t mod minute = 0" "60 * minute + 7"
      "sample_sa\<lparr>sa_Spec := (sa_Spec sample_sa)\<lparr>ScaleConfig := sample_config\<lparr>sc_ScaledownAllowedTimes := [''* * * * *'']\<rparr>\<rparr>\<rparr>"
      2000 minute "55 * minute"] every_minute_ok
  by (simp add: sample_defs minute_def t_truncate_def Let_def)

text \<open>
  C11. Scale-down windows have minute granularity: with cron schedules that fire on whole
  minutes, scale-down is allowed at \<open>now\<close> exactly when the start of the current minute is
  a firing of some allowed expression, or of no forbidden one; expressions that do not
  parse match nothing.
\<close>

theorem scaledown_window_exact:
  assumes "\<forall>e s. parse e = Inr s \<longrightarrow> cron_next_ok (fires e) s" "minute < now"
    and "allowed = [] \<or> notAllowed = []"
  shows "IsScaledownAllowed parse allowed notAllowed now =
     Inr ((allowed \<noteq> [] \<longrightarrow>
             (\<exists>e \<in> set allowed. (\<exists>s. parse e = Inr s) \<and> fires e (t_truncate now minute))) \<and>
          \<not> (\<exists>e \<in> set notAllowed. (\<exists>s. parse e = Inr s) \<and> fires e (t_truncate now minute)))"
  using isTimeInCronSchedules_iff [of parse fires now] assms
  by (auto simp: IsScaledownAllowed_def)

theorem scaledown_window_exact_witness:
  "IsScaledownAllowed (\<lambda>e. if e = ''bad'' then Inl ''no'' else Inr every_minute) [''bad'', ''* * * * *''] []
     (5 * minute + 7) = Inr True"
  using scaledown_window_exact [of "\<lambda>e. if e = ''bad'' then Inl ''no'' else Inr every_minute"
      "\<lambda>e t. t mod minute = 0" "5 * minute + 7" "[''bad'', ''* * * * *'']" "[]"] every_minute_ok
  by (simp add: minute_def t_truncate_def)

end
