(* ===== verification/Autoscaler_Webhook.thy ===== *)
theory Autoscaler_Webhook
  imports Scaling
begin

text \<open>
  \<^verbatim>\<open>internal/webhook/v1beta1\<close>: the defaulting and validating admission webhooks of
  \<^verbatim>\<open>SpannerAutoscaler\<close> and \<^verbatim>\<open>SpannerAutoscaleSchedule\<close>. An object reaches the API
  server only if \<open>Default\<close> followed by \<open>ValidateCreate\<close> (or \<open>ValidateUpdate\<close>)
  accepts it.

  \<^verbatim>\<open>field.Error\<close> values are the datatype \<open>field_error\<close>, with the path, the rejected
  value and the detail text. \<^verbatim>\<open>validation.IsValidPercent\<close> (apimachinery),
  \<open>cron.Parse\<close> and \<^verbatim>\<open>time.ParseDuration\<close> are the parameters \<open>validPercent\<close>,
  \<open>parse\<close> and \<open>parseDuration\<close>.
\<close>

section \<open>Field errors\<close>

datatype path_elem = Child string | Index nat

datatype field_value =
    FV_int gint
  | FV_string string
  | FV_intstr IntOrString
  | FV_authentication Authentication
  | FV_instance TargetInstance
  | FV_time time

datatype field_error =
    FieldInvalid "path_elem list" field_value string
  | FieldRequired "path_elem list" string
  | FieldForbidden "path_elem list" string

datatype admission_error =
    AdmissionInvalid string "field_error list"
  | AdmissionOther string

definition path_scaleConfig :: "path_elem list" where
  "path_scaleConfig = [Child ''spec'', Child ''scaleConfig'']"

text \<open>A sequence of checks with early return: the first error is the result.\<close>

fun first_error :: "'e option list \<Rightarrow> 'e option" where
  "first_error [] = None"
| "first_error (Some e # cs) = Some e"
| "first_error (None # cs) = first_error cs"

section \<open>Defaulting\<close>

definition default_authentication :: "string \<Rightarrow> Authentication \<Rightarrow> Authentication" where
  "default_authentication ns a =
     (let a = a\<lparr>auth_Type := (if auth_IAMKeySecret a \<noteq> None then AuthTypeSA
                              else if auth_ImpersonateConfig a \<noteq> None then AuthTypeImpersonation
                              else AuthTypeADC)\<rparr>
      in case auth_IAMKeySecret a of
           Some s \<Rightarrow> (if auth_Type a = AuthTypeSA \<and> iks_Namespace s = []
                      then a\<lparr>auth_IAMKeySecret := Some (s\<lparr>iks_Namespace := ns\<rparr>)\<rparr> else a)
         | None \<Rightarrow> a)"

definition default_scaleConfig :: "ScaleConfig \<Rightarrow> ScaleConfig" where
  "default_scaleConfig sc =
     (let sc = (if sc_ProcessingUnits sc \<noteq> \<lparr>pus_Min = 0, pus_Max = 0\<rparr>
                then sc\<lparr>sc_ComputeType := ComputeTypePU\<rparr> else sc);
          sc = (if sc_Nodes sc \<noteq> \<lparr>nodes_Min = 0, nodes_Max = 0\<rparr>
                then sc\<lparr>sc_ComputeType := ComputeTypeNode,
                        sc_ProcessingUnits := \<lparr>pus_Min = gmul (nodes_Min (sc_Nodes sc)) 1000,
                                               pus_Max = gmul (nodes_Max (sc_Nodes sc)) 1000\<rparr>\<rparr>
                else sc)
      in if sc_ScaledownStepSize sc = intstr_zero
         then sc\<lparr>sc_ScaledownStepSize := intstr_FromInt 2000\<rparr> else sc)"

definition Default :: "SpannerAutoscaler \<Rightarrow> SpannerAutoscaler" where
  "Default obj =
     obj\<lparr>sa_Spec := (sa_Spec obj)\<lparr>
       Authentication := default_authentication (om_Namespace (sa_Meta obj)) (Authentication (sa_Spec obj)),
       ScaleConfig := default_scaleConfig (ScaleConfig (sa_Spec obj))\<rparr>\<rparr>"

section \<open>Validation of autoscalers\<close>

definition validateAuthentication :: "SpannerAutoscaler \<Rightarrow> field_error option" where
  "validateAuthentication r =
     (if auth_ImpersonateConfig (Authentication (sa_Spec r)) \<noteq> None \<and>
         auth_IAMKeySecret (Authentication (sa_Spec r)) \<noteq> None
      then Some (FieldInvalid [Child ''spec'', Child ''authentication'']
                   (FV_authentication (Authentication (sa_Spec r)))
                   '''impersonateConfig' and 'iamKeySecret' are mutually exclusive values'')
      else None)"

definition validateTargetCPUUtilization :: "TargetCPUUtilization \<Rightarrow> field_error option" where
  "validateTargetCPUUtilization cpu =
     (if cpu_HighPriority cpu = None \<and> cpu_Total cpu = None
      then Some (FieldRequired (path_scaleConfig @ [Child ''targetCPUUtilization''])
                   ''at least one of 'highPriority' or 'total' must be specified'')
      else None)"

definition validateProcessingUnits :: "gint \<Rightarrow> path_elem list \<Rightarrow> field_error option" where
  "validateProcessingUnits pu fldPath =
     (if pu \<ge> 1000 \<and> grem pu 1000 \<noteq> 0
      then Some (FieldInvalid fldPath (FV_int pu)
                   ''processing units which are greater than 1000, should be multiples of 1000'')
      else None)"

definition check_nodes :: "ScaleConfig \<Rightarrow> field_error option" where
  "check_nodes sc =
     (if sc_Nodes sc \<noteq> \<lparr>nodes_Min = 0, nodes_Max = 0\<rparr> \<and> nodes_Max (sc_Nodes sc) < nodes_Min (sc_Nodes sc)
      then Some (FieldInvalid (path_scaleConfig @ [Child ''nodes'', Child ''max''])
                   (FV_int (nodes_Max (sc_Nodes sc))) '''max' value must be less than 'min' value'')
      else None)"

definition check_processingUnits :: "ScaleConfig \<Rightarrow> field_error option" where
  "check_processingUnits sc =
     (if sc_ProcessingUnits sc \<noteq> \<lparr>pus_Min = 0, pus_Max = 0\<rparr>
      then (if pus_Max (sc_ProcessingUnits sc) < pus_Min (sc_ProcessingUnits sc)
            then Some (FieldInvalid (path_scaleConfig @ [Child ''processingUnits'', Child ''max''])
                         (FV_int (nodes_Max (sc_Nodes sc))) '''max' value must be less than 'min' value'')
            else first_error
              [validateProcessingUnits (pus_Min (sc_ProcessingUnits sc))
                 (path_scaleConfig @ [Child ''processingUnits'', Child ''min'']),
               validateProcessingUnits (pus_Max (sc_ProcessingUnits sc))
                 (path_scaleConfig @ [Child ''processingUnits'', Child ''max''])])
      else None)"

fun join_messages :: "string list \<Rightarrow> string" where
  "join_messages [] = []"
| "join_messages [m] = m"
| "join_messages (m # ms) = m @ '', '' @ join_messages ms"

definition check_stepSize :: "(string \<Rightarrow> string list) \<Rightarrow> string \<Rightarrow> IntOrString \<Rightarrow> field_error option" where
  "check_stepSize validPercent name s =
     (let path = path_scaleConfig @ [Child name]
      in if ios_Type s = intstr_Int then
           (if ios_IntVal s > 1000 \<and> grem (ios_IntVal s) 1000 \<noteq> 0
            then Some (FieldInvalid path (FV_intstr s)
                         ''must be a multiple of 1000 for values which are greater than 1000'')
            else if ios_IntVal s < 1000 \<and> grem (ios_IntVal s) 100 \<noteq> 0
            then Some (FieldInvalid path (FV_intstr s)
                         ''must be a multiple of 100 for values which are less than 1000'')
            else None)
         else if ios_Type s = intstr_String then
           (let msg = validPercent (ios_StrVal s)
            in if length msg \<noteq> 0 then Some (FieldInvalid path (FV_intstr s) (join_messages msg)) else None)
         else Some (FieldInvalid path (FV_intstr s) ''must be an integer or percentage (e.g '5%')''))"

definition check_windows :: "ScaleConfig \<Rightarrow> field_error option" where
  "check_windows sc =
     (if length (sc_ScaledownAllowedTimes sc) > 0 \<and> length (sc_ScaledownNotAllowedTimes sc) > 0
      then Some (FieldForbidden path_scaleConfig
                   ''scaledownAllowedTimes and scaledownNotAllowedTimes cannot be specified together'')
      else None)"

fun check_crons :: "cron_parser \<Rightarrow> string \<Rightarrow> nat \<Rightarrow> string list \<Rightarrow> field_error option" where
  "check_crons parse name i [] = None"
| "check_crons parse name i (cronExpr # cronExprs) =
     (case parse cronExpr of
        Inl err \<Rightarrow> Some (FieldInvalid (path_scaleConfig @ [Child name, Index i]) (FV_string cronExpr)
                           (''invalid cron expression: '' @ err))
      | Inr _ \<Rightarrow> check_crons parse name (Suc i) cronExprs)"

definition validateScaleConfig ::
    "(string \<Rightarrow> string list) \<Rightarrow> cron_parser \<Rightarrow> SpannerAutoscaler \<Rightarrow> field_error option" where
  "validateScaleConfig validPercent parse r =
     (let sc = ScaleConfig (sa_Spec r)
      in first_error
        [validateTargetCPUUtilization (sc_TargetCPUUtilization sc),
         check_nodes sc,
         check_processingUnits sc,
         check_stepSize validPercent ''scaledownStepSize'' (sc_ScaledownStepSize sc),
         check_stepSize validPercent ''scaleupStepSize'' (sc_ScaleupStepSize sc),
         check_windows sc,
         check_crons parse ''scaledownAllowedTimes'' 0 (sc_ScaledownAllowedTimes sc),
         check_crons parse ''scaledownNotAllowedTimes'' 0 (sc_ScaledownNotAllowedTimes sc)])"

definition option_list :: "'a option \<Rightarrow> 'a list" where
  "option_list x = (case x of None \<Rightarrow> [] | Some v \<Rightarrow> [v])"

definition validateSpec ::
    "(string \<Rightarrow> string list) \<Rightarrow> cron_parser \<Rightarrow> SpannerAutoscaler \<Rightarrow> field_error list" where
  "validateSpec validPercent parse r =
     option_list (validateAuthentication r) @ option_list (validateScaleConfig validPercent parse r)"

definition invalid_or_ok :: "string \<Rightarrow> field_error list \<Rightarrow> admission_error option" where
  "invalid_or_ok name errs = (if length errs = 0 then None else Some (AdmissionInvalid name errs))"

definition ValidateSpec ::
    "(string \<Rightarrow> string list) \<Rightarrow> cron_parser \<Rightarrow> SpannerAutoscaler \<Rightarrow> admission_error option" where
  "ValidateSpec validPercent parse r = invalid_or_ok (om_Name (sa_Meta r)) (validateSpec validPercent parse r)"

definition ValidateCreate ::
    "(string \<Rightarrow> string list) \<Rightarrow> cron_parser \<Rightarrow> SpannerAutoscaler \<Rightarrow> admission_error option" where
  "ValidateCreate validPercent parse obj =
     invalid_or_ok (om_Name (sa_Meta obj)) (validateSpec validPercent parse obj)"

definition ValidateUpdate ::
    "(string \<Rightarrow> string list) \<Rightarrow> cron_parser \<Rightarrow> SpannerAutoscaler option \<Rightarrow> SpannerAutoscaler \<Rightarrow> admission_error option" where
  "ValidateUpdate validPercent parse oldObj newObj =
     (case oldObj of
        None \<Rightarrow> Some (AdmissionOther ''expected old SpannerAutoscaler but got nil'')
      | Some old \<Rightarrow>
          invalid_or_ok (om_Name (sa_Meta newObj))
            ((if TargetInstance (sa_Spec old) \<noteq> TargetInstance (sa_Spec newObj)
              then [FieldInvalid [Child ''spec'', Child ''targetInstance'']
                      (FV_instance (TargetInstance (sa_Spec newObj)))
                      '''targetInstance' is not allowed to be changed after resource has been created'']
              else []) @ validateSpec validPercent parse newObj))"

definition ValidateDelete :: "SpannerAutoscaler \<Rightarrow> admission_error option" where
  "ValidateDelete obj = None"

section \<open>Validation of schedules\<close>

definition validateSchedule ::
    "cron_parser \<Rightarrow> (string \<Rightarrow> string + duration) \<Rightarrow> SpannerAutoscaleSchedule \<Rightarrow> field_error list" where
  "validateSchedule parse parseDuration r =
     (case parse (sched_Cron (sas_Schedule (sas_Spec r))) of
        Inl err \<Rightarrow> [FieldInvalid [Child ''spec'', Child ''schedule'', Child ''cron'']
                      (FV_string (sched_Cron (sas_Schedule (sas_Spec r)))) err]
      | Inr _ \<Rightarrow> []) @
     (case parseDuration (sched_Duration (sas_Schedule (sas_Spec r))) of
        Inl err \<Rightarrow> [FieldInvalid [Child ''spec'', Child ''schedule'', Child ''duration'']
                      (FV_string (sched_Duration (sas_Schedule (sas_Spec r)))) err]
      | Inr _ \<Rightarrow> [])"

definition ScheduleValidateCreate ::
    "cron_parser \<Rightarrow> (string \<Rightarrow> string + duration) \<Rightarrow> SpannerAutoscaleSchedule \<Rightarrow> admission_error option" where
  "ScheduleValidateCreate parse parseDuration obj =
     invalid_or_ok (om_Name (sas_Meta obj)) (validateSchedule parse parseDuration obj)"

definition ScheduleValidateUpdate ::
    "cron_parser \<Rightarrow> (string \<Rightarrow> string + duration) \<Rightarrow> SpannerAutoscaleSchedule option \<Rightarrow>
     SpannerAutoscaleSchedule \<Rightarrow> admission_error option" where
  "ScheduleValidateUpdate parse parseDuration oldObj newObj =
     (case oldObj of
        None \<Rightarrow> Some (AdmissionOther ''expected old SpannerAutoscaleSchedule but got nil'')
      | Some old \<Rightarrow>
          invalid_or_ok (om_Name (sas_Meta newObj))
            ((if sas_TargetResource (sas_Spec old) \<noteq> sas_TargetResource (sas_Spec newObj)
              then [FieldInvalid [Child ''spec'', Child ''targetResource'']
                      (FV_string (sas_TargetResource (sas_Spec newObj)))
                      '''targetResource' can not be changed after resource has been created'']
              else []) @ validateSchedule parse parseDuration newObj))"

definition ScheduleValidateDelete :: "SpannerAutoscaleSchedule \<Rightarrow> admission_error option" where
  "ScheduleValidateDelete obj = None"

section \<open>Lemmas\<close>

lemma first_error_None_iff [simp]: "first_error cs = None \<longleftrightarrow> (\<forall>c \<in> set cs. c = None)"
  by (induction cs rule: first_error.induct) auto

lemma check_crons_None_iff: "check_crons parse name i es = None \<longleftrightarrow> (\<forall>e \<in> set es. \<exists>s. parse e = Inr s)"
  by (induction es arbitrary: i) (auto split: sum.splits)

lemma option_list_Nil [simp]: "option_list x = [] \<longleftrightarrow> x = None"
  by (cases x) (simp_all add: option_list_def)

lemma invalid_or_ok_None [simp]: "invalid_or_ok n errs = None \<longleftrightarrow> errs = []"
  by (simp add: invalid_or_ok_def)

lemma FromInt_2000: "intstr_FromInt 2000 \<noteq> intstr_zero" "ios_Type (intstr_FromInt 2000) = intstr_Int"
  "ios_IntVal (intstr_FromInt 2000) = 2000"
  by (simp_all add: intstr_FromInt_def intstr_zero_def in_int32_def)

lemma default_scaleConfig_idem [simp]: "default_scaleConfig (default_scaleConfig sc) = default_scaleConfig sc"
proof -
  let ?pu = "sc_ProcessingUnits sc = \<lparr>pus_Min = 0, pus_Max = 0\<rparr>"
    and ?n = "sc_Nodes sc = \<lparr>nodes_Min = 0, nodes_Max = 0\<rparr>"
    and ?s = "sc_ScaledownStepSize sc = intstr_zero"
  show ?thesis
    by (cases ?pu; cases ?n; cases ?s) (simp_all add: default_scaleConfig_def FromInt_2000(1))
qed

lemma default_authentication_idem [simp]:
  "default_authentication ns (default_authentication ns a) = default_authentication ns a"
  by (cases "auth_IAMKeySecret a"; cases "auth_ImpersonateConfig a")
    (simp_all add: default_authentication_def Let_def)

text \<open>What the checks let through, field by field.\<close>

definition step_on_grid :: "(string \<Rightarrow> string list) \<Rightarrow> IntOrString \<Rightarrow> bool" where
  "step_on_grid validPercent s \<longleftrightarrow>
     (ios_Type s = intstr_Int \<and>
        (ios_IntVal s > 1000 \<longrightarrow> ios_IntVal s mod 1000 = 0) \<and>
        (ios_IntVal s < 1000 \<longrightarrow> ios_IntVal s mod 100 = 0)) \<or>
     (ios_Type s = intstr_String \<and> validPercent (ios_StrVal s) = [])"

definition config_accepted :: "(string \<Rightarrow> string list) \<Rightarrow> cron_parser \<Rightarrow> ScaleConfig \<Rightarrow> bool" where
  "config_accepted validPercent parse sc \<longleftrightarrow>
     (cpu_HighPriority (sc_TargetCPUUtilization sc) \<noteq> None \<or> cpu_Total (sc_TargetCPUUtilization sc) \<noteq> None) \<and>
     nodes_Min (sc_Nodes sc) \<le> nodes_Max (sc_Nodes sc) \<and>
     pus_Min (sc_ProcessingUnits sc) \<le> pus_Max (sc_ProcessingUnits sc) \<and>
     (1000 \<le> pus_Min (sc_ProcessingUnits sc) \<longrightarrow> pus_Min (sc_ProcessingUnits sc) mod 1000 = 0) \<and>
     (1000 \<le> pus_Max (sc_ProcessingUnits sc) \<longrightarrow> pus_Max (sc_ProcessingUnits sc) mod 1000 = 0) \<and>
     step_on_grid validPercent (sc_ScaledownStepSize sc) \<and> step_on_grid validPercent (sc_ScaleupStepSize sc) \<and>
     (sc_ScaledownAllowedTimes sc = [] \<or> sc_ScaledownNotAllowedTimes sc = []) \<and>
     (\<forall>e \<in> set (sc_ScaledownAllowedTimes sc) \<union> set (sc_ScaledownNotAllowedTimes sc). \<exists>s. parse e = Inr s)"

lemma smod_eq_0_iff: "0 < k \<Longrightarrow> x smod k = 0 \<longleftrightarrow> x mod k = (0::int)"
  by (auto simp: signed_modulo_int_def sgn_0_0 mod_eq_0_iff_dvd)

lemma check_stepSize_None_iff:
  "check_stepSize validPercent name s = None \<longleftrightarrow> step_on_grid validPercent s"
  by (auto simp: check_stepSize_def step_on_grid_def Let_def grem_def smod_eq_0_iff
      intstr_Int_def intstr_String_def)

lemma check_processingUnits_None_iff:
  "check_processingUnits sc = None \<longleftrightarrow>
     pus_Min (sc_ProcessingUnits sc) \<le> pus_Max (sc_ProcessingUnits sc) \<and>
     (1000 \<le> pus_Min (sc_ProcessingUnits sc) \<longrightarrow> pus_Min (sc_ProcessingUnits sc) mod 1000 = 0) \<and>
     (1000 \<le> pus_Max (sc_ProcessingUnits sc) \<longrightarrow> pus_Max (sc_ProcessingUnits sc) mod 1000 = 0)"
proof (cases "sc_ProcessingUnits sc = \<lparr>pus_Min = 0, pus_Max = 0\<rparr>")
  case True
  then show ?thesis by (simp add: check_processingUnits_def)
next
  case False
  then show ?thesis
    by (auto simp: check_processingUnits_def validateProcessingUnits_def grem_def smod_eq_0_iff)
qed

lemma check_nodes_None_iff: "check_nodes sc = None \<longleftrightarrow> nodes_Min (sc_Nodes sc) \<le> nodes_Max (sc_Nodes sc)"
  by (cases "sc_Nodes sc = \<lparr>nodes_Min = 0, nodes_Max = 0\<rparr>") (auto simp: check_nodes_def)

lemma validateScaleConfig_None_iff:
  "validateScaleConfig validPercent parse r = None \<longleftrightarrow> config_accepted validPercent parse (ScaleConfig (sa_Spec r))"
  by (auto simp: validateScaleConfig_def config_accepted_def Let_def check_stepSize_None_iff
      check_processingUnits_None_iff check_nodes_None_iff check_crons_None_iff
      validateTargetCPUUtilization_def check_windows_def)

section \<open>Admitted autoscalers\<close>

text \<open>
  The constraints the CRD schema itself puts on the fields (kubebuilder markers of
  \<^verbatim>\<open>api/v1beta1\<close>): processing units are multiples of 100, CPU targets lie strictly
  between 0 and 100.
\<close>

definition crd_schema :: "ScaleConfig \<Rightarrow> bool" where
  "crd_schema sc \<longleftrightarrow>
     pus_Min (sc_ProcessingUnits sc) mod 100 = 0 \<and> pus_Max (sc_ProcessingUnits sc) mod 100 = 0 \<and>
     (\<forall>t. cpu_HighPriority (sc_TargetCPUUtilization sc) = Some t \<or> cpu_Total (sc_TargetCPUUtilization sc) = Some t
        \<longrightarrow> 0 < t \<and> t < 100)"

text \<open>The range published in the status, as the reconciler writes it before it decides.\<close>

definition publish_range :: "SpannerAutoscaler \<Rightarrow> SpannerAutoscaler" where
  "publish_range sa =
     (case DesiredPURange sa of
        (lo, hi, changed, capped) \<Rightarrow>
          (if changed then sa\<lparr>sa_Status := (sa_Status sa)\<lparr>DesiredMinPUs := lo, DesiredMaxPUs := hi\<rparr>\<rparr> else sa))"

lemma publish_range_eq:
  assumes "DesiredPURange sa = (lo, hi, changed, capped)"
  shows "publish_range sa = sa\<lparr>sa_Status := (sa_Status sa)\<lparr>DesiredMinPUs := lo, DesiredMaxPUs := hi\<rparr>\<rparr>"
proof -
  have "changed \<longleftrightarrow> \<not> (lo = DesiredMinPUs (sa_Status sa) \<and> hi = DesiredMaxPUs (sa_Status sa))"
    using assms by (auto simp: DesiredPURange_def Let_def split: prod.splits if_splits)
  then show ?thesis using assms by (simp add: publish_range_def)
qed

lemma round_1000_valid_id: "valid_pu x \<Longrightarrow> round_1000 x = x"
  using valid_pu_mod_1000 [of x] by (auto simp: round_1000_def)

lemma accepted_range:
  assumes "config_accepted validPercent parse (scale_config sa)" "crd_schema (scale_config sa)"
    and "0 < pus_Min (sc_ProcessingUnits (scale_config sa))"
    and "pus_Max (sc_ProcessingUnits (scale_config sa)) < 2 ^ 31"
    and "CurrentlyActiveSchedules (sa_Status sa) = []"
  shows "effective_min (publish_range sa) = pus_Min (sc_ProcessingUnits (scale_config sa))"
    and "effective_max (publish_range sa) = pus_Max (sc_ProcessingUnits (scale_config sa))"
    and "valid_pu (pus_Min (sc_ProcessingUnits (scale_config sa)))"
    and "valid_pu (pus_Max (sc_ProcessingUnits (scale_config sa)))"
proof -
  let ?lo = "pus_Min (sc_ProcessingUnits (scale_config sa))" and ?hi = "pus_Max (sc_ProcessingUnits (scale_config sa))"
  have v: "valid_pu ?lo" "valid_pu ?hi" "?lo \<le> ?hi"
    using assms by (auto simp: config_accepted_def crd_schema_def valid_pu_def)
  have "schedules_min sa = ?lo" "schedules_max sa = ?hi"
    using assms(5) by (simp_all add: schedules_min_def schedules_max_def)
  moreover have "range_ok sa" using calculation assms v by (simp add: range_ok_def in_int64_def)
  ultimately obtain ch where "DesiredPURange sa = (?lo, ?hi, ch, False)"
    using v by (auto simp: DesiredPURange_eq Let_def round_1000_valid_id)
  then have "publish_range sa = sa\<lparr>sa_Status := (sa_Status sa)\<lparr>DesiredMinPUs := ?lo, DesiredMaxPUs := ?hi\<rparr>\<rparr>"
    by (rule publish_range_eq)
  then show "effective_min (publish_range sa) = ?lo" "effective_max (publish_range sa) = ?hi"
    using assms(3) v(3) by (simp_all add: effective_min_def effective_max_def)
  show "valid_pu ?lo" "valid_pu ?hi" using v by auto
qed

lemma publish_range_fields:
  "sa_Spec (publish_range sa) = sa_Spec sa" "cur_pu (publish_range sa) = cur_pu sa"
  "metric_pairs (publish_range sa) = metric_pairs sa" "metrics_synced (publish_range sa) = metrics_synced sa"
  "scaling_ok gsv (publish_range sa) = scaling_ok gsv sa" "LastScaleTime (sa_Status (publish_range sa)) = LastScaleTime (sa_Status sa)"
  by (simp_all add: publish_range_def metric_pairs_def metrics_synced_def scaling_ok_def Let_def split: prod.splits option.splits)

lemma crd_targets:
  assumes "crd_schema (scale_config sa)" "(cpu, tgt) \<in> set (metric_pairs sa)"
  shows "0 < tgt"
  using assms by (auto simp: crd_schema_def metric_pairs_def Let_def split: option.splits)

text \<open>The desired value of an admitted object, used here and by the controller.\<close>

lemma admitted_desired:
  assumes "ValidateCreate validPercent parse (Default obj) = None"
    and "crd_schema (ScaleConfig (sa_Spec (Default obj)))" "sa_Spec sa = sa_Spec (Default obj)"
    and "0 < pus_Min (sc_ProcessingUnits (scale_config sa))"
    and "pus_Max (sc_ProcessingUnits (scale_config sa)) < 2 ^ 31"
    and "CurrentlyActiveSchedules (sa_Status sa) = []"
    and "scaling_ok gsv sa" "valid_pu (cur_pu sa)" "\<forall>(cpu, tgt) \<in> set (metric_pairs sa). pu_range cpu"
  shows "valid_pu (DesiredProcessingUnits gsv (publish_range sa)) \<and>
     (metrics_synced sa \<longrightarrow>
        pus_Min (sc_ProcessingUnits (scale_config sa)) \<le> DesiredProcessingUnits gsv (publish_range sa) \<and>
        DesiredProcessingUnits gsv (publish_range sa) \<le> pus_Max (sc_ProcessingUnits (scale_config sa))) \<and>
     snd (Decide parse (publish_range sa) d now up down) = None"
proof -
  have acc: "config_accepted validPercent parse (scale_config sa)"
    using assms(1,3) by (simp add: ValidateCreate_def validateSpec_def validateScaleConfig_None_iff)
  have crd: "crd_schema (scale_config sa)" using assms(2,3) by simp
  note r = accepted_range [OF acc crd assms(4-6)]
  let ?p = "publish_range sa"
  have pairs: "pu_range cpu \<and> 0 < tgt" if "(cpu, tgt) \<in> set (metric_pairs ?p)" for cpu tgt
    using that assms(9) crd_targets [OF crd] by (auto simp: publish_range_fields)
  have le: "effective_min ?p \<le> effective_max ?p" using acc r by (simp add: config_accepted_def)
  have "valid_pu (DesiredProcessingUnits gsv ?p) \<and> (metrics_synced ?p \<longrightarrow>
      effective_min ?p \<le> DesiredProcessingUnits gsv ?p \<and> DesiredProcessingUnits gsv ?p \<le> effective_max ?p)"
  proof (cases "metrics_synced ?p")
    case True
    then obtain cpu tgt where m: "(cpu, tgt) \<in> set (metric_pairs ?p)"
      "DesiredProcessingUnits gsv ?p = DesiredPUFromCPU gsv cpu tgt ?p"
      using DesiredProcessingUnits_max(1) [OF True, of gsv] by auto
    then show ?thesis
      using DesiredPUFromCPU_valid [of gsv ?p cpu tgt] DesiredPUFromCPU_clamped [of tgt ?p gsv cpu]
        pairs [OF m(1)] assms(7,8) r le by (auto simp: publish_range_fields)
  next
    case False
    then show ?thesis
      using DesiredProcessingUnits_unsynced [of ?p gsv] assms(8) by (simp add: publish_range_fields)
  qed
  moreover have "snd (Decide parse ?p d now up down) = None"
    using acc by (auto simp: Decide_def IsScaledownAllowed_def config_accepted_def Let_def publish_range_fields
        split: sum.splits)
  ultimately show ?thesis using r by (simp add: publish_range_fields)
qed

section \<open>Properties\<close>

text \<open>
  Defaulting is idempotent: admitting an object again, as every update does, changes
  nothing that the first admission set.
\<close>

lemma default_idempotent: "Default (Default obj) = Default obj"
  by (simp add: Default_def)

text \<open>An object scaled on its total CPU target only.\<close>

definition total_only :: "SpannerAutoscaler \<Rightarrow> SpannerAutoscaler" where
  "total_only obj = obj\<lparr>sa_Spec := (sa_Spec obj)\<lparr>ScaleConfig := (ScaleConfig (sa_Spec obj))\<lparr>sc_TargetCPUUtilization :=
     (sc_TargetCPUUtilization (ScaleConfig (sa_Spec obj)))\<lparr>cpu_HighPriority := None\<rparr>\<rparr>\<rparr>\<rparr>"

text \<open>
  C13. What the webhook admits, and where this is not what the README says. An update is
  admitted exactly when it keeps the target instance and the new object has at most one kind of
  credentials, a CPU target of either kind, ordered ranges on the grid of Spanner from 1000 on,
  step sizes on the grid or valid percentages, at most one kind of scale-down window and only
  cron expressions that parse. The README (the note on dual CPU scaling and the migration to
  0.7) says that \<^verbatim>\<open>highPriority\<close> is required and that a configuration with \<^verbatim>\<open>total\<close> only is
  rejected by the webhook. It is not: an admitted object with a total target is still admitted
  when its high-priority target is removed.
\<close>

theorem update_admitted_iff:
  "(ValidateUpdate validPercent parse (Some old) obj = None \<longleftrightarrow>
     TargetInstance (sa_Spec old) = TargetInstance (sa_Spec obj) \<and>
     (auth_ImpersonateConfig (Authentication (sa_Spec obj)) = None \<or>
      auth_IAMKeySecret (Authentication (sa_Spec obj)) = None) \<and>
     config_accepted validPercent parse (ScaleConfig (sa_Spec obj))) \<and>
   (ValidateUpdate validPercent parse (Some old) obj = None \<longrightarrow>
     cpu_Total (sc_TargetCPUUtilization (ScaleConfig (sa_Spec obj))) \<noteq> None \<longrightarrow>
     ValidateUpdate validPercent parse (Some old) (total_only obj) = None)"
proof -
  have iff: "ValidateUpdate validPercent parse (Some old) x = None \<longleftrightarrow>
     TargetInstance (sa_Spec old) = TargetInstance (sa_Spec x) \<and>
     (auth_ImpersonateConfig (Authentication (sa_Spec x)) = None \<or> auth_IAMKeySecret (Authentication (sa_Spec x)) = None) \<and>
     config_accepted validPercent parse (ScaleConfig (sa_Spec x))" for x
    by (auto simp: ValidateUpdate_def validateSpec_def validateAuthentication_def validateScaleConfig_None_iff)
  show ?thesis unfolding iff by (auto simp: total_only_def config_accepted_def)
qed

theorem update_admitted_iff_witness:
  "ValidateUpdate (\<lambda>s. []) (\<lambda>e. Inl e) (Some sample_sa)
     (total_only (sample_sa\<lparr>sa_Spec := sample_spec\<lparr>ScaleConfig :=
        sample_config\<lparr>sc_TargetCPUUtilization := \<lparr>cpu_HighPriority = Some 60, cpu_Total = Some 65\<rparr>\<rparr>\<rparr>\<rparr>)) = None"
proof -
  let ?obj = "sample_sa\<lparr>sa_Spec := sample_spec\<lparr>ScaleConfig :=
        sample_config\<lparr>sc_TargetCPUUtilization := \<lparr>cpu_HighPriority = Some 60, cpu_Total = Some 65\<rparr>\<rparr>\<rparr>\<rparr>"
  have "ValidateUpdate (\<lambda>s. []) (\<lambda>e. Inl e) (Some sample_sa) ?obj = None" by code_simp
  then show ?thesis using update_admitted_iff [of "\<lambda>s. []" "\<lambda>e. Inl e" sample_sa ?obj] by simp
qed

end
