(* ===== verification/Observability.thy ===== *)
theory Observability
  imports Api_Types
begin

text \<open>
  \<^verbatim>\<open>internal/observability/metrics.go\<close>: which Prometheus series each recording function
  writes. The metric vectors are objects of the Prometheus library; a recording function is
  modelled by the list of calls it makes on them, in order (\<open>Set\<close>, \<open>Inc\<close>, \<open>Observe\<close>,
  \<open>DeletePartialMatch\<close>), each with the vector, the label values and the number. Numbers
  the source converts with \<^verbatim>\<open>float64(..)\<close> are the integers before the conversion;
  durations are nanoseconds.
\<close>

section \<open>Labels and vectors\<close>

record Labels =
  l_Namespace :: string
  l_Name :: string
  l_ProjectID :: string
  l_InstanceID :: string

datatype metric_vec =
    V_currentProcessingUnits | V_desiredProcessingUnits | V_minProcessingUnits
  | V_maxProcessingUnits | V_effectiveMinProcessingUnits | V_effectiveMaxProcessingUnits
  | V_cpuUtilization | V_cpuUtilizationTarget | V_instanceReady | V_activeSchedules
  | V_activeScheduleAdditionalPU | V_lastScaleTimestamp | V_lastSyncTimestamp
  | V_scheduleActivationsTotal | V_scheduleDeactivationsTotal | V_scaleEventsTotal
  | V_scaleSkippedTotal | V_scalePUDelta | V_instanceUpdateTotal
  | V_instanceUpdateDurationSeconds | V_metricsFetchTotal | V_metricsFetchDurationSeconds
  | V_manualScalingActive | V_manualScalingTargetPU | V_manualScalingHistoryEvicted

datatype vec_op =
    OpSet metric_vec "string list" int
  | OpInc metric_vec "string list"
  | OpObserve metric_vec "string list" int
  | OpDeletePartialMatch metric_vec "(string \<times> string) list"

definition identityLabels :: "string list" where
  "identityLabels = [''namespace'', ''name'', ''project_id'', ''instance_id'']"

fun vec_labels :: "metric_vec \<Rightarrow> string list" where
  "vec_labels V_cpuUtilization = identityLabels @ [''type'']"
| "vec_labels V_cpuUtilizationTarget = identityLabels @ [''type'']"
| "vec_labels V_scheduleDeactivationsTotal = identityLabels @ [''reason'']"
| "vec_labels V_scaleEventsTotal = identityLabels @ [''direction'', ''driver'']"
| "vec_labels V_scaleSkippedTotal = identityLabels @ [''reason'']"
| "vec_labels V_scalePUDelta = identityLabels @ [''direction'']"
| "vec_labels V_instanceUpdateTotal = identityLabels @ [''result'']"
| "vec_labels V_metricsFetchTotal = identityLabels @ [''result'']"
| "vec_labels V_manualScalingActive = identityLabels @ [''ramp'']"
| "vec_labels V_manualScalingTargetPU = identityLabels @ [''ramp'']"
| "vec_labels V_manualScalingHistoryEvicted = [''namespace'']"
| "vec_labels _ = identityLabels"

definition LabelsForAutoscaler :: "SpannerAutoscaler \<Rightarrow> Labels" where
  "LabelsForAutoscaler sa =
     \<lparr>l_Namespace = om_Namespace (sa_Meta sa), l_Name = om_Name (sa_Meta sa),
      l_ProjectID = ti_ProjectID (TargetInstance (sa_Spec sa)),
      l_InstanceID = ti_InstanceID (TargetInstance (sa_Spec sa))\<rparr>"

definition LabelsFor :: "NamespacedName \<Rightarrow> string \<Rightarrow> string \<Rightarrow> Labels" where
  "LabelsFor nn projectID instanceID =
     \<lparr>l_Namespace = nn_Namespace nn, l_Name = nn_Name nn,
      l_ProjectID = projectID, l_InstanceID = instanceID\<rparr>"

definition label_values :: "Labels \<Rightarrow> string list" where
  "label_values l = [l_Namespace l, l_Name l, l_ProjectID l, l_InstanceID l]"

definition partialMatch :: "Labels \<Rightarrow> (string \<times> string) list" where
  "partialMatch l = [(''namespace'', l_Namespace l), (''name'', l_Name l),
                     (''project_id'', l_ProjectID l), (''instance_id'', l_InstanceID l)]"

definition withExtra :: "Labels \<Rightarrow> string list \<Rightarrow> string list" where
  "withExtra l extra = label_values l @ extra"

definition allVectors :: "metric_vec list" where
  "allVectors =
     [V_currentProcessingUnits, V_desiredProcessingUnits, V_minProcessingUnits, V_maxProcessingUnits,
      V_effectiveMinProcessingUnits, V_effectiveMaxProcessingUnits, V_cpuUtilization,
      V_cpuUtilizationTarget, V_instanceReady, V_activeSchedules, V_activeScheduleAdditionalPU,
      V_lastScaleTimestamp, V_lastSyncTimestamp, V_scheduleActivationsTotal,
      V_scheduleDeactivationsTotal, V_scaleEventsTotal, V_scaleSkippedTotal, V_scalePUDelta,
      V_instanceUpdateTotal, V_instanceUpdateDurationSeconds, V_metricsFetchTotal,
      V_metricsFetchDurationSeconds, V_manualScalingActive, V_manualScalingTargetPU]"

definition allCollectors :: "metric_vec list" where
  "allCollectors =
     [V_currentProcessingUnits, V_desiredProcessingUnits, V_minProcessingUnits, V_maxProcessingUnits,
      V_effectiveMinProcessingUnits, V_effectiveMaxProcessingUnits, V_cpuUtilization,
      V_cpuUtilizationTarget, V_instanceReady, V_activeSchedules, V_activeScheduleAdditionalPU,
      V_lastScaleTimestamp, V_lastSyncTimestamp, V_scheduleActivationsTotal,
      V_scheduleDeactivationsTotal, V_scaleEventsTotal, V_scaleSkippedTotal, V_scalePUDelta,
      V_instanceUpdateTotal, V_instanceUpdateDurationSeconds, V_metricsFetchTotal,
      V_metricsFetchDurationSeconds, V_manualScalingActive, V_manualScalingTargetPU,
      V_manualScalingHistoryEvicted]"

section \<open>Registration\<close>

text \<open>
  The registerer is a parameter: it answers whether a vector was registered, was already
  registered (tolerated) or failed.
\<close>

datatype register_result = RegOk | RegAlreadyRegistered | RegError string

fun Register_loop :: "(metric_vec \<Rightarrow> register_result) \<Rightarrow> metric_vec list \<Rightarrow> string option" where
  "Register_loop reg [] = None"
| "Register_loop reg (c # cs) =
     (case reg c of
        RegOk \<Rightarrow> Register_loop reg cs
      | RegAlreadyRegistered \<Rightarrow> Register_loop reg cs
      | RegError e \<Rightarrow> Some e)"

definition Register :: "(metric_vec \<Rightarrow> register_result) \<Rightarrow> string option" where
  "Register reg = Register_loop reg allCollectors"

section \<open>Recording functions\<close>

definition t_unix :: "time \<Rightarrow> int" where
  "t_unix t = t div second - 62135596800"

definition RecordState :: "SpannerAutoscaler \<Rightarrow> vec_op list" where
  "RecordState sa =
     (let l = LabelsForAutoscaler sa;
          vals = label_values l;
          st = sa_Status sa;
          sc = ScaleConfig (sa_Spec sa)
      in [OpSet V_currentProcessingUnits vals (CurrentProcessingUnits st),
          OpSet V_desiredProcessingUnits vals (DesiredProcessingUnits_status st),
          OpSet V_minProcessingUnits vals (pus_Min (sc_ProcessingUnits sc)),
          OpSet V_maxProcessingUnits vals (pus_Max (sc_ProcessingUnits sc)),
          OpSet V_effectiveMinProcessingUnits vals (DesiredMinPUs st),
          OpSet V_effectiveMaxProcessingUnits vals (DesiredMaxPUs st)] @
         (case cpu_HighPriority (sc_TargetCPUUtilization sc) of
            None \<Rightarrow> []
          | Some p \<Rightarrow>
              [OpSet V_cpuUtilization (withExtra l [''high_priority'']) (CurrentHighPriorityCPUUtilization st),
               OpSet V_cpuUtilizationTarget (withExtra l [''high_priority'']) p]) @
         (case cpu_Total (sc_TargetCPUUtilization sc) of
            None \<Rightarrow> []
          | Some p \<Rightarrow>
              [OpSet V_cpuUtilization (withExtra l [''total'']) (CurrentTotalCPUUtilization st),
               OpSet V_cpuUtilizationTarget (withExtra l [''total'']) p]) @
         [OpSet V_instanceReady vals (if InstanceState st = InstanceStateReady then 1 else 0),
          OpSet V_activeSchedules vals (int (length (CurrentlyActiveSchedules st))),
          OpSet V_activeScheduleAdditionalPU vals
            (foldl (\<lambda>acc as. gadd acc (as_AdditionalPU as)) 0 (CurrentlyActiveSchedules st))] @
         (if LastScaleTime st \<noteq> 0 then [OpSet V_lastScaleTimestamp vals (t_unix (LastScaleTime st))] else []) @
         (if LastSyncTime st \<noteq> 0 then [OpSet V_lastSyncTimestamp vals (t_unix (LastSyncTime st))] else []))"

definition RecordScaleEvent :: "Labels \<Rightarrow> gint \<Rightarrow> gint \<Rightarrow> string \<Rightarrow> vec_op list" where
  "RecordScaleEvent l before after driver =
     (let delta = gsub after before;
          (direction, delta) = (if delta < 0 then (''down'', gsub 0 delta) else (''up'', delta))
      in [OpInc V_scaleEventsTotal (withExtra l [direction, driver]),
          OpObserve V_scalePUDelta (withExtra l [direction]) delta])"

definition RecordScaleSkipped :: "Labels \<Rightarrow> string \<Rightarrow> vec_op list" where
  "RecordScaleSkipped l reason = [OpInc V_scaleSkippedTotal (withExtra l [reason])]"

definition RecordScheduleActivation :: "Labels \<Rightarrow> vec_op list" where
  "RecordScheduleActivation l = [OpInc V_scheduleActivationsTotal (label_values l)]"

definition RecordScheduleDeactivation :: "Labels \<Rightarrow> string \<Rightarrow> vec_op list" where
  "RecordScheduleDeactivation l reason = [OpInc V_scheduleDeactivationsTotal (withExtra l [reason])]"

definition resultFor :: "'e option \<Rightarrow> string" where
  "resultFor err = (if err = None then ''success'' else ''error'')"

definition RecordInstanceUpdate :: "Labels \<Rightarrow> duration \<Rightarrow> 'e option \<Rightarrow> vec_op list" where
  "RecordInstanceUpdate l d err =
     [OpObserve V_instanceUpdateDurationSeconds (label_values l) d,
      OpInc V_instanceUpdateTotal (withExtra l [resultFor err])]"

definition RecordMetricsFetch :: "Labels \<Rightarrow> duration \<Rightarrow> 'e option \<Rightarrow> vec_op list" where
  "RecordMetricsFetch l d err =
     [OpObserve V_metricsFetchDurationSeconds (label_values l) d,
      OpInc V_metricsFetchTotal (withExtra l [resultFor err])]"

definition rampLabelValue :: "bool \<Rightarrow> string" where
  "rampLabelValue ramp = (if ramp then ''true'' else ''false'')"

definition RecordManualScalingActive :: "Labels \<Rightarrow> bool \<Rightarrow> bool \<Rightarrow> vec_op list" where
  "RecordManualScalingActive l active ramp =
     [OpSet V_manualScalingActive (withExtra l [rampLabelValue ramp]) (if active then 1 else 0),
      OpSet V_manualScalingActive (withExtra l [rampLabelValue (\<not> ramp)]) 0]"

definition RecordManualScalingTarget :: "Labels \<Rightarrow> gint \<Rightarrow> bool \<Rightarrow> vec_op list" where
  "RecordManualScalingTarget l targetPU ramp =
     OpSet V_manualScalingTargetPU (withExtra l [rampLabelValue ramp]) targetPU #
     (if targetPU = 0 then [OpSet V_manualScalingTargetPU (withExtra l [rampLabelValue (\<not> ramp)]) 0] else [])"

definition RecordManualScalingHistoryEvicted :: "string \<Rightarrow> vec_op list" where
  "RecordManualScalingHistoryEvicted ns = [OpInc V_manualScalingHistoryEvicted [ns]]"

definition DriverForManualScaling :: "bool \<Rightarrow> string" where
  "DriverForManualScaling ramp = (if ramp then ''manual_ramp'' else ''manual_immediate'')"

definition DeleteSeries :: "Labels \<Rightarrow> vec_op list" where
  "DeleteSeries l = map (\<lambda>v. OpDeletePartialMatch v (partialMatch l)) allVectors"

lemmas record_defs =
  RecordState_def RecordScaleEvent_def RecordScaleSkipped_def RecordScheduleActivation_def
  RecordScheduleDeactivation_def RecordInstanceUpdate_def RecordMetricsFetch_def
  RecordManualScalingActive_def RecordManualScalingTarget_def

section \<open>Which series an operation touches\<close>

fun op_vec :: "vec_op \<Rightarrow> metric_vec" where
  "op_vec (OpSet v ls x) = v"
| "op_vec (OpInc v ls) = v"
| "op_vec (OpObserve v ls x) = v"
| "op_vec (OpDeletePartialMatch v m) = v"

fun op_labels :: "vec_op \<Rightarrow> string list" where
  "op_labels (OpSet v ls x) = ls"
| "op_labels (OpInc v ls) = ls"
| "op_labels (OpObserve v ls x) = ls"
| "op_labels (OpDeletePartialMatch v m) = []"

text \<open>A write is well-formed when it gives one value for each label of its vector.\<close>

definition well_labelled :: "vec_op \<Rightarrow> bool" where
  "well_labelled op \<longleftrightarrow> length (op_labels op) = length (vec_labels (op_vec op))"

text \<open>
  \<open>matched_by d op\<close>: the series \<open>op\<close> writes is one the deletion \<open>d\<close> selects, by the
  documented meaning of a partial match: the same vector, and every label of the match has
  the matched value in the series.
\<close>

fun matched_by :: "vec_op \<Rightarrow> vec_op \<Rightarrow> bool" where
  "matched_by (OpDeletePartialMatch v m) op \<longleftrightarrow>
     op_vec op = v \<and> (\<forall>(k, x) \<in> set m. map_of (zip (vec_labels v) (op_labels op)) k = Some x)"
| "matched_by _ op \<longleftrightarrow> False"

definition recorded_for :: "Labels \<Rightarrow> vec_op \<Rightarrow> bool" where
  "recorded_for l op \<longleftrightarrow>
     well_labelled op \<and> op_vec op \<in> set allVectors \<and> take 4 (op_labels op) = label_values l"

lemma vec_labels_prefix: "v \<in> set allVectors \<Longrightarrow> take 4 (vec_labels v) = identityLabels"
  by (cases v) (simp_all add: allVectors_def identityLabels_def)

lemma zip_take_lookup:
  assumes "take n ks = ks'" "take n xs = xs'" "distinct ks'" "map_of (zip ks' xs') k = Some x"
  shows "map_of (zip ks xs) k = Some x"
proof -
  have "zip ks xs = zip ks' xs' @ zip (drop n ks) (drop n xs)"
    using assms(1,2) by (metis append_take_drop_id take_zip drop_zip)
  then show ?thesis using assms(4) by simp
qed

lemma recorded_for_matched:
  assumes "recorded_for l op"
  shows "\<exists>d \<in> set (DeleteSeries l). matched_by d op"
proof (rule bexI)
  let ?v = "op_vec op"
  have v: "?v \<in> set allVectors" "take 4 (op_labels op) = label_values l"
    using assms by (auto simp: recorded_for_def)
  have "map_of (zip (vec_labels ?v) (op_labels op)) k = Some x" if "(k, x) \<in> set (partialMatch l)" for k x
  proof (rule zip_take_lookup [OF vec_labels_prefix [OF v(1)] v(2)])
    show "distinct identityLabels" by (simp add: identityLabels_def)
    show "map_of (zip identityLabels (label_values l)) k = Some x"
      using that by (auto simp: partialMatch_def identityLabels_def label_values_def)
  qed
  then show "matched_by (OpDeletePartialMatch ?v (partialMatch l)) op" by auto
  show "OpDeletePartialMatch ?v (partialMatch l) \<in> set (DeleteSeries l)"
    using v(1) by (simp add: DeleteSeries_def)
qed

lemma take4_withExtra: "take 4 (withExtra l xs) = label_values l" "take 4 (label_values l) = label_values l"
  by (simp_all add: withExtra_def label_values_def)

lemma length_withExtra: "length (withExtra l xs) = 4 + length xs" "length (label_values l) = 4"
  by (simp_all add: withExtra_def label_values_def)

section \<open>Properties\<close>

text \<open>
  C33. Deleting an autoscaler leaves no series behind: every write that any recording
  function makes for an autoscaler gives each label of its vector a value, and its series
  is selected by one of the deletions of \<open>DeleteSeries\<close> for the same labels.
\<close>

theorem delete_series_complete:
  assumes "op \<in> set (RecordState sa @ RecordScaleEvent (LabelsForAutoscaler sa) before after driver @
       RecordScaleSkipped (LabelsForAutoscaler sa) reason @ RecordScheduleActivation (LabelsForAutoscaler sa) @
       RecordScheduleDeactivation (LabelsForAutoscaler sa) reason @
       RecordInstanceUpdate (LabelsForAutoscaler sa) d err @
       RecordMetricsFetch (LabelsForAutoscaler sa) d err @
       RecordManualScalingActive (LabelsForAutoscaler sa) active ramp @
       RecordManualScalingTarget (LabelsForAutoscaler sa) targetPU ramp)"
  shows "well_labelled op \<and> (\<exists>del \<in> set (DeleteSeries (LabelsForAutoscaler sa)). matched_by del op)"
proof -
  have "recorded_for (LabelsForAutoscaler sa) op"
    using assms unfolding set_append Un_iff
    by (elim disjE)
      (auto simp: record_defs Let_def recorded_for_def well_labelled_def take4_withExtra length_withExtra
        allVectors_def identityLabels_def split: option.splits if_splits)
  then show ?thesis using recorded_for_matched [of "LabelsForAutoscaler sa" op] by (auto simp: recorded_for_def)
qed

theorem delete_series_complete_witness:
  "\<exists>del \<in> set (DeleteSeries (LabelsForAutoscaler sample_sa)).
     matched_by del (OpSet V_cpuUtilization (withExtra (LabelsForAutoscaler sample_sa) [''high_priority'']) 75)"
  using delete_series_complete [of "OpSet V_cpuUtilization (withExtra (LabelsForAutoscaler sample_sa) [''high_priority'']) 75"
      sample_sa] by (simp add: RecordState_def Let_def sample_defs)

end
