(* ===== verification/Kube.thy ===== *)
theory Kube
  imports Observability
begin

text \<open>
  The interface between the controllers and what surrounds them: the Kubernetes client, the
  event recorder, the metrics and the Spanner instance.

  The Kubernetes API server is a parameter. A \<open>'w kube\<close> is a record of the calls the
  sources make, each a function on an opaque world \<open>'w\<close> that returns an error or a value
  and the next world; reads return a next world too, so that anything another client does
  between two calls is covered; \<open>k_now\<close> is the clock. Nothing is assumed about these
  functions.

  A controller runs on an \<open>'w rstate\<close>: the world and the trace of everything the
  controller did to the outside in the order it did it: every write to the API server with
  the object written and the outcome, every call that changes the Spanner instance, every
  event and every metric operation. Log lines and the texts of events are not modelled.
\<close>

section \<open>Errors and the client\<close>

datatype kube_err =
    ErrNotFound
  | ErrConflict
  | ErrOther string

definition IsNotFound :: "kube_err \<Rightarrow> bool" where
  "IsNotFound e \<longleftrightarrow> e = ErrNotFound"

definition IsConflict :: "kube_err \<Rightarrow> bool" where
  "IsConflict e \<longleftrightarrow> e = ErrConflict"

definition IgnoreNotFound :: "kube_err \<Rightarrow> kube_err option" where
  "IgnoreNotFound e = (if IsNotFound e then None else Some e)"

type_synonym secret_data = "(string \<times> string) list"

record 'w kube =
  k_now :: "'w \<Rightarrow> time \<times> 'w"
  k_get_sa :: "NamespacedName \<Rightarrow> 'w \<Rightarrow> (kube_err + SpannerAutoscaler) \<times> 'w"
  k_get_sas :: "NamespacedName \<Rightarrow> 'w \<Rightarrow> (kube_err + SpannerAutoscaleSchedule) \<times> 'w"
  k_get_ms :: "NamespacedName \<Rightarrow> 'w \<Rightarrow> (kube_err + SpannerManualScaling) \<times> 'w"
  k_list_ms :: "string \<Rightarrow> 'w \<Rightarrow> (kube_err + SpannerManualScaling list) \<times> 'w"
  k_get_secret :: "NamespacedName \<Rightarrow> 'w \<Rightarrow> (kube_err + secret_data) \<times> 'w"
  k_status_sa :: "SpannerAutoscaler \<Rightarrow> 'w \<Rightarrow> kube_err option \<times> 'w"
  k_status_ms :: "SpannerManualScaling \<Rightarrow> 'w \<Rightarrow> kube_err option \<times> 'w"
  k_update_ms :: "SpannerManualScaling \<Rightarrow> 'w \<Rightarrow> kube_err option \<times> 'w"
  k_update_sas :: "SpannerAutoscaleSchedule \<Rightarrow> 'w \<Rightarrow> kube_err option \<times> 'w"
  k_delete_ms :: "SpannerManualScaling \<Rightarrow> 'w \<Rightarrow> kube_err option \<times> 'w"

section \<open>The trace of effects\<close>

datatype event_type = EventNormal | EventWarning

datatype effect =
    Event event_type string
  | Metric vec_op
  | StatusSA SpannerAutoscaler "kube_err option"
  | StatusMS SpannerManualScaling "kube_err option"
  | UpdateMS SpannerManualScaling "kube_err option"
  | UpdateSAS SpannerAutoscaleSchedule "kube_err option"
  | DeleteMS SpannerManualScaling "kube_err option"
  | UpdateInstanceCall gint "kube_err option"

record 'w rstate =
  st_World :: 'w
  st_Trace :: "effect list"

definition emit :: "effect \<Rightarrow> 'w rstate \<Rightarrow> 'w rstate" where
  "emit e st = st\<lparr>st_Trace := st_Trace st @ [e]\<rparr>"

definition metric :: "vec_op list \<Rightarrow> 'w rstate \<Rightarrow> 'w rstate" where
  "metric ops st = st\<lparr>st_Trace := st_Trace st @ map Metric ops\<rparr>"

definition kread :: "('w \<Rightarrow> 'a \<times> 'w) \<Rightarrow> 'w rstate \<Rightarrow> 'a \<times> 'w rstate" where
  "kread f st = (let (r, w) = f (st_World st) in (r, st\<lparr>st_World := w\<rparr>))"

definition kwrite ::
    "('w \<Rightarrow> kube_err option \<times> 'w) \<Rightarrow> (kube_err option \<Rightarrow> effect) \<Rightarrow> 'w rstate \<Rightarrow> kube_err option \<times> 'w rstate" where
  "kwrite f eff st = (let (e, w) = f (st_World st) in (e, emit (eff e) (st\<lparr>st_World := w\<rparr>)))"

definition status_sa :: "'w kube \<Rightarrow> SpannerAutoscaler \<Rightarrow> 'w rstate \<Rightarrow> kube_err option \<times> 'w rstate" where
  "status_sa k sa = kwrite (k_status_sa k sa) (StatusSA sa)"

definition status_ms :: "'w kube \<Rightarrow> SpannerManualScaling \<Rightarrow> 'w rstate \<Rightarrow> kube_err option \<times> 'w rstate" where
  "status_ms k ms = kwrite (k_status_ms k ms) (StatusMS ms)"

definition update_ms :: "'w kube \<Rightarrow> SpannerManualScaling \<Rightarrow> 'w rstate \<Rightarrow> kube_err option \<times> 'w rstate" where
  "update_ms k ms = kwrite (k_update_ms k ms) (UpdateMS ms)"

definition update_sas :: "'w kube \<Rightarrow> SpannerAutoscaleSchedule \<Rightarrow> 'w rstate \<Rightarrow> kube_err option \<times> 'w rstate" where
  "update_sas k s = kwrite (k_update_sas k s) (UpdateSAS s)"

definition delete_ms :: "'w kube \<Rightarrow> SpannerManualScaling \<Rightarrow> 'w rstate \<Rightarrow> kube_err option \<times> 'w rstate" where
  "delete_ms k ms = kwrite (k_delete_ms k ms) (DeleteMS ms)"

section \<open>Retrying on conflict\<close>

text \<open>
  \<^verbatim>\<open>retry.RetryOnConflict(retry.DefaultBackoff, f)\<close> of client-go is the parameter
  \<open>retry\<close> of the definitions that call it. Its state includes the variables the closure
  captures. What is relied on is \<open>retry_ok\<close>: it runs the closure, again only after a
  conflict, and answers what the last run answered. \<open>retry_n n\<close> is an instance with at
  most \<open>n + 1\<close> attempts.
\<close>

type_synonym 's attempt = "'s \<Rightarrow> kube_err option \<times> 's"

inductive conflict_run :: "'s attempt \<Rightarrow> 's \<Rightarrow> 's \<Rightarrow> bool" for f where
  start: "conflict_run f s s"
| again: "conflict_run f s s1 \<Longrightarrow> f s1 = (Some ErrConflict, s2) \<Longrightarrow> conflict_run f s s2"

definition retry_ok :: "('s attempt \<Rightarrow> 's attempt) \<Rightarrow> bool" where
  "retry_ok retry \<longleftrightarrow>
     (\<forall>f s e s'. retry f s = (e, s') \<longrightarrow> (\<exists>s0. conflict_run f s s0 \<and> f s0 = (e, s')))"

fun retry_n :: "nat \<Rightarrow> 's attempt \<Rightarrow> 's attempt" where
  "retry_n 0 f s = f s"
| "retry_n (Suc n) f s =
     (let (e, s') = f s in if e = Some ErrConflict then retry_n n f s' else (e, s'))"

section \<open>Lemmas on traces\<close>

text \<open>
  \<open>extends P st st'\<close>: \<open>st'\<close> has the trace of \<open>st\<close> followed by effects that satisfy
  \<open>P\<close>. Every operation of a controller is described this way.
\<close>

definition extends :: "(effect \<Rightarrow> bool) \<Rightarrow> 'w rstate \<Rightarrow> 'w rstate \<Rightarrow> bool" where
  "extends P st st' \<longleftrightarrow> (\<exists>es. st_Trace st' = st_Trace st @ es \<and> list_all P es)"

named_theorems traces \<open>how each operation extends the trace\<close>

lemma extends_refl [simp, intro]: "extends P st st"
  by (simp add: extends_def)

lemma extends_trans: "extends P st st' \<Longrightarrow> extends P st' st'' \<Longrightarrow> extends P st st''"
  by (auto simp: extends_def)

lemma extends_mono: "extends P st st' \<Longrightarrow> (\<And>e. P e \<Longrightarrow> Q e) \<Longrightarrow> extends Q st st'"
  by (fastforce simp: extends_def list_all_iff)

lemma extends_emit [traces]: "P e \<Longrightarrow> extends P st (emit e st)"
  by (simp add: extends_def emit_def)

lemma extends_metric [traces]: "(\<And>op. op \<in> set ops \<Longrightarrow> P (Metric op)) \<Longrightarrow> extends P st (metric ops st)"
  by (auto simp: extends_def metric_def list_all_iff)

lemma extends_kread: "kread f st = (r, st') \<Longrightarrow> extends P st st'"
  by (auto simp: extends_def kread_def split: prod.splits)

lemma extends_kwrite: "kwrite f eff st = (e, st') \<Longrightarrow> P (eff e) \<Longrightarrow> extends P st st'"
  by (auto simp: extends_def kwrite_def emit_def split: prod.splits)

lemma kread_trace [simp]: "st_Trace (snd (kread f st)) = st_Trace st"
  by (simp add: kread_def split: prod.splits)

lemma kwrite_trace: "kwrite f eff st = (e, st') \<Longrightarrow> st_Trace st' = st_Trace st @ [eff e]"
  by (auto simp: kwrite_def emit_def split: prod.splits)

lemmas write_defs = status_sa_def status_ms_def update_ms_def update_sas_def delete_ms_def

lemma emit_trace [simp]: "st_Trace (emit e st) = st_Trace st @ [e]"
  by (simp add: emit_def)

lemma metric_trace [simp]: "st_Trace (metric ops st) = st_Trace st @ map Metric ops"
  by (simp add: metric_def)

lemma emit_metric_world [simp]:
  "st_World (emit e st) = st_World st" "st_World (metric ops st) = st_World st"
  by (simp_all add: emit_def metric_def)

lemma conflict_run_trans: "conflict_run f s1 s2 \<Longrightarrow> conflict_run f s s1 \<Longrightarrow> conflict_run f s s2"
  by (induction rule: conflict_run.induct) (auto intro: conflict_run.intros)

lemma retry_n_run: "retry_n n f s = (e, s') \<Longrightarrow> \<exists>s0. conflict_run f s s0 \<and> f s0 = (e, s')"
proof (induction n arbitrary: s)
  case 0
  then show ?case by (auto intro: conflict_run.start)
next
  case (Suc n)
  obtain e1 s1 where f: "f s = (e1, s1)" by fastforce
  show ?case
  proof (cases "e1 = Some ErrConflict")
    case True
    then have "retry_n n f s1 = (e, s')" using Suc.prems f by simp
    then obtain s0 where "conflict_run f s1 s0" "f s0 = (e, s')" using Suc.IH by blast
    moreover have "conflict_run f s s1" using f True conflict_run.intros by metis
    ultimately show ?thesis using conflict_run_trans by metis
  next
    case False
    then show ?thesis using Suc.prems f by (auto intro: conflict_run.start)
  qed
qed

lemma retry_n_ok: "retry_ok (retry_n n)"
  using retry_n_run by (fastforce simp: retry_ok_def)

lemma retry_okE:
  assumes "retry_ok retry" "retry f s = (e, s')"
  obtains s0 where "conflict_run f s s0" "f s0 = (e, s')"
  using assms unfolding retry_ok_def by metis

text \<open>
  Retrying keeps any relation between the first and the last state that every attempt
  keeps.
\<close>

lemma conflict_run_rel:
  assumes "conflict_run f s s'" "\<And>s. R s s" "\<And>s s' s''. R s s' \<Longrightarrow> R s' s'' \<Longrightarrow> R s s''"
    and "\<And>s s'. f s = (Some ErrConflict, s') \<Longrightarrow> R s s'"
  shows "R s s'"
  using assms(1) by (induction rule: conflict_run.induct) (use assms(2-4) in blast)+

section \<open>A client in memory\<close>

text \<open>
  A concrete client, used to instantiate the theorems: the objects of each kind in a list,
  updates replace the object with the same key.
\<close>

record mem_world =
  mem_now :: time
  mem_sa :: "SpannerAutoscaler list"
  mem_sas :: "SpannerAutoscaleSchedule list"
  mem_ms :: "SpannerManualScaling list"

definition mem_get :: "('a \<Rightarrow> ObjectMeta) \<Rightarrow> 'a list \<Rightarrow> NamespacedName \<Rightarrow> kube_err + 'a" where
  "mem_get meta xs n = (case find (\<lambda>x. object_key (meta x) = n) xs of None \<Rightarrow> Inl ErrNotFound | Some x \<Rightarrow> Inr x)"

definition mem_put :: "('a \<Rightarrow> ObjectMeta) \<Rightarrow> 'a \<Rightarrow> 'a list \<Rightarrow> 'a list" where
  "mem_put meta x xs = map (\<lambda>y. if object_key (meta y) = object_key (meta x) then x else y) xs"

definition mem_kube :: "mem_world kube" where
  "mem_kube = \<lparr>
     k_now = (\<lambda>w. (mem_now w, w)),
     k_get_sa = (\<lambda>n w. (mem_get sa_Meta (mem_sa w) n, w)),
     k_get_sas = (\<lambda>n w. (mem_get sas_Meta (mem_sas w) n, w)),
     k_get_ms = (\<lambda>n w. (mem_get ms_Meta (mem_ms w) n, w)),
     k_list_ms = (\<lambda>ns w. (Inr (filter (\<lambda>m. om_Namespace (ms_Meta m) = ns) (mem_ms w)), w)),
     k_get_secret = (\<lambda>n w. (Inl ErrNotFound, w)),
     k_status_sa = (\<lambda>x w. (None, w\<lparr>mem_sa := mem_put sa_Meta x (mem_sa w)\<rparr>)),
     k_status_ms = (\<lambda>x w. (None, w\<lparr>mem_ms := mem_put ms_Meta x (mem_ms w)\<rparr>)),
     k_update_ms = (\<lambda>x w. (None, w\<lparr>mem_ms := mem_put ms_Meta x (mem_ms w)\<rparr>)),
     k_update_sas = (\<lambda>x w. (None, w\<lparr>mem_sas := mem_put sas_Meta x (mem_sas w)\<rparr>)),
     k_delete_ms = (\<lambda>x w. (None, w\<lparr>mem_ms := filter (\<lambda>y. object_key (ms_Meta y) \<noteq> object_key (ms_Meta x)) (mem_ms w)\<rparr>))\<rparr>"

definition mem_state :: "time \<Rightarrow> SpannerAutoscaler list \<Rightarrow> SpannerAutoscaleSchedule list \<Rightarrow> SpannerManualScaling list \<Rightarrow> mem_world rstate" where
  "mem_state now sas scheds mss = \<lparr>st_World = \<lparr>mem_now = now, mem_sa = sas, mem_sas = scheds, mem_ms = mss\<rparr>, st_Trace = []\<rparr>"

end
