(* ===== verification/Manual_Webhook.thy ===== *)
theory Manual_Webhook
  imports Autoscaler_Webhook Kube
begin

text \<open>
  \<^verbatim>\<open>api/v1beta1/spannermanualscaling_webhook.go\<close>: admission of manual overrides. The
  webhook holds an optional Kubernetes client (\<open>None\<close> is the nil client of the source) and
  the flag \<^verbatim>\<open>--reject-manual-scaledown\<close>. Warnings are values that carry what the warning
  text names; \<^verbatim>\<open>time.Now()\<close> is the argument \<open>now\<close>.
\<close>

section \<open>Field checks\<close>

definition manual_path :: "string \<Rightarrow> path_elem list" where
  "manual_path name = [Child ''spec'', Child name]"

definition validateStepSize :: "scaled_value \<Rightarrow> IntOrString option \<Rightarrow> path_elem list \<Rightarrow> field_error option" where
  "validateStepSize gsv s fldPath =
     (case s of
        None \<Rightarrow> None
      | Some s \<Rightarrow>
          (if ios_Type s = intstr_Int then
             (let v = ios_IntVal s
              in if v \<le> 0 then Some (FieldInvalid fldPath (FV_int v) ''step size must be positive'')
                 else if v < 1000 \<and> grem v 100 \<noteq> 0
                 then Some (FieldInvalid fldPath (FV_int v) ''step size below 1000 must be a multiple of 100'')
                 else if v \<ge> 1000 \<and> grem v 1000 \<noteq> 0
                 then Some (FieldInvalid fldPath (FV_int v) ''step size at or above 1000 must be a multiple of 1000'')
                 else None)
           else if ios_Type s = intstr_String then
             (case gsv s 10000 of
                Inl err \<Rightarrow> Some (FieldInvalid fldPath (FV_string (ios_StrVal s)) (''invalid percentage value: '' @ err))
              | Inr v \<Rightarrow>
                  (if v < 100 \<or> v > 10000
                   then Some (FieldInvalid fldPath (FV_string (ios_StrVal s))
                                ''percentage step size must be between 1% and 100%'')
                   else None))
           else Some (FieldInvalid fldPath (FV_intstr s) ''step size has an unknown intstr type'')))"

definition validatePositiveDuration :: "duration option \<Rightarrow> path_elem list \<Rightarrow> field_error option" where
  "validatePositiveDuration d fldPath =
     (case d of
        None \<Rightarrow> None
      | Some d \<Rightarrow> (if d \<le> 0 then Some (FieldInvalid fldPath (FV_time d) ''interval must be a positive duration'')
                   else None))"

definition check_manualPU :: "gint \<Rightarrow> field_error list" where
  "check_manualPU pu =
     (let path = manual_path ''processingUnits''
      in if pu \<le> 0
         then [FieldInvalid path (FV_int pu) ''processingUnits must be a positive multiple of 100 (when <1000) or 1000'']
         else if pu < 1000 \<and> grem pu 100 \<noteq> 0
         then [FieldInvalid path (FV_int pu) ''processingUnits below 1000 must be a multiple of 100'']
         else if pu \<ge> 1000 \<and> grem pu 1000 \<noteq> 0
         then [FieldInvalid path (FV_int pu) ''processingUnits at or above 1000 must be a multiple of 1000'']
         else [])"

definition validateManualScalingSpec ::
    "scaled_value \<Rightarrow> time \<Rightarrow> SpannerManualScalingSpec \<Rightarrow> bool \<Rightarrow> field_error list" where
  "validateManualScalingSpec gsv now spec isCreate =
     (if ms_TargetResource spec = []
      then [FieldRequired (manual_path ''targetResource'')
              ''targetResource must reference a SpannerAutoscaler in the same namespace'']
      else []) @
     check_manualPU (ms_ProcessingUnits spec) @
     option_list (validateStepSize gsv (ms_ScaleupStepSize spec) (manual_path ''scaleupStepSize'')) @
     option_list (validateStepSize gsv (ms_ScaledownStepSize spec) (manual_path ''scaledownStepSize'')) @
     option_list (validatePositiveDuration (ms_ScaleupInterval spec) (manual_path ''scaleupInterval'')) @
     option_list (validatePositiveDuration (ms_ScaledownInterval spec) (manual_path ''scaledownInterval'')) @
     (case ms_ExpiresAt spec of
        None \<Rightarrow> []
      | Some t \<Rightarrow>
          (if isCreate \<and> \<not> t > now
           then [FieldInvalid (manual_path ''expiresAt'') (FV_time t)
                   ''expiresAt must be in the future at create time'']
           else []))"

section \<open>Warnings\<close>

datatype admission_warning =
    WarnScaleupInterval
  | WarnScaledownInterval
  | WarnDuplicateActive string string SpannerManualScalingPhase

definition intervalWithoutStepSizeWarnings :: "SpannerManualScalingSpec \<Rightarrow> admission_warning list" where
  "intervalWithoutStepSizeWarnings spec =
     (if ms_ScaleupInterval spec \<noteq> None \<and> ms_ScaleupStepSize spec = None then [WarnScaleupInterval] else []) @
     (if ms_ScaledownInterval spec \<noteq> None \<and> ms_ScaledownStepSize spec = None then [WarnScaledownInterval] else [])"

fun first_duplicate :: "SpannerManualScaling \<Rightarrow> SpannerManualScaling list \<Rightarrow> admission_warning list" where
  "first_duplicate obj [] = []"
| "first_duplicate obj (other # others) =
     (if ms_TargetResource (ms_Spec other) \<noteq> ms_TargetResource (ms_Spec obj) then first_duplicate obj others
      else if om_Name (ms_Meta other) = om_Name (ms_Meta obj) then first_duplicate obj others
      else if om_DeletionTimestamp (ms_Meta other) \<noteq> None then first_duplicate obj others
      else if IsTerminal (ms_Phase (ms_Status other)) then first_duplicate obj others
      else [WarnDuplicateActive (ms_TargetResource (ms_Spec obj)) (om_Name (ms_Meta other))
              (ms_Phase (ms_Status other))])"

definition duplicateActiveWarning ::
    "'w kube option \<Rightarrow> SpannerManualScaling \<Rightarrow> 'w rstate \<Rightarrow> admission_warning list \<times> 'w rstate" where
  "duplicateActiveWarning client obj st =
     (case client of
        None \<Rightarrow> ([], st)
      | Some k \<Rightarrow>
          (case kread (k_list_ms k (om_Namespace (ms_Meta obj))) st of
             (Inl err, st) \<Rightarrow> ([], st)
           | (Inr items, st) \<Rightarrow> (first_duplicate obj items, st)))"

section \<open>The scale-down policy\<close>

datatype scaledown_reject =
    RejectNoClient
  | RejectLookupFailed string kube_err
  | RejectBelowCurrent gint string gint

definition checkRejectScaledown ::
    "'w kube option \<Rightarrow> SpannerManualScaling \<Rightarrow> 'w rstate \<Rightarrow> scaledown_reject option \<times> 'w rstate" where
  "checkRejectScaledown client obj st =
     (case client of
        None \<Rightarrow> (Some RejectNoClient, st)
      | Some k \<Rightarrow>
          (let key = \<lparr>nn_Namespace = om_Namespace (ms_Meta obj), nn_Name = ms_TargetResource (ms_Spec obj)\<rparr>
           in case kread (k_get_sa k key) st of
                (Inl err, st) \<Rightarrow> (Some (RejectLookupFailed (ms_TargetResource (ms_Spec obj)) err), st)
              | (Inr target, st) \<Rightarrow>
                  (let current = CurrentProcessingUnits (sa_Status target)
                   in if current = 0 then (None, st)
                      else if ms_ProcessingUnits (ms_Spec obj) < current
                      then (Some (RejectBelowCurrent (ms_ProcessingUnits (ms_Spec obj))
                                    (ms_TargetResource (ms_Spec obj)) current), st)
                      else (None, st))))"

section \<open>Admission\<close>

text \<open>The errors of a rejected create: those of the fields, then the one of the policy.\<close>

record manual_errors =
  me_fields :: "field_error list"
  me_policy :: "scaledown_reject option"

definition ManualValidateCreate ::
    "scaled_value \<Rightarrow> 'w kube option \<Rightarrow> bool \<Rightarrow> time \<Rightarrow> SpannerManualScaling \<Rightarrow> 'w rstate \<Rightarrow>
     (manual_errors + admission_warning list) \<times> 'w rstate" where
  "ManualValidateCreate gsv client rejectScaledown now obj st =
     (let allErrs = validateManualScalingSpec gsv now (ms_Spec obj) True;
          (policy, st) = (if rejectScaledown then checkRejectScaledown client obj st else (None, st))
      in if allErrs \<noteq> [] \<or> policy \<noteq> None
         then (Inl \<lparr>me_fields = allErrs, me_policy = policy\<rparr>, st)
         else
           let (dups, st) = duplicateActiveWarning client obj st
           in (Inr (intervalWithoutStepSizeWarnings (ms_Spec obj) @ dups), st))"

definition ManualValidateUpdate ::
    "SpannerManualScaling option \<Rightarrow> SpannerManualScaling \<Rightarrow> admission_error option" where
  "ManualValidateUpdate oldObj newObj =
     (case oldObj of
        None \<Rightarrow> Some (AdmissionOther ''spannermanualscaling webhook: oldObj is nil on update'')
      | Some old \<Rightarrow>
          (if ms_Spec old \<noteq> ms_Spec newObj
           then Some (AdmissionInvalid (om_Name (ms_Meta newObj))
                        [FieldForbidden [Child ''spec''] ''spec is immutable; create a new SpannerManualScaling instead.''])
           else None))"

definition ManualValidateDelete :: "SpannerManualScaling \<Rightarrow> admission_error option" where
  "ManualValidateDelete obj = None"

section \<open>Lemmas\<close>

lemma check_manualPU_Nil_iff: "check_manualPU pu = [] \<longleftrightarrow> valid_pu pu"
  by (auto simp: check_manualPU_def valid_pu_def Let_def grem_def smod_eq_0_iff)

lemma validatePositiveDuration_None_iff:
  "validatePositiveDuration d p = None \<longleftrightarrow> (\<forall>x. d = Some x \<longrightarrow> 0 < x)"
  by (auto simp: validatePositiveDuration_def split: option.splits)

definition manual_step_ok :: "scaled_value \<Rightarrow> IntOrString option \<Rightarrow> bool" where
  "manual_step_ok gsv s \<longleftrightarrow>
     (\<forall>v. s = Some v \<longrightarrow>
        (ios_Type v = intstr_Int \<and> valid_pu (ios_IntVal v)) \<or>
        (ios_Type v = intstr_String \<and> (\<exists>x. gsv v 10000 = Inr x \<and> 100 \<le> x \<and> x \<le> 10000)))"

lemma validateStepSize_None_iff: "validateStepSize gsv s p = None \<longleftrightarrow> manual_step_ok gsv s"
proof (cases s)
  case None
  then show ?thesis by (simp add: validateStepSize_def manual_step_ok_def)
next
  case (Some v)
  then show ?thesis
    by (cases "gsv v 10000") (auto simp: validateStepSize_def manual_step_ok_def valid_pu_def Let_def
        grem_def smod_eq_0_iff intstr_Int_def intstr_String_def)
qed

definition manual_spec_ok :: "scaled_value \<Rightarrow> time \<Rightarrow> SpannerManualScalingSpec \<Rightarrow> bool" where
  "manual_spec_ok gsv now spec \<longleftrightarrow>
     ms_TargetResource spec \<noteq> [] \<and> valid_pu (ms_ProcessingUnits spec) \<and>
     manual_step_ok gsv (ms_ScaleupStepSize spec) \<and> manual_step_ok gsv (ms_ScaledownStepSize spec) \<and>
     (\<forall>d. ms_ScaleupInterval spec = Some d \<or> ms_ScaledownInterval spec = Some d \<longrightarrow> 0 < d) \<and>
     (\<forall>t. ms_ExpiresAt spec = Some t \<longrightarrow> now < t)"

lemma validateManualScalingSpec_Nil_iff:
  "validateManualScalingSpec gsv now spec True = [] \<longleftrightarrow> manual_spec_ok gsv now spec"
  by (auto simp: validateManualScalingSpec_def manual_spec_ok_def check_manualPU_Nil_iff
      validatePositiveDuration_None_iff validateStepSize_None_iff split: option.splits)

lemma duplicateActiveWarning_result: "\<exists>ws st'. duplicateActiveWarning client obj st = (ws, st')"
  by (metis surj_pair)

lemma ManualValidateCreate_accepts:
  "(\<exists>ws st'. ManualValidateCreate gsv client rej now obj st = (Inr ws, st')) \<longleftrightarrow>
     manual_spec_ok gsv now (ms_Spec obj) \<and> (rej \<longrightarrow> fst (checkRejectScaledown client obj st) = None)"
  using validateManualScalingSpec_Nil_iff [of gsv now "ms_Spec obj"]
  by (auto simp: ManualValidateCreate_def Let_def split: prod.splits)

section \<open>Properties\<close>

text \<open>
  C14. Which overrides are admitted, exactly: a create passes if and only if the fields are
  well-formed (a target name, a valid processing-unit value, step sizes that are valid
  processing-unit values or percentages from 1 to 100, positive intervals, an expiry in the
  future) and, with the scale-down policy on, a client is configured, the target autoscaler
  can be read, and the override does not lie below its current processing units, which are
  unknown while they are 0. So the policy fails closed.
\<close>

theorem manual_create_admitted_iff:
  "(\<exists>ws st'. ManualValidateCreate gsv client rejectScaledown now obj st = (Inr ws, st')) \<longleftrightarrow>
     manual_spec_ok gsv now (ms_Spec obj) \<and>
     (rejectScaledown \<longrightarrow>
        (\<exists>k target st'. client = Some k \<and>
           kread (k_get_sa k \<lparr>nn_Namespace = om_Namespace (ms_Meta obj), nn_Name = ms_TargetResource (ms_Spec obj)\<rparr>) st
             = (Inr target, st') \<and>
           (CurrentProcessingUnits (sa_Status target) = 0 \<or>
            CurrentProcessingUnits (sa_Status target) \<le> ms_ProcessingUnits (ms_Spec obj))))"
proof -
  have "fst (checkRejectScaledown client obj st) = None \<longleftrightarrow>
      (\<exists>k target st'. client = Some k \<and>
         kread (k_get_sa k \<lparr>nn_Namespace = om_Namespace (ms_Meta obj), nn_Name = ms_TargetResource (ms_Spec obj)\<rparr>) st
           = (Inr target, st') \<and>
         (CurrentProcessingUnits (sa_Status target) = 0 \<or>
          CurrentProcessingUnits (sa_Status target) \<le> ms_ProcessingUnits (ms_Spec obj)))"
    by (auto simp: checkRejectScaledown_def Let_def not_less split: option.splits prod.splits sum.splits)
  then show ?thesis by (simp only: ManualValidateCreate_accepts)
qed

theorem manual_create_admitted_iff_witness:
  "\<not> (\<exists>ws st'. ManualValidateCreate sample_gsv (None :: mem_world kube option) True 5
       \<lparr>ms_Meta = sample_meta,
        ms_Spec = \<lparr>ms_TargetResource = ''sa'', ms_ProcessingUnits = 2000, ms_ScaleupStepSize = None,
          ms_ScaleupInterval = None, ms_ScaledownStepSize = None, ms_ScaledownInterval = None, ms_ExpiresAt = None\<rparr>,
        ms_Status = \<lparr>ms_Phase = PhasePending, ms_AppliedAt = None, ms_ReachedAt = None,
          ms_CurrentProcessingUnits = 0, ms_FinishedAt = None, ms_Message = []\<rparr>\<rparr>
       (mem_state 5 [] [] []) = (Inr ws, st'))"
  unfolding manual_create_admitted_iff by simp

end
