(* ===== verification/Scheduler.thy ===== *)
theory Scheduler
  imports Kube
begin

text \<open>
  \<^verbatim>\<open>internal/scheduler/scheduler.go\<close> and
  \<^verbatim>\<open>internal/controller/spannerautoscaleschedule_controller.go\<close>: how a schedule becomes
  active when its cron job runs (\<open>Job_Run\<close>), how it ends (\<open>Update\<close>, called every ten
  seconds), and how schedules are registered with their autoscaler and unregistered
  (\<open>ScheduleReconcile\<close>).

  \<^verbatim>\<open>time.ParseDuration\<close> and the finalizer helpers of controller-runtime are parameters.
  A Go variable that a failed \<^verbatim>\<open>Get\<close> leaves unset holds its zero value
  (\<open>sa_zero\<close>, \<open>sas_zero\<close>).
\<close>

section \<open>Zero values\<close>

definition meta_zero :: ObjectMeta where
  "meta_zero = \<lparr>om_Name = [], om_Namespace = [], om_UID = [], om_ResourceVersion = [],
     om_CreationTimestamp = 0, om_DeletionTimestamp = None, om_Finalizers = [], om_ControllerUID = None\<rparr>"

definition sa_zero :: SpannerAutoscaler where
  "sa_zero = \<lparr>sa_Meta = meta_zero,
     sa_Spec = \<lparr>TargetInstance = \<lparr>ti_ProjectID = [], ti_InstanceID = []\<rparr>,
       Authentication = \<lparr>auth_Type = AuthType_other [], auth_ImpersonateConfig = None, auth_IAMKeySecret = None\<rparr>,
       ScaleConfig = \<lparr>sc_ComputeType = ComputeType_other [], sc_Nodes = \<lparr>nodes_Min = 0, nodes_Max = 0\<rparr>,
         sc_ProcessingUnits = \<lparr>pus_Min = 0, pus_Max = 0\<rparr>, sc_ScaledownStepSize = intstr_zero,
         sc_ScaledownInterval = None, sc_ScaleupStepSize = intstr_zero, sc_ScaleupInterval = None,
         sc_ScaledownAllowedTimes = [], sc_ScaledownNotAllowedTimes = [],
         sc_TargetCPUUtilization = \<lparr>cpu_HighPriority = None, cpu_Total = None\<rparr>\<rparr>\<rparr>,
     sa_Status = \<lparr>Schedules = [], CurrentlyActiveSchedules = [], LastScaleTime = 0, LastSyncTime = 0,
       CurrentProcessingUnits = 0, DesiredProcessingUnits_status = 0, DesiredMinPUs = 0, DesiredMaxPUs = 0,
       InstanceState = InstanceState_other [], CurrentHighPriorityCPUUtilization = 0,
       CurrentTotalCPUUtilization = 0, CurrentCPUMetricType = CPUMetricType_other [],
       ActiveManualScaling = None\<rparr>\<rparr>"

definition sas_zero :: SpannerAutoscaleSchedule where
  "sas_zero = \<lparr>sas_Meta = meta_zero,
     sas_Spec = \<lparr>sas_TargetResource = [], sas_AdditionalProcessingUnits = 0, sas_MaxPUPolicy = MaxPUPolicy_empty,
       sas_Schedule = \<lparr>sched_Cron = [], sched_Duration = []\<rparr>\<rparr>\<rparr>"

definition set_active :: "ActiveSchedule list \<Rightarrow> SpannerAutoscaler \<Rightarrow> SpannerAutoscaler" where
  "set_active as sa = sa\<lparr>sa_Status := (sa_Status sa)\<lparr>CurrentlyActiveSchedules := as\<rparr>\<rparr>"

definition set_schedules :: "string list \<Rightarrow> SpannerAutoscaler \<Rightarrow> SpannerAutoscaler" where
  "set_schedules ss sa = sa\<lparr>sa_Status := (sa_Status sa)\<lparr>Schedules := ss\<rparr>\<rparr>"

section \<open>Expiry of active schedules\<close>

fun cleanupActiveSchedules ::
    "time \<Rightarrow> ActiveSchedule list \<Rightarrow> ActiveSchedule list \<times> ActiveSchedule list" where
  "cleanupActiveSchedules now [] = ([], [])"
| "cleanupActiveSchedules now (as # ass) =
     (let (kept, expired) = cleanupActiveSchedules now ass
      in if as_EndTime as < now then (kept, as # expired) else (as # kept, expired))"

definition update_attempt ::
    "'w kube \<Rightarrow> NamespacedName \<Rightarrow> (SpannerAutoscaler \<times> ActiveSchedule list \<times> 'w rstate) attempt" where
  "update_attempt k nn = (\<lambda>(autoscaler, expired, st).
     case kread (k_get_sa k nn) st of
       (Inl err, st) \<Rightarrow> (Some err, (autoscaler, expired, st))
     | (Inr autoscaler, st) \<Rightarrow>
         (let (now, st) = kread (k_now k) st;
              (kept, expired) = cleanupActiveSchedules now (CurrentlyActiveSchedules (sa_Status autoscaler))
          in if length expired = 0 then (None, (autoscaler, expired, st))
             else
               let autoscaler = set_active kept autoscaler;
                   (err, st) = status_sa k autoscaler st
               in (err, (autoscaler, expired, st))))"

definition deactivation_metrics :: "SpannerAutoscaler \<Rightarrow> string \<Rightarrow> ActiveSchedule list \<Rightarrow> vec_op list" where
  "deactivation_metrics sa reason ass =
     concat (map (\<lambda>as. RecordScheduleDeactivation (LabelsForAutoscaler sa) reason) ass)"

definition Update ::
    "((SpannerAutoscaler \<times> ActiveSchedule list \<times> 'w rstate) attempt \<Rightarrow>
      (SpannerAutoscaler \<times> ActiveSchedule list \<times> 'w rstate) attempt) \<Rightarrow>
     'w kube \<Rightarrow> NamespacedName \<Rightarrow> 'w rstate \<Rightarrow> kube_err option \<times> 'w rstate" where
  "Update retry k nn st =
     (case retry (update_attempt k nn) (sa_zero, [], st) of
        (Some err, (autoscaler, expired, st)) \<Rightarrow> (Some err, st)
      | (None, (autoscaler, expired, st)) \<Rightarrow> (None, metric (deactivation_metrics autoscaler ''expired'' expired) st))"

section \<open>Activation by a cron job\<close>

record Job =
  job_ScheduleName :: NamespacedName
  job_AutoscalerName :: NamespacedName
  job_Cron :: string

definition upsert_active :: "ActiveSchedule \<Rightarrow> ActiveSchedule list \<Rightarrow> ActiveSchedule list" where
  "upsert_active cas ass = filter (\<lambda>as. as_ScheduleName as \<noteq> as_ScheduleName cas) ass @ [cas]"

definition job_attempt ::
    "'w kube \<Rightarrow> (string \<Rightarrow> string + duration) \<Rightarrow> Job \<Rightarrow> SpannerAutoscaleSchedule \<Rightarrow>
     (SpannerAutoscaler \<times> 'w rstate) attempt" where
  "job_attempt k parseDuration j sas = (\<lambda>(sa, st).
     let (sa, st) = (case kread (k_get_sa k (job_AutoscalerName j)) st of
                       (Inl err, st) \<Rightarrow> (sa, st)
                     | (Inr sa, st) \<Rightarrow> (sa, st));
         duration = (case parseDuration (sched_Duration (sas_Schedule (sas_Spec sas))) of
                       Inl err \<Rightarrow> 0
                     | Inr d \<Rightarrow> d);
         (now, st) = kread (k_now k) st;
         cas = \<lparr>as_ScheduleName = nn_String (job_ScheduleName j), as_EndTime = now + duration,
                as_AdditionalPU = sas_AdditionalProcessingUnits (sas_Spec sas),
                as_MaxPUPolicy = Normalized (sas_MaxPUPolicy (sas_Spec sas))\<rparr>;
         sa = set_active (upsert_active cas (CurrentlyActiveSchedules (sa_Status sa))) sa;
         (err, st) = status_sa k sa st
     in (err, (sa, st)))"

definition Job_Run ::
    "((SpannerAutoscaler \<times> 'w rstate) attempt \<Rightarrow> (SpannerAutoscaler \<times> 'w rstate) attempt) \<Rightarrow>
     'w kube \<Rightarrow> (string \<Rightarrow> string + duration) \<Rightarrow> Job \<Rightarrow> 'w rstate \<Rightarrow> 'w rstate" where
  "Job_Run retry k parseDuration j st =
     (let (sas, st) = (case kread (k_get_sas k (job_ScheduleName j)) st of
                         (Inl err, st) \<Rightarrow> (sas_zero, st)
                       | (Inr sas, st) \<Rightarrow> (sas, st))
      in case retry (job_attempt k parseDuration j sas) (sa_zero, st) of
           (Some err, (sa, st)) \<Rightarrow> st
         | (None, (sa, st)) \<Rightarrow> metric (RecordScheduleActivation (LabelsForAutoscaler sa)) st)"

section \<open>Registration of schedules\<close>

fun findInArray_from :: "nat \<Rightarrow> string list \<Rightarrow> string \<Rightarrow> int \<times> bool" where
  "findInArray_from i [] item = (-1, False)"
| "findInArray_from i (v # vs) item = (if v = item then (int i, True) else findInArray_from (Suc i) vs item)"

definition findInArray :: "string list \<Rightarrow> string \<Rightarrow> int \<times> bool" where
  "findInArray array item = findInArray_from 0 array item"

fun deleteFromArray :: "string list \<Rightarrow> string \<Rightarrow> string list" where
  "deleteFromArray [] item = []"
| "deleteFromArray (v # vs) item = (if v \<noteq> item then v # deleteFromArray vs item else deleteFromArray vs item)"

record finalizer_ops =
  fin_contains :: "string list \<Rightarrow> string \<Rightarrow> bool"
  fin_add :: "string list \<Rightarrow> string \<Rightarrow> string list"
  fin_remove :: "string list \<Rightarrow> string \<Rightarrow> string list"

definition sasFinalizerName :: string where
  "sasFinalizerName = ''spannerautoscaleschedule.spanner.mercari.com/finalizer''"

definition set_finalizers :: "string list \<Rightarrow> SpannerAutoscaleSchedule \<Rightarrow> SpannerAutoscaleSchedule" where
  "set_finalizers fs sas = sas\<lparr>sas_Meta := (sas_Meta sas)\<lparr>om_Finalizers := fs\<rparr>\<rparr>"

definition unregister_attempt ::
    "'w kube \<Rightarrow> NamespacedName \<Rightarrow> string \<Rightarrow> (SpannerAutoscaler \<times> 'w rstate) attempt" where
  "unregister_attempt k nnsa name = (\<lambda>(sa, st).
     case kread (k_get_sa k nnsa) st of
       (Inl err, st) \<Rightarrow> (Some err, (sa, st))
     | (Inr sa, st) \<Rightarrow>
         (let sa = set_schedules (deleteFromArray (Schedules (sa_Status sa)) name) sa;
              (err, st) = status_sa k sa st
          in (err, (sa, st))))"

definition register_attempt ::
    "'w kube \<Rightarrow> NamespacedName \<Rightarrow> string \<Rightarrow> (SpannerAutoscaler \<times> 'w rstate) attempt" where
  "register_attempt k nnsa name = (\<lambda>(sa, st).
     case kread (k_get_sa k nnsa) st of
       (Inl err, st) \<Rightarrow> (Some err, (sa, st))
     | (Inr sa, st) \<Rightarrow>
         (if \<not> snd (findInArray (Schedules (sa_Status sa)) name)
          then (let sa = set_schedules (Schedules (sa_Status sa) @ [name]) sa;
                    (err, st) = status_sa k sa st
                in (err, (sa, st)))
          else (None, (sa, st))))"

section \<open>The schedule reconciler\<close>

type_synonym reconcile_result = "duration \<times> kube_err option"

definition deletion_IsZero :: "time option \<Rightarrow> bool" where
  "deletion_IsZero d = (case d of None \<Rightarrow> True | Some t \<Rightarrow> t = 0)"

definition schedule_deleting ::
    "((SpannerAutoscaler \<times> 'w rstate) attempt \<Rightarrow> (SpannerAutoscaler \<times> 'w rstate) attempt) \<Rightarrow>
     finalizer_ops \<Rightarrow> 'w kube \<Rightarrow> NamespacedName \<Rightarrow> NamespacedName \<Rightarrow> SpannerAutoscaleSchedule \<Rightarrow>
     SpannerAutoscaler \<Rightarrow> 'w rstate \<Rightarrow> reconcile_result \<times> 'w rstate" where
  "schedule_deleting retry fin k req nnsa sas sa st =
     (if fin_contains fin (om_Finalizers (sas_Meta sas)) sasFinalizerName then
        let (err, st) =
              (if length (Schedules (sa_Status sa)) \<noteq> 0
               then (case retry (unregister_attempt k nnsa (nn_String req)) (sa, st) of
                       (err, (sa, st)) \<Rightarrow> (err, st))
               else (None, st))
        in case err of
             Some e \<Rightarrow> ((0, Some e), emit (Event EventWarning ''ScheduleUnregisterFailed'') st)
           | None \<Rightarrow>
               (let sas = set_finalizers (fin_remove fin (om_Finalizers (sas_Meta sas)) sasFinalizerName) sas
                in case update_sas k sas st of
                     (Some e, st) \<Rightarrow> ((0, Some e), emit (Event EventWarning ''RemoveFinalizerFailed'') st)
                   | (None, st) \<Rightarrow> ((0, None), st))
      else ((0, None), st))"

definition schedule_registering ::
    "((SpannerAutoscaler \<times> 'w rstate) attempt \<Rightarrow> (SpannerAutoscaler \<times> 'w rstate) attempt) \<Rightarrow>
     'w kube \<Rightarrow> NamespacedName \<Rightarrow> NamespacedName \<Rightarrow> SpannerAutoscaler \<Rightarrow> 'w rstate \<Rightarrow>
     reconcile_result \<times> 'w rstate" where
  "schedule_registering retry k req nnsa sa st =
     (if \<not> snd (findInArray (Schedules (sa_Status sa)) (nn_String req))
      then (case retry (register_attempt k nnsa (nn_String req)) (sa, st) of
              (Some e, (sa, st)) \<Rightarrow> ((0, Some e), emit (Event EventWarning ''ScheduleRegisterFailed'') st)
            | (None, (sa, st)) \<Rightarrow> ((0, None), emit (Event EventNormal ''RegisteredWithSpannerAutoscaler'') st))
      else ((0, None), st))"

definition ScheduleReconcile ::
    "((SpannerAutoscaler \<times> 'w rstate) attempt \<Rightarrow> (SpannerAutoscaler \<times> 'w rstate) attempt) \<Rightarrow>
     finalizer_ops \<Rightarrow> 'w kube \<Rightarrow> NamespacedName \<Rightarrow> 'w rstate \<Rightarrow> reconcile_result \<times> 'w rstate" where
  "ScheduleReconcile retry fin k req st =
     (case kread (k_get_sas k req) st of
        (Inl e, st) \<Rightarrow> ((0, IgnoreNotFound e), st)
      | (Inr sas, st) \<Rightarrow>
          (let live = deletion_IsZero (om_DeletionTimestamp (sas_Meta sas));
               (err, sas, st) =
                 (if live \<and> \<not> fin_contains fin (om_Finalizers (sas_Meta sas)) sasFinalizerName
                  then (let sas = set_finalizers (fin_add fin (om_Finalizers (sas_Meta sas)) sasFinalizerName) sas;
                            (err, st) = update_sas k sas st
                        in (err, sas, st))
                  else (None, sas, st))
           in case err of
                Some e \<Rightarrow> ((0, Some e), emit (Event EventWarning ''AddFinalizerFailed'') st)
              | None \<Rightarrow>
                  (let nnsa = \<lparr>nn_Namespace = nn_Namespace req, nn_Name = sas_TargetResource (sas_Spec sas)\<rparr>
                   in case kread (k_get_sa k nnsa) st of
                        (Inl e, st) \<Rightarrow>
                          (if live then ((0, Some e), emit (Event EventWarning ''SpannerAutoscalerNotFound'') st)
                           else schedule_deleting retry fin k req nnsa sas sa_zero st)
                      | (Inr sa, st) \<Rightarrow>
                          (if \<not> live then schedule_deleting retry fin k req nnsa sas sa st
                           else schedule_registering retry k req nnsa sa st))))"

section \<open>Lemmas on arrays\<close>

lemma findInArray_from_iff: "snd (findInArray_from i xs x) \<longleftrightarrow> x \<in> set xs"
  by (induction xs arbitrary: i) auto

lemma findInArray_found [simp]: "snd (findInArray xs x) \<longleftrightarrow> x \<in> set xs"
  by (simp add: findInArray_def findInArray_from_iff)

lemma deleteFromArray_filter [simp]: "deleteFromArray xs x = filter (\<lambda>y. y \<noteq> x) xs"
  by (induction xs) auto

lemma cleanupActiveSchedules_filter:
  "cleanupActiveSchedules now ass = (filter (\<lambda>as. \<not> as_EndTime as < now) ass, filter (\<lambda>as. as_EndTime as < now) ass)"
  by (induction ass) auto

lemma upsert_active_names:
  "distinct (map as_ScheduleName ass) \<Longrightarrow> distinct (map as_ScheduleName (upsert_active cas ass))"
  by (auto simp: upsert_active_def distinct_map inj_on_def)

lemma upsert_active_count:
  "filter (\<lambda>as. as_ScheduleName as = as_ScheduleName cas) (upsert_active cas ass) = [cas]"
  by (auto simp: upsert_active_def filter_empty_conv)

section \<open>Traces of the retried writes\<close>

text \<open>
  \<open>conflicts W ws\<close>: the writes \<open>ws\<close> were all refused with a conflict and satisfy
  \<open>W\<close>. An attempt that ends in a conflict adds at most one such write; a run of conflicting
  attempts adds only such writes.
\<close>

definition conflicts :: "(SpannerAutoscaler \<Rightarrow> bool) \<Rightarrow> effect list \<Rightarrow> bool" where
  "conflicts W ws \<longleftrightarrow> (\<forall>e \<in> set ws. \<exists>sa. e = StatusSA sa (Some ErrConflict) \<and> W sa)"

lemma conflict_run_writes:
  assumes "conflict_run f s s'"
    and "\<And>s s'. f s = (Some ErrConflict, s') \<Longrightarrow>
           \<exists>ws. st_Trace (tr s') = st_Trace (tr s) @ ws \<and> conflicts W ws"
  shows "\<exists>ws. st_Trace (tr s') = st_Trace (tr s) @ ws \<and> conflicts W ws"
  using assms(1)
proof (rule conflict_run_rel)
  show "\<exists>ws. st_Trace (tr s) = st_Trace (tr s) @ ws \<and> conflicts W ws" for s
    by (simp add: conflicts_def)
next
  fix s s1 s2
  assume "\<exists>ws. st_Trace (tr s1) = st_Trace (tr s) @ ws \<and> conflicts W ws"
    "\<exists>ws. st_Trace (tr s2) = st_Trace (tr s1) @ ws \<and> conflicts W ws"
  then obtain ws ws' where "st_Trace (tr s1) = st_Trace (tr s) @ ws" "conflicts W ws"
    "st_Trace (tr s2) = st_Trace (tr s1) @ ws'" "conflicts W ws'" by blast
  then show "\<exists>ws. st_Trace (tr s2) = st_Trace (tr s) @ ws \<and> conflicts W ws"
    by (intro exI [of _ "ws @ ws'"]) (auto simp: conflicts_def)
qed (rule assms(2))

lemma status_sa_trace: "status_sa k sa st = (e, st') \<Longrightarrow> st_Trace st' = st_Trace st @ [StatusSA sa e]"
  by (simp add: status_sa_def kwrite_trace)

lemma kread_traceD: "kread f st = (r, st') \<Longrightarrow> st_Trace st' = st_Trace st"
  using kread_trace [of f st] by simp

text \<open>
  Runs of attempts on the worlds of the API server. \<open>step s es e s'\<close> says what one attempt may
  do: from \<open>s\<close>, which has the captured variables and the world, it performs the effects \<open>es\<close>,
  answers \<open>e\<close> and ends in \<open>s'\<close>. \<open>conflict_writes\<close> chains attempts that were refused with a
  conflict, each from the world in which the one before it ended.
\<close>

inductive conflict_writes ::
    "('s \<Rightarrow> effect list \<Rightarrow> kube_err option \<Rightarrow> 's \<Rightarrow> bool) \<Rightarrow> 's \<Rightarrow> effect list \<Rightarrow> 's \<Rightarrow> bool" for step where
  no_conflict: "conflict_writes step s [] s"
| one_conflict: "conflict_writes step s ws s1 \<Longrightarrow> step s1 es (Some ErrConflict) s2 \<Longrightarrow> conflict_writes step s (ws @ es) s2"

lemma conflict_run_steps:
  assumes "conflict_run f s s'"
    and "\<And>s e s'. f s = (e, s') \<Longrightarrow> \<exists>es. st_Trace (tr s') = st_Trace (tr s) @ es \<and> step (ab s) es e (ab s')"
  shows "\<exists>ws. conflict_writes step (ab s) ws (ab s') \<and> st_Trace (tr s') = st_Trace (tr s) @ ws"
  using assms(1)
proof (induction rule: conflict_run.induct)
  case (start s)
  then show ?case using no_conflict by fastforce
next
  case (again s s1 s2)
  then obtain ws es where "conflict_writes step (ab s) ws (ab s1)" "st_Trace (tr s1) = st_Trace (tr s) @ ws"
    "st_Trace (tr s2) = st_Trace (tr s1) @ es" "step (ab s1) es (Some ErrConflict) (ab s2)"
    using assms(2) by blast
  then show ?case by (intro exI [of _ "ws @ es"]) (auto intro: one_conflict)
qed

text \<open>A retried operation is such a run followed by the attempt whose answer it returns.\<close>

lemma retry_steps:
  assumes "retry_ok retry" "retry f s = (e, s')"
    and "\<And>s e s'. f s = (e, s') \<Longrightarrow> \<exists>es. st_Trace (tr s') = st_Trace (tr s) @ es \<and> step (ab s) es e (ab s')"
  obtains ws m es where "conflict_writes step (ab s) ws m" "step m es e (ab s')"
    "st_Trace (tr s') = st_Trace (tr s) @ ws @ es"
proof -
  obtain s0 where r: "conflict_run f s s0" "f s0 = (e, s')" using retry_okE [OF assms(1,2)] .
  obtain ws where "conflict_writes step (ab s) ws (ab s0)" "st_Trace (tr s0) = st_Trace (tr s) @ ws"
    using conflict_run_steps [where step = step and ab = ab and tr = tr, OF r(1) assms(3)] by blast
  then show ?thesis using that assms(3) [OF r(2)] by fastforce
qed

lemma kread_world: "kread f st = (r, st') \<longleftrightarrow> (\<exists>w. f (st_World st) = (r, w) \<and> st' = st\<lparr>st_World := w\<rparr>)"
  by (auto simp: kread_def split: prod.splits)

lemma status_sa_world:
  "status_sa k sa st = (e, st') \<Longrightarrow>
     k_status_sa k sa (st_World st) = (e, st_World st') \<and> st_Trace st' = st_Trace st @ [StatusSA sa e]"
  by (auto simp: status_sa_def kwrite_def emit_def split: prod.splits)

text \<open>An object without its active schedules, and without its registered ones: what the writes leave alone.\<close>

definition but_active :: "SpannerAutoscaler \<Rightarrow> SpannerAutoscaler" where
  "but_active sa = sa\<lparr>sa_Status := (sa_Status sa)\<lparr>CurrentlyActiveSchedules := []\<rparr>\<rparr>"

definition but_schedules :: "SpannerAutoscaler \<Rightarrow> SpannerAutoscaler" where
  "but_schedules sa = sa\<lparr>sa_Status := (sa_Status sa)\<lparr>Schedules := []\<rparr>\<rparr>"

text \<open>
  An attempt of \<open>Update\<close>: the object is read and then the clock. The entries whose end is before
  that time are the expired ones. If there are any, the object is written, without them and
  otherwise as it was read.
\<close>

definition expiry_step ::
    "'w kube \<Rightarrow> NamespacedName \<Rightarrow> SpannerAutoscaler \<times> ActiveSchedule list \<times> 'w \<Rightarrow> effect list \<Rightarrow> kube_err option \<Rightarrow>
     SpannerAutoscaler \<times> ActiveSchedule list \<times> 'w \<Rightarrow> bool" where
  "expiry_step k nn = (\<lambda>(a, x, w) es e (a', x', w').
     (\<exists>err. k_get_sa k nn w = (Inl err, w') \<and> es = [] \<and> e = Some err \<and> a' = a \<and> x' = x) \<or>
     (\<exists>sa w1 now w2. k_get_sa k nn w = (Inr sa, w1) \<and> k_now k w1 = (now, w2) \<and>
        but_active a' = but_active sa \<and>
        CurrentlyActiveSchedules (sa_Status a') = filter (\<lambda>as. now \<le> as_EndTime as) (CurrentlyActiveSchedules (sa_Status sa)) \<and>
        x' = filter (\<lambda>as. as_EndTime as < now) (CurrentlyActiveSchedules (sa_Status sa)) \<and>
        (if x' = [] then es = [] \<and> e = None \<and> w' = w2
         else es = [StatusSA a' e] \<and> k_status_sa k a' w2 = (e, w'))))"

lemma update_attempt_step:
  assumes "update_attempt k nn (a, x, st) = (e, (a', x', st'))"
  shows "\<exists>es. st_Trace st' = st_Trace st @ es \<and> expiry_step k nn (a, x, st_World st) es e (a', x', st_World st')"
proof -
  obtain r w1 where g: "k_get_sa k nn (st_World st) = (r, w1)" by fastforce
  show ?thesis
  proof (cases r)
    case (Inl err)
    then show ?thesis using assms g
      by (intro exI [of _ "[]"]) (auto simp: update_attempt_def expiry_step_def kread_def)
  next
    case (Inr sa)
    obtain now w2 where n: "k_now k w1 = (now, w2)" by fastforce
    define kept where "kept = filter (\<lambda>as. now \<le> as_EndTime as) (CurrentlyActiveSchedules (sa_Status sa))"
    define expired where "expired = filter (\<lambda>as. as_EndTime as < now) (CurrentlyActiveSchedules (sa_Status sa))"
    have c: "cleanupActiveSchedules now (CurrentlyActiveSchedules (sa_Status sa)) = (kept, expired)"
      by (simp add: cleanupActiveSchedules_filter kept_def expired_def not_less)
    show ?thesis
    proof (cases "expired = []")
      case True
      then have "kept = CurrentlyActiveSchedules (sa_Status sa)"
        unfolding kept_def expired_def by (simp add: filter_empty_conv not_less filter_id_conv)
      then show ?thesis using assms g Inr n True c
        by (intro exI [of _ "[]"]) (auto simp: update_attempt_def expiry_step_def kread_def kept_def expired_def)
    next
      case False
      let ?st = "st\<lparr>st_World := w2\<rparr>"
      obtain e2 st3 where s: "status_sa k (set_active kept sa) ?st = (e2, st3)" by fastforce
      have "e = e2 \<and> a' = set_active kept sa \<and> x' = expired \<and> st' = st3"
        using assms g Inr n False s c by (simp add: update_attempt_def kread_def)
      then show ?thesis using status_sa_world [OF s] g Inr n False
        by (intro exI [of _ "[StatusSA a' e]"])
          (auto simp: expiry_step_def but_active_def set_active_def kept_def expired_def)
    qed
  qed
qed

text \<open>
  The entry a firing of a schedule at \<open>now\<close> adds, and an attempt of a cron job: the object is
  read (if that fails, the one of the attempt before is used) and then the clock, and the
  object is written with exactly one entry for the schedule, the fresh one, the entries of the
  other schedules in their order and everything else as it was.
\<close>

definition activation ::
    "(string \<Rightarrow> string + duration) \<Rightarrow> Job \<Rightarrow> SpannerAutoscaleSchedule \<Rightarrow> time \<Rightarrow> ActiveSchedule" where
  "activation parseDuration j sas now =
     \<lparr>as_ScheduleName = nn_String (job_ScheduleName j),
      as_EndTime = now + (case parseDuration (sched_Duration (sas_Schedule (sas_Spec sas))) of
                            Inl err \<Rightarrow> 0 | Inr d \<Rightarrow> d),
      as_AdditionalPU = sas_AdditionalProcessingUnits (sas_Spec sas),
      as_MaxPUPolicy = Normalized (sas_MaxPUPolicy (sas_Spec sas))\<rparr>"

definition activates :: "ActiveSchedule \<Rightarrow> SpannerAutoscaler \<Rightarrow> SpannerAutoscaler \<Rightarrow> bool" where
  "activates as sa sa' \<longleftrightarrow> but_active sa' = but_active sa \<and>
     filter (\<lambda>x. as_ScheduleName x = as_ScheduleName as) (CurrentlyActiveSchedules (sa_Status sa')) = [as] \<and>
     filter (\<lambda>x. as_ScheduleName x \<noteq> as_ScheduleName as) (CurrentlyActiveSchedules (sa_Status sa')) =
       filter (\<lambda>x. as_ScheduleName x \<noteq> as_ScheduleName as) (CurrentlyActiveSchedules (sa_Status sa))"

definition activation_step ::
    "'w kube \<Rightarrow> NamespacedName \<Rightarrow> (time \<Rightarrow> ActiveSchedule) \<Rightarrow> SpannerAutoscaler \<times> 'w \<Rightarrow> effect list \<Rightarrow> kube_err option \<Rightarrow>
     SpannerAutoscaler \<times> 'w \<Rightarrow> bool" where
  "activation_step k nn entry = (\<lambda>(a, w) es e (a', w').
     \<exists>r w1 now w2. k_get_sa k nn w = (r, w1) \<and> k_now k w1 = (now, w2) \<and>
       activates (entry now) (case r of Inl err \<Rightarrow> a | Inr sa \<Rightarrow> sa) a' \<and>
       es = [StatusSA a' e] \<and> k_status_sa k a' w2 = (e, w'))"

lemma upsert_activates:
  "activates as sa (set_active (upsert_active as (CurrentlyActiveSchedules (sa_Status sa))) sa)"
  using upsert_active_count [of as "CurrentlyActiveSchedules (sa_Status sa)"]
  by (simp add: activates_def but_active_def set_active_def upsert_active_def)

lemma job_attempt_step:
  assumes "job_attempt k parseDuration j sas (a, st) = (e, (a', st'))"
  shows "\<exists>es. st_Trace st' = st_Trace st @ es \<and>
     activation_step k (job_AutoscalerName j) (activation parseDuration j sas) (a, st_World st) es e (a', st_World st')"
proof -
  obtain r w1 where g: "k_get_sa k (job_AutoscalerName j) (st_World st) = (r, w1)" by fastforce
  obtain now w2 where n: "k_now k w1 = (now, w2)" by fastforce
  define sa where "sa = (case r of Inl err \<Rightarrow> a | Inr sa \<Rightarrow> sa)"
  define as where "as = activation parseDuration j sas now"
  let ?sa = "set_active (upsert_active as (CurrentlyActiveSchedules (sa_Status sa))) sa"
  obtain e2 st3 where s: "status_sa k ?sa (st\<lparr>st_World := w2\<rparr>) = (e2, st3)" by fastforce
  have "e = e2 \<and> a' = ?sa \<and> st' = st3"
    using assms g n s
    by (cases r) (simp_all add: job_attempt_def kread_def sa_def as_def activation_def Let_def)
  then show ?thesis using status_sa_world [OF s] g n upsert_activates [of as sa]
    by (intro exI [of _ "[StatusSA a' e]"]) (auto simp: activation_step_def sa_def as_def)
qed

lemma activation_step_effects: "activation_step k nn entry m es e (a', w') \<Longrightarrow> es = [StatusSA a' e]"
  by (auto simp: activation_step_def split: prod.splits)

text \<open>The run of a job whose schedule, or the zero value for it, is \<open>sas\<close>.\<close>

lemma job_run_steps:
  assumes "retry_ok retry" "retry (job_attempt k parseDuration j sas) (sa_zero, st1) = (e, (sa, st2))"
  shows "\<exists>ws a w. conflict_writes (activation_step k (job_AutoscalerName j) (activation parseDuration j sas))
       (sa_zero, st_World st1) ws (a, w) \<and>
     activation_step k (job_AutoscalerName j) (activation parseDuration j sas) (a, w) [StatusSA sa e] e (sa, st_World st2) \<and>
     st_Trace st2 = st_Trace st1 @ ws @ [StatusSA sa e]"
proof -
  let ?step = "activation_step k (job_AutoscalerName j) (activation parseDuration j sas)"
  let ?ab = "\<lambda>(a, st). (a, st_World st)"
  obtain ws m es where r: "conflict_writes ?step (?ab (sa_zero, st1)) ws m" "?step m es e (?ab (sa, st2))"
    "st_Trace (snd (sa, st2)) = st_Trace (snd (sa_zero, st1)) @ ws @ es"
    by (rule retry_steps [where tr = snd and ab = ?ab and step = ?step, OF assms])
      (use job_attempt_step in \<open>fastforce\<close>)
  obtain a w where m: "m = (a, w)" by fastforce
  have "es = [StatusSA sa e]" using r(2) activation_step_effects by fastforce
  then show ?thesis using r m by auto
qed

text \<open>
  An attempt to unregister the schedule \<open>name\<close>: the object is read and written with the other
  names only.
\<close>

definition unregister_step ::
    "'w kube \<Rightarrow> NamespacedName \<Rightarrow> string \<Rightarrow> SpannerAutoscaler \<times> 'w \<Rightarrow> effect list \<Rightarrow> kube_err option \<Rightarrow>
     SpannerAutoscaler \<times> 'w \<Rightarrow> bool" where
  "unregister_step k nn name = (\<lambda>(a, w) es e (a', w').
     (\<exists>err. k_get_sa k nn w = (Inl err, w') \<and> es = [] \<and> e = Some err \<and> a' = a) \<or>
     (\<exists>sa w1. k_get_sa k nn w = (Inr sa, w1) \<and> but_schedules a' = but_schedules sa \<and>
        Schedules (sa_Status a') = filter (\<lambda>n. n \<noteq> name) (Schedules (sa_Status sa)) \<and>
        es = [StatusSA a' e] \<and> k_status_sa k a' w1 = (e, w')))"

lemma unregister_attempt_step:
  assumes "unregister_attempt k nn name (a, st) = (e, (a', st'))"
  shows "\<exists>es. st_Trace st' = st_Trace st @ es \<and> unregister_step k nn name (a, st_World st) es e (a', st_World st')"
proof -
  obtain r w1 where g: "k_get_sa k nn (st_World st) = (r, w1)" by fastforce
  show ?thesis
  proof (cases r)
    case (Inl err)
    then show ?thesis using assms g
      by (intro exI [of _ "[]"]) (auto simp: unregister_attempt_def unregister_step_def kread_def)
  next
    case (Inr sa)
    let ?sa = "set_schedules (filter (\<lambda>n. n \<noteq> name) (Schedules (sa_Status sa))) sa"
    obtain e2 st2 where s: "status_sa k ?sa (st\<lparr>st_World := w1\<rparr>) = (e2, st2)" by fastforce
    have "e = e2 \<and> a' = ?sa \<and> st' = st2" using assms g Inr s by (simp add: unregister_attempt_def kread_def)
    then show ?thesis using status_sa_world [OF s] g Inr
      by (intro exI [of _ "[StatusSA a' e]"]) (auto simp: unregister_step_def but_schedules_def set_schedules_def)
  qed
qed

lemma update_sas_trace: "update_sas k s st = (e, st') \<Longrightarrow> st_Trace st' = st_Trace st @ [UpdateSAS s e]"
  by (simp add: update_sas_def kwrite_trace)

text \<open>What releasing a schedule adds to the trace.\<close>

definition release_effects :: "SpannerAutoscaleSchedule \<Rightarrow> kube_err option \<Rightarrow> effect list" where
  "release_effects sas e = UpdateSAS sas e # (if e = None then [] else [Event EventWarning ''RemoveFinalizerFailed''])"

lemma schedule_deleting_effects:
  assumes "retry_ok retry" "schedule_deleting retry fin k req nnsa sas sa st = (r, st')"
    and "fin_contains fin (om_Finalizers (sas_Meta sas)) sasFinalizerName"
  defines "gone \<equiv> set_finalizers (fin_remove fin (om_Finalizers (sas_Meta sas)) sasFinalizerName) sas"
  shows "if Schedules (sa_Status sa) = [] then \<exists>e. st_Trace st' = st_Trace st @ release_effects gone e
     else \<exists>ws m es e m' e'. conflict_writes (unregister_step k nnsa (nn_String req)) (sa, st_World st) ws m \<and>
       unregister_step k nnsa (nn_String req) m es e m' \<and>
       st_Trace st' = st_Trace st @ ws @ es @
         (if e = None then release_effects gone e' else [Event EventWarning ''ScheduleUnregisterFailed''])"
proof -
  have rel: "\<exists>e. st_Trace st' = st_Trace st1 @ release_effects gone e"
    if "(case update_sas k gone st1 of
          (Some e, st) \<Rightarrow> ((0, Some e), emit (Event EventWarning ''RemoveFinalizerFailed'') st)
        | (None, st) \<Rightarrow> ((0, None), st)) = (r, st')" for st1
  proof -
    obtain e st2 where u: "update_sas k gone st1 = (e, st2)" by fastforce
    show ?thesis using that u update_sas_trace [OF u]
      by (intro exI [of _ e]) (auto simp: release_effects_def split: option.splits)
  qed
  show ?thesis
  proof (cases "Schedules (sa_Status sa) = []")
    case True
    then show ?thesis using assms(2,3) rel [of st] by (simp add: schedule_deleting_def gone_def)
  next
    case False
    let ?step = "unregister_step k nnsa (nn_String req)" and ?ab = "\<lambda>(a, st). (a, st_World st)"
    obtain e sa1 st1 where u: "retry (unregister_attempt k nnsa (nn_String req)) (sa, st) = (e, (sa1, st1))"
      by (metis prod_cases3)
    obtain ws m es where w: "conflict_writes ?step (?ab (sa, st)) ws m" "?step m es e (?ab (sa1, st1))"
      "st_Trace (snd (sa1, st1)) = st_Trace (snd (sa, st)) @ ws @ es"
      by (rule retry_steps [where tr = snd and ab = ?ab and step = ?step, OF assms(1) u])
        (use unregister_attempt_step in \<open>fastforce\<close>)
    have "\<exists>e'. st_Trace st' = st_Trace st1 @
        (if e = None then release_effects gone e' else [Event EventWarning ''ScheduleUnregisterFailed''])"
      using assms(2,3) False u rel [of st1] by (cases e) (auto simp: schedule_deleting_def gone_def)
    then obtain e' where "st_Trace st' = st_Trace st @ ws @ es @
        (if e = None then release_effects gone e' else [Event EventWarning ''ScheduleUnregisterFailed''])"
      using w(3) by auto
    with w(1,2) False show ?thesis
      by (simp only: if_False prod.case) (intro exI [of _ ws] exI [of _ m] exI [of _ es] exI [of _ e] exI [of _ "(sa1, st_World st1)"]
        exI [of _ e'], simp)
  qed
qed

section \<open>Properties\<close>


definition sample_job :: Job where
  "sample_job = \<lparr>job_ScheduleName = \<lparr>nn_Namespace = ''ns'', nn_Name = ''s''\<rparr>,
     job_AutoscalerName = \<lparr>nn_Namespace = ''ns'', nn_Name = ''sa''\<rparr>, job_Cron = ''0 * * * *''\<rparr>"

definition sample_sas :: SpannerAutoscaleSchedule where
  "sample_sas = sas_zero\<lparr>sas_Meta := meta_zero\<lparr>om_Name := ''s'', om_Namespace := ''ns''\<rparr>,
     sas_Spec := \<lparr>sas_TargetResource = ''sa'', sas_AdditionalProcessingUnits = 500,
       sas_MaxPUPolicy = MaxPUPolicy_empty, sas_Schedule = \<lparr>sched_Cron = ''0 * * * *'', sched_Duration = ''1m''\<rparr>\<rparr>\<rparr>"


text \<open>
  C16. Expiry is reported once: a run of the scheduler is a chain of attempts, all but the last
  refused with a conflict, each from the world in which the one before it ended. An attempt
  that reads the autoscaler writes it exactly if some entry ended before the clock it read, and
  then with exactly these entries removed and all else unchanged. The deactivation counter is
  incremented only if the last attempt succeeded, once for each entry it removed, however many
  conflicts came before.
\<close>

theorem scheduler_update_once:
  assumes "retry_ok retry" "Update retry k nn st = (err, st')"
  shows "\<exists>ws m es sa expired.
     conflict_writes (expiry_step k nn) (sa_zero, [], st_World st) ws m \<and>
     expiry_step k nn m es err (sa, expired, st_World st') \<and>
     st_Trace st' = st_Trace st @ ws @ es @
       (if err = None
        then map Metric (concat (map (\<lambda>as. RecordScheduleDeactivation (LabelsForAutoscaler sa) ''expired'') expired)) else [])"
proof -
  let ?ab = "\<lambda>(a, x, st). (a, x, st_World st)" and ?tr = "\<lambda>(a, x, st). st"
  obtain e a x st1 where r: "retry (update_attempt k nn) (sa_zero, [], st) = (e, (a, x, st1))"
    by (metis prod_cases4)
  have st': "err = e \<and> st' = (if e = None then metric (deactivation_metrics a ''expired'' x) st1 else st1)"
    using assms(2) r by (auto simp: Update_def split: option.splits)
  have f: "\<exists>es. st_Trace (?tr s') = st_Trace (?tr s) @ es \<and> expiry_step k nn (?ab s) es e (?ab s')"
    if "update_attempt k nn s = (e, s')" for s s' e
  proof -
    obtain b y u b' y' u' where "s = (b, y, u)" "s' = (b', y', u')" by (metis prod_cases3)
    then show ?thesis using update_attempt_step [of k nn b y u e b' y' u'] that by simp
  qed
  obtain ws m es where w: "conflict_writes (expiry_step k nn) (?ab (sa_zero, [], st)) ws m"
    "expiry_step k nn m es e (?ab (a, x, st1))" "st_Trace st1 = st_Trace st @ ws @ es"
    by (rule retry_steps [where tr = ?tr and ab = ?ab and step = "expiry_step k nn", OF assms(1) r f]) simp_all
  have "st_World st' = st_World st1" "st_Trace st' = st_Trace st @ ws @ es @ (if err = None
      then map Metric (concat (map (\<lambda>as. RecordScheduleDeactivation (LabelsForAutoscaler a) ''expired'') x)) else [])"
    using w(3) st' by (simp_all add: deactivation_metrics_def)
  with w(1,2) st' show ?thesis by (intro exI [of _ ws] exI [of _ m] exI [of _ es] exI [of _ a] exI [of _ x]) simp
qed

theorem scheduler_update_once_witness:
  "let st = mem_state 7 [set_active [activation (\<lambda>s. Inr 1) sample_job sample_sas 3] sample_sa] [] []
   in \<exists>ws m es sa expired w'. conflict_writes (expiry_step mem_kube (object_key sample_meta)) (sa_zero, [], st_World st) ws m \<and>
     expiry_step mem_kube (object_key sample_meta) m es None (sa, expired, w') \<and>
     st_Trace (snd (Update (retry_n 3) mem_kube (object_key sample_meta) st)) = ws @ es @
       map Metric (concat (map (\<lambda>as. RecordScheduleDeactivation (LabelsForAutoscaler sa) ''expired'') expired))"
proof -
  let ?st = "mem_state 7 [set_active [activation (\<lambda>s. Inr 1) sample_job sample_sas 3] sample_sa] [] []"
  have "fst (Update (retry_n 3) mem_kube (object_key sample_meta) ?st) = None" by code_simp
  then have "Update (retry_n 3) mem_kube (object_key sample_meta) ?st =
      (None, snd (Update (retry_n 3) mem_kube (object_key sample_meta) ?st))" by (simp add: prod_eq_iff)
  moreover have "st_Trace ?st = []" by (simp add: mem_state_def)
  ultimately show ?thesis
    using scheduler_update_once [OF retry_n_ok, of 3 mem_kube "object_key sample_meta" ?st None] unfolding Let_def
    by (simp only: append_Nil if_True simp_thms) blast
qed

text \<open>
  C17. When a deleted schedule is let go. If its autoscaler can be read and lists schedules, the
  schedule is unregistered first: the autoscaler is read again and written without the name of
  the schedule, all else unchanged, again after every conflict; the finalizer is removed only
  if the last of these attempts succeeded, and otherwise an event says that it failed. If the
  autoscaler lists no schedule, or the read of it failed for whatever reason, the finalizer is
  removed at once: after a failed read the autoscaler still lists a schedule that is gone.
\<close>

theorem schedule_finalizer_last:
  assumes "retry_ok retry" "ScheduleReconcile retry fin k req st = (r, st')"
    and "kread (k_get_sas k req) st = (Inr sas, st1)"
    and "\<not> deletion_IsZero (om_DeletionTimestamp (sas_Meta sas))"
    and "fin_contains fin (om_Finalizers (sas_Meta sas)) sasFinalizerName"
    and "nnsa = \<lparr>nn_Namespace = nn_Namespace req, nn_Name = sas_TargetResource (sas_Spec sas)\<rparr>"
    and "kread (k_get_sa k nnsa) st1 = (q, st2)"
    and "gone = set_finalizers (fin_remove fin (om_Finalizers (sas_Meta sas)) sasFinalizerName) sas"
  shows "case q of
       Inr sa \<Rightarrow>
         if Schedules (sa_Status sa) = [] then \<exists>e. st_Trace st' = st_Trace st @ release_effects gone e
         else \<exists>ws m es e m' e'. conflict_writes (unregister_step k nnsa (nn_String req)) (sa, st_World st2) ws m \<and>
           unregister_step k nnsa (nn_String req) m es e m' \<and>
           st_Trace st' = st_Trace st @ ws @ es @
             (if e = None then release_effects gone e' else [Event EventWarning ''ScheduleUnregisterFailed''])
     | Inl err \<Rightarrow> \<exists>e. st_Trace st' = st_Trace st @ release_effects gone e"
proof -
  have t: "st_Trace st2 = st_Trace st" using kread_traceD [OF assms(3)] kread_traceD [OF assms(7)] by simp
  have d: "schedule_deleting retry fin k req nnsa sas (case q of Inl err \<Rightarrow> sa_zero | Inr sa \<Rightarrow> sa) st2 = (r, st')"
    using assms(2-4,6,7) by (cases q) (simp_all add: ScheduleReconcile_def)
  note eff = schedule_deleting_effects [OF assms(1) d assms(5), folded assms(8), unfolded t]
  show ?thesis
  proof (cases q)
    case (Inl err)
    then show ?thesis using eff by (simp add: sa_zero_def)
  next
    case (Inr sa)
    then show ?thesis using eff by (simp only: sum.case)
  qed
qed

definition sample_fin :: finalizer_ops where
  "sample_fin = \<lparr>fin_contains = (\<lambda>fs f. f \<in> set fs), fin_add = (\<lambda>fs f. if f \<in> set fs then fs else fs @ [f]),
     fin_remove = (\<lambda>fs f. filter (\<lambda>x. x \<noteq> f) fs)\<rparr>"

definition deleted_sas :: SpannerAutoscaleSchedule where
  "deleted_sas = sample_sas\<lparr>sas_Meta := (sas_Meta sample_sas)\<lparr>om_DeletionTimestamp := Some 5,
     om_Finalizers := [sasFinalizerName]\<rparr>\<rparr>"

theorem schedule_finalizer_last_witness:
  "let sa = set_schedules [''ns/s'', ''ns/t''] sample_sa; st = mem_state 7 [sa] [deleted_sas] []
   in \<exists>ws m es e m' e'. conflict_writes (unregister_step mem_kube (object_key sample_meta) ''ns/s'') (sa, st_World st) ws m \<and>
     unregister_step mem_kube (object_key sample_meta) ''ns/s'' m es e m' \<and>
     st_Trace (snd (ScheduleReconcile (retry_n 3) sample_fin mem_kube (job_ScheduleName sample_job) st)) = ws @ es @
       (if e = None then release_effects (set_finalizers [] deleted_sas) e' else [Event EventWarning ''ScheduleUnregisterFailed''])"
proof -
  let ?sa = "set_schedules [''ns/s'', ''ns/t''] sample_sa"
  let ?st = "mem_state 7 [?sa] [deleted_sas] []" and ?req = "job_ScheduleName sample_job"
  obtain r st' where R: "ScheduleReconcile (retry_n 3) sample_fin mem_kube ?req ?st = (r, st')" by fastforce
  have g: "kread (k_get_sas mem_kube ?req) ?st = (Inr deleted_sas, ?st)"
    by (simp add: kread_def mem_kube_def mem_get_def mem_state_def sample_job_def deleted_sas_def sample_sas_def
        sas_zero_def meta_zero_def object_key_def)
  have a: "kread (k_get_sa mem_kube (object_key sample_meta)) ?st = (Inr ?sa, ?st)"
    by (simp add: kread_def mem_kube_def mem_get_def mem_state_def set_schedules_def sample_defs)
  have n: "object_key sample_meta = \<lparr>nn_Namespace = nn_Namespace ?req, nn_Name = sas_TargetResource (sas_Spec deleted_sas)\<rparr>"
    by (simp add: object_key_def sample_defs sample_job_def deleted_sas_def sample_sas_def)
  have f: "\<not> deletion_IsZero (om_DeletionTimestamp (sas_Meta deleted_sas))"
    "fin_contains sample_fin (om_Finalizers (sas_Meta deleted_sas)) sasFinalizerName"
    "set_finalizers [] deleted_sas =
       set_finalizers (fin_remove sample_fin (om_Finalizers (sas_Meta deleted_sas)) sasFinalizerName) deleted_sas"
    by (simp_all add: deleted_sas_def deletion_IsZero_def sample_fin_def)
  have "nn_String ?req = ''ns/s''" "Schedules (sa_Status ?sa) \<noteq> []" "st_Trace ?st = []"
    by (simp_all add: nn_String_def sample_job_def set_schedules_def mem_state_def)
  then show ?thesis
    using schedule_finalizer_last [OF retry_n_ok R g f(1,2) n a f(3)] R unfolding Let_def by simp
qed

text \<open>
  C18. A failed read is not an abort: when the schedule object cannot be read, the job goes
  on with the zero value of the schedule, and every write it attempts replaces the entry of
  the schedule by one that adds 0 processing units and ends at the reading of the clock of
  that very attempt (an empty duration does not parse), so that a schedule that is already
  active is cut short; and it counts as an activation.
\<close>

theorem job_run_unreadable_schedule:
  assumes "retry_ok retry" "kread (k_get_sas k (job_ScheduleName j)) st = (Inl err, st1)"
    and "parseDuration [] = Inl perr" "Job_Run retry k parseDuration j st = st'"
    and "entry = (\<lambda>now. \<lparr>as_ScheduleName = nn_String (job_ScheduleName j), as_EndTime = now, as_AdditionalPU = 0,
                        as_MaxPUPolicy = MaxPUPolicyExceed\<rparr>)"
  shows "\<exists>ws a w sa e.
     conflict_writes (activation_step k (job_AutoscalerName j) entry) (sa_zero, st_World st1) ws (a, w) \<and>
     activation_step k (job_AutoscalerName j) entry (a, w) [StatusSA sa e] e (sa, st_World st') \<and>
     st_Trace st' = st_Trace st @ ws @ [StatusSA sa e] @
       (if e = None then map Metric (RecordScheduleActivation (LabelsForAutoscaler sa)) else [])"
proof -
  obtain e sa st2 where r: "retry (job_attempt k parseDuration j sas_zero) (sa_zero, st1) = (e, (sa, st2))"
    by (metis prod_cases3)
  have "st' = (if e = None then metric (RecordScheduleActivation (LabelsForAutoscaler sa)) st2 else st2)"
    using assms(2,4) r by (auto simp: Job_Run_def split: option.splits)
  moreover have "activation parseDuration j sas_zero = entry"
    using assms(3) by (simp add: fun_eq_iff assms(5) activation_def sas_zero_def Normalized_def)
  ultimately show ?thesis using job_run_steps [OF assms(1) r] kread_traceD [OF assms(2)] by fastforce
qed

theorem job_run_unreadable_schedule_witness:
  "\<exists>sa e. st_Trace (Job_Run (retry_n 3) mem_kube (\<lambda>s. Inl ''invalid'') sample_job (mem_state 7 [sample_sa] [] [])) =
       [StatusSA sa e] @ (if e = None then map Metric (RecordScheduleActivation (LabelsForAutoscaler sa)) else []) \<and>
     filter (\<lambda>as. as_ScheduleName as = ''ns/s'') (CurrentlyActiveSchedules (sa_Status sa)) =
       [\<lparr>as_ScheduleName = ''ns/s'', as_EndTime = 7, as_AdditionalPU = 0, as_MaxPUPolicy = MaxPUPolicyExceed\<rparr>]"
proof -
  let ?st = "mem_state 7 [sample_sa] [] []" and ?nn = "job_AutoscalerName sample_job"
  let ?entry = "\<lambda>now. \<lparr>as_ScheduleName = nn_String (job_ScheduleName sample_job), as_EndTime = now, as_AdditionalPU = 0,
                      as_MaxPUPolicy = MaxPUPolicyExceed\<rparr>"
  have g: "kread (k_get_sas mem_kube (job_ScheduleName sample_job)) ?st = (Inl ErrNotFound, ?st)"
    by (simp add: kread_def mem_kube_def mem_state_def mem_get_def)
  obtain ws a w sa e w' where r: "conflict_writes (activation_step mem_kube ?nn ?entry) (sa_zero, st_World ?st) ws (a, w)"
    "activation_step mem_kube ?nn ?entry (a, w) [StatusSA sa e] e (sa, w')"
    "st_Trace (Job_Run (retry_n 3) mem_kube (\<lambda>s. Inl ''invalid'') sample_job ?st) = ws @ [StatusSA sa e] @
       (if e = None then map Metric (RecordScheduleActivation (LabelsForAutoscaler sa)) else [])"
    using job_run_unreadable_schedule [OF retry_n_ok [of 3] g refl refl refl] by (fastforce simp: mem_state_def)
  have none: "\<not> activation_step mem_kube ?nn ?entry m es (Some ErrConflict) m'" for m es m'
    by (auto simp: activation_step_def mem_kube_def split: prod.splits)
  from r(1) have "ws = [] \<and> (a, w) = (sa_zero, st_World ?st)"
    by (cases rule: conflict_writes.cases) (use none in auto)
  then show ?thesis using r(2,3)
    by (intro exI [of _ sa] exI [of _ e])
      (auto simp: activation_step_def activates_def mem_kube_def mem_state_def nn_String_def sample_job_def)
qed

end
