(* ===== verification/Manual_Scaling.thy ===== *)
theory Manual_Scaling
  imports Scaling Scheduler
begin

text \<open>
  \<^verbatim>\<open>internal/controller/manualscaling.go\<close>: the manual overrides of an autoscaler. On
  every reconcile the newest live override is selected, the others are marked Superseded or
  Expired, the history of finished ones is bounded, and the selected override drives the
  instance to its processing units, in one jump or in steps (\<open>NextRampPU\<close>).

  The fields of the reconciler that this file reads are the record \<open>'w renv\<close>;
  \<^verbatim>\<open>sort.Slice\<close> is its field \<open>r_sort\<close>, a function of the order and the slice, and what is
  used of it is \<open>sort_ok\<close>. The \<^verbatim>\<open>Syncer\<close> of the autoscaler is the function \<open>syncer\<close>
  that updates the instance. The mutable \<^verbatim>\<open>sa\<close> and \<^verbatim>\<open>statusChanged\<close> of the source are
  threaded as values.
\<close>

section \<open>The reconciler's configuration\<close>

record 'w renv =
  r_kube :: "'w kube"
  r_gsv :: scaled_value
  r_parse :: cron_parser
  r_sort :: "(SpannerManualScaling \<Rightarrow> SpannerManualScaling \<Rightarrow> bool) \<Rightarrow>
             SpannerManualScaling list \<Rightarrow> SpannerManualScaling list"
  r_scaleDownInterval :: duration
  r_scaleUpInterval :: duration
  r_rejectManualScaledown :: bool
  r_manualScalingHistoryPerNamespace :: gint

type_synonym 'w update_instance = "gint \<Rightarrow> 'w \<Rightarrow> kube_err option \<times> 'w"

definition clock_now :: "'w renv \<Rightarrow> 'w rstate \<Rightarrow> time \<times> 'w rstate" where
  "clock_now r st = kread (k_now (r_kube r)) st"

definition conflictRequeueDelay :: duration where
  "conflictRequeueDelay = second"

section \<open>Selection\<close>

definition expired_override :: "time \<Rightarrow> SpannerManualScaling \<Rightarrow> bool" where
  "expired_override now ms =
     (case ms_ExpiresAt (ms_Spec ms) of None \<Rightarrow> False | Some t \<Rightarrow> \<not> now < t)"

fun manual_candidates ::
    "string \<Rightarrow> time \<Rightarrow> SpannerManualScaling list \<Rightarrow> SpannerManualScaling list" where
  "manual_candidates name now [] = []"
| "manual_candidates name now (ms # mss) =
     (if ms_TargetResource (ms_Spec ms) \<noteq> name then manual_candidates name now mss
      else if om_DeletionTimestamp (ms_Meta ms) \<noteq> None then manual_candidates name now mss
      else if expired_override now ms then manual_candidates name now mss
      else if IsTerminal (ms_Phase (ms_Status ms)) then manual_candidates name now mss
      else ms # manual_candidates name now mss)"

text \<open>Go compares strings byte by byte, a proper prefix first.\<close>

fun string_less :: "string \<Rightarrow> string \<Rightarrow> bool" where
  "string_less xs [] = False"
| "string_less [] (y # ys) = True"
| "string_less (x # xs) (y # ys) =
     ((of_char x :: nat) < of_char y \<or> (x = y \<and> string_less xs ys))"

definition newer :: "SpannerManualScaling \<Rightarrow> SpannerManualScaling \<Rightarrow> bool" where
  "newer a b =
     (let ti = om_CreationTimestamp (ms_Meta a); tj = om_CreationTimestamp (ms_Meta b)
      in if ti \<noteq> tj then ti > tj else string_less (om_Name (ms_Meta b)) (om_Name (ms_Meta a)))"

definition selectActiveManualScaling ::
    "'w renv \<Rightarrow> SpannerAutoscaler \<Rightarrow> time \<Rightarrow> 'w rstate \<Rightarrow>
     (kube_err + SpannerManualScaling option \<times> SpannerManualScaling list) \<times> 'w rstate" where
  "selectActiveManualScaling r sa now st =
     (case kread (k_list_ms (r_kube r) (om_Namespace (sa_Meta sa))) st of
        (Inl err, st) \<Rightarrow> (Inl err, st)
      | (Inr items, st) \<Rightarrow>
          (let candidates = manual_candidates (om_Name (sa_Meta sa)) now items
           in if length candidates = 0 then (Inr (None, []), st)
              else (case r_sort r newer candidates of
                      [] \<Rightarrow> (Inr (None, []), st)
                    | c # cs \<Rightarrow> (Inr (Some c, cs), st))))"

section \<open>History\<close>

definition finishedAt :: "SpannerManualScaling \<Rightarrow> time" where
  "finishedAt ms = (case ms_FinishedAt (ms_Status ms) of Some t \<Rightarrow> t
                    | None \<Rightarrow> om_CreationTimestamp (ms_Meta ms))"

definition finished_overrides :: "SpannerManualScaling list \<Rightarrow> SpannerManualScaling list" where
  "finished_overrides items =
     filter (\<lambda>ms. om_DeletionTimestamp (ms_Meta ms) = None \<and> IsTerminal (ms_Phase (ms_Status ms))) items"

fun delete_overrides :: "'w renv \<Rightarrow> SpannerManualScaling list \<Rightarrow> 'w rstate \<Rightarrow> kube_err option \<times> 'w rstate" where
  "delete_overrides r [] st = (None, st)"
| "delete_overrides r (ms # mss) st =
     (case delete_ms (r_kube r) ms st of
        (Some err, st) \<Rightarrow>
          (if \<not> IsNotFound err then (Some err, st)
           else delete_overrides r mss (metric (RecordManualScalingHistoryEvicted (om_Namespace (ms_Meta ms))) st))
      | (None, st) \<Rightarrow>
          delete_overrides r mss (metric (RecordManualScalingHistoryEvicted (om_Namespace (ms_Meta ms))) st))"

definition enforceHistoryLimit :: "'w renv \<Rightarrow> string \<Rightarrow> 'w rstate \<Rightarrow> kube_err option \<times> 'w rstate" where
  "enforceHistoryLimit r ns st =
     (let limit = r_manualScalingHistoryPerNamespace r
      in if limit \<le> 0 then (None, st)
         else
           case kread (k_list_ms (r_kube r) ns) st of
             (Inl err, st) \<Rightarrow> (Some err, st)
           | (Inr items, st) \<Rightarrow>
               (let finished = finished_overrides items
                in if int (length finished) \<le> limit then (None, st)
                   else
                     let sorted = r_sort r (\<lambda>a b. finishedAt a > finishedAt b) finished;
                         toDelete = drop (nat limit) sorted
                     in delete_overrides r toDelete st))"

section \<open>Phases\<close>

definition transitionManualScalingPhase ::
    "'w renv \<Rightarrow> SpannerManualScaling \<Rightarrow> SpannerManualScalingPhase \<Rightarrow> string \<Rightarrow> time \<Rightarrow>
     'w rstate \<Rightarrow> kube_err option \<times> 'w rstate" where
  "transitionManualScalingPhase r ms phase message now st =
     (case kread (k_get_ms (r_kube r) (object_key (ms_Meta ms))) st of
        (Inl err, st) \<Rightarrow> (if IsNotFound err then (None, st) else (Some err, st))
      | (Inr fresh, st) \<Rightarrow>
          (if IsTerminal (ms_Phase (ms_Status fresh)) then (None, st)
           else
             let fresh = fresh\<lparr>ms_Status := (ms_Status fresh)\<lparr>ms_Phase := phase, ms_Message := message,
                                                             ms_FinishedAt := Some now\<rparr>\<rparr>
             in case status_ms (r_kube r) fresh st of
                  (Some err, st) \<Rightarrow> (Some err, st)
                | (None, st) \<Rightarrow> enforceHistoryLimit r (om_Namespace (ms_Meta ms)) st))"

text \<open>The progress fields of an override and whether any of them changed.\<close>

definition progress_status ::
    "gint \<Rightarrow> gint \<Rightarrow> time \<Rightarrow> bool \<Rightarrow> SpannerManualScalingStatus \<Rightarrow> SpannerManualScalingStatus \<times> bool" where
  "progress_status currentPU targetPU now didApply s0 =
     (let desiredPhase = (if currentPU = targetPU then PhaseActive else PhaseProgressing);
          (s, changed) = (if ms_Phase s0 \<noteq> desiredPhase then (s0\<lparr>ms_Phase := desiredPhase\<rparr>, True)
                          else (s0, False));
          (s, changed) = (if didApply \<and> ms_AppliedAt s = None then (s\<lparr>ms_AppliedAt := Some now\<rparr>, True)
                          else (s, changed));
          (s, changed) = (if desiredPhase = PhaseActive \<and> ms_ReachedAt s = None
                          then (s\<lparr>ms_ReachedAt := Some now\<rparr>, True) else (s, changed))
      in if ms_CurrentProcessingUnits s \<noteq> currentPU
         then (s\<lparr>ms_CurrentProcessingUnits := currentPU\<rparr>, True) else (s, changed))"

definition updateManualScalingProgress ::
    "'w renv \<Rightarrow> SpannerManualScaling \<Rightarrow> gint \<Rightarrow> gint \<Rightarrow> time \<Rightarrow> bool \<Rightarrow> 'w rstate \<Rightarrow>
     kube_err option \<times> 'w rstate" where
  "updateManualScalingProgress r ms currentPU targetPU now didApply st =
     (case kread (k_get_ms (r_kube r) (object_key (ms_Meta ms))) st of
        (Inl err, st) \<Rightarrow> (if IsNotFound err then (None, st) else (Some err, st))
      | (Inr fresh, st) \<Rightarrow>
          (case progress_status currentPU targetPU now didApply (ms_Status fresh) of
             (s, changed) \<Rightarrow>
               (if \<not> changed then (None, st) else status_ms (r_kube r) (fresh\<lparr>ms_Status := s\<rparr>) st)))"

definition expired_message :: "SpannerManualScaling \<Rightarrow> string" where
  "expired_message ms =
     (let currentPU = ms_CurrentProcessingUnits (ms_Status ms)
      in if currentPU \<noteq> 0 \<and> currentPU \<noteq> ms_ProcessingUnits (ms_Spec ms)
         then ''expiresAt elapsed; target not reached: current='' @ fmt_d currentPU @
              '' target='' @ fmt_d (ms_ProcessingUnits (ms_Spec ms))
         else ''expiresAt elapsed'')"

fun mark_expired :: "'w renv \<Rightarrow> string \<Rightarrow> time \<Rightarrow> SpannerManualScaling list \<Rightarrow> 'w rstate \<Rightarrow> 'w rstate" where
  "mark_expired r name now [] st = st"
| "mark_expired r name now (ms # mss) st =
     (if ms_TargetResource (ms_Spec ms) \<noteq> name then mark_expired r name now mss st
      else if om_DeletionTimestamp (ms_Meta ms) \<noteq> None then mark_expired r name now mss st
      else if IsTerminal (ms_Phase (ms_Status ms)) then mark_expired r name now mss st
      else if expired_override now ms
      then mark_expired r name now mss
             (snd (transitionManualScalingPhase r ms PhaseExpired (expired_message ms) now st))
      else mark_expired r name now mss st)"

definition markExpiredSiblings :: "'w renv \<Rightarrow> SpannerAutoscaler \<Rightarrow> time \<Rightarrow> 'w rstate \<Rightarrow> 'w rstate" where
  "markExpiredSiblings r sa now st =
     (case kread (k_list_ms (r_kube r) (om_Namespace (sa_Meta sa))) st of
        (Inl err, st) \<Rightarrow> st
      | (Inr items, st) \<Rightarrow> mark_expired r (om_Name (sa_Meta sa)) now items st)"

definition superseded_message :: "SpannerManualScaling \<Rightarrow> string" where
  "superseded_message ms =
     ''superseded by newer SpannerManualScaling targeting '' @ fmt_q (ms_TargetResource (ms_Spec ms))"

fun mark_superseded :: "'w renv \<Rightarrow> time \<Rightarrow> SpannerManualScaling list \<Rightarrow> 'w rstate \<Rightarrow> 'w rstate" where
  "mark_superseded r now [] st = st"
| "mark_superseded r now (ms # mss) st =
     mark_superseded r now mss
       (snd (transitionManualScalingPhase r ms PhaseSuperseded (superseded_message ms) now st))"

section \<open>Driving the instance\<close>

definition nextManualPU ::
    "'w renv \<Rightarrow> SpannerAutoscaler \<Rightarrow> SpannerManualScaling \<Rightarrow> time \<Rightarrow> gint \<times> duration" where
  "nextManualPU r sa ms now =
     (let up = \<lparr>rs_StepSize = ms_ScaleupStepSize (ms_Spec ms), rs_Interval = ms_ScaleupInterval (ms_Spec ms),
                rs_DefaultInterval = r_scaleUpInterval r\<rparr>;
          down = \<lparr>rs_StepSize = ms_ScaledownStepSize (ms_Spec ms), rs_Interval = ms_ScaledownInterval (ms_Spec ms),
                  rs_DefaultInterval = r_scaleDownInterval r\<rparr>
      in NextRampPU (r_gsv r) (CurrentProcessingUnits (sa_Status sa)) (ms_ProcessingUnits (ms_Spec ms))
           up down (LastScaleTime (sa_Status sa)) now)"

definition manualScalingActiveRamp :: "SpannerManualScalingSpec \<Rightarrow> gint \<Rightarrow> bool" where
  "manualScalingActiveRamp spec currentPU =
     (if ms_ProcessingUnits spec > currentPU then ms_ScaleupStepSize spec \<noteq> None
      else if ms_ProcessingUnits spec < currentPU then ms_ScaledownStepSize spec \<noteq> None
      else False)"

definition activeManualScalingEqual ::
    "ActiveManualScaling option \<Rightarrow> ActiveManualScaling option \<Rightarrow> bool" where
  "activeManualScalingEqual a b =
     (case (a, b) of
        (None, None) \<Rightarrow> True
      | (Some x, Some y) \<Rightarrow>
          (if ams_Name x \<noteq> ams_Name y \<or> ams_ProcessingUnits x \<noteq> ams_ProcessingUnits y \<or> ams_Ramp x \<noteq> ams_Ramp y
           then False
           else (case (ams_ExpiresAt x, ams_ExpiresAt y) of
                   (None, None) \<Rightarrow> True
                 | (Some t, Some u) \<Rightarrow> t = u
                 | _ \<Rightarrow> False))
      | _ \<Rightarrow> False)"

definition upd_status ::
    "(SpannerAutoscalerStatus \<Rightarrow> SpannerAutoscalerStatus) \<Rightarrow> SpannerAutoscaler \<Rightarrow> SpannerAutoscaler" where
  "upd_status f sa = sa\<lparr>sa_Status := f (sa_Status sa)\<rparr>"

definition clearActiveManualScalingState ::
    "SpannerAutoscaler \<Rightarrow> bool \<Rightarrow> 'w rstate \<Rightarrow> SpannerAutoscaler \<times> bool \<times> 'w rstate" where
  "clearActiveManualScalingState sa statusChanged st =
     (let (sa, statusChanged) =
            (if ActiveManualScaling (sa_Status sa) \<noteq> None
             then (upd_status (\<lambda>s. s\<lparr>ActiveManualScaling := None\<rparr>) sa, True) else (sa, statusChanged));
          labels = LabelsForAutoscaler sa
      in (sa, statusChanged,
          metric (RecordManualScalingActive labels False False @ RecordManualScalingTarget labels 0 False) st))"

definition reject_message :: "SpannerManualScaling \<Rightarrow> SpannerAutoscaler \<Rightarrow> string" where
  "reject_message ms sa =
     ''rejected: scaledown is disabled cluster-wide (--reject-manual-scaledown=true); spec.processingUnits='' @
     fmt_d (ms_ProcessingUnits (ms_Spec ms)) @ '' < currentProcessingUnits='' @
     fmt_d (CurrentProcessingUnits (sa_Status sa))"

definition rejectScaledownPolicy ::
    "'w renv \<Rightarrow> SpannerAutoscaler \<Rightarrow> SpannerManualScaling \<Rightarrow> time \<Rightarrow> bool \<Rightarrow> 'w rstate \<Rightarrow>
     SpannerAutoscaler \<times> bool \<times> 'w rstate" where
  "rejectScaledownPolicy r sa active now statusChanged st =
     (let st = snd (transitionManualScalingPhase r active PhaseInvalid (reject_message active sa) now st);
          st = emit (Event EventWarning ''ManualScalingRejected'') st
      in clearActiveManualScalingState sa statusChanged st)"

definition update_instance ::
    "'w update_instance \<Rightarrow> gint \<Rightarrow> 'w rstate \<Rightarrow> kube_err option \<times> 'w rstate" where
  "update_instance syncer pu st = kwrite (syncer pu) (UpdateInstanceCall pu) st"

text \<open>The timed call of \<^verbatim>\<open>syncer.UpdateInstance\<close> with its metric, as both scaling paths make it.\<close>

definition timed_update ::
    "'w renv \<Rightarrow> 'w update_instance \<Rightarrow> Labels \<Rightarrow> gint \<Rightarrow> 'w rstate \<Rightarrow> kube_err option \<times> 'w rstate" where
  "timed_update r syncer labels pu st =
     (let (updateStart, st) = clock_now r st;
          (updateErr, st) = update_instance syncer pu st;
          (updateEnd, st) = clock_now r st
      in (updateErr, metric (RecordInstanceUpdate labels (t_sub updateEnd updateStart) updateErr) st))"

text \<open>The status before the instance is changed: no scheduled range, and the override shown.\<close>

definition manual_status ::
    "SpannerManualScaling \<Rightarrow> bool \<Rightarrow> SpannerAutoscaler \<Rightarrow> bool \<Rightarrow> SpannerAutoscaler \<times> bool" where
  "manual_status active ramp sa statusChanged =
     (let (sa, statusChanged) =
            (if DesiredMinPUs (sa_Status sa) \<noteq> 0 \<or> DesiredMaxPUs (sa_Status sa) \<noteq> 0
             then (upd_status (\<lambda>s. s\<lparr>DesiredMinPUs := 0, DesiredMaxPUs := 0\<rparr>) sa, True)
             else (sa, statusChanged));
          desiredActive = Some \<lparr>ams_Name = om_Name (ms_Meta active),
            ams_ProcessingUnits = ms_ProcessingUnits (ms_Spec active), ams_Ramp = ramp,
            ams_ExpiresAt = ms_ExpiresAt (ms_Spec active)\<rparr>
      in if \<not> activeManualScalingEqual (ActiveManualScaling (sa_Status sa)) desiredActive
         then (upd_status (\<lambda>s. s\<lparr>ActiveManualScaling := desiredActive\<rparr>) sa, True)
         else (sa, statusChanged))"

definition manual_requeue :: "SpannerManualScaling \<Rightarrow> time \<Rightarrow> duration \<Rightarrow> duration" where
  "manual_requeue active now nextInterval =
     (case ms_ExpiresAt (ms_Spec active) of
        None \<Rightarrow> nextInterval
      | Some t \<Rightarrow>
          (let d = t_sub t now; d = (if d < 0 then 1000000 else d)
           in if nextInterval = 0 \<or> d < nextInterval then d else nextInterval))"

definition manual_skip_reason :: "gint \<Rightarrow> gint \<Rightarrow> duration \<Rightarrow> string" where
  "manual_skip_reason currentPU targetPU nextInterval =
     (if nextInterval > 0 \<and> currentPU \<noteq> targetPU
      then (if targetPU > currentPU then ''scale_up_interval'' else ''scale_down_interval'')
      else ''same'')"

text \<open>
  Applying the selected override: the instance is updated when the next value differs from
  the current one.
\<close>

definition manual_apply ::
    "'w renv \<Rightarrow> 'w update_instance \<Rightarrow> SpannerManualScaling \<Rightarrow> bool \<Rightarrow> gint \<Rightarrow> duration \<Rightarrow> time \<Rightarrow>
     SpannerAutoscaler \<Rightarrow> bool \<Rightarrow> 'w rstate \<Rightarrow>
     kube_err option \<times> bool \<times> SpannerAutoscaler \<times> bool \<times> 'w rstate" where
  "manual_apply r syncer active ramp nextPU nextInterval now sa statusChanged st =
     (let currentPU = CurrentProcessingUnits (sa_Status sa);
          targetPU = ms_ProcessingUnits (ms_Spec active);
          labels = LabelsForAutoscaler sa
      in if nextPU \<noteq> currentPU then
           (case timed_update r syncer labels nextPU st of
              (Some err, st) \<Rightarrow>
                (Some err, False, sa, statusChanged, emit (Event EventWarning ''FailedUpdateInstance'') st)
            | (None, st) \<Rightarrow>
                (let st = metric (RecordScaleEvent labels currentPU nextPU (DriverForManualScaling ramp)) st;
                     sa = upd_status (\<lambda>s. s\<lparr>LastScaleTime := now, DesiredProcessingUnits_status := nextPU\<rparr>) sa;
                     st = emit (Event EventNormal (if nextPU \<noteq> targetPU then ''ManualScalingProgressing''
                                                   else ''ManualScalingApplied'')) st
                 in (None, True, sa, True, st)))
         else
           (None, False, sa, statusChanged,
            metric (RecordScaleSkipped labels (manual_skip_reason currentPU targetPU nextInterval)) st))"

section \<open>Reconciling overrides\<close>

datatype manual_outcome = ManualOutcome bool duration "kube_err option"

definition reconcile_active ::
    "'w renv \<Rightarrow> 'w update_instance \<Rightarrow> SpannerManualScaling \<Rightarrow> time \<Rightarrow> SpannerAutoscaler \<Rightarrow> bool \<Rightarrow> 'w rstate \<Rightarrow>
     manual_outcome \<times> SpannerAutoscaler \<times> bool \<times> 'w rstate" where
  "reconcile_active r syncer active now sa statusChanged st =
     (let ramp = manualScalingActiveRamp (ms_Spec active) (CurrentProcessingUnits (sa_Status sa));
          targetPU = ms_ProcessingUnits (ms_Spec active);
          st = (if CurrentlyActiveSchedules (sa_Status sa) \<noteq> []
                then metric (RecordScaleSkipped (LabelsForAutoscaler sa) ''schedule_suppressed_by_manual'') st
                else st);
          (nextPU, nextInterval) = nextManualPU r sa active now;
          (sa, statusChanged) = manual_status active ramp sa statusChanged
      in case manual_apply r syncer active ramp nextPU nextInterval now sa statusChanged st of
           (Some err, didApply, sa, statusChanged, st) \<Rightarrow>
             (ManualOutcome False 0 (Some err), sa, statusChanged, st)
         | (None, didApply, sa, statusChanged, st) \<Rightarrow>
             (let st = snd (updateManualScalingProgress r active (CurrentProcessingUnits (sa_Status sa))
                              targetPU now didApply st);
                  labels = LabelsForAutoscaler sa;
                  st = metric (RecordManualScalingActive labels True ramp @
                               RecordManualScalingTarget labels targetPU ramp) st
              in (ManualOutcome True (manual_requeue active now nextInterval) None, sa, statusChanged, st)))"

definition reconcileManualScaling ::
    "'w renv \<Rightarrow> 'w update_instance \<Rightarrow> time \<Rightarrow> SpannerAutoscaler \<Rightarrow> bool \<Rightarrow> 'w rstate \<Rightarrow>
     manual_outcome \<times> SpannerAutoscaler \<times> bool \<times> 'w rstate" where
  "reconcileManualScaling r syncer now sa statusChanged st =
     (case selectActiveManualScaling r sa now st of
        (Inl err, st) \<Rightarrow> (ManualOutcome False 0 (Some err), sa, statusChanged, st)
      | (Inr (active, superseded), st) \<Rightarrow>
          (let st = mark_superseded r now superseded st;
               st = markExpiredSiblings r sa now st
           in case active of
                None \<Rightarrow>
                  (let st = (if ActiveManualScaling (sa_Status sa) \<noteq> None
                             then emit (Event EventNormal ''ManualScalingDeactivated'') st else st);
                       (sa, statusChanged, st) = clearActiveManualScalingState sa statusChanged st
                   in (ManualOutcome False 0 None, sa, statusChanged, st))
              | Some active \<Rightarrow>
                  (if r_rejectManualScaledown r \<and>
                      ms_ProcessingUnits (ms_Spec active) < CurrentProcessingUnits (sa_Status sa)
                   then (let (sa, statusChanged, st) = rejectScaledownPolicy r sa active now statusChanged st
                         in (ManualOutcome False 0 None, sa, statusChanged, st))
                   else reconcile_active r syncer active now sa statusChanged st)))"

definition emitScheduleDeactivations ::
    "SpannerAutoscaler \<Rightarrow> ActiveSchedule list \<Rightarrow> 'w rstate \<Rightarrow> 'w rstate" where
  "emitScheduleDeactivations sa dropped st =
     (if length dropped = 0 then st else metric (deactivation_metrics sa ''unregistered'' dropped) st)"

datatype manual_dispatch = Dispatch duration bool "kube_err option"

definition dispatchManualScaling ::
    "'w renv \<Rightarrow> 'w update_instance \<Rightarrow> SpannerAutoscaler \<Rightarrow> bool \<Rightarrow> ActiveSchedule list \<Rightarrow> 'w rstate \<Rightarrow>
     manual_dispatch \<times> SpannerAutoscaler \<times> bool \<times> 'w rstate" where
  "dispatchManualScaling r syncer sa statusChanged dropped st =
     (let (now, st) = clock_now r st
      in case reconcileManualScaling r syncer now sa statusChanged st of
           (ManualOutcome handled requeueAfter (Some err), sa, statusChanged, st) \<Rightarrow>
             (let (sa, st) =
                    (if statusChanged
                     then (let sa = upd_status (\<lambda>s. s\<lparr>DesiredProcessingUnits_status := CurrentProcessingUnits s\<rparr>) sa
                           in (sa, snd (status_sa (r_kube r) sa st)))
                     else (sa, st))
              in (Dispatch 0 True (Some err), sa, statusChanged, st))
         | (ManualOutcome handled requeueAfter None, sa, statusChanged, st) \<Rightarrow>
             (if \<not> handled then (Dispatch 0 False None, sa, statusChanged, st)
              else if statusChanged then
                (case status_sa (r_kube r) sa st of
                   (Some uerr, st) \<Rightarrow>
                     (if IsConflict uerr then (Dispatch conflictRequeueDelay True None, sa, statusChanged, st)
                      else (Dispatch 0 True (Some uerr), sa, statusChanged,
                            emit (Event EventWarning ''FailedUpdateStatus'') st))
                 | (None, st) \<Rightarrow>
                     (Dispatch requeueAfter True None, sa, statusChanged, emitScheduleDeactivations sa dropped st))
              else (Dispatch requeueAfter True None, sa, statusChanged, st)))"

section \<open>Traces\<close>

fun no_update :: "effect \<Rightarrow> bool" where
  "no_update (UpdateInstanceCall pu e) = False"
| "no_update _ = True"

text \<open>An effect of the history: a deletion of a finished override, or its metric.\<close>

definition history_effect :: "SpannerManualScaling list \<Rightarrow> effect \<Rightarrow> bool" where
  "history_effect mss e \<longleftrightarrow> (\<exists>ms \<in> set mss. \<exists>o'. e = DeleteMS ms o') \<or> (\<exists>op. e = Metric op)"

lemma delete_ms_trace: "delete_ms k ms st = (e, st') \<Longrightarrow> st_Trace st' = st_Trace st @ [DeleteMS ms e]"
  by (simp add: delete_ms_def kwrite_trace)

lemma status_ms_trace: "status_ms k ms st = (e, st') \<Longrightarrow> st_Trace st' = st_Trace st @ [StatusMS ms e]"
  by (simp add: status_ms_def kwrite_trace)

lemma extends_trace: "st_Trace st' = st_Trace st @ es \<Longrightarrow> list_all P es \<Longrightarrow> extends P st st'"
  by (auto simp: extends_def)

lemma delete_overrides_extends:
  "delete_overrides r mss st = (e, st') \<Longrightarrow> set mss \<subseteq> set all \<Longrightarrow> extends (history_effect all) st st'"
proof (induction mss arbitrary: st)
  case Nil
  then show ?case by simp
next
  case (Cons ms mss)
  obtain e1 st1 where d: "delete_ms (r_kube r) ms st = (e1, st1)" by fastforce
  let ?st2 = "metric (RecordManualScalingHistoryEvicted (om_Namespace (ms_Meta ms))) st1"
  have 1: "extends (history_effect all) st st1"
    using delete_ms_trace [OF d] Cons.prems(2) by (intro extends_trace) (auto simp: history_effect_def)
  have 2: "extends (history_effect all) st1 ?st2"
    by (rule extends_metric) (simp add: history_effect_def)
  have "st' = st1 \<or> delete_overrides r mss ?st2 = (e, st')"
    using Cons.prems(1) d by (auto split: option.splits if_splits)
  then show ?case
    using 1 2 Cons.IH [of ?st2] Cons.prems(2) extends_trans by (metis set_subset_Cons subset_trans)
qed

lemma history_no_update: "history_effect mss e \<Longrightarrow> no_update e"
  by (auto simp: history_effect_def)

lemma enforceHistoryLimit_no_update:
  assumes "enforceHistoryLimit r ns st = (e, st')"
  shows "extends no_update st st'"
proof (cases "r_manualScalingHistoryPerNamespace r \<le> 0")
  case True
  then show ?thesis using assms by (simp add: enforceHistoryLimit_def)
next
  case False
  obtain x st1 where k: "kread (k_list_ms (r_kube r) ns) st = (x, st1)" by fastforce
  have "st' = st1 \<or> (\<exists>mss. delete_overrides r mss st1 = (e, st'))"
    using assms False k by (auto simp: enforceHistoryLimit_def Let_def split: sum.splits if_splits)
  then have "extends no_update st1 st'"
    using delete_overrides_extends history_no_update extends_mono by (metis extends_refl order_refl)
  then show ?thesis using extends_kread [OF k] extends_trans by blast
qed

lemma transition_no_update:
  assumes "transitionManualScalingPhase r ms phase message now st = (e, st')"
  shows "extends no_update st st'"
proof -
  obtain x st1 where k: "kread (k_get_ms (r_kube r) (object_key (ms_Meta ms))) st = (x, st1)" by fastforce
  have 1: "extends no_update st st1" using k by (rule extends_kread)
  have w: "extends no_update st1 st2" if "status_ms (r_kube r) f st1 = (e2, st2)" for f e2 st2
    using status_ms_trace [OF that] by (intro extends_trace) auto
  have "st' = st1 \<or> (\<exists>f e2 st2. status_ms (r_kube r) f st1 = (e2, st2) \<and>
      (st' = st2 \<or> enforceHistoryLimit r (om_Namespace (ms_Meta ms)) st2 = (e, st')))"
    using assms k by (fastforce simp: transitionManualScalingPhase_def split: sum.splits if_splits prod.splits option.splits)
  then show ?thesis using 1 w enforceHistoryLimit_no_update extends_trans by metis
qed

lemma mark_superseded_no_update: "extends no_update st (mark_superseded r now mss st)"
proof (induction mss arbitrary: st)
  case (Cons ms mss)
  then show ?case using transition_no_update extends_trans by (metis mark_superseded.simps(2) prod.collapse)
qed simp

lemma mark_expired_no_update: "extends no_update st (mark_expired r name now mss st)"
proof (induction mss arbitrary: st)
  case (Cons ms mss)
  have "extends no_update st (snd (transitionManualScalingPhase r ms PhaseExpired (expired_message ms) now st))"
    using transition_no_update by (metis prod.collapse)
  then show ?case using Cons by (auto intro: extends_trans)
qed simp

lemma markExpiredSiblings_no_update: "extends no_update st (markExpiredSiblings r sa now st)"
proof -
  obtain x st1 where k: "kread (k_list_ms (r_kube r) (om_Namespace (sa_Meta sa))) st = (x, st1)" by fastforce
  then show ?thesis
    using extends_kread [OF k]
    by (cases x) (auto simp: markExpiredSiblings_def intro: extends_trans mark_expired_no_update)
qed

lemma status_ms_no_update: "extends no_update st (snd (status_ms k ms st))"
  using status_ms_trace [of k ms st "fst (status_ms k ms st)" "snd (status_ms k ms st)"]
  by (intro extends_trace) auto

lemma progress_no_update: "extends no_update st (snd (updateManualScalingProgress r ms c t now d st))"
proof (cases "kread (k_get_ms (r_kube r) (object_key (ms_Meta ms))) st")
  case (Pair x st1)
  show ?thesis
  proof (cases x)
    case (Inl e)
    then show ?thesis using Pair extends_kread [OF Pair] by (simp add: updateManualScalingProgress_def)
  next
    case (Inr fresh)
    then show ?thesis
      using Pair extends_kread [OF Pair, of no_update]
      by (auto simp: updateManualScalingProgress_def split: prod.splits
          intro: extends_trans [OF _ status_ms_no_update])
  qed
qed

definition update_calls :: "'w rstate \<Rightarrow> effect list" where
  "update_calls st = filter (\<lambda>e. \<not> no_update e) (st_Trace st)"

lemma extends_update_calls: "extends no_update st st' \<Longrightarrow> update_calls st' = update_calls st"
  by (auto simp: extends_def update_calls_def list_all_iff filter_empty_conv)

lemma update_calls_simps [simp]:
  "no_update e \<Longrightarrow> update_calls (emit e st) = update_calls st"
  "update_calls (metric ops st) = update_calls st"
  by (simp_all add: update_calls_def filter_empty_conv)

lemma update_calls_kread: "kread f st = (x, st') \<Longrightarrow> update_calls st' = update_calls st"
  by (intro extends_update_calls extends_kread)

lemma update_instance_calls:
  "update_instance syncer pu st = (e, st') \<Longrightarrow> update_calls st' = update_calls st @ [UpdateInstanceCall pu e]"
  unfolding update_instance_def update_calls_def by (drule kwrite_trace) simp

lemma timed_update_calls:
  assumes "timed_update r syncer labels pu st = (e, st')"
  shows "update_calls st' = update_calls st @ [UpdateInstanceCall pu e]"
proof -
  obtain t1 st1 where 1: "clock_now r st = (t1, st1)" by fastforce
  obtain e2 st2 where 2: "update_instance syncer pu st1 = (e2, st2)" by fastforce
  obtain t3 st3 where 3: "clock_now r st2 = (t3, st3)" by fastforce
  have "e = e2" "update_calls st' = update_calls st3"
    using assms 1 2 3 by (auto simp: timed_update_def Let_def)
  then show ?thesis
    using update_calls_kread [OF 1 [unfolded clock_now_def]] update_calls_kread [OF 3 [unfolded clock_now_def]]
      update_instance_calls [OF 2] by simp
qed

lemma manual_apply_calls:
  assumes "manual_apply r syncer active ramp nextPU iv now sa ch st = (err, did, sa', ch', st')"
  shows "if nextPU \<noteq> cur_pu sa then (\<exists>e. update_calls st' = update_calls st @ [UpdateInstanceCall nextPU e])
         else update_calls st' = update_calls st"
proof (cases "nextPU \<noteq> cur_pu sa")
  case True
  obtain e st1 where t: "timed_update r syncer (LabelsForAutoscaler sa) nextPU st = (e, st1)" by fastforce
  have "update_calls st' = update_calls st1"
    using assms True t by (cases e) (auto simp: manual_apply_def Let_def)
  then show ?thesis using timed_update_calls [OF t] True by auto
next
  case False
  then show ?thesis using assms by (auto simp: manual_apply_def Let_def)
qed

lemma manual_status_cur [simp]: "cur_pu (fst (manual_status active ramp sa ch)) = cur_pu sa"
  by (simp add: manual_status_def upd_status_def Let_def)

lemma reconcile_active_calls:
  assumes "reconcile_active r syncer active now sa ch st = (out, sa', ch', st')"
    and "nextManualPU r sa active now = (nextPU, iv)"
  shows "if nextPU \<noteq> cur_pu sa then (\<exists>e. update_calls st' = update_calls st @ [UpdateInstanceCall nextPU e])
         else update_calls st' = update_calls st"
proof -
  let ?ramp = "manualScalingActiveRamp (ms_Spec active) (CurrentProcessingUnits (sa_Status sa))"
  define st0 where "st0 = (if CurrentlyActiveSchedules (sa_Status sa) \<noteq> []
     then metric (RecordScaleSkipped (LabelsForAutoscaler sa) ''schedule_suppressed_by_manual'') st else st)"
  obtain sa1 ch1 where m: "manual_status active ?ramp sa ch = (sa1, ch1)" by fastforce
  obtain err did sa2 ch2 st2 where a: "manual_apply r syncer active ?ramp nextPU iv now sa1 ch1 st0 = (err, did, sa2, ch2, st2)"
    by (metis prod_cases5)
  have c: "cur_pu sa1 = cur_pu sa" using manual_status_cur [of active ?ramp sa ch] m by simp
  have "update_calls st' = update_calls st2"
    using assms a m progress_no_update extends_update_calls unfolding st0_def
    by (cases err) (force simp: reconcile_active_def Let_def)+
  moreover have "update_calls st0 = update_calls st" by (simp add: st0_def)
  ultimately show ?thesis using manual_apply_calls [OF a] c by (auto split: if_splits)
qed

lemma reconcile_active_outcome:
  assumes "reconcile_active r syncer active now sa ch st = (out, sa', ch', st')"
  shows "out \<noteq> ManualOutcome False d None"
proof -
  let ?ramp = "manualScalingActiveRamp (ms_Spec active) (CurrentProcessingUnits (sa_Status sa))"
  let ?st0 = "if CurrentlyActiveSchedules (sa_Status sa) \<noteq> []
     then metric (RecordScaleSkipped (LabelsForAutoscaler sa) ''schedule_suppressed_by_manual'') st else st"
  obtain nextPU iv where n: "nextManualPU r sa active now = (nextPU, iv)" by fastforce
  obtain sa1 ch1 where m: "manual_status active ?ramp sa ch = (sa1, ch1)" by fastforce
  obtain err did sa2 ch2 st2 where
    "manual_apply r syncer active ?ramp nextPU iv now sa1 ch1 ?st0 = (err, did, sa2, ch2, st2)" by (metis prod_cases5)
  then show ?thesis using assms n m by (cases err) (auto simp: reconcile_active_def Let_def)
qed

section \<open>Sorting and selection\<close>

text \<open>
  What is used of \<^verbatim>\<open>sort.Slice\<close>: for an order that is irreflexive, transitive and
  negatively transitive it returns a permutation in which no element comes before one that
  is less.
\<close>

definition weak_order :: "('a \<Rightarrow> 'a \<Rightarrow> bool) \<Rightarrow> bool" where
  "weak_order lt \<longleftrightarrow> (\<forall>x. \<not> lt x x) \<and> (\<forall>x y z. lt x y \<longrightarrow> lt y z \<longrightarrow> lt x z) \<and>
     (\<forall>x y z. \<not> lt x y \<longrightarrow> \<not> lt y z \<longrightarrow> \<not> lt x z)"

definition sort_ok :: "(('a \<Rightarrow> 'a \<Rightarrow> bool) \<Rightarrow> 'a list \<Rightarrow> 'a list) \<Rightarrow> bool" where
  "sort_ok srt \<longleftrightarrow>
     (\<forall>lt xs. weak_order lt \<longrightarrow>
        mset (srt lt xs) = mset xs \<and> sorted_wrt (\<lambda>a b. \<not> lt b a) (srt lt xs))"

lemma string_less_irrefl: "\<not> string_less x x"
  by (induction x) auto

lemma string_less_trans: "string_less x y \<Longrightarrow> string_less y z \<Longrightarrow> string_less x z"
proof (induction x y arbitrary: z rule: string_less.induct)
  case (2 y ys)
  then show ?case by (cases z) auto
next
  case (3 x xs y ys)
  then show ?case by (cases z) auto
qed simp

lemma string_less_total: "x \<noteq> y \<Longrightarrow> string_less x y \<or> string_less y x"
proof (induction x y rule: string_less.induct)
  case (1 xs)
  then show ?case by (cases xs) auto
next
  case (3 x xs y ys)
  have "(of_char x :: nat) = of_char y \<longleftrightarrow> x = y" by simp
  then have "x = y \<or> (of_char x :: nat) < of_char y \<or> (of_char y :: nat) < of_char x" by linarith
  then show ?case using 3 by auto
qed simp

lemma newer_weak_order: "weak_order newer"
  unfolding weak_order_def newer_def Let_def
  using string_less_irrefl string_less_trans string_less_total
  by (auto; metis)

lemma finishedAt_weak_order: "weak_order (\<lambda>a b. finishedAt a > finishedAt b)"
  by (auto simp: weak_order_def)

text \<open>An override that can drive the autoscaler.\<close>

definition live_override :: "string \<Rightarrow> time \<Rightarrow> SpannerManualScaling \<Rightarrow> bool" where
  "live_override name now ms \<longleftrightarrow>
     ms_TargetResource (ms_Spec ms) = name \<and> om_DeletionTimestamp (ms_Meta ms) = None \<and>
     \<not> IsTerminal (ms_Phase (ms_Status ms)) \<and> (\<forall>t. ms_ExpiresAt (ms_Spec ms) = Some t \<longrightarrow> now < t)"

lemma manual_candidates_filter: "manual_candidates name now mss = filter (live_override name now) mss"
  by (induction mss) (auto simp: live_override_def expired_override_def split: option.splits)

lemma sort_ok_mset: "sort_ok srt \<Longrightarrow> weak_order lt \<Longrightarrow> mset (srt lt xs) = mset xs"
  by (auto simp: sort_ok_def)

lemma sort_ok_sorted: "sort_ok srt \<Longrightarrow> weak_order lt \<Longrightarrow> sorted_wrt (\<lambda>a b. \<not> lt b a) (srt lt xs)"
  by (auto simp: sort_ok_def)

lemma select_result:
  assumes "sort_ok (r_sort r)" "kread (k_list_ms (r_kube r) (om_Namespace (sa_Meta sa))) st = (Inr items, st1)"
  shows "\<exists>active rest. selectActiveManualScaling r sa now st = (Inr (active, rest), st1) \<and>
     (case active of
        None \<Rightarrow> rest = [] \<and> filter (live_override (om_Name (sa_Meta sa)) now) items = []
      | Some c \<Rightarrow> mset (c # rest) = mset (filter (live_override (om_Name (sa_Meta sa)) now) items) \<and>
          (\<forall>x \<in> set rest. \<not> newer x c))"
proof -
  let ?c = "filter (live_override (om_Name (sa_Meta sa)) now) items"
  let ?s = "r_sort r newer ?c"
  have m: "mset ?s = mset ?c" using assms(1) newer_weak_order by (rule sort_ok_mset)
  have o: "sorted_wrt (\<lambda>a b. \<not> newer b a) ?s" using assms(1) newer_weak_order by (rule sort_ok_sorted)
  show ?thesis
  proof (cases ?s)
    case Nil
    then have "?c = []" using m by simp
    then show ?thesis using assms(2) by (simp add: selectActiveManualScaling_def manual_candidates_filter)
  next
    case (Cons c cs)
    then have "?c \<noteq> []" using m by (metis list.distinct(1) mset_zero_iff)
    then have "selectActiveManualScaling r sa now st = (Inr (Some c, cs), st1)"
      using assms(2) Cons by (simp add: selectActiveManualScaling_def manual_candidates_filter)
    then show ?thesis using m o Cons by auto
  qed
qed

section \<open>What reconciling overrides does to the instance\<close>

definition overrides_ok :: "'w renv \<Rightarrow> SpannerAutoscaler \<Rightarrow> 'w rstate \<Rightarrow> bool" where
  "overrides_ok r sa st \<longleftrightarrow>
     pu_range (cur_pu sa) \<and>
     (\<forall>items st1. kread (k_list_ms (r_kube r) (om_Namespace (sa_Meta sa))) st = (Inr items, st1) \<longrightarrow>
        (\<forall>ms \<in> set items. pu_range (ms_ProcessingUnits (ms_Spec ms)) \<and>
           step_bounded (r_gsv r) (ms_ScaleupStepSize (ms_Spec ms)) \<and>
           step_bounded (r_gsv r) (ms_ScaledownStepSize (ms_Spec ms))))"

lemma nextManualPU_between:
  assumes "pu_range (cur_pu sa)" "pu_range (ms_ProcessingUnits (ms_Spec ms))"
    and "step_bounded (r_gsv r) (ms_ScaleupStepSize (ms_Spec ms))"
    and "step_bounded (r_gsv r) (ms_ScaledownStepSize (ms_Spec ms))"
  shows "min (cur_pu sa) (ms_ProcessingUnits (ms_Spec ms)) \<le> fst (nextManualPU r sa ms now)"
    and "fst (nextManualPU r sa ms now) \<le> max (cur_pu sa) (ms_ProcessingUnits (ms_Spec ms))"
proof -
  let ?up = "\<lparr>rs_StepSize = ms_ScaleupStepSize (ms_Spec ms), rs_Interval = ms_ScaleupInterval (ms_Spec ms),
              rs_DefaultInterval = r_scaleUpInterval r\<rparr>"
    and ?down = "\<lparr>rs_StepSize = ms_ScaledownStepSize (ms_Spec ms), rs_Interval = ms_ScaledownInterval (ms_Spec ms),
                  rs_DefaultInterval = r_scaleDownInterval r\<rparr>"
  have b: "ramp_bounded (r_gsv r) (ms_ProcessingUnits (ms_Spec ms)) ?up ?down (cur_pu sa)"
    using assms by (simp add: ramp_bounded_def)
  have e: "nextManualPU r sa ms now = NextRampPU (r_gsv r) (cur_pu sa) (ms_ProcessingUnits (ms_Spec ms)) ?up ?down
      (LastScaleTime (sa_Status sa)) now" by (simp add: nextManualPU_def Let_def)
  show "min (cur_pu sa) (ms_ProcessingUnits (ms_Spec ms)) \<le> fst (nextManualPU r sa ms now)"
    "fst (nextManualPU r sa ms now) \<le> max (cur_pu sa) (ms_ProcessingUnits (ms_Spec ms))"
    using ramp.nxt_between [OF b] NextRampPU_held_or_next [of "r_gsv r" "cur_pu sa" "ms_ProcessingUnits (ms_Spec ms)"
        ?up ?down "LastScaleTime (sa_Status sa)" now] unfolding e by auto
qed

lemma reconcile_prefix_calls:
  "update_calls (markExpiredSiblings r sa now (mark_superseded r now mss st)) = update_calls st"
  using extends_update_calls [OF mark_superseded_no_update] extends_update_calls [OF markExpiredSiblings_no_update]
  by metis

lemma clearActive_calls: "update_calls (snd (snd (clearActiveManualScalingState sa ch st))) = update_calls st"
  by (simp add: clearActiveManualScalingState_def Let_def)

lemma reject_calls: "update_calls (snd (snd (rejectScaledownPolicy r sa active now ch st))) = update_calls st"
proof -
  have "update_calls (snd (transitionManualScalingPhase r active PhaseInvalid (reject_message active sa) now st)) = update_calls st"
    using transition_no_update extends_update_calls by (metis prod.collapse)
  then show ?thesis by (simp add: rejectScaledownPolicy_def Let_def clearActive_calls)
qed

lemma reconcile_calls:
  assumes "reconcileManualScaling r syncer now sa ch st = (out, sa', ch', st')"
  shows "update_calls st' = update_calls st \<or>
    (\<exists>active rest st1 e. selectActiveManualScaling r sa now st = (Inr (Some active, rest), st1) \<and>
       \<not> (r_rejectManualScaledown r \<and> ms_ProcessingUnits (ms_Spec active) < cur_pu sa) \<and>
       fst (nextManualPU r sa active now) \<noteq> cur_pu sa \<and> (\<forall>d. out \<noteq> ManualOutcome False d None) \<and>
       update_calls st' = update_calls st @ [UpdateInstanceCall (fst (nextManualPU r sa active now)) e])"
proof (cases "selectActiveManualScaling r sa now st")
  case (Pair x st1)
  have s1: "update_calls st1 = update_calls st"
    using Pair update_calls_kread by (auto simp: selectActiveManualScaling_def Let_def split: prod.splits sum.splits if_splits list.splits)
  show ?thesis
  proof (cases x)
    case (Inl err)
    then show ?thesis using assms Pair s1 by (simp add: reconcileManualScaling_def)
  next
    case (Inr ar)
    obtain a rest where ar: "ar = (a, rest)" by fastforce
    define st2 where "st2 = markExpiredSiblings r sa now (mark_superseded r now rest st1)"
    have s2: "update_calls st2 = update_calls st" using s1 by (simp add: st2_def reconcile_prefix_calls)
    show ?thesis
    proof (cases a)
      case None
      define st3 where "st3 = (if ActiveManualScaling (sa_Status sa) \<noteq> None
         then emit (Event EventNormal ''ManualScalingDeactivated'') st2 else st2)"
      have "clearActiveManualScalingState sa ch st3 = (sa', ch', st')"
        using assms Pair Inr ar None unfolding st3_def st2_def
        by (auto simp: reconcileManualScaling_def Let_def split: prod.splits)
      then have "update_calls st' = update_calls st2"
        using clearActive_calls [of sa ch st3] by (simp add: st3_def split: if_splits)
      then show ?thesis using s2 by simp
    next
      case (Some active)
      show ?thesis
      proof (cases "r_rejectManualScaledown r \<and> ms_ProcessingUnits (ms_Spec active) < cur_pu sa")
        case True
        then have "update_calls st' = update_calls st2"
          using assms Pair Inr ar Some reject_calls [of r sa active now ch st2] unfolding st2_def
          by (auto simp: reconcileManualScaling_def Let_def split: prod.splits)
        then show ?thesis using s2 by simp
      next
        case False
        then have ra: "reconcile_active r syncer active now sa ch st2 = (out, sa', ch', st')"
          using assms Pair Inr ar Some unfolding st2_def by (auto simp: reconcileManualScaling_def Let_def)
        show ?thesis
          using reconcile_active_calls [OF ra, of "fst (nextManualPU r sa active now)" "snd (nextManualPU r sa active now)"]
            reconcile_active_outcome [OF ra] s2 Pair Inr ar Some False by (auto split: if_splits)
      qed
    qed
  qed
qed

section \<open>What the history limit deletes\<close>

fun deleted_of :: "effect list \<Rightarrow> SpannerManualScaling list" where
  "deleted_of [] = []"
| "deleted_of (DeleteMS ms o' # es) = ms # deleted_of es"
| "deleted_of (_ # es) = deleted_of es"

lemma deleted_of_append: "deleted_of (es @ es') = deleted_of es @ deleted_of es'"
  by (induction es rule: deleted_of.induct) auto

lemma deleted_of_metric [simp]: "deleted_of (map Metric ops) = []"
  by (induction ops) auto

lemma delete_overrides_deleted:
  "delete_overrides r mss st = (e, st') \<Longrightarrow>
     \<exists>es n. st_Trace st' = st_Trace st @ es \<and> deleted_of es = take n mss \<and> (e = None \<longrightarrow> n = length mss)"
proof (induction mss arbitrary: st)
  case Nil
  then show ?case by auto
next
  case (Cons ms mss)
  obtain e1 st1 where d: "delete_ms (r_kube r) ms st = (e1, st1)" by fastforce
  let ?st2 = "metric (RecordManualScalingHistoryEvicted (om_Namespace (ms_Meta ms))) st1"
  have t: "st_Trace st1 = st_Trace st @ [DeleteMS ms e1]" using d by (rule delete_ms_trace)
  have "(e \<noteq> None \<and> st' = st1) \<or> delete_overrides r mss ?st2 = (e, st')"
    using Cons.prems d by (auto split: option.splits if_splits)
  then show ?case
  proof
    assume "e \<noteq> None \<and> st' = st1"
    then show ?thesis using t by (intro exI [of _ "[DeleteMS ms e1]"] exI [of _ 1]) auto
  next
    assume "delete_overrides r mss ?st2 = (e, st')"
    then obtain es n where "st_Trace st' = st_Trace ?st2 @ es" "deleted_of es = take n mss"
      "e = None \<longrightarrow> n = length mss" using Cons.IH by blast
    then show ?thesis
      using t by (intro exI [of _ "DeleteMS ms e1 # map Metric (RecordManualScalingHistoryEvicted (om_Namespace (ms_Meta ms))) @ es"]
          exI [of _ "Suc n"]) (auto simp: deleted_of_append)
  qed
qed

lemma newer_iff:
  "newer a b \<longleftrightarrow> om_CreationTimestamp (ms_Meta b) < om_CreationTimestamp (ms_Meta a) \<or>
     (om_CreationTimestamp (ms_Meta b) = om_CreationTimestamp (ms_Meta a) \<and>
      string_less (om_Name (ms_Meta b)) (om_Name (ms_Meta a)))"
  by (auto simp: newer_def Let_def)

lemma newer_total: "om_Name (ms_Meta a) \<noteq> om_Name (ms_Meta b) \<Longrightarrow> newer a b \<or> newer b a"
  using string_less_total by (auto simp: newer_def Let_def)

section \<open>Status changes are reported\<close>

lemma manual_status_unchanged:
  "manual_status active ramp sa ch = (sa', ch') \<Longrightarrow> \<not> ch' \<Longrightarrow> sa' = sa \<and> \<not> ch"
  by (auto simp: manual_status_def Let_def split: if_splits)

lemma manual_apply_unchanged:
  "manual_apply r syncer active ramp n iv now sa ch st = (err, did, sa', ch', st') \<Longrightarrow> \<not> ch' \<Longrightarrow> sa' = sa \<and> \<not> ch"
  by (auto simp: manual_apply_def Let_def split: if_splits prod.splits option.splits)

lemma clearActive_unchanged:
  "clearActiveManualScalingState sa ch st = (sa', ch', st') \<Longrightarrow> \<not> ch' \<Longrightarrow> sa' = sa \<and> \<not> ch"
  by (auto simp: clearActiveManualScalingState_def Let_def split: if_splits)

lemma activeManualScalingEqual_iff: "activeManualScalingEqual a b \<longleftrightarrow> a = b"
  by (auto simp: activeManualScalingEqual_def split: option.splits)

lemma manual_status_fields:
  assumes "manual_status active ramp sa ch = (sa', ch')"
  shows "DesiredMinPUs (sa_Status sa') = 0" "DesiredMaxPUs (sa_Status sa') = 0"
    "ActiveManualScaling (sa_Status sa') = Some \<lparr>ams_Name = om_Name (ms_Meta active),
       ams_ProcessingUnits = ms_ProcessingUnits (ms_Spec active), ams_Ramp = ramp,
       ams_ExpiresAt = ms_ExpiresAt (ms_Spec active)\<rparr>"
  using assms by (auto simp: manual_status_def upd_status_def activeManualScalingEqual_iff Let_def split: if_splits)

lemma manual_apply_fields:
  assumes "manual_apply r syncer active ramp n iv now sa ch st = (None, did, sa', ch', st')"
  shows "DesiredMinPUs (sa_Status sa') = DesiredMinPUs (sa_Status sa)"
    "DesiredMaxPUs (sa_Status sa') = DesiredMaxPUs (sa_Status sa)"
    "ActiveManualScaling (sa_Status sa') = ActiveManualScaling (sa_Status sa)"
    "n \<noteq> cur_pu sa \<Longrightarrow> LastScaleTime (sa_Status sa') = now \<and> DesiredProcessingUnits_status (sa_Status sa') = n"
  using assms by (auto simp: manual_apply_def upd_status_def Let_def split: if_splits prod.splits option.splits)

lemma reconcile_active_status:
  assumes "reconcile_active r syncer active now sa ch st = (out, sa', ch', st')"
  shows "(\<not> ch' \<longrightarrow> sa' = sa \<and> \<not> ch) \<and>
    (\<forall>d. out = ManualOutcome True d None \<longrightarrow>
       DesiredMinPUs (sa_Status sa') = 0 \<and> DesiredMaxPUs (sa_Status sa') = 0 \<and>
       ActiveManualScaling (sa_Status sa') = Some \<lparr>ams_Name = om_Name (ms_Meta active),
         ams_ProcessingUnits = ms_ProcessingUnits (ms_Spec active),
         ams_Ramp = manualScalingActiveRamp (ms_Spec active) (cur_pu sa),
         ams_ExpiresAt = ms_ExpiresAt (ms_Spec active)\<rparr> \<and>
       (fst (nextManualPU r sa active now) \<noteq> cur_pu sa \<longrightarrow>
          LastScaleTime (sa_Status sa') = now \<and>
          DesiredProcessingUnits_status (sa_Status sa') = fst (nextManualPU r sa active now)))"
proof -
  let ?ramp = "manualScalingActiveRamp (ms_Spec active) (CurrentProcessingUnits (sa_Status sa))"
  let ?n = "nextManualPU r sa active now"
  define st0 where "st0 = (if CurrentlyActiveSchedules (sa_Status sa) \<noteq> []
     then metric (RecordScaleSkipped (LabelsForAutoscaler sa) ''schedule_suppressed_by_manual'') st else st)"
  obtain sa1 ch1 where m: "manual_status active ?ramp sa ch = (sa1, ch1)" by fastforce
  obtain err did sa2 ch2 st2 where a:
    "manual_apply r syncer active ?ramp (fst ?n) (snd ?n) now sa1 ch1 st0 = (err, did, sa2, ch2, st2)"
    by (metis prod_cases5)
  have r: "sa' = sa2 \<and> ch' = ch2 \<and> (out = ManualOutcome True d None \<longrightarrow> err = None)" for d
    using assms a m unfolding st0_def
    by (cases err) (auto simp: reconcile_active_def Let_def case_prod_unfold)
  have c: "cur_pu sa1 = cur_pu sa" using manual_status_cur [of active ?ramp sa ch] m by simp
  have 1: "\<not> ch' \<longrightarrow> sa' = sa \<and> \<not> ch"
    using r manual_apply_unchanged [OF a] manual_status_unchanged [OF m] by auto
  show ?thesis
  proof (cases err)
    case None
    then show ?thesis
      using 1 r c manual_status_fields [OF m] manual_apply_fields [OF a [unfolded None]] by auto
  next
    case (Some e)
    then show ?thesis using 1 r by auto
  qed
qed

lemma reconcile_status:
  assumes "reconcileManualScaling r syncer now sa ch st = (out, sa', ch', st')"
  shows "(\<not> ch' \<longrightarrow> sa' = sa \<and> \<not> ch) \<and>
    (\<forall>d. out = ManualOutcome True d None \<longrightarrow>
       (\<exists>active rest st1. selectActiveManualScaling r sa now st = (Inr (Some active, rest), st1) \<and>
          DesiredMinPUs (sa_Status sa') = 0 \<and> DesiredMaxPUs (sa_Status sa') = 0 \<and>
          ActiveManualScaling (sa_Status sa') = Some \<lparr>ams_Name = om_Name (ms_Meta active),
            ams_ProcessingUnits = ms_ProcessingUnits (ms_Spec active),
            ams_Ramp = manualScalingActiveRamp (ms_Spec active) (cur_pu sa),
            ams_ExpiresAt = ms_ExpiresAt (ms_Spec active)\<rparr> \<and>
          (fst (nextManualPU r sa active now) \<noteq> cur_pu sa \<longrightarrow>
             LastScaleTime (sa_Status sa') = now \<and>
             DesiredProcessingUnits_status (sa_Status sa') = fst (nextManualPU r sa active now))))"
proof (cases "selectActiveManualScaling r sa now st")
  case (Pair x st1)
  show ?thesis
  proof (cases x)
    case (Inl err)
    then show ?thesis using assms Pair by (auto simp: reconcileManualScaling_def)
  next
    case (Inr ar)
    obtain a rest where ar: "ar = (a, rest)" by fastforce
    define st2 where "st2 = markExpiredSiblings r sa now (mark_superseded r now rest st1)"
    show ?thesis
    proof (cases a)
      case None
      then show ?thesis
        using assms Pair Inr ar
        by (auto simp: reconcileManualScaling_def Let_def split: prod.splits dest: clearActive_unchanged)
    next
      case (Some active)
      show ?thesis
      proof (cases "r_rejectManualScaledown r \<and> ms_ProcessingUnits (ms_Spec active) < cur_pu sa")
        case True
        then show ?thesis
          using assms Pair Inr ar Some
          by (auto simp: reconcileManualScaling_def rejectScaledownPolicy_def Let_def split: prod.splits
              dest: clearActive_unchanged)
      next
        case False
        then have "reconcile_active r syncer active now sa ch st2 = (out, sa', ch', st')"
          using assms Pair Inr ar Some unfolding st2_def by (auto simp: reconcileManualScaling_def Let_def)
        from reconcile_active_status [OF this] show ?thesis using Pair Inr ar Some by blast
      qed
    qed
  qed
qed

section \<open>Dispatching\<close>

lemma reconcile_unhandled:
  assumes "reconcileManualScaling r syncer now sa ch st = (ManualOutcome False d None, sa', ch', st')"
  shows "sa' = upd_status (\<lambda>s. s\<lparr>ActiveManualScaling := None\<rparr>) sa"
proof (cases "selectActiveManualScaling r sa now st")
  case (Pair x st1)
  have clear: "clearActiveManualScalingState sa ch st2 = (sa', ch', st') \<Longrightarrow>
      sa' = upd_status (\<lambda>s. s\<lparr>ActiveManualScaling := None\<rparr>) sa" for st2
    by (cases sa; cases "sa_Status sa") (auto simp: clearActiveManualScalingState_def upd_status_def Let_def split: if_splits)
  show ?thesis
  proof (cases x)
    case (Inl err)
    then show ?thesis using assms Pair by (simp add: reconcileManualScaling_def)
  next
    case (Inr ar)
    obtain a rest where ar: "ar = (a, rest)" by fastforce
    define st2 where "st2 = markExpiredSiblings r sa now (mark_superseded r now rest st1)"
    show ?thesis
    proof (cases a)
      case None
      then show ?thesis
        using assms Pair Inr ar clear by (auto simp: reconcileManualScaling_def Let_def split: prod.splits)
    next
      case (Some active)
      show ?thesis
      proof (cases "r_rejectManualScaledown r \<and> ms_ProcessingUnits (ms_Spec active) < cur_pu sa")
        case True
        then show ?thesis
          using assms Pair Inr ar Some clear
          by (auto simp: reconcileManualScaling_def rejectScaledownPolicy_def Let_def split: prod.splits)
      next
        case False
        then have "reconcile_active r syncer active now sa ch st2 = (ManualOutcome False d None, sa', ch', st')"
          using assms Pair Inr ar Some unfolding st2_def by (auto simp: reconcileManualScaling_def Let_def)
        then show ?thesis using reconcile_active_outcome by blast
      qed
    qed
  qed
qed

text \<open>
  Dispatching adds no change of the instance to the one the overrides make, and leaves the
  reconcile to the CPU path exactly when they do not take it over.
\<close>

lemma dispatch_outcome:
  assumes "dispatchManualScaling r syncer sa ch dropped st = (Dispatch rq handled err, sa', ch', st')"
    and "clock_now r st = (now, st0)"
    and "reconcileManualScaling r syncer now sa ch st0 = (out, sa1, ch1, st1)"
  shows "update_calls st' = update_calls st1 \<and>
    (\<not> handled \<and> err = None \<longleftrightarrow> (\<exists>d. out = ManualOutcome False d None)) \<and>
    (\<not> handled \<longrightarrow> sa' = sa1 \<and> ch' = ch1 \<and> st' = st1)"
proof -
  obtain h d e where out: "out = ManualOutcome h d e" by (cases out)
  have w: "update_calls (snd (status_sa (r_kube r) x st2)) = update_calls st2" for x st2
    using status_sa_trace [of "r_kube r" x st2 "fst (status_sa (r_kube r) x st2)" "snd (status_sa (r_kube r) x st2)"]
    by (simp add: update_calls_def)
  have dm: "update_calls (emitScheduleDeactivations x ds st2) = update_calls st2" for x ds st2
    by (simp add: emitScheduleDeactivations_def)
  show ?thesis
  proof (cases e)
    case (Some err1)
    then show ?thesis using assms out w by (auto simp: dispatchManualScaling_def Let_def split: if_splits)
  next
    case None
    show ?thesis
    proof (cases "h \<and> ch1")
      case False
      then show ?thesis using assms out None by (auto simp: dispatchManualScaling_def Let_def split: if_splits)
    next
      case True
      obtain e2 st2 where s: "status_sa (r_kube r) sa1 st1 = (e2, st2)" by fastforce
      then have "update_calls st2 = update_calls st1" using w [of sa1 st1] by simp
      then show ?thesis
        using assms out None True s by (cases e2) (auto simp: dispatchManualScaling_def dm Let_def split: if_splits)
    qed
  qed
qed

section \<open>A sample override\<close>

definition sample_ms :: SpannerManualScaling where
  "sample_ms = \<lparr>ms_Meta = sample_meta\<lparr>om_Name := ''m1''\<rparr>,
     ms_Spec = \<lparr>ms_TargetResource = ''sa'', ms_ProcessingUnits = 5000, ms_ScaleupStepSize = Some (intstr_FromInt 1000),
       ms_ScaleupInterval = None, ms_ScaledownStepSize = None, ms_ScaledownInterval = None, ms_ExpiresAt = Some 1000\<rparr>,
     ms_Status = \<lparr>ms_Phase = PhasePending, ms_AppliedAt = None, ms_ReachedAt = None,
       ms_CurrentProcessingUnits = 0, ms_FinishedAt = None, ms_Message = []\<rparr>\<rparr>"

text \<open>Insertion sort is an instance of \<open>sort_ok\<close>.\<close>

fun insert_by :: "('a \<Rightarrow> 'a \<Rightarrow> bool) \<Rightarrow> 'a \<Rightarrow> 'a list \<Rightarrow> 'a list" where
  "insert_by lt x [] = [x]"
| "insert_by lt x (y # ys) = (if lt y x then y # insert_by lt x ys else x # y # ys)"

fun sort_by :: "('a \<Rightarrow> 'a \<Rightarrow> bool) \<Rightarrow> 'a list \<Rightarrow> 'a list" where
  "sort_by lt [] = []"
| "sort_by lt (x # xs) = insert_by lt x (sort_by lt xs)"

lemma insert_by_mset: "mset (insert_by lt x xs) = add_mset x (mset xs)"
  by (induction xs) auto

lemma insert_by_set: "set (insert_by lt x xs) = insert x (set xs)"
  by (induction xs) auto

lemma insert_by_sorted:
  "weak_order lt \<Longrightarrow> sorted_wrt (\<lambda>a b. \<not> lt b a) xs \<Longrightarrow> sorted_wrt (\<lambda>a b. \<not> lt b a) (insert_by lt x xs)"
proof (induction xs)
  case (Cons y ys)
  have "\<not> lt x y" if "lt y x" using that Cons.prems(1) unfolding weak_order_def by metis
  moreover have "\<not> lt z x" if "\<not> lt y x" "z \<in> set ys" for z
    using that Cons.prems unfolding weak_order_def by (metis sorted_wrt.simps(2))
  ultimately show ?case using Cons by (auto simp: insert_by_set)
qed simp

lemma sort_by_ok: "sort_ok sort_by"
proof -
  have "mset (sort_by lt xs) = mset xs" for lt and xs :: "'a list"
    by (induction xs) (simp_all add: insert_by_mset)
  moreover have "weak_order lt \<Longrightarrow> sorted_wrt (\<lambda>a b. \<not> lt b a) (sort_by lt xs)" for lt and xs :: "'a list"
    by (induction xs) (simp_all add: insert_by_sorted)
  ultimately show ?thesis by (simp add: sort_ok_def)
qed

definition sample_renv :: "mem_world renv" where
  "sample_renv = \<lparr>r_kube = mem_kube, r_gsv = sample_gsv, r_parse = (\<lambda>e. Inr every_minute), r_sort = sort_by,
     r_scaleDownInterval = 55 * minute, r_scaleUpInterval = minute, r_rejectManualScaledown = True,
     r_manualScalingHistoryPerNamespace = 1\<rparr>"

section \<open>Properties\<close>

text \<open>
  C19. The newest override wins: of the overrides of the namespace, those count that name the
  autoscaler, are not being deleted, have not expired and are in no terminal phase; if there
  is none, none is selected; otherwise every other was created before the selected one, or at
  the same time with a name that comes before its name, and exactly the others are to be
  superseded.
\<close>

theorem manual_newest_wins:
  assumes "sort_ok (r_sort r)"
    and "kread (k_list_ms (r_kube r) (om_Namespace (sa_Meta sa))) st = (Inr items, st1)"
    and "distinct (map (\<lambda>ms. om_Name (ms_Meta ms)) items)"
  shows "(selectActiveManualScaling r sa now st = (Inr (None, []), st1) \<and>
            (\<forall>x \<in> set items. \<not> live_override (om_Name (sa_Meta sa)) now x)) \<or>
         (\<exists>c rest. selectActiveManualScaling r sa now st = (Inr (Some c, rest), st1) \<and>
            c \<in> set items \<and> live_override (om_Name (sa_Meta sa)) now c \<and>
            set rest = {x \<in> set items. live_override (om_Name (sa_Meta sa)) now x \<and> x \<noteq> c} \<and>
            (\<forall>x \<in> set rest. om_CreationTimestamp (ms_Meta x) < om_CreationTimestamp (ms_Meta c) \<or>
               (om_CreationTimestamp (ms_Meta x) = om_CreationTimestamp (ms_Meta c) \<and>
                string_less (om_Name (ms_Meta x)) (om_Name (ms_Meta c)))))"
proof -
  let ?l = "live_override (om_Name (sa_Meta sa)) now"
  obtain a rest where s: "selectActiveManualScaling r sa now st = (Inr (a, rest), st1)"
    "case a of None \<Rightarrow> rest = [] \<and> filter ?l items = []
     | Some c \<Rightarrow> mset (c # rest) = mset (filter ?l items) \<and> (\<forall>x \<in> set rest. \<not> newer x c)"
    using select_result [OF assms(1,2), of now] by blast
  show ?thesis
  proof (cases a)
    case None
    then show ?thesis using s by (auto simp: filter_empty_conv)
  next
    case (Some c)
    then have m: "mset (c # rest) = mset (filter ?l items)" and o: "\<forall>x \<in> set rest. \<not> newer x c" using s(2) by auto
    have set: "set (c # rest) = {x \<in> set items. ?l x}" using mset_eq_setD [OF m] by auto
    have d: "distinct (map (\<lambda>ms. om_Name (ms_Meta ms)) (filter ?l items))"
      using assms(3) by (simp add: distinct_map inj_on_def)
    have "distinct (map (\<lambda>ms. om_Name (ms_Meta ms)) (c # rest))"
      using d mset_eq_imp_distinct_iff [of "map (\<lambda>ms. om_Name (ms_Meta ms)) (c # rest)"
          "map (\<lambda>ms. om_Name (ms_Meta ms)) (filter ?l items)"] m by (metis mset_map)
    then have "c \<notin> set rest" "\<forall>x \<in> set rest. om_Name (ms_Meta c) \<noteq> om_Name (ms_Meta x)"
      by (auto simp: image_iff)
    then have "set rest = {x \<in> set items. ?l x \<and> x \<noteq> c}" "\<forall>x \<in> set rest. newer c x"
      using set o newer_total by (auto, blast)
    then show ?thesis using s(1) Some set unfolding newer_iff by (intro disjI2 exI [of _ c] exI [of _ rest]) auto
  qed
qed

theorem manual_newest_wins_witness:
  "let young = sample_ms\<lparr>ms_Meta := (ms_Meta sample_ms)\<lparr>om_Name := ''m0'', om_CreationTimestamp := 6\<rparr>\<rparr>;
       twin = sample_ms\<lparr>ms_Meta := (ms_Meta sample_ms)\<lparr>om_Name := ''m2''\<rparr>\<rparr>;
       st = mem_state 9 [sample_sa] [] [sample_ms, young, twin]
   in \<exists>rest. selectActiveManualScaling sample_renv sample_sa 9 st = (Inr (Some young, rest), st) \<and> set rest = {sample_ms, twin}"
proof -
  define young where "young = sample_ms\<lparr>ms_Meta := (ms_Meta sample_ms)\<lparr>om_Name := ''m0'', om_CreationTimestamp := 6\<rparr>\<rparr>"
  define twin where "twin = sample_ms\<lparr>ms_Meta := (ms_Meta sample_ms)\<lparr>om_Name := ''m2''\<rparr>\<rparr>"
  define st where "st = mem_state 9 [sample_sa] [] [sample_ms, young, twin]"
  let ?items = "[sample_ms, young, twin]" and ?l = "live_override (om_Name (sa_Meta sample_sa)) 9"
  let ?t = "\<lambda>x. om_CreationTimestamp (ms_Meta x)"
  have l: "kread (k_list_ms (r_kube sample_renv) (om_Namespace (sa_Meta sample_sa))) st = (Inr ?items, st)"
    by (simp add: st_def young_def twin_def kread_def sample_renv_def mem_kube_def mem_state_def sample_ms_def sample_defs)
  have live: "?l sample_ms" "?l young" "?l twin"
    by (simp_all add: young_def twin_def live_override_def sample_ms_def sample_defs)
  have ts: "?t sample_ms < 6" "?t young = 6" "?t twin < 6"
    by (simp_all add: young_def twin_def sample_ms_def sample_defs)
  have "sort_ok (r_sort sample_renv)" by (simp add: sample_renv_def sort_by_ok)
  moreover have "distinct (map (\<lambda>ms. om_Name (ms_Meta ms)) ?items)" by (simp add: young_def twin_def sample_ms_def)
  ultimately obtain c rest where r: "selectActiveManualScaling sample_renv sample_sa 9 st = (Inr (Some c, rest), st)"
    "c \<in> set ?items" "set rest = {x \<in> set ?items. ?l x \<and> x \<noteq> c}" "\<forall>x \<in> set rest. ?t x < ?t c \<or> ?t x = ?t c"
    using manual_newest_wins [OF _ l, of 9] live(1) by (simp only: list.set insert_iff) blast
  have "c = young"
  proof (rule ccontr)
    assume "c \<noteq> young"
    then have "?t c < 6" "young \<in> set rest" using r(2,3) ts live(2) by auto
    then show False using r(4) ts(2) by force
  qed
  moreover have "sample_ms \<noteq> young" "twin \<noteq> young" using ts by auto
  ultimately have "set rest = {sample_ms, twin}" using r(3) live by auto
  then show ?thesis using r(1) \<open>c = young\<close> unfolding Let_def st_def young_def twin_def by blast
qed

text \<open>
  C4. Overrides drive the instance safely: reconciling them calls the Spanner API at most
  once, only for the selected override and only when it changes something; the value lies
  between the current one and the target of the override, and with the scale-down policy on
  it is never below the current one.
\<close>

theorem manual_update_sound:
  assumes "sort_ok (r_sort r)" "overrides_ok r sa st"
    and "reconcileManualScaling r syncer now sa ch st = (out, sa', ch', st')"
  shows "update_calls st' = update_calls st \<or>
     (\<exists>active rest st1 pu e. selectActiveManualScaling r sa now st = (Inr (Some active, rest), st1) \<and>
        update_calls st' = update_calls st @ [UpdateInstanceCall pu e] \<and> pu \<noteq> cur_pu sa \<and>
        min (cur_pu sa) (ms_ProcessingUnits (ms_Spec active)) \<le> pu \<and>
        pu \<le> max (cur_pu sa) (ms_ProcessingUnits (ms_Spec active)) \<and>
        (r_rejectManualScaledown r \<longrightarrow> cur_pu sa < pu))"
proof -
  have between: "min (cur_pu sa) (ms_ProcessingUnits (ms_Spec active)) \<le> fst (nextManualPU r sa active now) \<and>
      fst (nextManualPU r sa active now) \<le> max (cur_pu sa) (ms_ProcessingUnits (ms_Spec active))"
    if sel: "selectActiveManualScaling r sa now st = (Inr (Some active, rest), st1)" for active rest st1
  proof -
    obtain items st2 where l: "kread (k_list_ms (r_kube r) (om_Namespace (sa_Meta sa))) st = (Inr items, st2)"
      using sel by (auto simp: selectActiveManualScaling_def split: prod.splits sum.splits)
    have "mset (active # rest) = mset (filter (live_override (om_Name (sa_Meta sa)) now) items)"
      using select_result [OF assms(1) l, of now] sel by auto
    then have "active \<in> set items" using mset_eq_setD by fastforce
    then show ?thesis
      using assms(2) l nextManualPU_between [of sa active r now] by (auto simp: overrides_ok_def)
  qed
  from reconcile_calls [OF assms(3)] show ?thesis
  proof
    assume "update_calls st' = update_calls st"
    then show ?thesis ..
  next
    assume "\<exists>active rest st1 e. selectActiveManualScaling r sa now st = (Inr (Some active, rest), st1) \<and>
       \<not> (r_rejectManualScaledown r \<and> ms_ProcessingUnits (ms_Spec active) < cur_pu sa) \<and>
       fst (nextManualPU r sa active now) \<noteq> cur_pu sa \<and> (\<forall>d. out \<noteq> ManualOutcome False d None) \<and>
       update_calls st' = update_calls st @ [UpdateInstanceCall (fst (nextManualPU r sa active now)) e]"
    then obtain active rest st1 e where a: "selectActiveManualScaling r sa now st = (Inr (Some active, rest), st1)"
      "\<not> (r_rejectManualScaledown r \<and> ms_ProcessingUnits (ms_Spec active) < cur_pu sa)"
      "fst (nextManualPU r sa active now) \<noteq> cur_pu sa"
      "update_calls st' = update_calls st @ [UpdateInstanceCall (fst (nextManualPU r sa active now)) e]" by blast
    then show ?thesis using between [OF a(1)] by (intro disjI2) fastforce
  qed
qed

theorem manual_update_sound_witness:
  "\<exists>e. update_calls (snd (snd (snd (reconcileManualScaling sample_renv (\<lambda>pu w. (None, w)) 9 sample_sa False
       (mem_state 9 [sample_sa] [] [sample_ms]))))) = [UpdateInstanceCall 4000 e]"
proof -
  let ?st = "mem_state 9 [sample_sa] [] [sample_ms]"
  let ?R = "reconcileManualScaling sample_renv (\<lambda>pu w. (None, w)) 9 sample_sa False ?st"
  obtain out sa' ch' st' where R: "?R = (out, sa', ch', st')" by (metis prod_cases4)
  have b: "overrides_ok sample_renv sample_sa ?st"
    using sample_gsv_int [of 1000]
    by (auto simp: overrides_ok_def kread_def sample_renv_def mem_kube_def mem_state_def sample_ms_def sample_defs
        pu_range_def step_bounded_def)
  have c: "update_calls st' = [UpdateInstanceCall 4000 None]"
  proof -
    have "update_calls (snd (snd (snd ?R))) = [UpdateInstanceCall 4000 None]" by code_simp
    then show ?thesis by (simp add: R)
  qed
  moreover have "update_calls ?st = []" by (simp add: update_calls_def mem_state_def)
  ultimately have "\<exists>pu e. update_calls st' = [UpdateInstanceCall pu e]"
    using manual_update_sound [OF _ b R] by (auto simp: sample_renv_def sort_by_ok)
  then show ?thesis using c R by auto
qed

text \<open>
  C20. The history limit: with a positive limit, and when the overrides of the namespace can be
  listed, the finished overrides that are not already being deleted split into kept and
  evicted ones; as many are kept as the limit allows, no evicted one finished after a kept
  one, only evicted ones are deleted, one after the other until a deletion fails, and all of
  them if none does.
\<close>

theorem history_limit_exact:
  assumes "sort_ok (r_sort r)" "0 < r_manualScalingHistoryPerNamespace r"
    and "kread (k_list_ms (r_kube r) ns) st = (Inr items, st1)"
    and "enforceHistoryLimit r ns st = (e, st')"
  shows "\<exists>es kept evicted n. st_Trace st' = st_Trace st @ es \<and>
     mset (kept @ evicted) = mset (filter (\<lambda>ms. om_DeletionTimestamp (ms_Meta ms) = None \<and>
                                              IsTerminal (ms_Phase (ms_Status ms))) items) \<and>
     int (length kept) = min (r_manualScalingHistoryPerNamespace r) (int (length (kept @ evicted))) \<and>
     (\<forall>k \<in> set kept. \<forall>x \<in> set evicted. finishedAt x \<le> finishedAt k) \<and>
     deleted_of es = take n evicted \<and> (e = None \<longrightarrow> n = length evicted)"
proof -
  let ?limit = "r_manualScalingHistoryPerNamespace r" and ?f = "finished_overrides items"
  have tr: "st_Trace st1 = st_Trace st" using kread_trace [of "k_list_ms (r_kube r) ns" st] assms(3) by simp
  show ?thesis
  proof (cases "int (length ?f) \<le> ?limit")
    case True
    then have "e = None" "st' = st1" using assms by (simp_all add: enforceHistoryLimit_def)
    then show ?thesis
      using True tr by (intro exI [of _ "[]"] exI [of _ ?f] exI [of _ "[]"] exI [of _ 0])
        (simp add: finished_overrides_def)
  next
    case False
    let ?s = "r_sort r (\<lambda>a b. finishedAt a > finishedAt b) ?f"
    have m: "mset ?s = mset ?f" using assms(1) finishedAt_weak_order by (rule sort_ok_mset)
    then have len: "length ?s = length ?f" by (metis size_mset)
    have "sorted_wrt (\<lambda>a b. \<not> finishedAt b > finishedAt a) ?s"
      using sort_ok_sorted [OF assms(1) finishedAt_weak_order] .
    then have o: "\<forall>k \<in> set (take (nat ?limit) ?s). \<forall>x \<in> set (drop (nat ?limit) ?s). finishedAt x \<le> finishedAt k"
      by (meson sorted_wrt_take_drop not_less)
    have d: "delete_overrides r (drop (nat ?limit) ?s) st1 = (e, st')"
      using assms False by (simp add: enforceHistoryLimit_def Let_def)
    obtain es n where "st_Trace st' = st_Trace st1 @ es" "deleted_of es = take n (drop (nat ?limit) ?s)"
      "e = None \<longrightarrow> n = length (drop (nat ?limit) ?s)" using delete_overrides_deleted [OF d] by blast
    moreover have "int (length (take (nat ?limit) ?s)) = min ?limit (int (length ?s))"
      using assms(2) len by simp
    moreover have "mset (take (nat ?limit) ?s @ drop (nat ?limit) ?s) = mset ?f"
      "length (take (nat ?limit) ?s @ drop (nat ?limit) ?s) = length ?s"
      using m by (simp_all only: append_take_drop_id)
    ultimately show ?thesis
      unfolding finished_overrides_def [symmetric]
      using o tr by (intro exI [of _ es] exI [of _ "take (nat ?limit) ?s"] exI [of _ "drop (nat ?limit) ?s"] exI [of _ n])
        (simp only: simp_thms)
  qed
qed

definition sample_done :: "string \<Rightarrow> time \<Rightarrow> SpannerManualScaling" where
  "sample_done name t = sample_ms\<lparr>ms_Meta := (ms_Meta sample_ms)\<lparr>om_Name := name\<rparr>,
     ms_Status := (ms_Status sample_ms)\<lparr>ms_Phase := PhaseExpired, ms_FinishedAt := Some t\<rparr>\<rparr>"

theorem history_limit_exact_witness:
  "deleted_of (st_Trace (snd (enforceHistoryLimit sample_renv ''ns''
       (mem_state 9 [] [] [sample_done ''a'' 3, sample_done ''b'' 5])))) = [sample_done ''a'' 3]"
proof -
  let ?items = "[sample_done ''a'' 3, sample_done ''b'' 5]"
  let ?st = "mem_state 9 [] [] ?items"
  obtain e st' where R: "enforceHistoryLimit sample_renv ''ns'' ?st = (e, st')" by fastforce
  have l: "kread (k_list_ms (r_kube sample_renv) ''ns'') ?st = (Inr ?items, ?st)"
    by (simp add: kread_def sample_renv_def mem_kube_def mem_state_def sample_done_def sample_ms_def sample_defs)
  have e: "e = None"
  proof -
    have "fst (enforceHistoryLimit sample_renv ''ns'' ?st) = None" by code_simp
    then show ?thesis by (simp add: R)
  qed
  have "sort_ok (r_sort sample_renv)" "0 < r_manualScalingHistoryPerNamespace sample_renv"
    by (simp_all add: sample_renv_def sort_by_ok)
  moreover have f: "filter (\<lambda>ms. om_DeletionTimestamp (ms_Meta ms) = None \<and> IsTerminal (ms_Phase (ms_Status ms))) ?items = ?items"
    by (simp add: sample_done_def sample_ms_def sample_defs)
  ultimately obtain es kept evicted n where
    h: "st_Trace st' = st_Trace ?st @ es" "mset (kept @ evicted) = mset ?items"
      "int (length kept) = min (r_manualScalingHistoryPerNamespace sample_renv) (int (length (kept @ evicted)))"
      "\<forall>k \<in> set kept. \<forall>x \<in> set evicted. finishedAt x \<le> finishedAt k"
      "deleted_of es = take n evicted" "n = length evicted"
    using history_limit_exact [OF _ _ l R] e unfolding f by blast
  have two: "length (kept @ evicted) = 2" using h(2) by (metis size_mset length_Cons list.size(3) numeral_2_eq_2)
  then have "length kept = 1" using h(3) by (simp add: sample_renv_def)
  then obtain k where k: "kept = [k]" by (cases kept) auto
  from two obtain x where x: "evicted = [x]" using k by (cases evicted) auto
  have "{#k, x#} = {#sample_done ''a'' 3, sample_done ''b'' 5#}" using h(2) k x by simp
  then have "(k = sample_done ''a'' 3 \<and> x = sample_done ''b'' 5) \<or> (k = sample_done ''b'' 5 \<and> x = sample_done ''a'' 3)"
    by (auto simp: add_eq_conv_diff)
  moreover have "finishedAt x \<le> finishedAt k" using h(4) k x by simp
  ultimately show ?thesis using h k x R by (auto simp: finishedAt_def sample_done_def mem_state_def)
qed

text \<open>
  What reconciling overrides does to the status it persists: if it does not report a
  change, the autoscaler is unchanged; if it takes the reconcile over, the scheduled range is
  cleared, the selected override is shown with its target, its expiry and whether it ramps in
  the current direction, and after a change of the instance the scale time and the desired
  value are those of that change.
\<close>

lemma manual_status_persisted:
  assumes "reconcileManualScaling r syncer now sa ch st = (out, sa', ch', st')"
  shows "(\<not> ch' \<longrightarrow> sa' = sa \<and> \<not> ch) \<and>
    (\<forall>d. out = ManualOutcome True d None \<longrightarrow>
       (\<exists>active rest st1. selectActiveManualScaling r sa now st = (Inr (Some active, rest), st1) \<and>
          DesiredMinPUs (sa_Status sa') = 0 \<and> DesiredMaxPUs (sa_Status sa') = 0 \<and>
          ActiveManualScaling (sa_Status sa') = Some \<lparr>ams_Name = om_Name (ms_Meta active),
            ams_ProcessingUnits = ms_ProcessingUnits (ms_Spec active),
            ams_Ramp = manualScalingActiveRamp (ms_Spec active) (CurrentProcessingUnits (sa_Status sa)),
            ams_ExpiresAt = ms_ExpiresAt (ms_Spec active)\<rparr> \<and>
          (fst (nextManualPU r sa active now) \<noteq> CurrentProcessingUnits (sa_Status sa) \<longrightarrow>
             LastScaleTime (sa_Status sa') = now \<and>
             DesiredProcessingUnits_status (sa_Status sa') = fst (nextManualPU r sa active now))))"
  using reconcile_status [OF assms] .

text \<open>
  A finished override can come back to life: the progress update reads the override again
  and does not look at its phase, so when the override finished since it was selected, and
  still exists, a status with the phase Active or Progressing is written over the terminal
  one.
\<close>

theorem progress_revives_terminal:
  assumes "kread (k_get_ms (r_kube r) (object_key (ms_Meta ms))) st = (Inr fresh, st1)"
    and "IsTerminal (ms_Phase (ms_Status fresh))"
    and "updateManualScalingProgress r ms currentPU targetPU now didApply st = (e, st')"
  shows "\<exists>written. st_Trace st' = st_Trace st @ [StatusMS written e] \<and> ms_Meta written = ms_Meta fresh \<and>
     \<not> IsTerminal (ms_Phase (ms_Status written)) \<and>
     ms_Phase (ms_Status written) = (if currentPU = targetPU then PhaseActive else PhaseProgressing)"
proof -
  let ?p = "progress_status currentPU targetPU now didApply (ms_Status fresh)"
  have p: "snd ?p" "ms_Phase (fst ?p) = (if currentPU = targetPU then PhaseActive else PhaseProgressing)"
    using assms(2) by (auto simp: progress_status_def Let_def)
  have "st_Trace st1 = st_Trace st"
    using kread_trace [of "k_get_ms (r_kube r) (object_key (ms_Meta ms))" st] assms(1) by simp
  moreover have "status_ms (r_kube r) (fresh\<lparr>ms_Status := fst ?p\<rparr>) st1 = (e, st')"
    using assms p by (simp add: updateManualScalingProgress_def case_prod_unfold)
  ultimately show ?thesis
    using p by (intro exI [of _ "fresh\<lparr>ms_Status := fst ?p\<rparr>"]) (simp add: status_ms_trace)
qed

theorem progress_revives_terminal_witness:
  "\<exists>written e. st_Trace (snd (updateManualScalingProgress sample_renv (sample_done ''a'' 3) 3000 5000 9 True
     (mem_state 9 [] [] [sample_done ''a'' 3]))) = [StatusMS written e] \<and>
     ms_Phase (ms_Status written) = PhaseProgressing"
proof -
  let ?st = "mem_state 9 [] [] [sample_done ''a'' 3]"
  obtain e st' where R: "updateManualScalingProgress sample_renv (sample_done ''a'' 3) 3000 5000 9 True ?st = (e, st')"
    by fastforce
  have "kread (k_get_ms (r_kube sample_renv) (object_key (ms_Meta (sample_done ''a'' 3)))) ?st
     = (Inr (sample_done ''a'' 3), ?st)"
    by (simp add: kread_def sample_renv_def mem_kube_def mem_state_def mem_get_def)
  moreover have "IsTerminal (ms_Phase (ms_Status (sample_done ''a'' 3)))" by (simp add: sample_done_def)
  ultimately show ?thesis
    using progress_revives_terminal [OF _ _ R, of "sample_done ''a'' 3" ?st] R by (auto simp: mem_state_def)
qed

end
