(* ===== verification/Manual_Controller.thy ===== *)
theory Manual_Controller
  imports Manual_Scaling
begin

text \<open>
  \<^verbatim>\<open>internal/controller/spannermanualscaling_controller.go\<close>: the reconciler of the
  overrides themselves. It marks an override whose autoscaler does not exist as Invalid and
  makes the autoscaler the owner of the others. \<^verbatim>\<open>controllerutil.SetControllerReference\<close> is
  the argument \<open>setref\<close>; \<^verbatim>\<open>metav1.GetControllerOf\<close> reads the UID of the owner.
\<close>

section \<open>The reconciler\<close>

definition invalid_message :: "string \<Rightarrow> SpannerManualScaling \<Rightarrow> string" where
  "invalid_message reason ms =
     reason @ '': targetResource='' @ fmt_q (ms_TargetResource (ms_Spec ms)) @ '' in namespace='' @
     fmt_q (om_Namespace (ms_Meta ms)) @ '' does not exist''"

definition markInvalid ::
    "'w kube \<Rightarrow> SpannerManualScaling \<Rightarrow> string \<Rightarrow> 'w rstate \<Rightarrow> reconcile_result \<times> 'w rstate" where
  "markInvalid k ms reason st =
     (if IsTerminal (ms_Phase (ms_Status ms)) then ((0, None), st)
      else
        let msg = invalid_message reason ms;
            (now, st) = kread (k_now k) st;
            ms = ms\<lparr>ms_Status := (ms_Status ms)\<lparr>ms_Phase := PhaseInvalid, ms_Message := msg,
                                                ms_FinishedAt := Some now\<rparr>\<rparr>
        in case status_ms k ms st of
             (Some err, st) \<Rightarrow>
               (if IsConflict err then ((conflictRequeueDelay, None), st) else ((0, Some err), st))
           | (None, st) \<Rightarrow> ((0, None), emit (Event EventWarning ''Invalid'') st))"

definition ensure_owner ::
    "(SpannerAutoscaler \<Rightarrow> SpannerManualScaling \<Rightarrow> kube_err + SpannerManualScaling) \<Rightarrow> 'w kube \<Rightarrow>
     SpannerAutoscaler \<Rightarrow> SpannerManualScaling \<Rightarrow> 'w rstate \<Rightarrow> reconcile_result \<times> 'w rstate" where
  "ensure_owner setref k target ms st =
     (if om_ControllerUID (ms_Meta ms) \<noteq> Some (om_UID (sa_Meta target)) then
        (case setref target ms of
           Inl err \<Rightarrow> ((0, Some err), st)
         | Inr ms \<Rightarrow>
             (case update_ms k ms st of
                (Some err, st) \<Rightarrow>
                  (if IsConflict err then ((conflictRequeueDelay, None), st) else ((0, Some err), st))
              | (None, st) \<Rightarrow> ((0, None), st)))
      else ((0, None), st))"

definition ManualReconcile ::
    "(SpannerAutoscaler \<Rightarrow> SpannerManualScaling \<Rightarrow> kube_err + SpannerManualScaling) \<Rightarrow> 'w kube \<Rightarrow>
     NamespacedName \<Rightarrow> 'w rstate \<Rightarrow> reconcile_result \<times> 'w rstate" where
  "ManualReconcile setref k nn st =
     (case kread (k_get_ms k nn) st of
        (Inl err, st) \<Rightarrow> (if IsNotFound err then ((0, None), st) else ((0, Some err), st))
      | (Inr ms, st) \<Rightarrow>
          (if IsTerminal (ms_Phase (ms_Status ms)) then ((0, None), st)
           else if om_DeletionTimestamp (ms_Meta ms) \<noteq> None then ((0, None), st)
           else
             let targetKey = \<lparr>nn_Namespace = om_Namespace (ms_Meta ms), nn_Name = ms_TargetResource (ms_Spec ms)\<rparr>
             in case kread (k_get_sa k targetKey) st of
                  (Inl err, st) \<Rightarrow>
                    (if IsNotFound err then markInvalid k ms ''targetResource not found'' st else ((0, Some err), st))
                | (Inr target, st) \<Rightarrow> ensure_owner setref k target ms st))"

section \<open>What it writes\<close>

text \<open>
  The answer of a reconcile whose only write came back with \<open>o'\<close>: a conflict asks for another
  reconcile after a second, every other error is returned.
\<close>

definition write_answer :: "kube_err option \<Rightarrow> reconcile_result" where
  "write_answer o' = (if o' = Some ErrConflict then (second, None) else (0, o'))"

text \<open>The status of an override whose autoscaler is missing: Invalid since \<open>now\<close>, with a message, all else kept.\<close>

definition marked_invalid :: "time \<Rightarrow> SpannerManualScaling \<Rightarrow> SpannerManualScaling \<Rightarrow> bool" where
  "marked_invalid now ms x \<longleftrightarrow> ms_Meta x = ms_Meta ms \<and> ms_Spec x = ms_Spec ms \<and>
     ms_Phase (ms_Status x) = PhaseInvalid \<and> ms_FinishedAt (ms_Status x) = Some now \<and> ms_Message (ms_Status x) \<noteq> [] \<and>
     ms_AppliedAt (ms_Status x) = ms_AppliedAt (ms_Status ms) \<and> ms_ReachedAt (ms_Status x) = ms_ReachedAt (ms_Status ms) \<and>
     ms_CurrentProcessingUnits (ms_Status x) = ms_CurrentProcessingUnits (ms_Status ms)"

lemma markInvalid_effects:
  assumes "markInvalid k ms reason st = (res, st')" "\<not> IsTerminal (ms_Phase (ms_Status ms))"
    and "k_now k (st_World st) = (now, w)"
  shows "\<exists>x o'. marked_invalid now ms x \<and> k_status_ms k x w = (o', st_World st') \<and> res = write_answer o' \<and>
     st_Trace st' = st_Trace st @ StatusMS x o' # (if o' = None then [Event EventWarning ''Invalid''] else [])"
proof -
  define x where "x = ms\<lparr>ms_Status := (ms_Status ms)\<lparr>ms_Phase := PhaseInvalid, ms_Message := invalid_message reason ms,
                                                       ms_FinishedAt := Some now\<rparr>\<rparr>"
  obtain o' w' where o': "k_status_ms k x w = (o', w')" by fastforce
  have s: "status_ms k x (st\<lparr>st_World := w\<rparr>) = (o', emit (StatusMS x o') (st\<lparr>st_World := w'\<rparr>))"
    by (simp add: status_ms_def kwrite_def o')
  have "res = write_answer o' \<and>
      st' = (if o' = None then emit (Event EventWarning ''Invalid'') (emit (StatusMS x o') (st\<lparr>st_World := w'\<rparr>))
             else emit (StatusMS x o') (st\<lparr>st_World := w'\<rparr>))"
    using assms s unfolding x_def
    by (auto simp: markInvalid_def kread_def write_answer_def conflictRequeueDelay_def IsConflict_def split: option.splits if_splits)
  moreover have "marked_invalid now ms x" by (simp add: marked_invalid_def x_def invalid_message_def)
  ultimately show ?thesis
    using o' by (intro exI [of _ x] exI [of _ o']) (simp add: emit_def)
qed

lemma ensure_owner_effects:
  assumes "ensure_owner setref k target ms st = (res, st')"
  shows "if om_ControllerUID (ms_Meta ms) = Some (om_UID (sa_Meta target)) then res = (0, None) \<and> st' = st
     else case setref target ms of
         Inl err \<Rightarrow> res = (0, Some err) \<and> st' = st
       | Inr x \<Rightarrow> \<exists>o'. k_update_ms k x (st_World st) = (o', st_World st') \<and> res = write_answer o' \<and>
           st_Trace st' = st_Trace st @ [UpdateMS x o']"
proof (cases "om_ControllerUID (ms_Meta ms) \<noteq> Some (om_UID (sa_Meta target)) \<and> (\<exists>x. setref target ms = Inr x)")
  case True
  then obtain x where x: "setref target ms = Inr x" by blast
  obtain o' w' where w: "k_update_ms k x (st_World st) = (o', w')" by fastforce
  then have "st' = emit (UpdateMS x o') (st\<lparr>st_World := w'\<rparr>) \<and> res = write_answer o'"
    using assms True x
    by (auto simp: ensure_owner_def update_ms_def kwrite_def write_answer_def conflictRequeueDelay_def IsConflict_def
        split: option.splits if_splits)
  then show ?thesis using True x w by (simp add: emit_def)
next
  case False
  then show ?thesis using assms by (auto simp: ensure_owner_def split: sum.splits)
qed

section \<open>Properties\<close>

text \<open>
  C24. What reconciling an override does, exactly. Nothing is written if the override cannot be
  read, is finished or is being deleted, if the read of its autoscaler fails for another reason
  than that it does not exist, or if the autoscaler already owns it. If the autoscaler does not
  exist, one status is written: Invalid, finished at the clock reading of this reconcile and
  otherwise as it was read; an event follows exactly when the write succeeded. If the
  autoscaler exists and does not own the override, the override with the owner reference set is
  updated once, unless setting the reference fails. A conflict leads to another reconcile
  without an error, every other error is returned.
\<close>

theorem manual_reconcile_effects:
  assumes "ManualReconcile setref k nn st = (res, st')"
  shows "case kread (k_get_ms k nn) st of
      (Inl err, st1) \<Rightarrow> st_Trace st' = st_Trace st \<and> res = (0, if err = ErrNotFound then None else Some err)
    | (Inr ms, st1) \<Rightarrow>
        if ms_Phase (ms_Status ms) \<in> {PhaseExpired, PhaseSuperseded, PhaseInvalid} \<or> om_DeletionTimestamp (ms_Meta ms) \<noteq> None
        then st_Trace st' = st_Trace st \<and> res = (0, None)
        else (case kread (k_get_sa k \<lparr>nn_Namespace = om_Namespace (ms_Meta ms), nn_Name = ms_TargetResource (ms_Spec ms)\<rparr>) st1 of
            (Inl err, st2) \<Rightarrow>
              if err = ErrNotFound
              then \<exists>x o'. marked_invalid (fst (k_now k (st_World st2))) ms x \<and>
                k_status_ms k x (snd (k_now k (st_World st2))) = (o', st_World st') \<and> res = write_answer o' \<and>
                st_Trace st' = st_Trace st @ StatusMS x o' # (if o' = None then [Event EventWarning ''Invalid''] else [])
              else st_Trace st' = st_Trace st \<and> res = (0, Some err)
          | (Inr target, st2) \<Rightarrow>
              if om_ControllerUID (ms_Meta ms) = Some (om_UID (sa_Meta target)) then st_Trace st' = st_Trace st \<and> res = (0, None)
              else case setref target ms of
                  Inl err \<Rightarrow> st_Trace st' = st_Trace st \<and> res = (0, Some err)
                | Inr x \<Rightarrow> \<exists>o'. k_update_ms k x (st_World st2) = (o', st_World st') \<and> res = write_answer o' \<and>
                    st_Trace st' = st_Trace st @ [UpdateMS x o'])"
proof -
  obtain r st1 where g: "kread (k_get_ms k nn) st = (r, st1)" by fastforce
  have t1: "st_Trace st1 = st_Trace st" using kread_traceD [OF g] .
  show ?thesis
  proof (cases r)
    case (Inl err)
    then show ?thesis using assms g t1 by (auto simp: ManualReconcile_def IsNotFound_def split: if_splits)
  next
    case (Inr ms)
    let ?key = "\<lparr>nn_Namespace = om_Namespace (ms_Meta ms), nn_Name = ms_TargetResource (ms_Spec ms)\<rparr>"
    obtain q st2 where q: "kread (k_get_sa k ?key) st1 = (q, st2)" by fastforce
    have t2: "st_Trace st2 = st_Trace st" using kread_traceD [OF q] t1 by simp
    show ?thesis
    proof (cases "IsTerminal (ms_Phase (ms_Status ms)) \<or> om_DeletionTimestamp (ms_Meta ms) \<noteq> None")
      case True
      then show ?thesis using assms g Inr t1 by (auto simp: ManualReconcile_def IsTerminal_iff split: if_splits)
    next
      case False
      then have live: "\<not> (ms_Phase (ms_Status ms) \<in> {PhaseExpired, PhaseSuperseded, PhaseInvalid} \<or>
          om_DeletionTimestamp (ms_Meta ms) \<noteq> None)" by (simp add: IsTerminal_iff)
      show ?thesis
      proof (cases q)
        case (Inr target)
        then have "ensure_owner setref k target ms st2 = (res, st')"
          using assms g \<open>r = Inr ms\<close> False q by (simp add: ManualReconcile_def)
        from ensure_owner_effects [OF this] show ?thesis
          using g \<open>r = Inr ms\<close> live q Inr t2 by (auto split: sum.splits)
      next
        case (Inl err)
        show ?thesis
        proof (cases "err = ErrNotFound")
          case True
          then have "markInvalid k ms ''targetResource not found'' st2 = (res, st')"
            using assms g \<open>r = Inr ms\<close> False q Inl by (simp add: ManualReconcile_def IsNotFound_def)
          from markInvalid_effects [OF this _ prod.collapse [symmetric]] show ?thesis
            using g \<open>r = Inr ms\<close> live q Inl True t2 False by simp
        next
          case f: False
          then show ?thesis
            using assms g \<open>r = Inr ms\<close> live q Inl t2 False by (simp add: ManualReconcile_def IsNotFound_def)
        qed
      qed
    qed
  qed
qed

definition sample_setref :: "SpannerAutoscaler \<Rightarrow> SpannerManualScaling \<Rightarrow> kube_err + SpannerManualScaling" where
  "sample_setref target ms = Inr (ms\<lparr>ms_Meta := (ms_Meta ms)\<lparr>om_ControllerUID := Some (om_UID (sa_Meta target))\<rparr>\<rparr>)"

theorem manual_reconcile_effects_witness:
  "\<exists>x o'. marked_invalid 9 sample_ms x \<and>
     st_Trace (snd (ManualReconcile sample_setref mem_kube \<lparr>nn_Namespace = ''ns'', nn_Name = ''m1''\<rparr>
      (mem_state 9 [] [] [sample_ms]))) = StatusMS x o' # (if o' = None then [Event EventWarning ''Invalid''] else [])"
proof -
  let ?nn = "\<lparr>nn_Namespace = ''ns'', nn_Name = ''m1''\<rparr>" and ?st = "mem_state 9 [] [] [sample_ms]"
  obtain res st' where R: "ManualReconcile sample_setref mem_kube ?nn ?st = (res, st')" by fastforce
  have "kread (k_get_ms mem_kube ?nn) ?st = (Inr sample_ms, ?st)"
    by (simp add: kread_def mem_kube_def mem_state_def mem_get_def object_key_def sample_ms_def sample_defs)
  then show ?thesis
    using manual_reconcile_effects [OF R] R
    by (auto simp: kread_def mem_kube_def mem_state_def mem_get_def sample_ms_def sample_defs)
qed

end
