(* ===== verification/Spanner_Client.thy ===== *)
theory Spanner_Client
  imports Api_Types
begin

text \<open>
  \<^verbatim>\<open>internal/spanner/spanner.go\<close>, the client of the Cloud Spanner instance admin API, and
  \<^verbatim>\<open>internal/spanneremulator\<close>, the in-memory server of that API with its admin handlers.

  The client calls two methods of the generated API client; they are the arguments
  \<open>get\<close> and \<open>upd\<close> of its operations, functions on an opaque state of the service. What
  the client relies on is the locale \<open>instance_service\<close>; the emulator's server is an
  interpretation of it.

  \<^verbatim>\<open>processing_units\<close> and \<^verbatim>\<open>node_count\<close> of the wire format are \<^verbatim>\<open>int32\<close>.
\<close>

section \<open>The wire format\<close>

datatype pb_state =
    STATE_UNSPECIFIED
  | CREATING
  | READY
  | pb_state_other int

record pb_instance =
  pb_Name :: string
  pb_DisplayName :: string
  pb_NodeCount :: int
  pb_ProcessingUnits :: int
  pb_State :: pb_state

datatype grpc_err =
    Grpc_NotFound string
  | Grpc_InvalidArgument string
  | Grpc_other string

record update_request =
  ur_Instance :: "pb_instance option"
  ur_FieldMask :: "string list option"

type_synonym 's get_instance = "string \<Rightarrow> 's \<Rightarrow> (grpc_err + pb_instance) \<times> 's"
type_synonym 's upd_instance = "update_request \<Rightarrow> 's \<Rightarrow> grpc_err option \<times> 's"

section \<open>The client\<close>

record Instance =
  inst_ProcessingUnits :: gint
  inst_InstanceState :: InstanceState

record spanner_client =
  cl_projectID :: string
  cl_instanceID :: string

definition instance_name :: "string \<Rightarrow> string \<Rightarrow> string" where
  "instance_name projectID instanceID = ''projects/'' @ projectID @ ''/instances/'' @ instanceID"

fun instanceState :: "pb_state \<Rightarrow> InstanceState" where
  "instanceState STATE_UNSPECIFIED = InstanceStateUnspecified"
| "instanceState CREATING = InstanceStateCreating"
| "instanceState READY = InstanceStateReady"
| "instanceState (pb_state_other n) = InstanceStateUnspecified"

definition GetInstance :: "'s get_instance \<Rightarrow> spanner_client \<Rightarrow> 's \<Rightarrow> (grpc_err + Instance) \<times> 's" where
  "GetInstance get c s =
     (case get (instance_name (cl_projectID c) (cl_instanceID c)) s of
        (Inl err, s) \<Rightarrow> (Inl err, s)
      | (Inr i, s) \<Rightarrow>
          (Inr \<lparr>inst_ProcessingUnits = pb_ProcessingUnits i, inst_InstanceState = instanceState (pb_State i)\<rparr>, s))"

definition UpdateInstance ::
    "'s get_instance \<Rightarrow> 's upd_instance \<Rightarrow> spanner_client \<Rightarrow> Instance \<Rightarrow> 's \<Rightarrow> grpc_err option \<times> 's" where
  "UpdateInstance get upd c instance s =
     (case get (instance_name (cl_projectID c) (cl_instanceID c)) s of
        (Inl err, s) \<Rightarrow> (Some err, s)
      | (Inr i, s) \<Rightarrow>
          (let i = i\<lparr>pb_ProcessingUnits := wrap32 (inst_ProcessingUnits instance)\<rparr>
           in upd \<lparr>ur_Instance = Some i, ur_FieldMask = Some [''processing_units'']\<rparr> s))"

section \<open>Constructing a client\<close>

text \<open>
  The options of the clients of both Google APIs: an endpoint replaces authentication, a
  token source is used otherwise. Dialling the API with them is the argument \<open>dial\<close>.
\<close>

record 't client_config =
  cc_endpoint :: string
  cc_tokenSource :: "'t option"

datatype 't client_option =
    CO_WithEndpoint string
  | CO_WithoutAuthentication
  | CO_InsecureTransport
  | CO_WithTokenSource 't

definition WithEndpoint :: "string \<Rightarrow> 't client_config \<Rightarrow> 't client_config" where
  "WithEndpoint endpoint c = c\<lparr>cc_endpoint := endpoint\<rparr>"

definition WithTokenSource :: "'t \<Rightarrow> 't client_config \<Rightarrow> 't client_config" where
  "WithTokenSource ts c = c\<lparr>cc_tokenSource := Some ts\<rparr>"

definition client_options :: "'t client_config \<Rightarrow> 't client_option list" where
  "client_options c =
     (if cc_endpoint c \<noteq> [] then [CO_WithEndpoint (cc_endpoint c), CO_WithoutAuthentication, CO_InsecureTransport]
      else case cc_tokenSource c of Some ts \<Rightarrow> [CO_WithTokenSource ts] | None \<Rightarrow> [])"

definition apply_options :: "('t client_config \<Rightarrow> 't client_config) list \<Rightarrow> 't client_config" where
  "apply_options opts = fold (\<lambda>opt c. opt c) opts \<lparr>cc_endpoint = [], cc_tokenSource = None\<rparr>"

definition spanner_NewClient ::
    "('t client_option list \<Rightarrow> 'w \<Rightarrow> 'e option \<times> 'w) \<Rightarrow> string \<Rightarrow> string \<Rightarrow>
     ('t client_config \<Rightarrow> 't client_config) list \<Rightarrow> 'w \<Rightarrow> ('e + spanner_client) \<times> 'w" where
  "spanner_NewClient dial projectID instanceID opts w =
     (case dial (client_options (apply_options opts)) w of
        (Some err, w) \<Rightarrow> (Inl err, w)
      | (None, w) \<Rightarrow> (Inr \<lparr>cl_projectID = projectID, cl_instanceID = instanceID\<rparr>, w))"

section \<open>The emulator\<close>

type_synonym server = "string \<rightharpoonup> pb_instance"

definition NewServer :: server where
  "NewServer = Map.empty"

definition server_GetInstance :: "string \<Rightarrow> server \<Rightarrow> (grpc_err + pb_instance) \<times> server" where
  "server_GetInstance name s =
     (case s name of None \<Rightarrow> (Inl (Grpc_NotFound name), s) | Some inst \<Rightarrow> (Inr inst, s))"

fun apply_mask :: "pb_instance \<Rightarrow> string list \<Rightarrow> pb_instance \<Rightarrow> pb_instance" where
  "apply_mask patch [] existing = existing"
| "apply_mask patch (path # paths) existing =
     apply_mask patch paths
       (if path = ''processing_units'' then existing\<lparr>pb_ProcessingUnits := pb_ProcessingUnits patch\<rparr>
        else if path = ''node_count'' then existing\<lparr>pb_NodeCount := pb_NodeCount patch\<rparr>
        else if path = ''display_name'' then existing\<lparr>pb_DisplayName := pb_DisplayName patch\<rparr>
        else existing)"

definition server_UpdateInstance :: "update_request \<Rightarrow> server \<Rightarrow> grpc_err option \<times> server" where
  "server_UpdateInstance req s =
     (case ur_Instance req of
        None \<Rightarrow> (Some (Grpc_InvalidArgument ''instance.name is required''), s)
      | Some patch \<Rightarrow>
          (if pb_Name patch = [] then (Some (Grpc_InvalidArgument ''instance.name is required''), s)
           else
             case s (pb_Name patch) of
               None \<Rightarrow> (Some (Grpc_NotFound (pb_Name patch)), s)
             | Some existing \<Rightarrow>
                 (let existing =
                        (case ur_FieldMask req of
                           Some paths \<Rightarrow> apply_mask patch paths existing
                         | None \<Rightarrow> existing\<lparr>pb_ProcessingUnits := pb_ProcessingUnits patch,
                                            pb_NodeCount := pb_NodeCount patch,
                                            pb_DisplayName := pb_DisplayName patch\<rparr>)
                  in (None, s(pb_Name patch \<mapsto> existing)))))"

definition AdminUpsertInstance :: "string \<Rightarrow> int \<Rightarrow> server \<Rightarrow> server" where
  "AdminUpsertInstance name processingUnits s =
     s(name \<mapsto> \<lparr>pb_Name = name, pb_DisplayName = name, pb_NodeCount = 0,
                pb_ProcessingUnits = processingUnits, pb_State = READY\<rparr>)"

definition AdminDeleteInstance :: "string \<Rightarrow> server \<Rightarrow> server" where
  "AdminDeleteInstance name s = s(name := None)"

text \<open>
  The admin handlers: the path values and the body of the request to the status code of the
  response. Decoding the body is the parameter \<open>decode\<close>, which yields the
  \<^verbatim>\<open>processing_units\<close> of the request or fails.
\<close>

definition handleUpsert ::
    "(string \<Rightarrow> int option) \<Rightarrow> string \<Rightarrow> string \<Rightarrow> string \<Rightarrow> server \<Rightarrow> nat \<times> server" where
  "handleUpsert decode projectID instanceID body s =
     (case decode body of
        None \<Rightarrow> (400, s)
      | Some pu \<Rightarrow>
          (if pu \<le> 0 then (400, s)
           else (200, AdminUpsertInstance (instance_name projectID instanceID) pu s)))"

definition handleDelete :: "string \<Rightarrow> string \<Rightarrow> server \<Rightarrow> nat \<times> server" where
  "handleDelete projectID instanceID s = (204, AdminDeleteInstance (instance_name projectID instanceID) s)"

text \<open>The requests a server serves, one after the other under its lock.\<close>

inductive server_step :: "server \<Rightarrow> server \<Rightarrow> bool" where
  s_get: "server_step s (snd (server_GetInstance name s))"
| s_update: "\<forall>p. ur_Instance req = Some p \<longrightarrow> in_int32 (pb_ProcessingUnits p) \<Longrightarrow>
    server_step s (snd (server_UpdateInstance req s))"
| s_upsert: "\<forall>b pu. decode b = Some pu \<longrightarrow> in_int32 pu \<Longrightarrow>
    server_step s (snd (handleUpsert decode p i body s))"
| s_delete: "server_step s (snd (handleDelete p i s))"

inductive server_reachable :: "server \<Rightarrow> bool" where
  sr_new: "server_reachable NewServer"
| sr_step: "server_reachable s \<Longrightarrow> server_step s s' \<Longrightarrow> server_reachable s'"

inductive_cases server_stepE: "server_step s s'"

text \<open>Every instance is stored under its name, and its processing units fit the wire format.\<close>

definition server_ok :: "server \<Rightarrow> bool" where
  "server_ok s \<longleftrightarrow> (\<forall>n i. s n = Some i \<longrightarrow> pb_Name i = n \<and> in_int32 (pb_ProcessingUnits i))"

section \<open>What the client relies on\<close>

locale instance_service =
  fixes get :: "'s get_instance"
    and upd :: "'s upd_instance"
    and ok :: "'s \<Rightarrow> bool"
    and peek :: "'s \<Rightarrow> string \<Rightarrow> pb_instance option"
  assumes get_peek: "ok s \<Longrightarrow> n \<noteq> [] \<Longrightarrow>
      get n s = (case peek s n of None \<Rightarrow> Inl (Grpc_NotFound n) | Some i \<Rightarrow> Inr i, s)"
    and peek_name: "ok s \<Longrightarrow> peek s n = Some i \<Longrightarrow> pb_Name i = n \<and> in_int32 (pb_ProcessingUnits i)"
    and upd_known: "ok s \<Longrightarrow> pb_Name p = n \<Longrightarrow> n \<noteq> [] \<Longrightarrow> in_int32 (pb_ProcessingUnits p) \<Longrightarrow> peek s n = Some i \<Longrightarrow>
      \<exists>s'. upd \<lparr>ur_Instance = Some p, ur_FieldMask = Some [''processing_units'']\<rparr> s = (None, s') \<and> ok s' \<and>
        peek s' = (peek s)(n \<mapsto> i\<lparr>pb_ProcessingUnits := pb_ProcessingUnits p\<rparr>)"
begin

lemma name_nonempty: "instance_name p i \<noteq> []"
  by (simp add: instance_name_def)

lemma GetInstance_peek:
  assumes "ok s"
  shows "GetInstance get c s =
     (case peek s (instance_name (cl_projectID c) (cl_instanceID c)) of
        None \<Rightarrow> Inl (Grpc_NotFound (instance_name (cl_projectID c) (cl_instanceID c)))
      | Some i \<Rightarrow> Inr \<lparr>inst_ProcessingUnits = pb_ProcessingUnits i, inst_InstanceState = instanceState (pb_State i)\<rparr>, s)"
  using get_peek [OF assms name_nonempty] by (simp add: GetInstance_def split: option.splits)

lemma UpdateInstance_missing:
  assumes "ok s" "peek s (instance_name (cl_projectID c) (cl_instanceID c)) = None"
  shows "UpdateInstance get upd c x s = (Some (Grpc_NotFound (instance_name (cl_projectID c) (cl_instanceID c))), s)"
  using get_peek [OF assms(1) name_nonempty] assms(2) by (simp add: UpdateInstance_def)

lemma UpdateInstance_known:
  assumes "ok s" "peek s (instance_name (cl_projectID c) (cl_instanceID c)) = Some i"
  shows "\<exists>s'. UpdateInstance get upd c x s = (None, s') \<and> ok s' \<and>
     peek s' = (peek s)(instance_name (cl_projectID c) (cl_instanceID c) \<mapsto>
                 i\<lparr>pb_ProcessingUnits := wrap32 (inst_ProcessingUnits x)\<rparr>)"
proof -
  let ?n = "instance_name (cl_projectID c) (cl_instanceID c)"
  let ?p = "i\<lparr>pb_ProcessingUnits := wrap32 (inst_ProcessingUnits x)\<rparr>"
  have "pb_Name ?p = ?n" "in_int32 (pb_ProcessingUnits ?p)"
    using peek_name [OF assms] wrap32_range by simp_all
  from upd_known [OF assms(1) this(1) name_nonempty this(2) assms(2)]
  show ?thesis using get_peek [OF assms(1) name_nonempty] assms(2) by (simp add: UpdateInstance_def)
qed

text \<open>What is read back after an update, for every instance of the service.\<close>

lemma Get_after_Update:
  assumes "ok s" "UpdateInstance get upd c x s = (e, s')"
  shows "ok s'" and "fst (GetInstance get c' s') =
     (case fst (GetInstance get c' s) of
        Inl err \<Rightarrow> Inl err
      | Inr y \<Rightarrow> Inr (if e = None \<and> instance_name (cl_projectID c') (cl_instanceID c')
                                     = instance_name (cl_projectID c) (cl_instanceID c)
                        then y\<lparr>inst_ProcessingUnits := wrap32 (inst_ProcessingUnits x)\<rparr> else y))"
proof -
  let ?n = "instance_name (cl_projectID c) (cl_instanceID c)"
  show "ok s'"
    using assms UpdateInstance_missing [OF assms(1), of c x] UpdateInstance_known [OF assms(1), of c _ x]
    by (cases "peek s ?n") fastforce+
  then show "fst (GetInstance get c' s') =
     (case fst (GetInstance get c' s) of
        Inl err \<Rightarrow> Inl err
      | Inr y \<Rightarrow> Inr (if e = None \<and> instance_name (cl_projectID c') (cl_instanceID c') = ?n
                        then y\<lparr>inst_ProcessingUnits := wrap32 (inst_ProcessingUnits x)\<rparr> else y))"
    using assms UpdateInstance_missing [OF assms(1), of c x] UpdateInstance_known [OF assms(1), of c _ x]
    by (cases "peek s ?n") (auto simp: GetInstance_peek split: option.splits if_splits)
qed

end

section \<open>The emulator provides the service\<close>

lemma apply_mask_name [simp]: "pb_Name (apply_mask p m e) = pb_Name e"
  by (induction m arbitrary: e) auto

lemma apply_mask_int32:
  "in_int32 (pb_ProcessingUnits p) \<Longrightarrow> in_int32 (pb_ProcessingUnits e) \<Longrightarrow>
     in_int32 (pb_ProcessingUnits (apply_mask p m e))"
  by (induction m arbitrary: e) auto

lemma server_UpdateInstance_ok:
  assumes "server_ok s" "\<forall>p. ur_Instance req = Some p \<longrightarrow> in_int32 (pb_ProcessingUnits p)"
  shows "server_ok (snd (server_UpdateInstance req s))"
proof (cases "ur_Instance req")
  case None
  then show ?thesis using assms by (simp add: server_UpdateInstance_def)
next
  case (Some p)
  show ?thesis
  proof (cases "s (pb_Name p)")
    case None
    then show ?thesis using assms Some by (simp add: server_UpdateInstance_def)
  next
    case (Some e)
    have "pb_Name e = pb_Name p" "in_int32 (pb_ProcessingUnits e)" using assms Some by (auto simp: server_ok_def)
    then show ?thesis
      using assms Some \<open>ur_Instance req = Some p\<close>
      by (auto simp: server_UpdateInstance_def server_ok_def apply_mask_int32 split: option.splits)
  qed
qed

lemma server_step_ok: "server_step s s' \<Longrightarrow> server_ok s \<Longrightarrow> server_ok s'"
proof (induction rule: server_step.induct)
  case (s_get s name)
  then show ?case by (simp add: server_GetInstance_def split: option.splits)
next
  case (s_update req s)
  then show ?case by (simp add: server_UpdateInstance_ok)
next
  case (s_upsert decode s p i body)
  then show ?case by (auto simp: handleUpsert_def AdminUpsertInstance_def server_ok_def split: option.splits)
next
  case (s_delete s p i)
  then show ?case by (simp add: handleDelete_def AdminDeleteInstance_def server_ok_def)
qed

lemma server_reachable_ok: "server_reachable s \<Longrightarrow> server_ok s"
proof (induction rule: server_reachable.induct)
  case sr_new
  then show ?case by (simp add: NewServer_def server_ok_def)
next
  case (sr_step s s')
  then show ?case by (blast intro: server_step_ok)
qed

interpretation emulator: instance_service server_GetInstance server_UpdateInstance server_ok "\<lambda>s. s"
proof
  fix s :: server and n i
  assume "server_ok s" "s n = Some i"
  then show "pb_Name i = n \<and> in_int32 (pb_ProcessingUnits i)" by (simp add: server_ok_def)
next
  fix s :: server and n
  show "server_GetInstance n s = (case s n of None \<Rightarrow> Inl (Grpc_NotFound n) | Some i \<Rightarrow> Inr i, s)"
    by (simp add: server_GetInstance_def split: option.splits)
next
  fix s :: server and p :: pb_instance and n i
  assume a: "server_ok s" "pb_Name p = n" "n \<noteq> []" "in_int32 (pb_ProcessingUnits p)" "s n = Some i"
  let ?req = "\<lparr>ur_Instance = Some p, ur_FieldMask = Some [''processing_units'']\<rparr>"
  have "server_ok (snd (server_UpdateInstance ?req s))" using a by (intro server_UpdateInstance_ok) auto
  then show "\<exists>s'. server_UpdateInstance ?req s = (None, s') \<and> server_ok s' \<and>
      s' = s(n \<mapsto> i\<lparr>pb_ProcessingUnits := pb_ProcessingUnits p\<rparr>)"
    using a by (simp add: server_UpdateInstance_def)
qed

section \<open>Properties\<close>

text \<open>
  C22. The client and the emulator agree: in every state the emulator can reach, after an
  update of an instance every instance reads as before, except that a successful update
  shows the requested processing units (reduced to 32 bits) on the updated one; the update
  succeeds exactly when the instance exists.
\<close>

theorem update_then_get:
  assumes "server_reachable s" "UpdateInstance server_GetInstance server_UpdateInstance c x s = (e, s')"
  shows "fst (GetInstance server_GetInstance c' s') =
     (case fst (GetInstance server_GetInstance c' s) of
        Inl err \<Rightarrow> Inl err
      | Inr y \<Rightarrow> Inr (if e = None \<and> instance_name (cl_projectID c') (cl_instanceID c')
                                     = instance_name (cl_projectID c) (cl_instanceID c)
                        then y\<lparr>inst_ProcessingUnits := wrap32 (inst_ProcessingUnits x)\<rparr> else y))
     \<and> (e = None \<longleftrightarrow> (\<exists>y. fst (GetInstance server_GetInstance c s) = Inr y))"
proof -
  have ok: "server_ok s" using assms(1) by (rule server_reachable_ok)
  have "e = None \<longleftrightarrow> s (instance_name (cl_projectID c) (cl_instanceID c)) \<noteq> None"
    using emulator.UpdateInstance_missing [OF ok, of c x] emulator.UpdateInstance_known [OF ok, of c _ x] assms(2)
    by (cases "s (instance_name (cl_projectID c) (cl_instanceID c))") auto
  then show ?thesis
    using emulator.Get_after_Update(2) [OF ok assms(2), of c'] emulator.GetInstance_peek [OF ok, of c]
    by (auto split: option.splits)
qed

theorem update_then_get_witness:
  "fst (GetInstance server_GetInstance \<lparr>cl_projectID = ''p'', cl_instanceID = ''i''\<rparr>
      (snd (UpdateInstance server_GetInstance server_UpdateInstance \<lparr>cl_projectID = ''p'', cl_instanceID = ''i''\<rparr>
         \<lparr>inst_ProcessingUnits = 3000, inst_InstanceState = InstanceStateUnspecified\<rparr>
         (AdminUpsertInstance ''projects/p/instances/i'' 1000 NewServer))))
    = Inr \<lparr>inst_ProcessingUnits = 3000, inst_InstanceState = InstanceStateReady\<rparr>"
proof -
  let ?c = "\<lparr>cl_projectID = ''p'', cl_instanceID = ''i''\<rparr>"
  let ?x = "\<lparr>inst_ProcessingUnits = 3000, inst_InstanceState = InstanceStateUnspecified\<rparr>"
  let ?s = "AdminUpsertInstance ''projects/p/instances/i'' 1000 NewServer"
  have "server_step NewServer (snd (handleUpsert (\<lambda>b. Some 1000) ''p'' ''i'' [] NewServer))"
    by (rule s_upsert) (simp add: in_int32_def)
  then have r: "server_reachable ?s"
    using sr_step [OF sr_new] by (simp add: handleUpsert_def instance_name_def)
  obtain e s' where u: "UpdateInstance server_GetInstance server_UpdateInstance ?c ?x ?s = (e, s')" by fastforce
  have g: "fst (GetInstance server_GetInstance ?c ?s)
      = Inr \<lparr>inst_ProcessingUnits = 1000, inst_InstanceState = InstanceStateReady\<rparr>"
    by (simp add: GetInstance_def server_GetInstance_def AdminUpsertInstance_def instance_name_def)
  have "wrap32 3000 = 3000" by (simp add: in_int32_def)
  then show ?thesis using update_then_get [OF r u, of ?c] g u by simp
qed

end
