(* ===== verification/Go_Float.thy ===== *)
theory Go_Float
  imports Go_Prelude
begin

text \<open>
  Go's \<^verbatim>\<open>float64\<close> as far as the sources compute with it. A value is a mantissa of at most
  53 bits and a binary exponent; each operation rounds its exact result to the nearest, ties
  to even. The exponent is unbounded, so overflow to infinity, underflow and NaN are not part
  of the model: the sources compute with utilizations between 0 and 1, percentages and
  processing units. The same value may have several representations; comparisons compare
  values.
\<close>

section \<open>Floating point\<close>

record float64 =
  f_man :: int
  f_exp :: int

function excess_bits :: "int \<Rightarrow> nat" where
  "excess_bits n = (if n < 2 ^ 53 then 0 else Suc (excess_bits (n div 2)))"
  by pat_completeness auto

termination excess_bits
  by (relation "measure nat") auto

declare excess_bits.simps [simp del]

definition round_shift :: "nat \<Rightarrow> int \<Rightarrow> int" where
  "round_shift k n =
     (let q = n div 2 ^ k; r = n mod 2 ^ k
      in if 2 * r > 2 ^ k \<or> (2 * r = 2 ^ k \<and> q mod 2 = 1) then q + 1 else q)"

definition round_float64 :: "int \<Rightarrow> int \<Rightarrow> float64" where
  "round_float64 m e =
     (let n = \<bar>m\<bar>; k = excess_bits n
      in \<lparr>f_man = sgn m * round_shift k n, f_exp = e + int k\<rparr>)"

definition f_mul :: "float64 \<Rightarrow> float64 \<Rightarrow> float64" where
  "f_mul x y = round_float64 (f_man x * f_man y) (f_exp x + f_exp y)"

definition f_of_int :: "int \<Rightarrow> float64" where
  "f_of_int n = round_float64 n 0"

text \<open>Go's conversion \<^verbatim>\<open>int(x)\<close> truncates towards zero; the result fits an \<^verbatim>\<open>int\<close>.\<close>

definition f_to_int :: "float64 \<Rightarrow> gint" where
  "f_to_int x =
     (if f_exp x \<ge> 0 then f_man x * 2 ^ nat (f_exp x)
      else sgn (f_man x) * (\<bar>f_man x\<bar> div 2 ^ nat (- f_exp x)))"

definition f_align :: "float64 \<Rightarrow> float64 \<Rightarrow> int \<times> int \<times> int" where
  "f_align x y =
     (let e = min (f_exp x) (f_exp y)
      in (f_man x * 2 ^ nat (f_exp x - e), f_man y * 2 ^ nat (f_exp y - e), e))"

definition f_add :: "float64 \<Rightarrow> float64 \<Rightarrow> float64" where
  "f_add x y =
     (if f_man x = 0 then y else if f_man y = 0 then x
      else case f_align x y of (a, b, e) \<Rightarrow> round_float64 (a + b) e)"

definition f_less :: "float64 \<Rightarrow> float64 \<Rightarrow> bool" where
  "f_less x y = (case f_align x y of (a, b, e) \<Rightarrow> a < b)"

definition f_max :: "float64 \<Rightarrow> float64 \<Rightarrow> float64" where
  "f_max x y = (if f_less x y then y else x)"

text \<open>
  The quotient of \<open>x\<close> by a non-zero \<open>y\<close>: the integer quotient to 110 extra bits, which is
  more than 53 significant ones, with a last bit that records a remainder, and then rounded.
\<close>

definition f_div :: "float64 \<Rightarrow> float64 \<Rightarrow> float64" where
  "f_div x y =
     (let n = \<bar>f_man x\<bar> * 2 ^ 110; d = \<bar>f_man y\<bar>;
          q = 2 * (n div d) + (if n mod d = 0 then 0 else 1)
      in round_float64 (sgn (f_man x) * sgn (f_man y) * q) (f_exp x - f_exp y - 111))"

definition f_zero :: float64 where
  "f_zero = \<lparr>f_man = 0, f_exp = 0\<rparr>"

definition f_sub :: "float64 \<Rightarrow> float64 \<Rightarrow> float64" where
  "f_sub x y = f_add x (y\<lparr>f_man := - f_man y\<rparr>)"

text \<open>\<^verbatim>\<open>int(math.Ceil(x))\<close>.\<close>

definition f_ceil :: "float64 \<Rightarrow> gint" where
  "f_ceil x =
     (if f_exp x \<ge> 0 then f_man x * 2 ^ nat (f_exp x) else - ((- f_man x) div 2 ^ nat (- f_exp x)))"

text \<open>\<^verbatim>\<open>slices.Sort\<close> on floats.\<close>

fun f_insert :: "float64 \<Rightarrow> float64 list \<Rightarrow> float64 list" where
  "f_insert x [] = [x]"
| "f_insert x (y # ys) = (if f_less y x then y # f_insert x ys else x # y # ys)"

definition f_sort :: "float64 list \<Rightarrow> float64 list" where
  "f_sort xs = foldr f_insert xs []"

text \<open>\<^verbatim>\<open>Minutes()\<close> and \<^verbatim>\<open>Hours()\<close> of a duration: the whole units and the rest in nanoseconds.\<close>

definition duration_in :: "duration \<Rightarrow> duration \<Rightarrow> float64" where
  "duration_in u d = f_add (f_of_int (gdiv d u)) (f_div (f_of_int (grem d u)) (f_of_int u))"

definition Minutes :: "duration \<Rightarrow> float64" where
  "Minutes d = duration_in minute d"

definition Hours :: "duration \<Rightarrow> float64" where
  "Hours d = duration_in (60 * minute) d"

section \<open>Rounding\<close>

definition float_ok :: "float64 \<Rightarrow> bool" where
  "float_ok x \<longleftrightarrow> \<bar>f_man x\<bar> < 2 ^ 53"

text \<open>The value of a float is between 0 and 1.\<close>

definition unit_float :: "float64 \<Rightarrow> bool" where
  "unit_float x \<longleftrightarrow> float_ok x \<and> 0 \<le> f_man x \<and> f_exp x \<le> 0 \<and> f_man x \<le> 2 ^ nat (- f_exp x)"

lemma excess_bits_ge: "n \<ge> 2 ^ 53 \<Longrightarrow> 2 ^ (52 + excess_bits n) \<le> n"
proof (induction n rule: excess_bits.induct)
  case (1 n)
  have e: "excess_bits n = Suc (excess_bits (n div 2))" using "1.prems" by (subst excess_bits.simps) simp
  show ?case
  proof (cases "n div 2 < 2 ^ 53")
    case True
    then have "excess_bits (n div 2) = 0" by (subst excess_bits.simps) simp
    then show ?thesis using e "1.prems" by simp
  next
    case False
    then have "2 ^ (52 + excess_bits (n div 2)) \<le> n div 2" using 1 by simp
    moreover have "(2::int) ^ (52 + excess_bits n) = 2 * 2 ^ (52 + excess_bits (n div 2))"
      unfolding e by (simp only: add_Suc_right power_Suc)
    ultimately show ?thesis by linarith
  qed
qed

lemma excess_bits_zero: "n < 2 ^ 53 \<Longrightarrow> excess_bits n = 0"
  by (subst excess_bits.simps) simp

lemma round_shift_zero [simp]: "round_shift 0 n = n"
  by (simp add: round_shift_def)

lemma round_shift_lower: "n div 2 ^ k \<le> round_shift k n"
  by (simp add: round_shift_def Let_def)

lemma round_shift_upper: "round_shift k n \<le> (n + (2 ^ k - 1)) div 2 ^ k"
proof (cases "n mod 2 ^ k = 0")
  case True
  then have "round_shift k n = n div 2 ^ k" by (simp add: round_shift_def)
  moreover have "n div 2 ^ k \<le> (n + (2 ^ k - 1)) div 2 ^ k" by (rule zdiv_mono1) simp_all
  ultimately show ?thesis by simp
next
  case False
  have "n div 2 ^ k + 1 = (n div 2 ^ k * 2 ^ k + 2 ^ k) div 2 ^ k" by simp
  also have "\<dots> \<le> (n + (2 ^ k - 1)) div 2 ^ k"
  proof (rule zdiv_mono1)
    have "n = n div 2 ^ k * 2 ^ k + n mod 2 ^ k" by (rule div_mult_mod_eq [symmetric])
    moreover have "0 \<le> n mod 2 ^ k" by simp
    ultimately show "n div 2 ^ k * 2 ^ k + 2 ^ k \<le> n + (2 ^ k - 1)" using False by linarith
  qed simp
  finally show ?thesis by (auto simp: round_shift_def Let_def)
qed

text \<open>Truncating a rounded non-negative value stays between its floor and its ceiling.\<close>

lemma trunc_round_bounds:
  assumes "excess_bits n \<le> j"
  shows "n div 2 ^ j \<le> round_shift (excess_bits n) n div 2 ^ (j - excess_bits n)"
    and "round_shift (excess_bits n) n div 2 ^ (j - excess_bits n) \<le> (n + (2 ^ j - 1)) div 2 ^ j"
proof -
  let ?k = "excess_bits n"
  have p: "(2::int) ^ ?k * 2 ^ (j - ?k) = 2 ^ j" using assms by (simp flip: power_add)
  have d: "x div 2 ^ ?k div 2 ^ (j - ?k) = x div 2 ^ j" for x :: int
    using zdiv_zmult2_eq [of "2 ^ (j - ?k)" x "2 ^ ?k"] by (simp add: p)
  show "n div 2 ^ j \<le> round_shift ?k n div 2 ^ (j - ?k)"
    using zdiv_mono1 [OF round_shift_lower, of "2 ^ (j - ?k)" n ?k] d by simp
  have "round_shift ?k n div 2 ^ (j - ?k) \<le> (n + (2 ^ ?k - 1)) div 2 ^ j"
    using zdiv_mono1 [OF round_shift_upper, of "2 ^ (j - ?k)" ?k n] d by simp
  also have "\<dots> \<le> (n + (2 ^ j - 1)) div 2 ^ j"
    using assms by (intro zdiv_mono1 add_left_mono diff_right_mono power_increasing) auto
  finally show "round_shift ?k n div 2 ^ (j - ?k) \<le> (n + (2 ^ j - 1)) div 2 ^ j" .
qed

lemma round_shift_nonneg: "0 \<le> n \<Longrightarrow> 0 \<le> round_shift k n"
  using round_shift_lower [of n k] by (meson order_trans pos_imp_zdiv_nonneg_iff zero_less_numeral zero_less_power)

section \<open>Order\<close>

text \<open>The value of a float as a multiple of a power of two below it.\<close>

definition f_at :: "int \<Rightarrow> float64 \<Rightarrow> int" where
  "f_at e x = f_man x * 2 ^ nat (f_exp x - e)"

lemma f_at_shift:
  assumes "e \<le> m" "m \<le> f_exp x"
  shows "f_at e x = f_at m x * 2 ^ nat (m - e)"
proof -
  have "nat (f_exp x - e) = nat (f_exp x - m) + nat (m - e)" using assms by linarith
  then show ?thesis by (simp only: f_at_def power_add mult.assoc)
qed

lemma f_less_at:
  assumes "e \<le> f_exp x" "e \<le> f_exp y"
  shows "f_less x y \<longleftrightarrow> f_at e x < f_at e y"
proof -
  let ?m = "min (f_exp x) (f_exp y)"
  have "f_at e x < f_at e y \<longleftrightarrow> f_at ?m x * 2 ^ nat (?m - e) < f_at ?m y * 2 ^ nat (?m - e)"
    using f_at_shift [of e ?m x] f_at_shift [of e ?m y] assms by simp
  also have "\<dots> \<longleftrightarrow> f_at ?m x < f_at ?m y" by (rule mult_less_cancel_right_pos) simp
  finally show ?thesis by (simp add: f_less_def f_align_def f_at_def Let_def)
qed

lemma f_common:
  obtains e where "e \<le> f_exp x" "e \<le> f_exp y" "e \<le> f_exp z"
  by (rule that [of "min (f_exp x) (min (f_exp y) (f_exp z))"]) simp_all

lemma f_less_trans: "f_less x y \<Longrightarrow> f_less y z \<Longrightarrow> f_less x z"
  by (rule f_common [of x y z]) (use f_less_at in \<open>meson order_less_trans\<close>)

lemma f_not_less_trans: "\<not> f_less x y \<Longrightarrow> \<not> f_less y z \<Longrightarrow> \<not> f_less x z"
  by (rule f_common [of x y z]) (use f_less_at in \<open>meson not_less order_trans\<close>)

lemma f_less_irrefl [simp]: "\<not> f_less x x"
  by (simp add: f_less_def f_align_def Let_def)

lemma f_less_asym: "f_less x y \<Longrightarrow> \<not> f_less y x"
  using f_less_trans f_less_irrefl by blast

end
