(* ===== verification/Metrics_Client.thy ===== *)
theory Metrics_Client
  imports Spanner_Client Go_Float
begin

text \<open>
  \<^verbatim>\<open>internal/metrics/metrics.go\<close>, the client of Cloud Monitoring: the request for the CPU
  utilization of an instance and the reduction of the response to a percentage.

  The generated API client is the argument \<open>list_series\<close>: for a request, the results of
  the calls of the iterator's \<^verbatim>\<open>Next\<close> before \<^verbatim>\<open>iterator.Done\<close>.
\<close>

section \<open>Requests\<close>

datatype MetricType = MetricTypeHighPriority | MetricTypeTotal

record InstanceMetrics =
  im_CurrentHighPriorityCPUUtilization :: gint
  im_CurrentTotalCPUUtilization :: gint

record metrics_client =
  mc_projectID :: string
  mc_instanceID :: string
  mc_term :: duration

definition metrics_NewClient ::
    "('t client_option list \<Rightarrow> 'w \<Rightarrow> 'e option \<times> 'w) \<Rightarrow> string \<Rightarrow> string \<Rightarrow>
     ('t client_config \<Rightarrow> 't client_config) list \<Rightarrow> 'w \<Rightarrow> ('e + metrics_client) \<times> 'w" where
  "metrics_NewClient dial projectID instanceID opts w =
     (case dial (client_options (apply_options opts)) w of
        (Some err, w) \<Rightarrow> (Inl err, w)
      | (None, w) \<Rightarrow> (Inr \<lparr>mc_projectID = projectID, mc_instanceID = instanceID, mc_term = 10 * minute\<rparr>, w))"

datatype reducer = REDUCE_NONE | REDUCE_SUM | REDUCE_MAX | reducer_other int
datatype aligner = ALIGN_MEAN
datatype series_view = FULL | HEADERS

record Aggregation =
  agg_AlignmentPeriod :: int
  agg_PerSeriesAligner :: aligner
  agg_CrossSeriesReducer :: reducer
  agg_GroupByFields :: "string list"

record ListTimeSeriesRequest =
  req_Name :: string
  req_Filter :: string
  req_StartTime :: int
  req_EndTime :: int
  req_Aggregation :: "Aggregation option"
  req_SecondaryAggregation :: "Aggregation option"
  req_View :: series_view

definition newline :: char where "newline = char_of (10 :: nat)"
definition tab2 :: string where "tab2 = replicate 2 (char_of (9 :: nat))"

definition metricsFilterHighPriority :: "string \<Rightarrow> string" where
  "metricsFilterHighPriority instanceID =
     [newline] @ tab2 @ ''metric.type = '' @ fmt_q ''spanner.googleapis.com/instance/cpu/utilization_by_priority'' @ '' AND'' @
     [newline] @ tab2 @ ''metric.label.priority = '' @ fmt_q ''high'' @ '' AND'' @
     [newline] @ tab2 @ ''resource.label.instance_id = '' @ fmt_q instanceID @ [newline]"

definition metricsFilterTotal :: "string \<Rightarrow> string" where
  "metricsFilterTotal instanceID =
     [newline] @ tab2 @ ''metric.type = '' @ fmt_q ''spanner.googleapis.com/instance/cpu/utilization'' @ '' AND'' @
     [newline] @ tab2 @ ''resource.label.instance_id = '' @ fmt_q instanceID @ [newline]"

text \<open>The seconds from year 1 to 1970, the difference of Go's internal time and Unix time.\<close>

definition t_unix :: "time \<Rightarrow> int" where
  "t_unix t = t div second - 62135596800"

definition buildListTimeSeriesRequest :: "metrics_client \<Rightarrow> MetricType \<Rightarrow> time \<Rightarrow> ListTimeSeriesRequest" where
  "buildListTimeSeriesRequest c metricType now =
     \<lparr>req_Name = ''projects/'' @ mc_projectID c,
      req_Filter = (case metricType of MetricTypeTotal \<Rightarrow> metricsFilterTotal (mc_instanceID c)
                    | MetricTypeHighPriority \<Rightarrow> metricsFilterHighPriority (mc_instanceID c)),
      req_StartTime = t_unix (now - mc_term c), req_EndTime = t_unix now,
      req_Aggregation = Some \<lparr>agg_AlignmentPeriod = 60, agg_PerSeriesAligner = ALIGN_MEAN,
        agg_CrossSeriesReducer = REDUCE_SUM, agg_GroupByFields = [''resource.label.location'']\<rparr>,
      req_SecondaryAggregation = Some \<lparr>agg_AlignmentPeriod = 60, agg_PerSeriesAligner = ALIGN_MEAN,
        agg_CrossSeriesReducer = REDUCE_MAX, agg_GroupByFields = []\<rparr>,
      req_View = FULL\<rparr>"

section \<open>Responses\<close>

type_synonym points = "float64 list"

datatype metrics_err =
    Metrics_api string
  | Metrics_none
  | Metrics_many nat
  | Metrics_no_points

fun collect_series :: "(string + points) list \<Rightarrow> metrics_err + points list" where
  "collect_series [] = Inr []"
| "collect_series (Inl err # rs) = Inl (Metrics_api err)"
| "collect_series (Inr ts # rs) =
     (case collect_series rs of Inl err \<Rightarrow> Inl err | Inr series \<Rightarrow> Inr (ts # series))"

definition firstPointAsPercent :: "points \<Rightarrow> metrics_err + gint" where
  "firstPointAsPercent points =
     (case points of [] \<Rightarrow> Inl Metrics_no_points | v # _ \<Rightarrow> Inr (f_to_int (f_mul v (f_of_int 100))))"

definition GetInstanceMetrics ::
    "(ListTimeSeriesRequest \<Rightarrow> 's \<Rightarrow> (string + points) list \<times> 's) \<Rightarrow> metrics_client \<Rightarrow> MetricType \<Rightarrow> time \<Rightarrow>
     's \<Rightarrow> (metrics_err + InstanceMetrics) \<times> 's" where
  "GetInstanceMetrics list_series c metricType now s =
     (let (responses, s) = list_series (buildListTimeSeriesRequest c metricType now) s
      in (case collect_series responses of
            Inl err \<Rightarrow> Inl err
          | Inr series \<Rightarrow>
              (if length series = 0 then Inl Metrics_none
               else if length series > 1 then Inl (Metrics_many (length series))
               else case firstPointAsPercent (series ! 0) of
                      Inl err \<Rightarrow> Inl err
                    | Inr cpuPercent \<Rightarrow>
                        Inr (case metricType of
                               MetricTypeTotal \<Rightarrow>
                                 \<lparr>im_CurrentHighPriorityCPUUtilization = 0, im_CurrentTotalCPUUtilization = cpuPercent\<rparr>
                             | MetricTypeHighPriority \<Rightarrow>
                                 \<lparr>im_CurrentHighPriorityCPUUtilization = cpuPercent, im_CurrentTotalCPUUtilization = 0\<rparr>)),
          s))"

section \<open>Rounding\<close>

lemma percent_exact:
  assumes "unit_float v"
  defines "j \<equiv> nat (- f_exp v)" and "n \<equiv> 100 * f_man v"
  shows "excess_bits n \<le> j"
    and "f_to_int (f_mul v (f_of_int 100)) = round_shift (excess_bits n) n div 2 ^ (j - excess_bits n)"
proof -
  have m: "f_man v \<le> 2 ^ j" "0 \<le> f_man v" using assms by (simp_all add: unit_float_def)
  show k: "excess_bits n \<le> j"
  proof (cases "n < 2 ^ 53")
    case True
    then show ?thesis by (simp add: excess_bits_zero)
  next
    case False
    then have "(2::int) ^ (52 + excess_bits n) \<le> 100 * 2 ^ j" using excess_bits_ge [of n] m unfolding n_def by linarith
    also have "\<dots> < 2 ^ 7 * 2 ^ j" by (rule mult_strict_right_mono) simp_all
    also have "\<dots> = 2 ^ (7 + j)" by (simp add: power_add)
    finally have "52 + excess_bits n < 7 + j" by (rule power_less_imp_less_exp [rotated]) simp
    then show ?thesis by simp
  qed
  let ?q = "round_shift (excess_bits n) n"
  have q: "0 \<le> ?q" using m by (intro round_shift_nonneg) (simp add: n_def)
  have f100: "f_of_int 100 = \<lparr>f_man = 100, f_exp = 0\<rparr>"
    by (simp add: f_of_int_def round_float64_def excess_bits_zero)
  have "\<bar>f_man v * 100\<bar> = n" using m by (simp add: n_def)
  moreover have "sgn (f_man v * 100) * ?q = ?q"
  proof (cases "f_man v = 0")
    case True
    then have "n = 0" by (simp add: n_def)
    then show ?thesis by (simp add: excess_bits_zero)
  next
    case False
    then show ?thesis using m by (simp add: sgn_if)
  qed
  ultimately have mul: "f_mul v (f_of_int 100) = \<lparr>f_man = ?q, f_exp = f_exp v + int (excess_bits n)\<rparr>"
    by (simp add: f_mul_def f100 round_float64_def Let_def)
  have e: "f_exp v = - int j" using assms by (simp add: unit_float_def j_def)
  show "f_to_int (f_mul v (f_of_int 100)) = ?q div 2 ^ (j - excess_bits n)"
  proof (cases "excess_bits n = j")
    case True
    then show ?thesis by (simp add: mul f_to_int_def e)
  next
    case False
    then have "nat (int j - int (excess_bits n)) = j - excess_bits n" "\<not> int j \<le> int (excess_bits n)" using k by auto
    moreover have "sgn ?q * (\<bar>?q\<bar> div 2 ^ (j - excess_bits n)) = ?q div 2 ^ (j - excess_bits n)"
      using q by (cases "?q = 0") (simp_all add: sgn_if)
    ultimately show ?thesis by (simp add: mul f_to_int_def e)
  qed
qed

section \<open>Properties\<close>

text \<open>
  C23. The percentage read from Cloud Monitoring: for a utilization between 0 and 1, given as a
  double with mantissa \<open>m\<close> and scale \<open>2 ^ j\<close>, the result is between 0 and 100 and differs
  from the exact \<open>100 * m / 2 ^ j\<close> by less than one, in spite of the rounding of the product.
\<close>

theorem percent_within_one:
  assumes "unit_float v" "j = nat (- f_exp v)"
  shows "\<exists>p. firstPointAsPercent (v # rest) = Inr p \<and> 0 \<le> p \<and> p \<le> 100 \<and>
     100 * f_man v - 2 ^ j < p * 2 ^ j \<and> p * 2 ^ j < 100 * f_man v + 2 ^ j"
proof -
  define n where "n = 100 * f_man v"
  define p where "p = round_shift (excess_bits n) n div 2 ^ (j - excess_bits n)"
  have r: "firstPointAsPercent (v # rest) = Inr p"
    using percent_exact(2) [OF assms(1)] assms(2) by (simp add: firstPointAsPercent_def p_def n_def)
  have lo: "n div 2 ^ j \<le> p" and hi: "p \<le> (n + (2 ^ j - 1)) div 2 ^ j"
    using trunc_round_bounds percent_exact(1) [OF assms(1)] assms(2) unfolding p_def n_def by blast+
  have m: "0 \<le> n" "n \<le> 100 * 2 ^ j" using assms by (simp_all add: unit_float_def n_def)
  have "(n + (2 ^ j - 1)) div 2 ^ j \<le> (100 * 2 ^ j + (2 ^ j - 1)) div 2 ^ j"
    using m by (intro zdiv_mono1) auto
  also have "\<dots> = 100" by (rule int_div_pos_eq [of _ _ _ "2 ^ j - 1"]) auto
  finally have "p \<le> 100" using hi by linarith
  moreover have "0 \<le> p"
    using lo m(1) by (meson order_trans pos_imp_zdiv_nonneg_iff zero_less_numeral zero_less_power)
  moreover have "n < p * 2 ^ j + 2 ^ j"
  proof -
    have "n = n div 2 ^ j * 2 ^ j + n mod 2 ^ j" by (rule div_mult_mod_eq [symmetric])
    moreover have "n mod 2 ^ j < 2 ^ j" by simp
    moreover have "n div 2 ^ j * 2 ^ j \<le> p * 2 ^ j" using lo by simp
    ultimately show ?thesis by linarith
  qed
  moreover have "p * 2 ^ j < n + 2 ^ j"
  proof -
    have "p * 2 ^ j \<le> (n + (2 ^ j - 1)) div 2 ^ j * 2 ^ j" using hi by simp
    also have "\<dots> \<le> n + (2 ^ j - 1)"
      using div_mult_mod_eq [of "n + (2 ^ j - 1)" "2 ^ j"] pos_mod_sign [of "2 ^ j" "n + (2 ^ j - 1)", OF zero_less_power]
      by linarith
    finally show ?thesis by simp
  qed
  ultimately show ?thesis using r by (intro exI [of _ p]) (auto simp: n_def)
qed

theorem percent_within_one_witness:
  "\<exists>p. firstPointAsPercent [\<lparr>f_man = 3, f_exp = - 2\<rparr>] = Inr p \<and> p * 4 < 304 \<and> 296 < p * 4"
proof -
  have "unit_float \<lparr>f_man = 3, f_exp = - 2\<rparr>" by (simp add: unit_float_def float_ok_def)
  from percent_within_one [OF this refl, of "[]"] show ?thesis by auto
qed

end
