(* ===== verification/Syncer.thy ===== *)
theory Syncer
  imports Scheduler Spanner_Client Metrics_Client
begin

text \<open>
  \<^verbatim>\<open>internal/syncer/syncer.go\<close>: the worker that copies the state of the Spanner instance
  and its CPU utilization into the status of an autoscaler, and through which the
  reconcilers change the instance.

  The services a syncer calls are the record \<open>'w senv\<close>: the Kubernetes client, the two
  methods of the instance admin API, the listing of time series, and the helpers of
  \<^verbatim>\<open>golang.org/x/oauth2\<close> that make token sources. The goroutines of an \<^verbatim>\<open>errgroup\<close> run one
  after the other in the order \<open>s_order\<close>, an arbitrary permutation, and write the
  variables they capture; \<^verbatim>\<open>Wait\<close> returns the first error.
\<close>

section \<open>Credentials\<close>

datatype CredentialsType =
    CredentialsTypeADC
  | CredentialsTypeServiceAccountJSON
  | CredentialsTypeImpersonation

record Credentials =
  cred_Type :: CredentialsType
  cred_ServiceAccountJSON :: string
  cred_ImpersonateConfig :: "ImpersonateConfig option"

definition NewADCCredentials :: Credentials where
  "NewADCCredentials = \<lparr>cred_Type = CredentialsTypeADC, cred_ServiceAccountJSON = [], cred_ImpersonateConfig = None\<rparr>"

definition NewServiceAccountJSONCredentials :: "string \<Rightarrow> Credentials" where
  "NewServiceAccountJSONCredentials json =
     \<lparr>cred_Type = CredentialsTypeServiceAccountJSON, cred_ServiceAccountJSON = json, cred_ImpersonateConfig = None\<rparr>"

definition NewServiceAccountImpersonate :: "string \<Rightarrow> string list \<Rightarrow> Credentials" where
  "NewServiceAccountImpersonate targetServiceAccount delegates =
     \<lparr>cred_Type = CredentialsTypeImpersonation, cred_ServiceAccountJSON = [],
      cred_ImpersonateConfig = Some \<lparr>ic_TargetServiceAccount = targetServiceAccount, ic_Delegates = delegates\<rparr>\<rparr>"

text \<open>
  The process-wide base token source: the result of the first request, error or not, is
  kept for good (\<^verbatim>\<open>sync.Once\<close>).
\<close>

type_synonym ('w, 't) token_call = "'w \<Rightarrow> (kube_err + 't) \<times> 'w"

record ('w, 't) token_env =
  tok_default :: "('w, 't) token_call"
  tok_json :: "string \<Rightarrow> ('w, 't) token_call"
  tok_impersonate :: "string \<Rightarrow> string list \<Rightarrow> 't \<Rightarrow> ('w, 't) token_call"

definition initializedBaseTokenSource ::
    "('w, 't) token_env \<Rightarrow> (kube_err + 't) option \<Rightarrow> 'w \<Rightarrow> (kube_err + 't) \<times> (kube_err + 't) option \<times> 'w" where
  "initializedBaseTokenSource te base w =
     (case base of
        Some r \<Rightarrow> (r, base, w)
      | None \<Rightarrow> (let (r, w) = tok_default te w in (r, Some r, w)))"

definition TokenSource ::
    "('w, 't) token_env \<Rightarrow> Credentials \<Rightarrow> (kube_err + 't) option \<Rightarrow> 'w \<Rightarrow>
     (kube_err + 't) \<times> (kube_err + 't) option \<times> 'w" where
  "TokenSource te c base w =
     (case cred_Type c of
        CredentialsTypeADC \<Rightarrow> initializedBaseTokenSource te base w
      | CredentialsTypeServiceAccountJSON \<Rightarrow>
          (let (r, w) = tok_json te (cred_ServiceAccountJSON c) w in (r, base, w))
      | CredentialsTypeImpersonation \<Rightarrow>
          (case initializedBaseTokenSource te base w of
             (Inl err, base, w) \<Rightarrow> (Inl err, base, w)
           | (Inr baseTS, base, w) \<Rightarrow>
               (case cred_ImpersonateConfig c of
                  None \<Rightarrow> (Inl (ErrOther ''nil pointer dereference''), base, w)
                | Some ic \<Rightarrow>
                    (let (r, w) = tok_impersonate te (ic_TargetServiceAccount ic) (ic_Delegates ic) baseTS w
                     in (r, base, w)))))"

section \<open>The syncer\<close>

record 'w senv =
  s_kube :: "'w kube"
  s_get :: "'w get_instance"
  s_upd :: "'w upd_instance"
  s_list :: "ListTimeSeriesRequest \<Rightarrow> 'w \<Rightarrow> (string + points) list \<times> 'w"
  s_order :: "nat \<Rightarrow> nat list"

record syncer =
  sy_credentials :: Credentials
  sy_spannerClient :: spanner_client
  sy_metricsClient :: metrics_client
  sy_namespacedName :: NamespacedName
  sy_projectID :: string
  sy_instanceID :: string
  sy_interval :: duration

definition WithInterval :: "duration \<Rightarrow> syncer \<Rightarrow> syncer" where
  "WithInterval interval s = s\<lparr>sy_interval := interval\<rparr>"

definition NewSyncer ::
    "NamespacedName \<Rightarrow> string \<Rightarrow> string \<Rightarrow> Credentials \<Rightarrow> spanner_client \<Rightarrow> metrics_client \<Rightarrow>
     (syncer \<Rightarrow> syncer) list \<Rightarrow> syncer" where
  "NewSyncer nn projectID instanceID credentials spannerClient metricsClient opts =
     fold (\<lambda>opt s. opt s) opts
       \<lparr>sy_credentials = credentials, sy_spannerClient = spannerClient, sy_metricsClient = metricsClient,
        sy_namespacedName = nn, sy_projectID = projectID, sy_instanceID = instanceID, sy_interval = minute\<rparr>"

definition HasCredentials :: "syncer \<Rightarrow> Credentials \<Rightarrow> bool" where
  "HasCredentials s credentials \<longleftrightarrow> sy_credentials s = credentials"

definition syncer_labels :: "syncer \<Rightarrow> Labels" where
  "syncer_labels s = LabelsFor (sy_namespacedName s) (sy_projectID s) (sy_instanceID s)"

text \<open>Errors of the Google APIs as Go errors: none of them is a Kubernetes API status.\<close>

fun go_err_grpc :: "grpc_err \<Rightarrow> kube_err" where
  "go_err_grpc (Grpc_NotFound n) = ErrOther (''NotFound: '' @ n)"
| "go_err_grpc (Grpc_InvalidArgument m) = ErrOther (''InvalidArgument: '' @ m)"
| "go_err_grpc (Grpc_other m) = ErrOther m"

fun go_err_metrics :: "metrics_err \<Rightarrow> kube_err" where
  "go_err_metrics (Metrics_api m) = ErrOther m"
| "go_err_metrics Metrics_none = ErrOther ''no such spanner instance metrics''"
| "go_err_metrics (Metrics_many n) = ErrOther (''expected a single aggregated time series, got '' @ digits n)"
| "go_err_metrics Metrics_no_points = ErrOther ''invalid points''"

definition syncer_UpdateInstance :: "'w senv \<Rightarrow> syncer \<Rightarrow> gint \<Rightarrow> 'w \<Rightarrow> kube_err option \<times> 'w" where
  "syncer_UpdateInstance env s desiredProcessingUnits w =
     (case UpdateInstance (s_get env) (s_upd env) (sy_spannerClient s)
             \<lparr>inst_ProcessingUnits = desiredProcessingUnits, inst_InstanceState = InstanceState_other []\<rparr> w of
        (Some err, w) \<Rightarrow> (Some (go_err_grpc err), w)
      | (None, w) \<Rightarrow> (None, w))"

section \<open>Fetching\<close>

record gvars =
  g_instance :: "Instance option"
  g_highPriority :: "InstanceMetrics option"
  g_total :: "InstanceMetrics option"

type_synonym 'w goroutine = "gvars \<times> 'w rstate \<Rightarrow> kube_err option \<times> gvars \<times> 'w rstate"

fun run_group :: "'w goroutine list \<Rightarrow> gvars \<times> 'w rstate \<Rightarrow> kube_err option \<times> gvars \<times> 'w rstate" where
  "run_group [] gs = (None, gs)"
| "run_group (f # fs) gs =
     (let (err, gs) = f gs; (err', gs) = run_group fs gs
      in (case err of Some e \<Rightarrow> Some e | None \<Rightarrow> err', gs))"

definition fetch_instance :: "'w senv \<Rightarrow> syncer \<Rightarrow> 'w goroutine" where
  "fetch_instance env s = (\<lambda>(g, st).
     case kread (GetInstance (s_get env) (sy_spannerClient s)) st of
       (Inl err, st) \<Rightarrow> (Some (go_err_grpc err), g, st)
     | (Inr i, st) \<Rightarrow> (None, g\<lparr>g_instance := Some i\<rparr>, st))"

definition fetch_metrics :: "'w senv \<Rightarrow> syncer \<Rightarrow> MetricType \<Rightarrow> time \<Rightarrow> 'w goroutine" where
  "fetch_metrics env s metricType now = (\<lambda>(g, st).
     let (start, st) = kread (k_now (s_kube env)) st;
         (r, st) = kread (GetInstanceMetrics (s_list env) (sy_metricsClient s) metricType now) st;
         (end', st) = kread (k_now (s_kube env)) st;
         err = (case r of Inl e \<Rightarrow> Some (go_err_metrics e) | Inr m \<Rightarrow> None);
         st = metric (RecordMetricsFetch (syncer_labels s) (t_sub end' start) err) st
     in case r of
          Inl e \<Rightarrow> (Some (go_err_metrics e), g, st)
        | Inr m \<Rightarrow> (None, (case metricType of MetricTypeTotal \<Rightarrow> g\<lparr>g_total := Some m\<rparr>
                            | MetricTypeHighPriority \<Rightarrow> g\<lparr>g_highPriority := Some m\<rparr>), st))"

definition no_vars :: gvars where
  "no_vars = \<lparr>g_instance = None, g_highPriority = None, g_total = None\<rparr>"

definition getInstanceInfo ::
    "'w senv \<Rightarrow> syncer \<Rightarrow> MetricType \<Rightarrow> 'w rstate \<Rightarrow> kube_err option \<times> gvars \<times> 'w rstate" where
  "getInstanceInfo env s metricType st =
     (let (now, st) = kread (k_now (s_kube env)) st;
          gos = [fetch_instance env s, fetch_metrics env s metricType now]
      in case run_group (map (\<lambda>i. gos ! i) (s_order env 2)) (no_vars, st) of
           (Some err, g, st) \<Rightarrow> (Some err, no_vars, st)
         | (None, g, st) \<Rightarrow> (None, g, st))"

definition getInstanceInfoDual :: "'w senv \<Rightarrow> syncer \<Rightarrow> 'w rstate \<Rightarrow> kube_err option \<times> gvars \<times> 'w rstate" where
  "getInstanceInfoDual env s st =
     (let (now, st) = kread (k_now (s_kube env)) st;
          gos = [fetch_instance env s, fetch_metrics env s MetricTypeHighPriority now,
                 fetch_metrics env s MetricTypeTotal now]
      in case run_group (map (\<lambda>i. gos ! i) (s_order env 3)) (no_vars, st) of
           (Some err, g, st) \<Rightarrow> (Some err, no_vars, st)
         | (None, g, st) \<Rightarrow> (None, g, st))"

section \<open>Synchronizing the status\<close>

definition both_flags :: CPUMetricFlags where
  "both_flags = or CPUMetricFlagHighPriority CPUMetricFlagTotal"

definition sync_status ::
    "CPUMetricFlags \<Rightarrow> gvars \<Rightarrow> time \<Rightarrow> SpannerAutoscalerStatus \<Rightarrow> SpannerAutoscalerStatus" where
  "sync_status metricFlags g now s =
     (let s = s\<lparr>CurrentProcessingUnits := inst_ProcessingUnits (the (g_instance g)),
                InstanceState := inst_InstanceState (the (g_instance g)),
                CurrentHighPriorityCPUUtilization := 0, CurrentTotalCPUUtilization := 0\<rparr>;
          s = (if metricFlags = both_flags then
                 s\<lparr>CurrentHighPriorityCPUUtilization := im_CurrentHighPriorityCPUUtilization (the (g_highPriority g)),
                   CurrentTotalCPUUtilization := im_CurrentTotalCPUUtilization (the (g_total g)),
                   CurrentCPUMetricType := CPUMetricTypeBoth\<rparr>
               else if metricFlags = CPUMetricFlagTotal then
                 s\<lparr>CurrentTotalCPUUtilization := im_CurrentTotalCPUUtilization (the (g_total g)),
                   CurrentCPUMetricType := CPUMetricTypeTotal\<rparr>
               else if metricFlags = CPUMetricFlagHighPriority then
                 s\<lparr>CurrentHighPriorityCPUUtilization := im_CurrentHighPriorityCPUUtilization (the (g_highPriority g)),
                   CurrentCPUMetricType := CPUMetricTypeHighPriority\<rparr>
               else s)
      in s\<lparr>LastSyncTime := now\<rparr>)"

definition sync_attempt ::
    "'w senv \<Rightarrow> syncer \<Rightarrow> CPUMetricFlags \<Rightarrow> gvars \<Rightarrow> (SpannerAutoscaler \<times> 'w rstate) attempt" where
  "sync_attempt env s metricFlags g = (\<lambda>(sa, st).
     case kread (k_get_sa (s_kube env) (sy_namespacedName s)) st of
       (Inl err, st) \<Rightarrow> (Some err, (sa, st))
     | (Inr sa, st) \<Rightarrow>
         (let (now, st) = kread (k_now (s_kube env)) st;
              sa = sa\<lparr>sa_Status := sync_status metricFlags g now (sa_Status sa)\<rparr>;
              (err, st) = status_sa (s_kube env) sa st
          in (err, (sa, st))))"

definition sync_fetch ::
    "'w senv \<Rightarrow> syncer \<Rightarrow> CPUMetricFlags \<Rightarrow> 'w rstate \<Rightarrow> (kube_err option \<times> gvars \<times> 'w rstate) option" where
  "sync_fetch env s metricFlags st =
     (if metricFlags = both_flags then Some (getInstanceInfoDual env s st)
      else if metricFlags = CPUMetricFlagTotal then Some (getInstanceInfo env s MetricTypeTotal st)
      else if metricFlags = CPUMetricFlagHighPriority then Some (getInstanceInfo env s MetricTypeHighPriority st)
      else None)"

definition syncResource ::
    "((SpannerAutoscaler \<times> 'w rstate) attempt \<Rightarrow> (SpannerAutoscaler \<times> 'w rstate) attempt) \<Rightarrow>
     'w senv \<Rightarrow> syncer \<Rightarrow> 'w rstate \<Rightarrow> kube_err option \<times> 'w rstate" where
  "syncResource retry env s st =
     (case kread (k_get_sa (s_kube env) (sy_namespacedName s)) st of
        (Inl err, st) \<Rightarrow>
          (case IgnoreNotFound err of
             Some err \<Rightarrow> (Some err, emit (Event EventWarning ''FailedGetClient'') st)
           | None \<Rightarrow> (None, st))
      | (Inr sa, st) \<Rightarrow>
          (let metricFlags = ActiveMetricFlags (sc_TargetCPUUtilization (ScaleConfig (sa_Spec sa)))
           in case sync_fetch env s metricFlags st of
                None \<Rightarrow> (None, st)
              | Some (Some err, g, st) \<Rightarrow> (Some err, emit (Event EventWarning ''FailedSpannerAPICall'') st)
              | Some (None, g, st) \<Rightarrow>
                  (case retry (sync_attempt env s metricFlags g) (sa, st) of
                     (Some err, (sa, st)) \<Rightarrow> (Some err, emit (Event EventWarning ''FailedSyncStatus'') st)
                   | (None, (sa, st)) \<Rightarrow> (None, st))))"

text \<open>
  The loop of \<^verbatim>\<open>Start\<close> as a function of what it receives: ticks, each of which runs a
  synchronization whose error is only logged, until the stop signal.
\<close>

datatype syncer_signal = Tick | StopSignal

fun syncer_Start ::
    "((SpannerAutoscaler \<times> 'w rstate) attempt \<Rightarrow> (SpannerAutoscaler \<times> 'w rstate) attempt) \<Rightarrow>
     'w senv \<Rightarrow> syncer \<Rightarrow> syncer_signal list \<Rightarrow> 'w rstate \<Rightarrow> 'w rstate" where
  "syncer_Start retry env s [] st = st"
| "syncer_Start retry env s (Tick # sigs) st = syncer_Start retry env s sigs (snd (syncResource retry env s st))"
| "syncer_Start retry env s (StopSignal # sigs) st = st"

section \<open>What a group of goroutines fetches\<close>

definition order_ok :: "'w senv \<Rightarrow> bool" where
  "order_ok env \<longleftrightarrow> (\<forall>n. distinct (s_order env n) \<and> set (s_order env n) = {0..<n})"

lemma order_ok_set: "order_ok env \<Longrightarrow> set (s_order env n) = {0..<n}"
  by (simp add: order_ok_def)

definition keeps_set :: "gvars \<Rightarrow> gvars \<Rightarrow> bool" where
  "keeps_set g g' \<longleftrightarrow> (g_instance g \<noteq> None \<longrightarrow> g_instance g' \<noteq> None) \<and>
     (g_highPriority g \<noteq> None \<longrightarrow> g_highPriority g' \<noteq> None) \<and> (g_total g \<noteq> None \<longrightarrow> g_total g' \<noteq> None)"

text \<open>
  A goroutine keeps an invariant of the captured variables, adds effects of one kind, sets
  no variable back, and has established its goal when it succeeds.
\<close>

definition go_ok :: "(effect \<Rightarrow> bool) \<Rightarrow> (gvars \<Rightarrow> bool) \<Rightarrow> (gvars \<Rightarrow> bool) \<Rightarrow> 'w goroutine \<Rightarrow> bool" where
  "go_ok P I D f \<longleftrightarrow> (\<forall>g st err g' st'. f (g, st) = (err, g', st') \<longrightarrow> I g \<longrightarrow>
     I g' \<and> keeps_set g g' \<and> extends P st st' \<and> (err = None \<longrightarrow> D g'))"

lemma keeps_set_refl [simp]: "keeps_set g g"
  by (simp add: keeps_set_def)

lemma keeps_set_trans: "keeps_set g g' \<Longrightarrow> keeps_set g' g'' \<Longrightarrow> keeps_set g g''"
  by (auto simp: keeps_set_def)

lemma run_group_ok:
  assumes "\<And>i. i \<in> set is \<Longrightarrow> go_ok P I (D i) (F i)"
    and "\<And>i g g'. D i g \<Longrightarrow> keeps_set g g' \<Longrightarrow> D i g'"
    and "run_group (map F is) (g, st) = (err, g', st')" "I g"
  shows "I g' \<and> keeps_set g g' \<and> extends P st st' \<and> (err = None \<longrightarrow> (\<forall>i \<in> set is. D i g'))"
  using assms(1,3,4)
proof (induction "is" arbitrary: g st err g' st')
  case Nil
  then show ?case by simp
next
  case (Cons i "is")
  obtain e1 g1 st1 where f: "F i (g, st) = (e1, g1, st1)" by (metis prod_cases3)
  obtain e2 g2 st2 where r: "run_group (map F is) (g1, st1) = (e2, g2, st2)" by (metis prod_cases3)
  have o: "g' = g2" "st' = st2" "err = None \<longrightarrow> e1 = None \<and> e2 = None"
    using Cons.prems(2) f r by (auto split: option.splits)
  have 1: "I g1 \<and> keeps_set g g1 \<and> extends P st st1 \<and> (e1 = None \<longrightarrow> D i g1)"
    using Cons.prems(1) [of i] f Cons.prems(3) by (auto simp: go_ok_def)
  have 2: "I g2 \<and> keeps_set g1 g2 \<and> extends P st1 st2 \<and> (e2 = None \<longrightarrow> (\<forall>i \<in> set is. D i g2))"
    using Cons.IH [OF _ r] Cons.prems(1) 1 by simp
  show ?case
  proof (intro conjI impI)
    show "I g'" "keeps_set g g'" using 1 2 o keeps_set_trans by blast+
    show "extends P st st'" using 1 2 o extends_trans by blast
    show "\<forall>j \<in> set (i # is). D j g'" if "err = None"
      using that 1 2 o assms(2) by auto
  qed
qed

text \<open>Every value the variables hold is one the service returned, the metrics for the instant \<open>now\<close>.\<close>

definition returned :: "'w senv \<Rightarrow> syncer \<Rightarrow> time \<Rightarrow> gvars \<Rightarrow> bool" where
  "returned env s now g \<longleftrightarrow>
     (\<forall>i. g_instance g = Some i \<longrightarrow> (\<exists>w. fst (GetInstance (s_get env) (sy_spannerClient s) w) = Inr i)) \<and>
     (\<forall>m. g_highPriority g = Some m \<longrightarrow>
        (\<exists>w. fst (GetInstanceMetrics (s_list env) (sy_metricsClient s) MetricTypeHighPriority now w) = Inr m)) \<and>
     (\<forall>m. g_total g = Some m \<longrightarrow>
        (\<exists>w. fst (GetInstanceMetrics (s_list env) (sy_metricsClient s) MetricTypeTotal now w) = Inr m))"

fun only_metric :: "effect \<Rightarrow> bool" where
  "only_metric (Metric op) = True"
| "only_metric _ = False"

lemma kread_value: "kread f st = (r, st') \<Longrightarrow> \<exists>w. fst (f w) = r"
  by (auto simp: kread_def split: prod.splits intro: exI [of _ "st_World st"])

lemma fetch_instance_ok:
  "go_ok only_metric (returned env s now) (\<lambda>g. g_instance g \<noteq> None) (fetch_instance env s)"
proof -
  have "returned env s now g' \<and> keeps_set g g' \<and> extends only_metric st st' \<and> (err = None \<longrightarrow> g_instance g' \<noteq> None)"
    if f: "fetch_instance env s (g, st) = (err, g', st')" and g: "returned env s now g" for g st err g' st'
  proof -
    obtain r st1 where k: "kread (GetInstance (s_get env) (sy_spannerClient s)) st = (r, st1)" by fastforce
    obtain w where w: "fst (GetInstance (s_get env) (sy_spannerClient s) w) = r" using kread_value [OF k] ..
    show ?thesis
      using f g k w extends_kread [OF k]
      by (cases r) (auto simp: fetch_instance_def returned_def keeps_set_def)
  qed
  then show ?thesis by (simp add: go_ok_def)
qed

definition has_metric :: "MetricType \<Rightarrow> gvars \<Rightarrow> bool" where
  "has_metric t g \<longleftrightarrow> (case t of MetricTypeTotal \<Rightarrow> g_total g \<noteq> None | MetricTypeHighPriority \<Rightarrow> g_highPriority g \<noteq> None)"

lemma fetch_metrics_ok:
  "go_ok only_metric (returned env s now) (has_metric t) (fetch_metrics env s t now)"
proof -
  have "returned env s now g' \<and> keeps_set g g' \<and> extends only_metric st st' \<and> (err = None \<longrightarrow> has_metric t g')"
    if f: "fetch_metrics env s t now (g, st) = (err, g', st')" and g: "returned env s now g" for g st err g' st'
  proof -
    obtain t1 st1 where 1: "kread (k_now (s_kube env)) st = (t1, st1)" by fastforce
    obtain r st2 where 2: "kread (GetInstanceMetrics (s_list env) (sy_metricsClient s) t now) st1 = (r, st2)" by fastforce
    obtain t3 st3 where 3: "kread (k_now (s_kube env)) st2 = (t3, st3)" by fastforce
    define st4 where "st4 = metric (RecordMetricsFetch (syncer_labels s) (t_sub t3 t1)
        (case r of Inl e \<Rightarrow> Some (go_err_metrics e) | Inr m \<Rightarrow> None)) st3"
    obtain w where w: "fst (GetInstanceMetrics (s_list env) (sy_metricsClient s) t now w) = r" using kread_value [OF 2] ..
    have x: "extends only_metric st st4"
      unfolding st4_def
      by (rule extends_trans [OF extends_trans [OF extends_kread [OF 1] extends_kread [OF 2]]
            extends_trans [OF extends_kread [OF 3] extends_metric]]) simp
    have d: "st' = st4 \<and> (case r of
        Inl e \<Rightarrow> err = Some (go_err_metrics e) \<and> g' = g
      | Inr m \<Rightarrow> err = None \<and> g' = (case t of MetricTypeTotal \<Rightarrow> g\<lparr>g_total := Some m\<rparr>
                                     | MetricTypeHighPriority \<Rightarrow> g\<lparr>g_highPriority := Some m\<rparr>))"
      using f 1 2 3 unfolding st4_def by (auto simp: fetch_metrics_def Let_def split: sum.splits)
    show ?thesis
      using d x g w by (cases r; cases t) (auto simp: returned_def keeps_set_def has_metric_def)
  qed
  then show ?thesis by (simp add: go_ok_def)
qed

lemma no_vars_returned [simp]: "returned env s now no_vars"
  by (simp add: returned_def no_vars_def)

text \<open>
  What one fetch yields: only metric effects, and on success the variables of the metrics
  of the mode, all returned by the services, both metrics for the same instant.
\<close>

definition fetch_ok :: "'w senv \<Rightarrow> syncer \<Rightarrow> MetricType set \<Rightarrow> 'w rstate \<Rightarrow> kube_err option \<times> gvars \<times> 'w rstate \<Rightarrow> bool" where
  "fetch_ok env s ts st = (\<lambda>(err, g, st'). extends only_metric st st' \<and>
     (err = None \<longrightarrow> g_instance g \<noteq> None \<and> (\<forall>t \<in> ts. has_metric t g) \<and> (\<exists>now. returned env s now g)))"

lemma getInstanceInfo_ok:
  assumes "order_ok env"
  shows "fetch_ok env s {t} st (getInstanceInfo env s t st)"
proof -
  obtain now st1 where n: "kread (k_now (s_kube env)) st = (now, st1)" by fastforce
  let ?F = "\<lambda>i. [fetch_instance env s, fetch_metrics env s t now] ! i"
  let ?D = "\<lambda>i g. if i = (0::nat) then g_instance g \<noteq> None else has_metric t g"
  obtain err g st2 where r: "run_group (map ?F (s_order env 2)) (no_vars, st1) = (err, g, st2)" by (metis prod_cases3)
  have "returned env s now g \<and> keeps_set no_vars g \<and> extends only_metric st1 st2 \<and>
      (err = None \<longrightarrow> (\<forall>i \<in> set (s_order env 2). ?D i g))"
  proof (rule run_group_ok [where F = ?F and D = ?D and I = "returned env s now", OF _ _ r no_vars_returned])
    show "go_ok only_metric (returned env s now) (?D i) (?F i)" if "i \<in> set (s_order env 2)" for i
      using that order_ok_set [OF assms, of 2] fetch_instance_ok fetch_metrics_ok
      by (cases "i = 0") (auto simp: less_Suc_eq numeral_2_eq_2)
    show "?D i g'" if "?D i g" "keeps_set g g'" for i g g'
      using that by (auto simp: keeps_set_def has_metric_def split: if_splits MetricType.splits)
  qed
  moreover have "0 \<in> set (s_order env 2)" "1 \<in> set (s_order env 2)" using order_ok_set [OF assms, of 2] by auto
  ultimately show ?thesis
    using n r extends_trans [OF extends_kread [OF n]]
    by (cases err) (fastforce simp: fetch_ok_def getInstanceInfo_def)+
qed

lemma getInstanceInfoDual_ok:
  assumes "order_ok env"
  shows "fetch_ok env s UNIV st (getInstanceInfoDual env s st)"
proof -
  obtain now st1 where n: "kread (k_now (s_kube env)) st = (now, st1)" by fastforce
  let ?F = "\<lambda>i. [fetch_instance env s, fetch_metrics env s MetricTypeHighPriority now,
                 fetch_metrics env s MetricTypeTotal now] ! i"
  let ?D = "\<lambda>i g. if i = (0::nat) then g_instance g \<noteq> None
     else if i = 1 then has_metric MetricTypeHighPriority g else has_metric MetricTypeTotal g"
  obtain err g st2 where r: "run_group (map ?F (s_order env 3)) (no_vars, st1) = (err, g, st2)" by (metis prod_cases3)
  have "returned env s now g \<and> keeps_set no_vars g \<and> extends only_metric st1 st2 \<and>
      (err = None \<longrightarrow> (\<forall>i \<in> set (s_order env 3). ?D i g))"
  proof (rule run_group_ok [where F = ?F and D = ?D and I = "returned env s now", OF _ _ r no_vars_returned])
    show "go_ok only_metric (returned env s now) (?D i) (?F i)" if "i \<in> set (s_order env 3)" for i
      using that order_ok_set [OF assms, of 3] fetch_instance_ok fetch_metrics_ok
      by (auto simp: less_Suc_eq numeral_3_eq_3)
    show "?D i g'" if "?D i g" "keeps_set g g'" for i g g'
      using that by (auto simp: keeps_set_def has_metric_def split: if_splits)
  qed
  moreover have "0 \<in> set (s_order env 3)" "1 \<in> set (s_order env 3)" "2 \<in> set (s_order env 3)"
    using order_ok_set [OF assms, of 3] by auto
  moreover have "has_metric t g" if "has_metric MetricTypeHighPriority g" "has_metric MetricTypeTotal g" for t
    using that by (cases t) auto
  ultimately show ?thesis
    using n r extends_trans [OF extends_kread [OF n]]
    by (cases err) (fastforce simp: fetch_ok_def getInstanceInfoDual_def)+
qed

section \<open>What is written\<close>

text \<open>
  A truthful status of a mode: that of an object that was read, with the processing units
  and the state of the instance and the CPU utilizations of the mode as the services
  returned them, both for one instant; the utilization of an inactive metric is 0.
\<close>

definition truthful :: "'w senv \<Rightarrow> syncer \<Rightarrow> CPUMetricFlags \<Rightarrow> SpannerAutoscaler \<Rightarrow> bool" where
  "truthful env s metricFlags x \<longleftrightarrow>
     (\<exists>fresh i now h t.
        (\<exists>w. fst (k_get_sa (s_kube env) (sy_namespacedName s) w) = Inr fresh) \<and>
        (\<exists>w. fst (GetInstance (s_get env) (sy_spannerClient s) w) = Inr i) \<and>
        (if metricFlags \<noteq> CPUMetricFlagTotal
         then (\<exists>w. fst (GetInstanceMetrics (s_list env) (sy_metricsClient s) MetricTypeHighPriority now w) = Inr h)
         else im_CurrentHighPriorityCPUUtilization h = 0) \<and>
        (if metricFlags \<noteq> CPUMetricFlagHighPriority
         then (\<exists>w. fst (GetInstanceMetrics (s_list env) (sy_metricsClient s) MetricTypeTotal now w) = Inr t)
         else im_CurrentTotalCPUUtilization t = 0) \<and>
        (\<exists>syncTime. x = fresh\<lparr>sa_Status := (sa_Status fresh)\<lparr>
           LastSyncTime := syncTime,
           CurrentProcessingUnits := inst_ProcessingUnits i,
           InstanceState := inst_InstanceState i,
           CurrentHighPriorityCPUUtilization := im_CurrentHighPriorityCPUUtilization h,
           CurrentTotalCPUUtilization := im_CurrentTotalCPUUtilization t,
           CurrentCPUMetricType := ToCPUMetricType metricFlags\<rparr>\<rparr>))"

definition mode_metrics :: "CPUMetricFlags \<Rightarrow> MetricType set" where
  "mode_metrics f = (if f \<noteq> CPUMetricFlagTotal then {MetricTypeHighPriority} else {}) \<union>
     (if f \<noteq> CPUMetricFlagHighPriority then {MetricTypeTotal} else {})"

lemma both_flags_distinct [simp]:
  "both_flags \<noteq> CPUMetricFlagTotal" "both_flags \<noteq> CPUMetricFlagHighPriority"
  "CPUMetricFlagTotal \<noteq> both_flags" "CPUMetricFlagHighPriority \<noteq> both_flags" "both_flags \<noteq> 0" "0 \<noteq> both_flags"
  by (simp_all add: both_flags_def CPUMetricFlagHighPriority_def CPUMetricFlagTotal_def)

lemma ToCPUMetricType_flags [simp]:
  "ToCPUMetricType both_flags = CPUMetricTypeBoth"
  "ToCPUMetricType CPUMetricFlagTotal = CPUMetricTypeTotal"
  "ToCPUMetricType CPUMetricFlagHighPriority = CPUMetricTypeHighPriority"
  by (simp_all add: ToCPUMetricType_def flip: both_flags_def)

text \<open>The status a mode writes, with the utilization of an inactive metric set to 0.\<close>

lemma sync_status_mode:
  assumes "f = both_flags \<or> f = CPUMetricFlagTotal \<or> f = CPUMetricFlagHighPriority"
  shows "sync_status f g now st0 = st0\<lparr>
      LastSyncTime := now,
      CurrentProcessingUnits := inst_ProcessingUnits (the (g_instance g)),
      InstanceState := inst_InstanceState (the (g_instance g)),
      CurrentHighPriorityCPUUtilization := (if f = CPUMetricFlagTotal then 0
        else im_CurrentHighPriorityCPUUtilization (the (g_highPriority g))),
      CurrentTotalCPUUtilization := (if f = CPUMetricFlagHighPriority then 0
        else im_CurrentTotalCPUUtilization (the (g_total g))),
      CurrentCPUMetricType := ToCPUMetricType f\<rparr>"
  using assms by (elim disjE) (simp_all add: sync_status_def Let_def)

lemma truthfulI:
  assumes "f = both_flags \<or> f = CPUMetricFlagTotal \<or> f = CPUMetricFlagHighPriority"
    and "g_instance g = Some i" "\<forall>t \<in> mode_metrics f. has_metric t g" "returned env s now g"
    and "\<exists>w. fst (k_get_sa (s_kube env) (sy_namespacedName s) w) = Inr fresh"
  shows "truthful env s f (fresh\<lparr>sa_Status := sync_status f g syncTime (sa_Status fresh)\<rparr>)"
proof -
  let ?zero = "\<lparr>im_CurrentHighPriorityCPUUtilization = 0, im_CurrentTotalCPUUtilization = 0\<rparr>"
  define h where "h = (if f = CPUMetricFlagTotal then ?zero else the (g_highPriority g))"
  define t where "t = (if f = CPUMetricFlagHighPriority then ?zero else the (g_total g))"
  have h: "f \<noteq> CPUMetricFlagTotal \<Longrightarrow>
      \<exists>w. fst (GetInstanceMetrics (s_list env) (sy_metricsClient s) MetricTypeHighPriority now w) = Inr h"
    using assms(3,4) by (auto simp: mode_metrics_def has_metric_def h_def returned_def)
  have t: "f \<noteq> CPUMetricFlagHighPriority \<Longrightarrow>
      \<exists>w. fst (GetInstanceMetrics (s_list env) (sy_metricsClient s) MetricTypeTotal now w) = Inr t"
    using assms(3,4) by (auto simp: mode_metrics_def has_metric_def t_def returned_def)
  have i: "\<exists>w. fst (GetInstance (s_get env) (sy_spannerClient s) w) = Inr i"
    using assms(2,4) by (simp add: returned_def)
  have "sync_status f g syncTime (sa_Status fresh) = (sa_Status fresh)\<lparr>
      LastSyncTime := syncTime, CurrentProcessingUnits := inst_ProcessingUnits i,
      InstanceState := inst_InstanceState i,
      CurrentHighPriorityCPUUtilization := im_CurrentHighPriorityCPUUtilization h,
      CurrentTotalCPUUtilization := im_CurrentTotalCPUUtilization t, CurrentCPUMetricType := ToCPUMetricType f\<rparr>"
    using sync_status_mode [OF assms(1)] assms(2) by (simp add: h_def t_def)
  then have "\<exists>syncTime'. fresh\<lparr>sa_Status := sync_status f g syncTime (sa_Status fresh)\<rparr> = fresh\<lparr>sa_Status := (sa_Status fresh)\<lparr>
      LastSyncTime := syncTime', CurrentProcessingUnits := inst_ProcessingUnits i,
      InstanceState := inst_InstanceState i,
      CurrentHighPriorityCPUUtilization := im_CurrentHighPriorityCPUUtilization h,
      CurrentTotalCPUUtilization := im_CurrentTotalCPUUtilization t, CurrentCPUMetricType := ToCPUMetricType f\<rparr>\<rparr>"
    by metis
  moreover have "if f \<noteq> CPUMetricFlagTotal
      then (\<exists>w. fst (GetInstanceMetrics (s_list env) (sy_metricsClient s) MetricTypeHighPriority now w) = Inr h)
      else im_CurrentHighPriorityCPUUtilization h = 0" using h by (simp add: h_def)
  moreover have "if f \<noteq> CPUMetricFlagHighPriority
      then (\<exists>w. fst (GetInstanceMetrics (s_list env) (sy_metricsClient s) MetricTypeTotal now w) = Inr t)
      else im_CurrentTotalCPUUtilization t = 0" using t by (simp add: t_def)
  ultimately show ?thesis unfolding truthful_def using assms(5) i by blast
qed

lemma sync_attempt_cases:
  assumes "f = both_flags \<or> f = CPUMetricFlagTotal \<or> f = CPUMetricFlagHighPriority"
    and "g_instance g = Some i" "\<forall>t \<in> mode_metrics f. has_metric t g" "returned env s now g"
    and "sync_attempt env s f g (a, st) = (e, (a', st'))"
  shows "(e \<noteq> None \<and> st_Trace st' = st_Trace st) \<or>
     (truthful env s f a' \<and> st_Trace st' = st_Trace st @ [StatusSA a' e])"
proof (cases "kread (k_get_sa (s_kube env) (sy_namespacedName s)) st")
  case (Pair x st1)
  have t1: "st_Trace st1 = st_Trace st" using kread_traceD [OF Pair] .
  show ?thesis
  proof (cases x)
    case (Inl err)
    then show ?thesis using assms(5) Pair t1 by (auto simp: sync_attempt_def)
  next
    case (Inr fresh)
    obtain now2 st2 where n: "kread (k_now (s_kube env)) st1 = (now2, st2)" by fastforce
    let ?sa = "fresh\<lparr>sa_Status := sync_status f g now2 (sa_Status fresh)\<rparr>"
    obtain e3 st3 where w: "status_sa (s_kube env) ?sa st2 = (e3, st3)" by fastforce
    have "e = e3 \<and> a' = ?sa \<and> st' = st3" using assms(5) Pair Inr n w by (auto simp: sync_attempt_def)
    moreover have "truthful env s f ?sa" using truthfulI [OF assms(1-4)] kread_value [OF Pair] Inr by blast
    ultimately show ?thesis using status_sa_trace [OF w] kread_traceD [OF n] t1 by simp
  qed
qed

lemma sync_retry_trace:
  assumes "retry_ok retry" "f = both_flags \<or> f = CPUMetricFlagTotal \<or> f = CPUMetricFlagHighPriority"
    and "g_instance g = Some i" "\<forall>t \<in> mode_metrics f. has_metric t g" "returned env s now g"
    and "retry (sync_attempt env s f g) (a, st) = (e, (a', st'))"
  shows "\<exists>ws ls. st_Trace st' = st_Trace st @ ws @ ls \<and> conflicts (truthful env s f) ws \<and>
     ((e \<noteq> None \<and> ls = []) \<or> (truthful env s f a' \<and> ls = [StatusSA a' e]))"
proof -
  let ?f = "sync_attempt env s f g"
  note attempt = sync_attempt_cases [OF assms(2-5)]
  obtain s0 where r: "conflict_run ?f (a, st) s0" "?f s0 = (e, (a', st'))"
    using retry_okE [OF assms(1,6)] .
  obtain a0 st0 where s0: "s0 = (a0, st0)" by fastforce
  have "\<exists>ws. st_Trace (snd s0) = st_Trace (snd (a, st)) @ ws \<and> conflicts (truthful env s f) ws"
  proof (rule conflict_run_writes [OF r(1)])
    fix s1 s1' :: "SpannerAutoscaler \<times> 'a rstate"
    assume c: "?f s1 = (Some ErrConflict, s1')"
    obtain b st1 b' st1' where "s1 = (b, st1)" "s1' = (b', st1')" by fastforce
    then show "\<exists>ws. st_Trace (snd s1') = st_Trace (snd s1) @ ws \<and> conflicts (truthful env s f) ws"
      using attempt [of b st1 "Some ErrConflict" b' st1'] c by (fastforce simp: conflicts_def)
  qed
  then obtain ws where "st_Trace st0 = st_Trace st @ ws" "conflicts (truthful env s f) ws" by (auto simp: s0)
  moreover from attempt [OF r(2) [unfolded s0]]
  have "\<exists>ls. st_Trace st' = st_Trace st0 @ ls \<and>
      ((e \<noteq> None \<and> ls = []) \<or> (truthful env s f a' \<and> ls = [StatusSA a' e]))" by auto
  ultimately show ?thesis by (metis append.assoc)
qed

lemma active_flags_cases:
  "ActiveMetricFlags c = 0 \<or> ActiveMetricFlags c = both_flags \<or> ActiveMetricFlags c = CPUMetricFlagTotal \<or>
   ActiveMetricFlags c = CPUMetricFlagHighPriority"
  by (cases "cpu_HighPriority c"; cases "cpu_Total c") (simp_all add: ActiveMetricFlags_cases both_flags_def)

lemma sync_fetch_ok:
  assumes "order_ok env" "f = both_flags \<or> f = CPUMetricFlagTotal \<or> f = CPUMetricFlagHighPriority"
  shows "\<exists>r. sync_fetch env s f st = Some r \<and> fetch_ok env s (mode_metrics f) st r"
proof -
  have sub: "fetch_ok env s T st r \<Longrightarrow> T' \<subseteq> T \<Longrightarrow> fetch_ok env s T' st r" for T T' r
    by (auto simp: fetch_ok_def)
  show ?thesis
    using assms(2) getInstanceInfo_ok [OF assms(1)] getInstanceInfoDual_ok [OF assms(1)]
    by (elim disjE) (auto simp: sync_fetch_def mode_metrics_def intro: sub [of UNIV])
qed

section \<open>Properties\<close>


definition sample_senv :: "mem_world senv" where
  "sample_senv = \<lparr>s_kube = mem_kube,
     s_get = (\<lambda>n w. (Inr \<lparr>pb_Name = n, pb_DisplayName = n, pb_NodeCount = 0, pb_ProcessingUnits = 4000, pb_State = READY\<rparr>, w)),
     s_upd = (\<lambda>req w. (None, w)),
     s_list = (\<lambda>req w. ([Inr [\<lparr>f_man = 3, f_exp = - 2\<rparr>]], w)),
     s_order = (\<lambda>n. [0..<n])\<rparr>"

definition sample_syncer :: syncer where
  "sample_syncer = NewSyncer \<lparr>nn_Namespace = ''ns'', nn_Name = ''sa''\<rparr> ''p'' ''i'' NewADCCredentials
     \<lparr>cl_projectID = ''p'', cl_instanceID = ''i''\<rparr>
     \<lparr>mc_projectID = ''p'', mc_instanceID = ''i'', mc_term = 10 * minute\<rparr> []"


end
