(* ===== verification/Autoscaler_Controller.thy ===== *)
theory Autoscaler_Controller
  imports Manual_Scaling Syncer
begin

text \<open>
  \<^verbatim>\<open>internal/controller/spannerautoscaler_controller.go\<close>: the reconciler of autoscalers.
  It keeps a syncer per autoscaler, a cron scheduler and a schedule worker per autoscaler
  with schedules, lets a manual override take over, and otherwise changes the instance when
  the scaling decision says so.

  Parameters, the fields of \<open>('w, 't, 'c) cenv\<close>: the configuration and client of the
  manual overrides (\<open>c_r\<close>), the services of a syncer (\<open>c_s\<close>), the token sources
  (\<open>c_tok\<close>), dialling the two Google APIs, and the go-cron library (\<open>c_cron\<close>), whose
  schedulers are values of an opaque type \<open>'c\<close>.

  The maps of the reconciler are the record \<open>('t, 'c) creg\<close>. Its field \<open>cr_life\<close> is not in
  the source: it lists the starts and stops of the background workers, in order. Reconciles
  of one autoscaler do not overlap (controller-runtime serializes a key), so a reconcile is
  a function on the registry.
\<close>

section \<open>Configuration and registry\<close>

record cron_entry =
  ce_Name :: string
  ce_Job :: Job

record 'c cron_ops =
  cron_New :: 'c
  cron_UpsertJob :: "string \<Rightarrow> Job \<Rightarrow> string \<Rightarrow> 'c \<Rightarrow> string option \<times> 'c"
  cron_Entries :: "'c \<Rightarrow> cron_entry list"
  cron_RemoveByName :: "string \<Rightarrow> 'c \<Rightarrow> 'c"

type_synonym ('w, 't) client_factory =
  "string \<Rightarrow> string \<Rightarrow> ('t client_config \<Rightarrow> 't client_config) list \<Rightarrow> 'w \<Rightarrow> (kube_err + spanner_client) \<times> 'w"

record ('w, 't, 'c) cenv =
  c_r :: "'w renv"
  c_s :: "'w senv"
  c_tok :: "('w, 't) token_env"
  c_dialSpanner :: "'t client_option list \<Rightarrow> 'w \<Rightarrow> kube_err option \<times> 'w"
  c_dialMetrics :: "'t client_option list \<Rightarrow> 'w \<Rightarrow> kube_err option \<times> 'w"
  c_cron :: "'c cron_ops"
  c_spannerEndpoint :: string
  c_metricsEndpoint :: string
  c_spannerClientFactory :: "('w, 't) client_factory option"
  c_syncInterval :: duration

datatype worker = SyncerWorker | CronWorker | ScheduleWorker

datatype life = Start worker NamespacedName | Stop worker NamespacedName

record ('t, 'c) creg =
  cr_syncers :: "NamespacedName \<rightharpoonup> syncer"
  cr_crons :: "NamespacedName \<rightharpoonup> 'c"
  cr_schedulers :: "NamespacedName \<rightharpoonup> NamespacedName"
  cr_labelsCache :: "NamespacedName \<rightharpoonup> Labels"
  cr_baseToken :: "(kube_err + 't) option"
  cr_life :: "life list"

definition NewRegistry :: "('t, 'c) creg" where
  "NewRegistry = \<lparr>cr_syncers = Map.empty, cr_crons = Map.empty, cr_schedulers = Map.empty,
     cr_labelsCache = Map.empty, cr_baseToken = None, cr_life = []\<rparr>"

definition note_life :: "life \<Rightarrow> ('t, 'c) creg \<Rightarrow> ('t, 'c) creg" where
  "note_life l reg = reg\<lparr>cr_life := cr_life reg @ [l]\<rparr>"

section \<open>Construction\<close>

text \<open>
  A functional option changes the reconciler, that is its configuration and its registry.
  \<open>kube\<close>, \<open>gsv\<close>, \<open>parse\<close>, \<open>srt\<close> and the remaining arguments of the constructor
  are the services the process provides.
\<close>

type_synonym ('w, 't, 'c) option_fn =
  "('w, 't, 'c) cenv \<times> ('t, 'c) creg \<Rightarrow> ('w, 't, 'c) cenv \<times> ('t, 'c) creg"

definition upd_r :: "('w renv \<Rightarrow> 'w renv) \<Rightarrow> ('w, 't, 'c) option_fn" where
  "upd_r f = (\<lambda>(env, reg). (env\<lparr>c_r := f (c_r env)\<rparr>, reg))"

definition WithSyncers :: "(NamespacedName \<rightharpoonup> syncer) \<Rightarrow> ('w, 't, 'c) option_fn" where
  "WithSyncers syncers = (\<lambda>(env, reg). (env, reg\<lparr>cr_syncers := syncers\<rparr>))"

definition WithClock :: "('w \<Rightarrow> time \<times> 'w) \<Rightarrow> ('w, 't, 'c) option_fn" where
  "WithClock clock = upd_r (\<lambda>r. r\<lparr>r_kube := (r_kube r)\<lparr>k_now := clock\<rparr>\<rparr>)"

definition WithScaleDownInterval :: "duration \<Rightarrow> ('w, 't, 'c) option_fn" where
  "WithScaleDownInterval d = upd_r (\<lambda>r. r\<lparr>r_scaleDownInterval := d\<rparr>)"

definition WithScaleUpInterval :: "duration \<Rightarrow> ('w, 't, 'c) option_fn" where
  "WithScaleUpInterval d = upd_r (\<lambda>r. r\<lparr>r_scaleUpInterval := d\<rparr>)"

definition WithSpannerEndpoint :: "string \<Rightarrow> ('w, 't, 'c) option_fn" where
  "WithSpannerEndpoint endpoint = (\<lambda>(env, reg). (env\<lparr>c_spannerEndpoint := endpoint\<rparr>, reg))"

definition WithSpannerClientFactory :: "('w, 't) client_factory \<Rightarrow> ('w, 't, 'c) option_fn" where
  "WithSpannerClientFactory f = (\<lambda>(env, reg). (env\<lparr>c_spannerClientFactory := Some f\<rparr>, reg))"

definition WithMetricsEndpoint :: "string \<Rightarrow> ('w, 't, 'c) option_fn" where
  "WithMetricsEndpoint endpoint = (\<lambda>(env, reg). (env\<lparr>c_metricsEndpoint := endpoint\<rparr>, reg))"

definition WithSyncInterval :: "duration \<Rightarrow> ('w, 't, 'c) option_fn" where
  "WithSyncInterval interval = (\<lambda>(env, reg). (env\<lparr>c_syncInterval := interval\<rparr>, reg))"

definition WithRejectManualScaledown :: "bool \<Rightarrow> ('w, 't, 'c) option_fn" where
  "WithRejectManualScaledown enabled = upd_r (\<lambda>r. r\<lparr>r_rejectManualScaledown := enabled\<rparr>)"

definition WithManualScalingHistoryPerNamespace :: "gint \<Rightarrow> ('w, 't, 'c) option_fn" where
  "WithManualScalingHistoryPerNamespace n = upd_r (\<lambda>r. r\<lparr>r_manualScalingHistoryPerNamespace := n\<rparr>)"

record ('w, 't, 'c) process =
  p_kube :: "'w kube"
  p_gsv :: scaled_value
  p_parse :: cron_parser
  p_sort :: "(SpannerManualScaling \<Rightarrow> SpannerManualScaling \<Rightarrow> bool) \<Rightarrow>
             SpannerManualScaling list \<Rightarrow> SpannerManualScaling list"
  p_senv :: "'w senv"
  p_tok :: "('w, 't) token_env"
  p_dialSpanner :: "'t client_option list \<Rightarrow> 'w \<Rightarrow> kube_err option \<times> 'w"
  p_dialMetrics :: "'t client_option list \<Rightarrow> 'w \<Rightarrow> kube_err option \<times> 'w"
  p_cron :: "'c cron_ops"

definition NewSpannerAutoscalerReconciler ::
    "('w, 't, 'c) process \<Rightarrow> ('w, 't, 'c) option_fn list \<Rightarrow> ('w, 't, 'c) cenv \<times> ('t, 'c) creg" where
  "NewSpannerAutoscalerReconciler p opts =
     fold (\<lambda>opt r. opt r) opts
       (\<lparr>c_r = \<lparr>r_kube = p_kube p, r_gsv = p_gsv p, r_parse = p_parse p, r_sort = p_sort p,
                r_scaleDownInterval = 55 * minute, r_scaleUpInterval = 60 * second,
                r_rejectManualScaledown = False, r_manualScalingHistoryPerNamespace = 0\<rparr>,
         c_s = p_senv p, c_tok = p_tok p, c_dialSpanner = p_dialSpanner p, c_dialMetrics = p_dialMetrics p,
         c_cron = p_cron p, c_spannerEndpoint = [], c_metricsEndpoint = [], c_spannerClientFactory = None,
         c_syncInterval = 0\<rparr>, NewRegistry)"

section \<open>Labels, names and schedules\<close>

definition updateLabelsCache ::
    "NamespacedName \<Rightarrow> SpannerAutoscaler option \<Rightarrow> ('t, 'c) creg \<Rightarrow> 'w rstate \<Rightarrow> ('t, 'c) creg \<times> 'w rstate" where
  "updateLabelsCache nnsa sa reg st =
     (case sa of
        None \<Rightarrow>
          (case cr_labelsCache reg nnsa of
             Some cached \<Rightarrow> (reg\<lparr>cr_labelsCache := (cr_labelsCache reg)(nnsa := None)\<rparr>, metric (DeleteSeries cached) st)
           | None \<Rightarrow> (reg, st))
      | Some sa \<Rightarrow>
          (let cur = LabelsForAutoscaler sa;
               st = (case cr_labelsCache reg nnsa of
                       Some prev \<Rightarrow> (if prev \<noteq> cur then metric (DeleteSeries prev) st else st)
                     | None \<Rightarrow> st)
           in (reg\<lparr>cr_labelsCache := (cr_labelsCache reg)(nnsa \<mapsto> cur)\<rparr>, st)))"

fun pruneActiveSchedules_loop ::
    "string list \<Rightarrow> ActiveSchedule list \<Rightarrow> ActiveSchedule list \<times> ActiveSchedule list" where
  "pruneActiveSchedules_loop names [] = ([], [])"
| "pruneActiveSchedules_loop names (as # ass) =
     (let (kept, dropped) = pruneActiveSchedules_loop names ass
      in if \<not> snd (findInArray names (as_ScheduleName as)) then (kept, as # dropped) else (as # kept, dropped))"

definition pruneActiveSchedules :: "SpannerAutoscaler \<Rightarrow> ActiveSchedule list \<times> ActiveSchedule list" where
  "pruneActiveSchedules sa =
     pruneActiveSchedules_loop (Schedules (sa_Status sa)) (CurrentlyActiveSchedules (sa_Status sa))"

text \<open>\<^verbatim>\<open>strings.SplitN(name, "/", 2)\<close>: one part when there is no slash, else the parts around the first.\<close>

definition parseNamespacedName :: "string \<Rightarrow> string \<Rightarrow> NamespacedName" where
  "parseNamespacedName name defaultNamespace =
     (let pre = takeWhile (\<lambda>c. c \<noteq> CHR ''/'') name; post = dropWhile (\<lambda>c. c \<noteq> CHR ''/'') name
      in if post \<noteq> [] then \<lparr>nn_Namespace = pre, nn_Name = tl post\<rparr>
         else \<lparr>nn_Namespace = defaultNamespace, nn_Name = pre\<rparr>)"

section \<open>Cron jobs\<close>

fun addCronJob_loop ::
    "('w, 't, 'c) cenv \<Rightarrow> SpannerAutoscaler \<Rightarrow> string list \<Rightarrow> 'c \<Rightarrow> 'w rstate \<Rightarrow> kube_err option \<times> 'c \<times> 'w rstate" where
  "addCronJob_loop env sa [] c st = (None, c, st)"
| "addCronJob_loop env sa (v # vs) c st =
     (let nnsa = object_key (sa_Meta sa);
          nnsas = parseNamespacedName v (om_Namespace (sa_Meta sa))
      in case kread (k_get_sas (r_kube (c_r env)) nnsas) st of
           (Inl err, st) \<Rightarrow> (Some err, c, st)
         | (Inr sas, st) \<Rightarrow>
             (let cron = sched_Cron (sas_Schedule (sas_Spec sas));
                  job = \<lparr>job_ScheduleName = nnsas, job_AutoscalerName = nnsa, job_Cron = cron\<rparr>
              in case cron_UpsertJob (c_cron env) cron job (nn_String nnsas) c of
                   (Some err, c) \<Rightarrow>
                     addCronJob_loop env sa vs c (emit (Event EventWarning ''InvalidCronExpression'') st)
                 | (None, c) \<Rightarrow> addCronJob_loop env sa vs c st))"

definition addCronJob ::
    "('w, 't, 'c) cenv \<Rightarrow> SpannerAutoscaler \<Rightarrow> 'c \<Rightarrow> 'w rstate \<Rightarrow> kube_err option \<times> 'c \<times> 'w rstate" where
  "addCronJob env sa c st = addCronJob_loop env sa (Schedules (sa_Status sa)) c st"

fun pruneCronJobs_loop ::
    "'c cron_ops \<Rightarrow> string list \<Rightarrow> cron_entry list \<Rightarrow> 'c \<Rightarrow> 'c" where
  "pruneCronJobs_loop ops names [] c = c"
| "pruneCronJobs_loop ops names (entry # entries) c =
     (if \<not> snd (findInArray names (nn_String (job_ScheduleName (ce_Job entry))))
      then (if ce_Name entry = [] then pruneCronJobs_loop ops names entries c
            else pruneCronJobs_loop ops names entries (cron_RemoveByName ops (ce_Name entry) c))
      else pruneCronJobs_loop ops names entries c)"

definition pruneCronJobs :: "'c cron_ops \<Rightarrow> SpannerAutoscaler \<Rightarrow> 'c \<Rightarrow> 'c" where
  "pruneCronJobs ops sa c = pruneCronJobs_loop ops (Schedules (sa_Status sa)) (cron_Entries ops c) c"

section \<open>Credentials and syncers\<close>

datatype cred_result =
    CredErr kube_err
  | Cred Credentials
  | CredPanic

definition errInvalidExclusiveCredentials :: kube_err where
  "errInvalidExclusiveCredentials = ErrOther ''impersonateConfig and iamKeySecret are mutually exclusive''"

definition fetchCredentials ::
    "('w, 't, 'c) cenv \<Rightarrow> SpannerAutoscaler \<Rightarrow> 'w rstate \<Rightarrow> cred_result \<times> 'w rstate" where
  "fetchCredentials env sa st =
     (let auth = Authentication (sa_Spec sa);
          iamKeySecret = auth_IAMKeySecret auth;
          impersonateConfig = auth_ImpersonateConfig auth
      in if iamKeySecret \<noteq> None \<and> impersonateConfig \<noteq> None then (CredErr errInvalidExclusiveCredentials, st)
         else
           case auth_Type auth of
             AuthTypeSA \<Rightarrow>
               (case iamKeySecret of
                  None \<Rightarrow> (CredPanic, st)
                | Some iks \<Rightarrow>
                    (if iks_Name iks = [] then (CredErr (ErrOther ''no name specified''), st)
                     else if iks_Key iks = [] then (CredErr (ErrOther ''no key specified''), st)
                     else
                       let namespace = (if iks_Namespace iks = [] then om_Namespace (sa_Meta sa) else iks_Namespace iks)
                       in case kread (k_get_secret (r_kube (c_r env)) \<lparr>nn_Namespace = namespace, nn_Name = iks_Name iks\<rparr>) st of
                            (Inl err, st) \<Rightarrow>
                              (if IsNotFound err then (CredErr (ErrOther ''no secret found by specified name''), st)
                               else (CredErr err, st))
                          | (Inr secret, st) \<Rightarrow>
                              (case map_of secret (iks_Key iks) of
                                 None \<Rightarrow> (CredErr (ErrOther ''no secret found by specified key''), st)
                               | Some json \<Rightarrow> (Cred (NewServiceAccountJSONCredentials json), st))))
           | AuthTypeImpersonation \<Rightarrow>
               (case impersonateConfig of
                  None \<Rightarrow> (CredPanic, st)
                | Some ic \<Rightarrow> (Cred (NewServiceAccountImpersonate (ic_TargetServiceAccount ic) (ic_Delegates ic)), st))
           | _ \<Rightarrow> (Cred NewADCCredentials, st))"

text \<open>
  The options of the two clients: a token source is fetched only when some client has no
  endpoint of its own.
\<close>

definition syncer_options ::
    "string \<Rightarrow> 't option \<Rightarrow> ('t client_config \<Rightarrow> 't client_config) list" where
  "syncer_options endpoint ts =
     (case ts of Some t \<Rightarrow> (if endpoint = [] then [WithTokenSource t] else []) | None \<Rightarrow> []) @
     (if endpoint \<noteq> [] then [WithEndpoint endpoint] else [])"

definition fetch_token ::
    "('w, 't, 'c) cenv \<Rightarrow> Credentials \<Rightarrow> (kube_err + 't) option \<Rightarrow> 'w rstate \<Rightarrow>
     (kube_err + 't option) \<times> (kube_err + 't) option \<times> 'w rstate" where
  "fetch_token env credentials base st =
     (if c_spannerEndpoint env = [] \<or> c_metricsEndpoint env = [] then
        (case kread (\<lambda>w. let (r, b, w) = TokenSource (c_tok env) credentials base w in ((r, b), w)) st of
           ((Inl err, base), st) \<Rightarrow> (Inl err, base, st)
         | ((Inr ts, base), st) \<Rightarrow> (Inr (Some ts), base, st))
      else (Inr None, base, st))"

definition startSyncer ::
    "('w, 't, 'c) cenv \<Rightarrow> NamespacedName \<Rightarrow> string \<Rightarrow> string \<Rightarrow> Credentials \<Rightarrow> ('t, 'c) creg \<Rightarrow> 'w rstate \<Rightarrow>
     kube_err option \<times> ('t, 'c) creg \<times> 'w rstate" where
  "startSyncer env nn projectID instanceID credentials reg st =
     (case fetch_token env credentials (cr_baseToken reg) st of
        (Inl err, base, st) \<Rightarrow> (Some err, reg\<lparr>cr_baseToken := base\<rparr>, st)
      | (Inr ts, base, st) \<Rightarrow>
          (let reg = reg\<lparr>cr_baseToken := base\<rparr>;
               spannerFactory = (case c_spannerClientFactory env of
                                   Some f \<Rightarrow> f
                                 | None \<Rightarrow> spanner_NewClient (c_dialSpanner env))
           in case kread (spannerFactory projectID instanceID (syncer_options (c_spannerEndpoint env) ts)) st of
                (Inl err, st) \<Rightarrow> (Some err, reg, st)
              | (Inr spannerClient, st) \<Rightarrow>
                  (case kread (metrics_NewClient (c_dialMetrics env) projectID instanceID
                                 (syncer_options (c_metricsEndpoint env) ts)) st of
                     (Inl err, st) \<Rightarrow> (Some err, reg, st)
                   | (Inr metricsClient, st) \<Rightarrow>
                       (let opts = (if c_syncInterval env > 0 then [WithInterval (c_syncInterval env)] else []);
                            s = NewSyncer nn projectID instanceID credentials spannerClient metricsClient opts;
                            reg = note_life (Start SyncerWorker nn) reg
                        in (None, reg\<lparr>cr_syncers := (cr_syncers reg)(nn \<mapsto> s)\<rparr>, st)))))"

section \<open>Scaling on CPU utilization\<close>

definition calcDesiredProcessingUnits :: "('w, 't, 'c) cenv \<Rightarrow> SpannerAutoscaler \<Rightarrow> gint" where
  "calcDesiredProcessingUnits env sa = DesiredProcessingUnits (r_gsv (c_r env)) sa"

definition calcDesiredPURange :: "SpannerAutoscaler \<Rightarrow> gint \<times> gint \<times> bool \<times> bool" where
  "calcDesiredPURange sa = DesiredPURange sa"

definition skip_reason :: "Decision \<Rightarrow> string option" where
  "skip_reason d =
     (case d of
        DecisionScale \<Rightarrow> None
      | DecisionSkipSame \<Rightarrow> Some ''same''
      | DecisionSkipScaleUpInterval \<Rightarrow> Some ''scale_up_interval''
      | DecisionSkipScaleDownInterval \<Rightarrow> Some ''scale_down_interval''
      | DecisionSkipScaleDownWindow \<Rightarrow> Some ''scale_down_window'')"

definition needUpdateProcessingUnits ::
    "('w, 't, 'c) cenv \<Rightarrow> SpannerAutoscaler \<Rightarrow> gint \<Rightarrow> time \<Rightarrow> 'w rstate \<Rightarrow> bool \<times> 'w rstate" where
  "needUpdateProcessingUnits env sa desiredProcessingUnits now st =
     (case Decide (r_parse (c_r env)) sa desiredProcessingUnits now
             (r_scaleUpInterval (c_r env)) (r_scaleDownInterval (c_r env)) of
        (decision, Some err) \<Rightarrow> (False, st)
      | (decision, None) \<Rightarrow>
          (case skip_reason decision of
             Some reason \<Rightarrow> (False, metric (RecordScaleSkipped (LabelsForAutoscaler sa) reason) st)
           | None \<Rightarrow> (True, st)))"

definition scaleDriver :: "scaled_value \<Rightarrow> SpannerAutoscaler \<Rightarrow> gint \<Rightarrow> string" where
  "scaleDriver gsv sa after =
     (let t = sc_TargetCPUUtilization (scale_config sa); f = ActiveMetricFlags t
      in if DesiredMinPUs (sa_Status sa) > pus_Min (sc_ProcessingUnits (scale_config sa)) \<and>
            after = DesiredMinPUs (sa_Status sa)
         then ''schedule''
         else if f = CPUMetricFlagHighPriority then ''cpu_high_priority''
         else if f = CPUMetricFlagTotal then ''cpu_total''
         else if f = both_flags then
           (let desiredByHigh = DesiredPUFromCPU gsv (CurrentHighPriorityCPUUtilization (sa_Status sa))
                                  (the (cpu_HighPriority t)) sa;
                desiredByTotal = DesiredPUFromCPU gsv (CurrentTotalCPUUtilization (sa_Status sa))
                                   (the (cpu_Total t)) sa
            in if desiredByHigh \<ge> desiredByTotal then ''cpu_high_priority'' else ''cpu_total'')
         else ''cpu_high_priority'')"

definition publish_desired_range ::
    "SpannerAutoscaler \<Rightarrow> bool \<Rightarrow> 'w rstate \<Rightarrow> SpannerAutoscaler \<times> bool \<times> 'w rstate" where
  "publish_desired_range sa statusChanged st =
     (case calcDesiredPURange sa of
        (minPU, maxPU, updated, capped) \<Rightarrow>
          (if updated
           then (upd_status (\<lambda>s. s\<lparr>DesiredMinPUs := minPU, DesiredMaxPUs := maxPU\<rparr>) sa, True,
                 if capped then emit (Event EventNormal ''ScheduleCappedAtMax'') st else st)
           else (sa, statusChanged, st)))"

text \<open>The change of the instance, when the decision asks for it.\<close>

definition cpu_update ::
    "('w, 't, 'c) cenv \<Rightarrow> 'w update_instance \<Rightarrow> gint \<Rightarrow> SpannerAutoscaler \<Rightarrow> bool \<Rightarrow> 'w rstate \<Rightarrow>
     kube_err option \<times> SpannerAutoscaler \<times> bool \<times> 'w rstate" where
  "cpu_update env upd desiredProcessingUnits sa statusChanged st =
     (let (now, st) = clock_now (c_r env) st;
          (need, st) = needUpdateProcessingUnits env sa desiredProcessingUnits now st
      in if \<not> need then (None, sa, statusChanged, st)
         else
           let labels = LabelsForAutoscaler sa
           in case timed_update (c_r env) upd labels desiredProcessingUnits st of
                (Some err, st) \<Rightarrow>
                  (Some err, sa, statusChanged, emit (Event EventWarning ''FailedUpdateInstance'') st)
              | (None, st) \<Rightarrow>
                  (let st = metric (RecordScaleEvent labels (cur_pu sa) desiredProcessingUnits
                                      (scaleDriver (r_gsv (c_r env)) sa desiredProcessingUnits)) st;
                       st = emit (Event EventNormal ''Updated'') st
                   in (None, upd_status (\<lambda>s. s\<lparr>LastScaleTime := now\<rparr>) sa, True, st)))"

definition persist_status ::
    "('w, 't, 'c) cenv \<Rightarrow> gint \<Rightarrow> ActiveSchedule list \<Rightarrow> SpannerAutoscaler \<Rightarrow> bool \<Rightarrow> 'w rstate \<Rightarrow>
     kube_err option \<times> SpannerAutoscaler \<times> 'w rstate" where
  "persist_status env desiredProcessingUnits dropped sa statusChanged st =
     (if statusChanged then
        (let sa = upd_status (\<lambda>s. s\<lparr>DesiredProcessingUnits_status := desiredProcessingUnits\<rparr>) sa
         in case status_sa (r_kube (c_r env)) sa st of
              (Some err, st) \<Rightarrow> (Some err, sa, emit (Event EventWarning ''FailedUpdateStatus'') st)
            | (None, st) \<Rightarrow> (None, sa, emitScheduleDeactivations sa dropped st))
      else (None, sa, st))"

definition reconcile_cpu ::
    "('w, 't, 'c) cenv \<Rightarrow> 'w update_instance \<Rightarrow> ActiveSchedule list \<Rightarrow> SpannerAutoscaler \<Rightarrow> bool \<Rightarrow> 'w rstate \<Rightarrow>
     reconcile_result \<times> SpannerAutoscaler \<times> 'w rstate" where
  "reconcile_cpu env upd dropped sa statusChanged st =
     (let (sa, statusChanged, st) = publish_desired_range sa statusChanged st;
          desiredProcessingUnits = calcDesiredProcessingUnits env sa
      in case cpu_update env upd desiredProcessingUnits sa statusChanged st of
           (Some err, sa, statusChanged, st) \<Rightarrow> ((0, Some err), sa, st)
         | (None, sa, statusChanged, st) \<Rightarrow>
             (let (err, sa, st) = persist_status env desiredProcessingUnits dropped sa statusChanged st
              in ((0, err), sa, st)))"

section \<open>Reconcile\<close>

text \<open>The autoscaler does not exist any more: its workers are stopped and its series deleted.\<close>

definition reconcile_missing ::
    "NamespacedName \<Rightarrow> ('t, 'c) creg \<Rightarrow> 'w rstate \<Rightarrow> ('t, 'c) creg \<times> 'w rstate" where
  "reconcile_missing nnsa reg st =
     (let syncerExists = cr_syncers reg nnsa \<noteq> None;
          cronExists = cr_crons reg nnsa \<noteq> None;
          schedulerExists = cr_schedulers reg nnsa \<noteq> None;
          reg = (if syncerExists
                 then (note_life (Stop SyncerWorker nnsa) reg)\<lparr>cr_syncers := (cr_syncers reg)(nnsa := None)\<rparr> else reg);
          reg = (if cronExists
                 then (note_life (Stop CronWorker nnsa) reg)\<lparr>cr_crons := (cr_crons reg)(nnsa := None)\<rparr> else reg);
          reg = (if schedulerExists
                 then (note_life (Stop ScheduleWorker nnsa) reg)\<lparr>cr_schedulers := (cr_schedulers reg)(nnsa := None)\<rparr>
                 else reg)
      in updateLabelsCache nnsa None reg st)"

text \<open>
  Before the instance is looked at: a cron scheduler and a schedule worker when there are
  schedules, its jobs added and pruned.
\<close>

definition ensure_cron ::
    "('w, 't, 'c) cenv \<Rightarrow> NamespacedName \<Rightarrow> SpannerAutoscaler \<Rightarrow> ('t, 'c) creg \<Rightarrow> ('t, 'c) creg" where
  "ensure_cron env nnsa sa reg =
     (if cr_crons reg nnsa = None \<and> length (Schedules (sa_Status sa)) > 0
      then (let reg = note_life (Start ScheduleWorker nnsa) (note_life (Start CronWorker nnsa) reg)
            in reg\<lparr>cr_crons := (cr_crons reg)(nnsa \<mapsto> cron_New (c_cron env)),
                   cr_schedulers := (cr_schedulers reg)(nnsa \<mapsto> nnsa)\<rparr>)
      else reg)"

definition reconcile_crons ::
    "('w, 't, 'c) cenv \<Rightarrow> NamespacedName \<Rightarrow> SpannerAutoscaler \<Rightarrow> ('t, 'c) creg \<Rightarrow> 'w rstate \<Rightarrow>
     kube_err option \<times> ('t, 'c) creg \<times> 'w rstate" where
  "reconcile_crons env nnsa sa reg st =
     (let reg = ensure_cron env nnsa sa reg
      in case cr_crons reg nnsa of
           None \<Rightarrow> (None, reg, st)
         | Some c \<Rightarrow>
             (case addCronJob env sa c st of
                (Some err, c, st) \<Rightarrow> (Some err, reg\<lparr>cr_crons := (cr_crons reg)(nnsa \<mapsto> c)\<rparr>, st)
              | (None, c, st) \<Rightarrow>
                  (let c = pruneCronJobs (c_cron env) sa c
                   in (None, reg\<lparr>cr_crons := (cr_crons reg)(nnsa \<mapsto> c)\<rparr>, st))))"

definition reconcile_scaling ::
    "('w, 't, 'c) cenv \<Rightarrow> 'w update_instance \<Rightarrow> SpannerAutoscaler \<Rightarrow> 'w rstate \<Rightarrow>
     reconcile_result \<times> SpannerAutoscaler \<times> 'w rstate" where
  "reconcile_scaling env upd sa st =
     (let (kept, dropped) = pruneActiveSchedules sa;
          (sa, statusChanged) =
            (if length dropped > 0 then (upd_status (\<lambda>s. s\<lparr>CurrentlyActiveSchedules := kept\<rparr>) sa, True) else (sa, False))
      in if InstanceState (sa_Status sa) \<noteq> InstanceStateReady
         then ((0, None), sa, metric (RecordScaleSkipped (LabelsForAutoscaler sa) ''instance_not_ready'') st)
         else if CurrentProcessingUnits (sa_Status sa) = 0
         then ((0, None), sa, metric (RecordScaleSkipped (LabelsForAutoscaler sa) ''cpu_not_ready'') st)
         else
           case dispatchManualScaling (c_r env) upd sa statusChanged dropped st of
             (Dispatch requeueAfter handled err, sa, statusChanged, st) \<Rightarrow>
               (if handled \<or> err \<noteq> None then ((requeueAfter, err), sa, st)
                else reconcile_cpu env upd dropped sa statusChanged st))"

definition replace_syncer ::
    "('w, 't, 'c) cenv \<Rightarrow> NamespacedName \<Rightarrow> SpannerAutoscaler \<Rightarrow> Credentials \<Rightarrow> ('t, 'c) creg \<Rightarrow> 'w rstate \<Rightarrow>
     reconcile_result \<times> ('t, 'c) creg \<times> 'w rstate" where
  "replace_syncer env nnsa sa credentials reg st =
     (let ti = TargetInstance (sa_Spec sa)
      in case startSyncer env nnsa (ti_ProjectID ti) (ti_InstanceID ti) credentials reg st of
           (Some err, reg, st) \<Rightarrow> ((0, Some err), reg, emit (Event EventWarning ''FailedStartSyncer'') st)
         | (None, reg, st) \<Rightarrow> ((0, None), reg, st))"

definition reconcile_found ::
    "('w, 't, 'c) cenv \<Rightarrow> NamespacedName \<Rightarrow> SpannerAutoscaler \<Rightarrow> ('t, 'c) creg \<Rightarrow> 'w rstate \<Rightarrow>
     reconcile_result \<times> SpannerAutoscaler \<times> ('t, 'c) creg \<times> 'w rstate" where
  "reconcile_found env nnsa sa reg st =
     (case fetchCredentials env sa st of
        (CredErr err, st) \<Rightarrow> ((0, Some err), sa, reg, emit (Event EventWarning ''ServiceAccountRequired'') st)
      | (CredPanic, st) \<Rightarrow> ((0, Some (ErrOther ''nil pointer dereference'')), sa, reg, st)
      | (Cred credentials, st) \<Rightarrow>
          (case cr_syncers reg nnsa of
             None \<Rightarrow> (let (res, reg, st) = replace_syncer env nnsa sa credentials reg st in (res, sa, reg, st))
           | Some s \<Rightarrow>
               (if \<not> HasCredentials s credentials
                then (let reg = (note_life (Stop SyncerWorker nnsa) reg)\<lparr>cr_syncers := (cr_syncers reg)(nnsa := None)\<rparr>;
                          (res, reg, st) = replace_syncer env nnsa sa credentials reg st
                      in (res, sa, reg, st))
                else
                  case reconcile_crons env nnsa sa reg st of
                    (Some err, reg, st) \<Rightarrow> ((0, Some err), sa, reg, st)
                  | (None, reg, st) \<Rightarrow>
                      (let (res, sa, st) = reconcile_scaling env (syncer_UpdateInstance (c_s env) s) sa st
                       in (res, sa, reg, st)))))"

definition AutoscalerReconcile ::
    "('w, 't, 'c) cenv \<Rightarrow> NamespacedName \<Rightarrow> ('t, 'c) creg \<Rightarrow> 'w rstate \<Rightarrow>
     reconcile_result \<times> ('t, 'c) creg \<times> 'w rstate" where
  "AutoscalerReconcile env nnsa reg st =
     (case kread (k_get_sa (r_kube (c_r env)) nnsa) st of
        (Inl err, st) \<Rightarrow>
          (if IsNotFound err then (let (reg, st) = reconcile_missing nnsa reg st in ((0, None), reg, st))
           else ((0, Some err), reg, st))
      | (Inr sa, st) \<Rightarrow>
          (let (reg, st) = updateLabelsCache nnsa (Some sa) reg st;
               (res, sa, reg, st) = reconcile_found env nnsa sa reg st
           in (res, reg, metric (RecordState sa) st)))"

text \<open>\<^verbatim>\<open>StopAll\<close> stops every registered syncer, in the order \<open>names\<close> in which the map is iterated.\<close>

fun StopAll :: "NamespacedName list \<Rightarrow> ('t, 'c) creg \<Rightarrow> ('t, 'c) creg" where
  "StopAll [] reg = reg"
| "StopAll (nn # names) reg =
     StopAll names (if cr_syncers reg nn \<noteq> None then note_life (Stop SyncerWorker nn) reg else reg)"

text \<open>
  Which autoscaler the watches of schedules and overrides enqueue.
\<close>

definition enqueue_schedule :: "SpannerAutoscaleSchedule \<Rightarrow> NamespacedName list" where
  "enqueue_schedule sas =
     (if sas_TargetResource (sas_Spec sas) = [] then []
      else [\<lparr>nn_Namespace = om_Namespace (sas_Meta sas), nn_Name = sas_TargetResource (sas_Spec sas)\<rparr>])"

definition enqueue_manual :: "SpannerManualScaling \<Rightarrow> NamespacedName list" where
  "enqueue_manual sms =
     (if ms_TargetResource (ms_Spec sms) = [] then []
      else [\<lparr>nn_Namespace = om_Namespace (ms_Meta sms), nn_Name = ms_TargetResource (ms_Spec sms)\<rparr>])"

section \<open>Changes of the instance\<close>

lemma update_calls_event [simp]: "update_calls (emit (Event t r) st) = update_calls st"
  by simp

lemma status_sa_calls: "status_sa k x st = (e, st') \<Longrightarrow> update_calls st' = update_calls st"
  using status_sa_trace [of k x st e st'] by (simp add: update_calls_def)

lemma clock_now_calls: "clock_now r st = (t, st') \<Longrightarrow> update_calls st' = update_calls st"
  unfolding clock_now_def by (rule update_calls_kread)

lemma updateLabelsCache_calls: "updateLabelsCache nnsa sa reg st = (reg', st') \<Longrightarrow> update_calls st' = update_calls st"
  by (auto simp: updateLabelsCache_def Let_def split: option.splits if_splits)

lemma fetchCredentials_calls: "fetchCredentials env sa st = (r, st') \<Longrightarrow> update_calls st' = update_calls st"
  by (auto simp: fetchCredentials_def Let_def dest!: update_calls_kread
      split: AuthType.splits option.splits if_splits prod.splits sum.splits)

lemma fetch_token_calls: "fetch_token env cr base st = (r, base', st') \<Longrightarrow> update_calls st' = update_calls st"
  by (auto simp: fetch_token_def dest!: update_calls_kread split: if_splits prod.splits sum.splits)

lemma startSyncer_calls:
  assumes "startSyncer env nn p i cr reg st = (e, reg', st')"
  shows "update_calls st' = update_calls st"
proof -
  obtain r base st1 where t: "fetch_token env cr (cr_baseToken reg) st = (r, base, st1)" by (metis prod_cases3)
  note 1 = fetch_token_calls [OF t]
  show ?thesis
  proof (cases r)
    case (Inl err)
    then show ?thesis using assms t 1 by (simp add: startSyncer_def)
  next
    case (Inr ts)
    let ?f = "case c_spannerClientFactory env of Some f \<Rightarrow> f | None \<Rightarrow> spanner_NewClient (c_dialSpanner env)"
    obtain x st2 where s: "kread (?f p i (syncer_options (c_spannerEndpoint env) ts)) st1 = (x, st2)" by fastforce
    obtain y st3 where m: "kread (metrics_NewClient (c_dialMetrics env) p i (syncer_options (c_metricsEndpoint env) ts)) st2
        = (y, st3)" by fastforce
    have "st' = st2 \<or> st' = st3"
      using assms t Inr s m by (cases x; cases y) (auto simp: startSyncer_def Let_def)
    then show ?thesis using 1 update_calls_kread [OF s] update_calls_kread [OF m] by auto
  qed
qed

lemma replace_syncer_calls:
  "replace_syncer env nnsa sa cr reg st = (res, reg', st') \<Longrightarrow> update_calls st' = update_calls st"
  by (auto simp: replace_syncer_def Let_def dest!: startSyncer_calls split: option.splits prod.splits)

lemma addCronJob_calls: "addCronJob_loop env sa vs c st = (e, c', st') \<Longrightarrow> update_calls st' = update_calls st"
proof (induction vs arbitrary: c st)
  case (Cons v vs)
  obtain x st1 where k: "kread (k_get_sas (r_kube (c_r env)) (parseNamespacedName v (om_Namespace (sa_Meta sa)))) st = (x, st1)"
    by fastforce
  show ?case
  proof (cases x)
    case (Inl err)
    then show ?thesis using Cons.prems k update_calls_kread [OF k] by simp
  next
    case (Inr sas)
    obtain e1 c1 where "cron_UpsertJob (c_cron env) (sched_Cron (sas_Schedule (sas_Spec sas)))
        \<lparr>job_ScheduleName = parseNamespacedName v (om_Namespace (sa_Meta sa)), job_AutoscalerName = object_key (sa_Meta sa),
         job_Cron = sched_Cron (sas_Schedule (sas_Spec sas))\<rparr>
        (nn_String (parseNamespacedName v (om_Namespace (sa_Meta sa)))) c = (e1, c1)" by fastforce
    then have "addCronJob_loop env sa vs c1 (if e1 = None then st1
        else emit (Event EventWarning ''InvalidCronExpression'') st1) = (e, c', st')"
      using Cons.prems k Inr by (cases e1) (auto simp: Let_def)
    from Cons.IH [OF this] show ?thesis using update_calls_kread [OF k] by (auto split: if_splits)
  qed
qed simp

lemma reconcile_crons_calls:
  assumes "reconcile_crons env nnsa sa reg st = (e, reg', st')"
  shows "update_calls st' = update_calls st"
proof (cases "cr_crons (ensure_cron env nnsa sa reg) nnsa")
  case None
  then show ?thesis using assms by (simp add: reconcile_crons_def Let_def)
next
  case (Some c)
  obtain e1 c1 st1 where a: "addCronJob env sa c st = (e1, c1, st1)" by (metis prod_cases3)
  have "st' = st1" using assms Some a by (cases e1) (auto simp: reconcile_crons_def Let_def)
  then show ?thesis using a addCronJob_calls by (metis addCronJob_def)
qed

lemma needUpdate_spec:
  assumes "needUpdateProcessingUnits env sa d now st = (need, st')"
  shows "(need \<longleftrightarrow> Decide (r_parse (c_r env)) sa d now (r_scaleUpInterval (c_r env)) (r_scaleDownInterval (c_r env))
                   = (DecisionScale, None)) \<and> update_calls st' = update_calls st"
proof -
  obtain dec err where d: "Decide (r_parse (c_r env)) sa d now (r_scaleUpInterval (c_r env)) (r_scaleDownInterval (c_r env))
      = (dec, err)" by fastforce
  show ?thesis
    using assms d by (cases err; cases dec) (auto simp: needUpdateProcessingUnits_def skip_reason_def)
qed

lemma cpu_update_calls:
  assumes "cpu_update env upd d sa ch st = (err, sa', ch', st')" "clock_now (c_r env) st = (now, st0)"
  shows "if Decide (r_parse (c_r env)) sa d now (r_scaleUpInterval (c_r env)) (r_scaleDownInterval (c_r env))
              = (DecisionScale, None)
         then \<exists>e. update_calls st' = update_calls st @ [UpdateInstanceCall d e]
         else update_calls st' = update_calls st"
proof -
  obtain need st1 where n: "needUpdateProcessingUnits env sa d now st0 = (need, st1)" by fastforce
  obtain e st2 where t: "timed_update (c_r env) upd (LabelsForAutoscaler sa) d st1 = (e, st2)" by fastforce
  have "update_calls st' = update_calls (if need then st2 else st1)"
    using assms n t by (cases e) (auto simp: cpu_update_def Let_def)
  then show ?thesis
    using needUpdate_spec [OF n] timed_update_calls [OF t] clock_now_calls [OF assms(2)] by auto
qed

lemma persist_status_calls:
  "persist_status env d dropped sa ch st = (e, sa', st') \<Longrightarrow> update_calls st' = update_calls st"
  by (auto simp: persist_status_def Let_def emitScheduleDeactivations_def dest!: status_sa_calls
      split: if_splits option.splits prod.splits)

text \<open>The autoscaler as the CPU path sees it: with the range of its schedules published.\<close>

definition with_range :: "SpannerAutoscaler \<Rightarrow> SpannerAutoscaler" where
  "with_range sa = upd_status (\<lambda>s. s\<lparr>DesiredMinPUs := fst (DesiredPURange sa),
                                    DesiredMaxPUs := fst (snd (DesiredPURange sa))\<rparr>) sa"

text \<open>
  The range computed from a status does not depend on the range it shows, and "updated" is
  reported exactly when it differs; so publishing gives \<open>with_range\<close> in both cases.
\<close>

lemma publish_desired_range_sa:
  assumes "publish_desired_range sa ch st = (sa', ch', st')"
  shows "sa' = with_range sa \<and> update_calls st' = update_calls st"
proof -
  obtain minPU maxPU updated capped where r: "DesiredPURange sa = (minPU, maxPU, updated, capped)" by (metis prod_cases4)
  have u: "updated \<longleftrightarrow> minPU \<noteq> DesiredMinPUs (sa_Status sa) \<or> maxPU \<noteq> DesiredMaxPUs (sa_Status sa)"
    using r by (auto simp: DesiredPURange_def Let_def split: prod.splits)
  show ?thesis
  proof (cases updated)
    case True
    then show ?thesis using assms r by (auto simp: publish_desired_range_def calcDesiredPURange_def with_range_def)
  next
    case False
    then have "with_range sa = sa" using u r by (simp add: with_range_def upd_status_def)
    then show ?thesis using assms r False by (auto simp: publish_desired_range_def calcDesiredPURange_def)
  qed
qed

lemma reconcile_cpu_calls:
  assumes "reconcile_cpu env upd dropped sa ch st = (res, sa', st')"
  shows "update_calls st' = update_calls st \<or>
    (\<exists>now e. Decide (r_parse (c_r env)) (with_range sa) (calcDesiredProcessingUnits env (with_range sa)) now
               (r_scaleUpInterval (c_r env)) (r_scaleDownInterval (c_r env)) = (DecisionScale, None) \<and>
       update_calls st' = update_calls st @ [UpdateInstanceCall (calcDesiredProcessingUnits env (with_range sa)) e])"
proof -
  obtain sa1 ch1 st1 where p: "publish_desired_range sa ch st = (sa1, ch1, st1)" by (metis prod_cases3)
  let ?d = "calcDesiredProcessingUnits env (with_range sa)"
  have s: "sa1 = with_range sa" "update_calls st1 = update_calls st" using publish_desired_range_sa [OF p] by auto
  obtain err sa2 ch2 st2 where c: "cpu_update env upd ?d (with_range sa) ch1 st1 = (err, sa2, ch2, st2)" by (metis prod_cases4)
  obtain now st0 where n: "clock_now (c_r env) st1 = (now, st0)" by fastforce
  obtain e3 sa3 st3 where q: "persist_status env ?d dropped sa2 ch2 st2 = (e3, sa3, st3)" by (metis prod_cases3)
  have "st' = st2 \<or> st' = st3"
    using assms p s(1) c q by (cases err) (auto simp: reconcile_cpu_def Let_def)
  then have "update_calls st' = update_calls st2" using persist_status_calls [OF q] by auto
  then show ?thesis using cpu_update_calls [OF c n] s(2) by (auto split: if_splits)
qed

text \<open>The autoscaler after the entries of unregistered schedules are dropped.\<close>

definition pruned :: "SpannerAutoscaler \<Rightarrow> SpannerAutoscaler" where
  "pruned sa = upd_status (\<lambda>s. s\<lparr>CurrentlyActiveSchedules :=
     filter (\<lambda>as. as_ScheduleName as \<in> set (Schedules s)) (CurrentlyActiveSchedules s)\<rparr>) sa"

lemma pruneActiveSchedules_filter:
  "pruneActiveSchedules_loop names ass =
     (filter (\<lambda>as. as_ScheduleName as \<in> set names) ass, filter (\<lambda>as. as_ScheduleName as \<notin> set names) ass)"
  by (induction ass) auto

lemma pruned_same:
  assumes "pruneActiveSchedules sa = (kept, [])"
  shows "pruned sa = sa"
proof -
  have "filter (\<lambda>as. as_ScheduleName as \<in> set (Schedules (sa_Status sa))) (CurrentlyActiveSchedules (sa_Status sa))
      = CurrentlyActiveSchedules (sa_Status sa)"
    using assms by (intro filter_True) (simp add: pruneActiveSchedules_def pruneActiveSchedules_filter filter_empty_conv)
  then show ?thesis by (simp add: pruned_def upd_status_def)
qed

lemma pruned_fields [simp]:
  "InstanceState (sa_Status (pruned sa)) = InstanceState (sa_Status sa)" "cur_pu (pruned sa) = cur_pu sa"
  "sa_Meta (pruned sa) = sa_Meta sa" "sa_Spec (pruned sa) = sa_Spec sa"
  by (simp_all add: pruned_def upd_status_def)

text \<open>The state the CPU path works on when no override is in charge.\<close>

definition cpu_view :: "SpannerAutoscaler \<Rightarrow> SpannerAutoscaler" where
  "cpu_view sa = with_range (upd_status (\<lambda>s. s\<lparr>ActiveManualScaling := None\<rparr>) (pruned sa))"

definition manual_call :: "('w, 't, 'c) cenv \<Rightarrow> SpannerAutoscaler \<Rightarrow> gint \<Rightarrow> bool" where
  "manual_call env sa pu \<longleftrightarrow> (\<exists>st now active rest st1.
     selectActiveManualScaling (c_r env) (pruned sa) now st = (Inr (Some active, rest), st1) \<and>
     \<not> (r_rejectManualScaledown (c_r env) \<and> ms_ProcessingUnits (ms_Spec active) < cur_pu sa) \<and>
     pu = fst (nextManualPU (c_r env) (pruned sa) active now) \<and> pu \<noteq> cur_pu sa)"

definition cpu_call :: "('w, 't, 'c) cenv \<Rightarrow> SpannerAutoscaler \<Rightarrow> gint \<Rightarrow> bool" where
  "cpu_call env sa pu \<longleftrightarrow> pu = DesiredProcessingUnits (r_gsv (c_r env)) (cpu_view sa) \<and>
     (\<exists>now. Decide (r_parse (c_r env)) (cpu_view sa) pu now (r_scaleUpInterval (c_r env)) (r_scaleDownInterval (c_r env))
              = (DecisionScale, None))"

lemma reconcile_scaling_calls:
  assumes "reconcile_scaling env upd sa st = (res, sa', st')"
  shows "update_calls st' = update_calls st \<or>
    (InstanceState (sa_Status sa) = InstanceStateReady \<and> cur_pu sa \<noteq> 0 \<and>
     (\<exists>pu e. update_calls st' = update_calls st @ [UpdateInstanceCall pu e] \<and>
        (manual_call env sa pu \<or> cpu_call env sa pu)))"
proof -
  obtain kept dropped where pr: "pruneActiveSchedules sa = (kept, dropped)" by fastforce
  define ch where "ch = (length dropped > 0)"
  have p: "(if length dropped > 0 then (upd_status (\<lambda>s. s\<lparr>CurrentlyActiveSchedules := kept\<rparr>) sa, True) else (sa, False))
      = (pruned sa, ch)"
    using pr pruned_same [of sa kept]
    by (auto simp: ch_def pruned_def upd_status_def pruneActiveSchedules_def pruneActiveSchedules_filter)
  show ?thesis
  proof (cases "InstanceState (sa_Status sa) = InstanceStateReady \<and> cur_pu sa \<noteq> 0")
    case False
    have "reconcile_scaling env upd sa st = ((0, None), pruned sa,
        metric (RecordScaleSkipped (LabelsForAutoscaler (pruned sa))
          (if InstanceState (sa_Status sa) \<noteq> InstanceStateReady then ''instance_not_ready'' else ''cpu_not_ready'')) st)"
      using False unfolding reconcile_scaling_def pr p Let_def prod.case by auto
    then show ?thesis using assms by auto
  next
    case True
    obtain rq handled err sa1 ch1 st1 where
      d: "dispatchManualScaling (c_r env) upd (pruned sa) ch dropped st = (Dispatch rq handled err, sa1, ch1, st1)"
      by (metis prod_cases4 manual_dispatch.exhaust)
    obtain now st0 where n: "clock_now (c_r env) st = (now, st0)" by fastforce
    obtain out sa2 ch2 st2 where r: "reconcileManualScaling (c_r env) upd now (pruned sa) ch st0 = (out, sa2, ch2, st2)"
      by (metis prod_cases4)
    note o = dispatch_outcome [OF d n r] and c0 = clock_now_calls [OF n]
    show ?thesis
    proof (cases "handled \<or> err \<noteq> None")
      case h: True
      then have "st' = st1" using assms pr p d True by (auto simp: reconcile_scaling_def)
      then show ?thesis using reconcile_calls [OF r] o c0 True unfolding manual_call_def by fastforce
    next
      case False
      then have "\<exists>dd. out = ManualOutcome False dd None" and e: "sa1 = sa2" "ch1 = ch2" "st1 = st2" using o by simp_all
      then obtain dd where out: "out = ManualOutcome False dd None" by blast
      have v: "sa2 = upd_status (\<lambda>s. s\<lparr>ActiveManualScaling := None\<rparr>) (pruned sa)"
        using reconcile_unhandled [OF r [unfolded out]] .
      have c: "update_calls st1 = update_calls st" using reconcile_calls [OF r] out o c0 by auto
      have "reconcile_cpu env upd dropped sa1 ch1 st1 = (res, sa', st')"
        using assms pr p d True False by (simp add: reconcile_scaling_def)
      from reconcile_cpu_calls [OF this] show ?thesis
        using c True unfolding cpu_call_def cpu_view_def e v calcDesiredProcessingUnits_def by auto
    qed
  qed
qed

lemma reconcile_found_calls:
  assumes "reconcile_found env nnsa sa reg st = (res, sa', reg', st')"
  shows "update_calls st' = update_calls st \<or>
    (InstanceState (sa_Status sa) = InstanceStateReady \<and> cur_pu sa \<noteq> 0 \<and> cr_syncers reg nnsa \<noteq> None \<and>
     (\<exists>pu e. update_calls st' = update_calls st @ [UpdateInstanceCall pu e] \<and>
        (manual_call env sa pu \<or> cpu_call env sa pu)))"
proof -
  obtain cr st1 where f: "fetchCredentials env sa st = (cr, st1)" by fastforce
  have c1: "update_calls st1 = update_calls st" using fetchCredentials_calls [OF f] .
  show ?thesis
  proof (cases cr)
    case (CredErr e)
    then show ?thesis using assms f c1 by (auto simp: reconcile_found_def)
  next
    case CredPanic
    then show ?thesis using assms f c1 by (auto simp: reconcile_found_def)
  next
    case (Cred credentials)
    show ?thesis
    proof (cases "\<exists>s. cr_syncers reg nnsa = Some s \<and> HasCredentials s credentials")
      case False
      then have "\<exists>reg1. replace_syncer env nnsa sa credentials reg1 st1 = (res, reg', st')"
        using assms f Cred
        by (auto simp: reconcile_found_def Let_def simp del: split_paired_Ex split: option.splits prod.splits)
      then show ?thesis using replace_syncer_calls c1 by metis
    next
      case True
      then obtain s where s: "cr_syncers reg nnsa = Some s" "HasCredentials s credentials" by blast
      obtain e2 reg2 st2 where k: "reconcile_crons env nnsa sa reg st1 = (e2, reg2, st2)" by (metis prod_cases3)
      have c2: "update_calls st2 = update_calls st" using reconcile_crons_calls [OF k] c1 by simp
      show ?thesis
      proof (cases e2)
        case (Some e)
        then show ?thesis using assms f Cred s k c2 by (simp add: reconcile_found_def)
      next
        case None
        then have "\<exists>res1 sa1. reconcile_scaling env (syncer_UpdateInstance (c_s env) s) sa st2 = (res1, sa1, st')"
          using assms f Cred s k by (auto simp: reconcile_found_def split: prod.splits)
        then obtain res1 sa1 where "reconcile_scaling env (syncer_UpdateInstance (c_s env) s) sa st2 = (res1, sa1, st')" by blast
        from reconcile_scaling_calls [OF this] show ?thesis using c2 s by auto
      qed
    qed
  qed
qed

lemma reconcile_calls_sound:
  assumes "AutoscalerReconcile env nnsa reg st = (res, reg', st')"
  shows "update_calls st' = update_calls st \<or>
    (\<exists>sa st1 pu e. kread (k_get_sa (r_kube (c_r env)) nnsa) st = (Inr sa, st1) \<and>
       InstanceState (sa_Status sa) = InstanceStateReady \<and> cur_pu sa \<noteq> 0 \<and> cr_syncers reg nnsa \<noteq> None \<and>
       update_calls st' = update_calls st @ [UpdateInstanceCall pu e] \<and>
       (manual_call env sa pu \<or> cpu_call env sa pu))"
proof -
  obtain x st1 where k: "kread (k_get_sa (r_kube (c_r env)) nnsa) st = (x, st1)" by fastforce
  have c1: "update_calls st1 = update_calls st" using update_calls_kread [OF k] .
  show ?thesis
  proof (cases x)
    case (Inl err)
    then have "st' = st1 \<or> (\<exists>reg1. updateLabelsCache nnsa None reg1 st1 = (reg', st'))"
      using assms k by (auto simp: AutoscalerReconcile_def reconcile_missing_def Let_def split: if_splits prod.splits)
    then show ?thesis using updateLabelsCache_calls c1 by metis
  next
    case (Inr sa)
    obtain reg2 st2 where u: "updateLabelsCache nnsa (Some sa) reg st1 = (reg2, st2)" by fastforce
    have sy: "cr_syncers reg2 = cr_syncers reg" using u by (auto simp: updateLabelsCache_def Let_def)
    obtain res3 sa3 reg3 st3 where r: "reconcile_found env nnsa sa reg2 st2 = (res3, sa3, reg3, st3)" by (metis prod_cases4)
    have "update_calls st' = update_calls st3" using assms k Inr u r by (auto simp: AutoscalerReconcile_def)
    then show ?thesis
      using reconcile_found_calls [OF r] updateLabelsCache_calls [OF u] c1 k Inr sy by auto
  qed
qed

section \<open>A sample controller\<close>

definition sample_cron_ops :: "cron_entry list cron_ops" where
  "sample_cron_ops = \<lparr>cron_New = [],
     cron_UpsertJob = (\<lambda>spec job name c.
       if spec = [] then (Some ''empty spec string'', c)
       else (None, filter (\<lambda>e. ce_Name e \<noteq> name) c @ [\<lparr>ce_Name = name, ce_Job = job\<rparr>])),
     cron_Entries = (\<lambda>c. c),
     cron_RemoveByName = (\<lambda>name c. filter (\<lambda>e. ce_Name e \<noteq> name) c)\<rparr>"

definition sample_cenv :: "(mem_world, unit, cron_entry list) cenv" where
  "sample_cenv = \<lparr>c_r = sample_renv, c_s = sample_senv,
     c_tok = \<lparr>tok_default = (\<lambda>w. (Inr (), w)), tok_json = (\<lambda>j w. (Inr (), w)), tok_impersonate = (\<lambda>p d t w. (Inr (), w))\<rparr>,
     c_dialSpanner = (\<lambda>opts w. (None, w)), c_dialMetrics = (\<lambda>opts w. (None, w)), c_cron = sample_cron_ops,
     c_spannerEndpoint = [], c_metricsEndpoint = [], c_spannerClientFactory = None, c_syncInterval = 0\<rparr>"

definition sample_nn :: NamespacedName where
  "sample_nn = \<lparr>nn_Namespace = ''ns'', nn_Name = ''sa''\<rparr>"

definition sample_reg :: "(unit, cron_entry list) creg" where
  "sample_reg = fst (snd (AutoscalerReconcile sample_cenv sample_nn NewRegistry (mem_state 9 [sample_sa] [] [])))"

section \<open>Properties\<close>



end
