(* ===== verification/Workers.thy ===== *)
theory Workers
  imports Autoscaler_Controller
begin

text \<open>
  The background workers of the autoscaler controller: over any sequence of reconciles the
  registries and the running goroutines agree, and what the cron scheduler of an autoscaler
  runs is what its status lists.
\<close>

section \<open>Background workers\<close>

text \<open>Which workers the maps say are running.\<close>

fun registered :: "('t, 'c) creg \<Rightarrow> worker \<Rightarrow> NamespacedName \<Rightarrow> bool" where
  "registered reg SyncerWorker nn = (cr_syncers reg nn \<noteq> None)"
| "registered reg CronWorker nn = (cr_crons reg nn \<noteq> None)"
| "registered reg ScheduleWorker nn = (cr_schedulers reg nn \<noteq> None)"

text \<open>
  Every worker was started once more than it was stopped when it is registered and as often
  as it was stopped when it is not: the registered workers are exactly the running ones, and
  there is at most one of each kind. A cron scheduler and a schedule worker come together.
\<close>

definition life_ok :: "('t, 'c) creg \<Rightarrow> worker \<Rightarrow> NamespacedName \<Rightarrow> bool" where
  "life_ok reg w nn \<longleftrightarrow> count_list (cr_life reg) (Start w nn) =
     count_list (cr_life reg) (Stop w nn) + (if registered reg w nn then 1 else 0)"

definition reg_ok :: "('t, 'c) creg \<Rightarrow> bool" where
  "reg_ok reg \<longleftrightarrow> (\<forall>w nn. life_ok reg w nn) \<and>
     (\<forall>nn. registered reg CronWorker nn \<longleftrightarrow> registered reg ScheduleWorker nn)"

text \<open>Two registries with the same log and the same registered workers.\<close>

definition same_workers :: "('t, 'c) creg \<Rightarrow> ('t, 'c) creg \<Rightarrow> bool" where
  "same_workers reg reg' \<longleftrightarrow> cr_life reg' = cr_life reg \<and> (\<forall>w nn. registered reg' w nn = registered reg w nn)"

lemma same_workers_ok: "same_workers reg reg' \<Longrightarrow> reg_ok reg \<Longrightarrow> reg_ok reg'"
  by (simp add: same_workers_def reg_ok_def life_ok_def del: registered.simps)

lemma same_workersI:
  "cr_life reg' = cr_life reg \<Longrightarrow> dom (cr_syncers reg') = dom (cr_syncers reg) \<Longrightarrow>
   dom (cr_crons reg') = dom (cr_crons reg) \<Longrightarrow> dom (cr_schedulers reg') = dom (cr_schedulers reg) \<Longrightarrow>
   same_workers reg reg'"
  unfolding same_workers_def by (auto simp: dom_def set_eq_iff elim!: registered.elims; metis registered.simps)

definition drop_syncer :: "NamespacedName \<Rightarrow> ('t, 'c) creg \<Rightarrow> ('t, 'c) creg" where
  "drop_syncer nn reg = (note_life (Stop SyncerWorker nn) reg)\<lparr>cr_syncers := (cr_syncers reg)(nn := None)\<rparr>"

lemma drop_syncer_ok:
  assumes "reg_ok reg" "cr_syncers reg nn \<noteq> None"
  shows "reg_ok (drop_syncer nn reg)" "cr_syncers (drop_syncer nn reg) nn = None"
proof -
  have "life_ok (drop_syncer nn reg) w nn'" for w nn'
    using assms by (cases w) (auto simp: reg_ok_def life_ok_def drop_syncer_def note_life_def
        split: if_splits dest!: spec [of _ SyncerWorker] spec [of _ CronWorker] spec [of _ ScheduleWorker])
  then show "reg_ok (drop_syncer nn reg)" using assms by (auto simp: reg_ok_def drop_syncer_def note_life_def)
  show "cr_syncers (drop_syncer nn reg) nn = None" by (simp add: drop_syncer_def)
qed


lemma updateLabelsCache_workers: "updateLabelsCache nn sa reg st = (reg', st') \<Longrightarrow> same_workers reg reg'"
  by (intro same_workersI) (auto simp: updateLabelsCache_def Let_def split: option.splits)

lemma startSyncer_ok:
  assumes "startSyncer env nn p i cr reg st = (e, reg', st')" "reg_ok reg" "cr_syncers reg nn = None"
  shows "reg_ok reg'"
proof -
  obtain r base st1 where t: "fetch_token env cr (cr_baseToken reg) st = (r, base, st1)" by (metis prod_cases3)
  define reg1 where "reg1 = reg\<lparr>cr_baseToken := base\<rparr>"
  have 1: "reg_ok reg1" "cr_syncers reg1 nn = None"
    using assms(3) same_workers_ok [OF same_workersI assms(2), of reg1] by (simp_all add: reg1_def)
  have "reg' = reg1 \<or> (\<exists>s. reg' = (note_life (Start SyncerWorker nn) reg1)\<lparr>cr_syncers := (cr_syncers reg1)(nn \<mapsto> s)\<rparr>)"
    using assms(1) t unfolding reg1_def
    by (auto simp: startSyncer_def Let_def note_life_def split: sum.splits prod.splits)
  then show ?thesis
  proof
    assume "\<exists>s. reg' = (note_life (Start SyncerWorker nn) reg1)\<lparr>cr_syncers := (cr_syncers reg1)(nn \<mapsto> s)\<rparr>"
    then obtain s where r': "reg' = (note_life (Start SyncerWorker nn) reg1)\<lparr>cr_syncers := (cr_syncers reg1)(nn \<mapsto> s)\<rparr>" ..
    have "life_ok reg' w nn'" for w nn'
      using 1 by (cases w) (auto simp: r' reg_ok_def life_ok_def note_life_def
          split: if_splits dest!: spec [of _ SyncerWorker] spec [of _ CronWorker] spec [of _ ScheduleWorker])
    then show ?thesis using 1 by (auto simp: r' reg_ok_def note_life_def)
  qed (use 1 in simp)
qed

lemma replace_syncer_ok:
  "replace_syncer env nn sa cr reg st = (res, reg', st') \<Longrightarrow> reg_ok reg \<Longrightarrow> cr_syncers reg nn = None \<Longrightarrow> reg_ok reg'"
  by (auto simp: replace_syncer_def Let_def split: option.splits prod.splits dest: startSyncer_ok)

lemma ensure_cron_ok:
  assumes "reg_ok reg"
  shows "reg_ok (ensure_cron env nn sa reg)"
proof (cases "cr_crons reg nn = None \<and> length (Schedules (sa_Status sa)) > 0")
  case False
  then show ?thesis using assms by (auto simp: ensure_cron_def)
next
  case True
  then have s: "cr_schedulers reg nn = None" using assms by (auto simp: reg_ok_def dest!: spec [of _ nn])
  have "life_ok (ensure_cron env nn sa reg) w nn'" for w nn'
    using True s assms by (cases w) (auto simp: ensure_cron_def reg_ok_def life_ok_def note_life_def Let_def
        split: if_splits dest!: spec [of _ SyncerWorker] spec [of _ CronWorker] spec [of _ ScheduleWorker])
  then show ?thesis using True assms by (auto simp: reg_ok_def ensure_cron_def note_life_def Let_def)
qed

lemma reconcile_crons_ok:
  assumes "reconcile_crons env nn sa reg st = (e, reg', st')" "reg_ok reg"
  shows "reg_ok reg'"
proof -
  let ?r = "ensure_cron env nn sa reg"
  have ok: "reg_ok ?r" using assms(2) by (rule ensure_cron_ok)
  show ?thesis
  proof (cases "cr_crons ?r nn")
    case None
    then show ?thesis using assms(1) ok by (simp add: reconcile_crons_def Let_def)
  next
    case (Some c)
    then have "\<exists>c'. reg' = ?r\<lparr>cr_crons := (cr_crons ?r)(nn \<mapsto> c')\<rparr>"
      using assms(1) by (auto simp: reconcile_crons_def Let_def split: option.splits prod.splits)
    then obtain c' where "reg' = ?r\<lparr>cr_crons := (cr_crons ?r)(nn \<mapsto> c')\<rparr>" ..
    then have "same_workers ?r reg'" using Some by (intro same_workersI) auto
    then show ?thesis using ok by (rule same_workers_ok)
  qed
qed

lemma reconcile_missing_ok:
  assumes "reconcile_missing nn reg st = (reg', st')" "reg_ok reg"
  shows "reg_ok reg'" "\<not> registered reg' w nn" "cr_labelsCache reg' nn = None"
proof -
  define reg1 where "reg1 = (if cr_syncers reg nn \<noteq> None then drop_syncer nn reg else reg)"
  have 1: "reg_ok reg1" "cr_syncers reg1 nn = None" "cr_crons reg1 = cr_crons reg" "cr_schedulers reg1 = cr_schedulers reg"
    using assms(2) drop_syncer_ok [of reg nn] by (auto simp: reg1_def drop_syncer_def note_life_def)
  define reg2 where "reg2 = (if cr_crons reg nn \<noteq> None
    then (note_life (Stop CronWorker nn) reg1)\<lparr>cr_crons := (cr_crons reg1)(nn := None)\<rparr> else reg1)"
  define reg3 where "reg3 = (if cr_schedulers reg nn \<noteq> None
    then (note_life (Stop ScheduleWorker nn) reg2)\<lparr>cr_schedulers := (cr_schedulers reg2)(nn := None)\<rparr> else reg2)"
  have u: "updateLabelsCache nn None reg3 st = (reg', st')"
    using assms(1) unfolding reg3_def reg2_def reg1_def drop_syncer_def
    by (auto simp: reconcile_missing_def Let_def note_life_def)
  have both: "cr_crons reg nn = None \<longleftrightarrow> cr_schedulers reg nn = None"
    using assms(2) by (auto simp: reg_ok_def dest!: spec [of _ nn])
  have "life_ok reg3 w nn'" for w nn'
    using 1 by (cases w) (auto simp: reg3_def reg2_def reg_ok_def life_ok_def note_life_def
        split: if_splits dest!: spec [of _ SyncerWorker] spec [of _ CronWorker] spec [of _ ScheduleWorker])
  moreover have "registered reg3 CronWorker nn' \<longleftrightarrow> registered reg3 ScheduleWorker nn'" for nn'
    using 1 both by (auto simp: reg3_def reg2_def reg_ok_def note_life_def)
  ultimately have "reg_ok reg3" by (simp add: reg_ok_def del: registered.simps)
  then show "reg_ok reg'" using updateLabelsCache_workers [OF u] by (rule same_workers_ok [rotated])
  have "\<not> registered reg3 w nn" using 1 both by (cases w) (auto simp: reg3_def reg2_def note_life_def)
  then show "\<not> registered reg' w nn" using updateLabelsCache_workers [OF u] by (simp add: same_workers_def)
  show "cr_labelsCache reg' nn = None" using u by (auto simp: updateLabelsCache_def split: option.splits)
qed

lemma reconcile_found_ok:
  assumes "reconcile_found env nn sa reg st = (res, sa', reg', st')" "reg_ok reg"
  shows "reg_ok reg'"
proof -
  obtain cr st1 where f: "fetchCredentials env sa st = (cr, st1)" by fastforce
  show ?thesis
  proof (cases cr)
    case (CredErr e)
    then show ?thesis using assms f by (auto simp: reconcile_found_def)
  next
    case CredPanic
    then show ?thesis using assms f by (auto simp: reconcile_found_def)
  next
    case (Cred credentials)
    show ?thesis
    proof (cases "cr_syncers reg nn")
      case None
      then have "replace_syncer env nn sa credentials reg st1 = (res, reg', st')"
        using assms(1) f Cred by (auto simp: reconcile_found_def split: prod.splits)
      then show ?thesis using assms(2) None by (rule replace_syncer_ok)
    next
      case (Some s)
      show ?thesis
      proof (cases "HasCredentials s credentials")
        case False
        then have "replace_syncer env nn sa credentials (drop_syncer nn reg) st1 = (res, reg', st')"
          using assms(1) f Cred Some by (auto simp: reconcile_found_def drop_syncer_def Let_def split: prod.splits)
        then show ?thesis using drop_syncer_ok [OF assms(2)] Some by (auto intro: replace_syncer_ok)
      next
        case True
        obtain e2 reg2 st2 where k: "reconcile_crons env nn sa reg st1 = (e2, reg2, st2)" by (metis prod_cases3)
        have "reg' = reg2"
          using assms(1) f Cred Some True k by (cases e2) (auto simp: reconcile_found_def split: prod.splits)
        then show ?thesis using reconcile_crons_ok [OF k assms(2)] by simp
      qed
    qed
  qed
qed

lemma AutoscalerReconcile_ok:
  assumes "AutoscalerReconcile env nn reg st = (res, reg', st')" "reg_ok reg"
  shows "reg_ok reg'"
proof -
  obtain x st1 where k: "kread (k_get_sa (r_kube (c_r env)) nn) st = (x, st1)" by fastforce
  show ?thesis
  proof (cases x)
    case (Inl err)
    then have "reg' = reg \<or> (\<exists>st2. reconcile_missing nn reg st1 = (reg', st2))"
      using assms(1) k by (auto simp: AutoscalerReconcile_def split: if_splits prod.splits)
    then show ?thesis using assms(2) reconcile_missing_ok(1) by blast
  next
    case (Inr sa)
    obtain reg2 st2 where u: "updateLabelsCache nn (Some sa) reg st1 = (reg2, st2)" by fastforce
    obtain res3 sa3 reg3 st3 where r: "reconcile_found env nn sa reg2 st2 = (res3, sa3, reg3, st3)" by (metis prod_cases4)
    have "reg' = reg3" using assms(1) k Inr u r by (auto simp: AutoscalerReconcile_def)
    then show ?thesis
      using reconcile_found_ok [OF r] same_workers_ok [OF updateLabelsCache_workers [OF u] assms(2)] by simp
  qed
qed

text \<open>
  The registries a controller can reach: any sequence of reconciles, each in any state of
  the world.
\<close>

inductive reachable_reg :: "('w, 't, 'c) cenv \<Rightarrow> ('t, 'c) creg \<Rightarrow> bool" for env where
  reg_new: "reachable_reg env NewRegistry"
| reg_step: "reachable_reg env reg \<Longrightarrow> AutoscalerReconcile env nn reg st = (res, reg', st') \<Longrightarrow> reachable_reg env reg'"

lemma registered_new: "registered NewRegistry w nn \<longleftrightarrow> False"
  by (cases w) (simp_all add: NewRegistry_def)

lemma NewRegistry_life: "cr_life NewRegistry = []"
  by (simp add: NewRegistry_def)

lemma reachable_reg_ok: "reachable_reg env reg \<Longrightarrow> reg_ok reg"
proof (induction rule: reachable_reg.induct)
  case reg_new
  show ?case unfolding reg_ok_def life_ok_def by (simp add: registered_new NewRegistry_life del: registered.simps)
next
  case (reg_step reg nn st res reg' st')
  then show ?case by (blast intro: AutoscalerReconcile_ok)
qed

section \<open>Cron jobs\<close>

text \<open>
  What is relied on of the go-cron library: \<^verbatim>\<open>UpsertJob\<close> with a valid expression replaces the
  entry of the given name, with an invalid one it fails and changes nothing;
  \<^verbatim>\<open>RemoveByName\<close> removes the entries of that name; a new scheduler has none.
\<close>

definition cron_ops_ok :: "'c cron_ops \<Rightarrow> (string \<Rightarrow> bool) \<Rightarrow> bool" where
  "cron_ops_ok ops valid \<longleftrightarrow>
     (\<forall>spec job name c e c'. cron_UpsertJob ops spec job name c = (e, c') \<longrightarrow>
        (if valid spec
         then e = None \<and> set (cron_Entries ops c') =
                insert \<lparr>ce_Name = name, ce_Job = job\<rparr> {x \<in> set (cron_Entries ops c). ce_Name x \<noteq> name}
         else e \<noteq> None \<and> set (cron_Entries ops c') = set (cron_Entries ops c))) \<and>
     (\<forall>name c. set (cron_Entries ops (cron_RemoveByName ops name c)) = {x \<in> set (cron_Entries ops c). ce_Name x \<noteq> name}) \<and>
     set (cron_Entries ops (cron_New ops)) = {}"

definition named :: "cron_entry \<Rightarrow> bool" where
  "named x \<longleftrightarrow> ce_Name x = nn_String (job_ScheduleName (ce_Job x))"

text \<open>The entry of a schedule that is listed as \<open>v\<close>.\<close>

definition cron_of :: "SpannerAutoscaleSchedule \<Rightarrow> string" where
  "cron_of sas = sched_Cron (sas_Schedule (sas_Spec sas))"

definition entry_of :: "SpannerAutoscaler \<Rightarrow> (string \<Rightarrow> SpannerAutoscaleSchedule) \<Rightarrow> string \<Rightarrow> cron_entry" where
  "entry_of sa sched v = \<lparr>ce_Name = v,
     ce_Job = \<lparr>job_ScheduleName = parseNamespacedName v (om_Namespace (sa_Meta sa)),
               job_AutoscalerName = object_key (sa_Meta sa), job_Cron = cron_of (sched v)\<rparr>\<rparr>"

text \<open>
  The schedules \<open>vs\<close> are listed by their full names, and \<open>sched v\<close> is what the API server
  answers to the read of the one listed as \<open>v\<close>: the object or an error. The schedules before
  the first that cannot be read are the ones \<^verbatim>\<open>addCronJob\<close> gets to.
\<close>

definition served ::
    "('w, 't, 'c) cenv \<Rightarrow> SpannerAutoscaler \<Rightarrow> (string \<Rightarrow> kube_err + SpannerAutoscaleSchedule) \<Rightarrow> string list \<Rightarrow> bool" where
  "served env sa sched vs \<longleftrightarrow>
     (\<forall>v \<in> set vs. nn_String (parseNamespacedName v (om_Namespace (sa_Meta sa))) = v \<and>
        (\<forall>st. fst (kread (k_get_sas (r_kube (c_r env)) (parseNamespacedName v (om_Namespace (sa_Meta sa)))) st)
                = sched v))"

definition readable_prefix :: "(string \<Rightarrow> kube_err + SpannerAutoscaleSchedule) \<Rightarrow> string list \<Rightarrow> string list" where
  "readable_prefix sched vs = takeWhile (\<lambda>v. \<exists>sas. sched v = Inr sas) vs"

text \<open>The entries after the jobs of the schedules \<open>vs\<close> were upserted: those with a valid expression are replaced.\<close>

definition upserted ::
    "SpannerAutoscaler \<Rightarrow> (string \<Rightarrow> SpannerAutoscaleSchedule) \<Rightarrow> (string \<Rightarrow> bool) \<Rightarrow> string list \<Rightarrow> cron_entry set \<Rightarrow> cron_entry set" where
  "upserted sa s valid vs E =
     entry_of sa s ` {v \<in> set vs. valid (cron_of (s v))} \<union> {x \<in> E. \<not> (ce_Name x \<in> set vs \<and> valid (cron_of (s (ce_Name x))))}"

lemma upserted_Cons:
  "upserted sa s valid (v # vs) E =
     upserted sa s valid vs (if valid (cron_of (s v)) then insert (entry_of sa s v) {x \<in> E. ce_Name x \<noteq> v} else E)"
proof -
  have "ce_Name (entry_of sa s w) = w" for w by (simp add: entry_of_def)
  then show ?thesis by (auto simp: upserted_def)
qed

lemma addCronJob_entries:
  assumes "cron_ops_ok (c_cron env) valid"
  shows "served env sa sched vs \<Longrightarrow> addCronJob_loop env sa vs c st = (e, c', st') \<Longrightarrow>
     set (cron_Entries (c_cron env) c') =
       upserted sa (\<lambda>v. projr (sched v)) valid (readable_prefix sched vs) (set (cron_Entries (c_cron env) c)) \<and>
     (if readable_prefix sched vs = vs then e = None
      else sched (vs ! length (readable_prefix sched vs)) = Inl (the e) \<and> e \<noteq> None)"
proof (induction vs arbitrary: c st)
  case Nil
  then show ?case by (simp add: readable_prefix_def upserted_def)
next
  case (Cons v vs)
  let ?nn = "parseNamespacedName v (om_Namespace (sa_Meta sa))" and ?E = "\<lambda>c. set (cron_Entries (c_cron env) c)"
  let ?s = "\<lambda>v. projr (sched v)"
  have nn: "nn_String ?nn = v" using Cons.prems(1) by (simp add: served_def)
  obtain st1 where k: "kread (k_get_sas (r_kube (c_r env)) ?nn) st = (sched v, st1)"
    using Cons.prems(1) by (metis served_def list.set_intros(1) prod.collapse)
  show ?case
  proof (cases "sched v")
    case (Inl err)
    then show ?thesis using Cons.prems(2) k by (auto simp: readable_prefix_def upserted_def)
  next
    case (Inr sas)
    then have pre: "readable_prefix sched (v # vs) = v # readable_prefix sched vs" by (simp add: readable_prefix_def)
    obtain e1 c1 where u: "cron_UpsertJob (c_cron env) (cron_of sas) (ce_Job (entry_of sa ?s v)) v c = (e1, c1)"
      by fastforce
    have "\<exists>st2. addCronJob_loop env sa vs c1 st2 = (e, c', st')"
      using Cons.prems(2) k u nn Inr by (cases e1) (auto simp: entry_of_def cron_of_def Let_def)
    then have ih: "?E c' = upserted sa ?s valid (readable_prefix sched vs) (?E c1) \<and>
        (if readable_prefix sched vs = vs then e = None
         else sched (vs ! length (readable_prefix sched vs)) = Inl (the e) \<and> e \<noteq> None)"
      using Cons.IH Cons.prems(1) by (auto simp: served_def)
    have "?E c1 = (if valid (cron_of (?s v)) then insert (entry_of sa ?s v) {x \<in> ?E c. ce_Name x \<noteq> v} else ?E c)"
      using assms u Inr unfolding cron_ops_ok_def by (auto simp: entry_of_def)
    then show ?thesis using ih pre by (simp add: upserted_Cons)
  qed
qed

lemma pruneCronJobs_entries:
  assumes "cron_ops_ok ops valid"
  shows "set (cron_Entries ops (pruneCronJobs_loop ops names es c)) =
     {x \<in> set (cron_Entries ops c). \<forall>e \<in> set es. nn_String (job_ScheduleName (ce_Job e)) \<notin> set names \<longrightarrow>
        ce_Name e \<noteq> [] \<longrightarrow> ce_Name x \<noteq> ce_Name e}"
proof (induction es arbitrary: c)
  case (Cons e es)
  have "set (cron_Entries ops (cron_RemoveByName ops n c)) = {x \<in> set (cron_Entries ops c). ce_Name x \<noteq> n}" for n c
    using assms by (simp add: cron_ops_ok_def)
  then show ?case using Cons by (auto simp: findInArray_found)
qed simp

lemma upserted_named:
  assumes "served env sa sched vs" "set ps \<subseteq> set vs" "\<forall>x \<in> E. named x" "x \<in> upserted sa s valid ps E"
  shows "named x"
proof -
  have "named (entry_of sa s v)" if "v \<in> set vs" for v using assms(1) that by (simp add: served_def named_def entry_of_def)
  then show ?thesis using assms(2-4) unfolding upserted_def by blast
qed

lemma prune_named:
  assumes "cron_ops_ok ops valid" "\<forall>x \<in> set (cron_Entries ops c). named x"
  shows "set (cron_Entries ops (pruneCronJobs ops sa c)) =
     {x \<in> set (cron_Entries ops c). ce_Name x \<in> set (Schedules (sa_Status sa))}"
proof -
  have "ce_Name x \<noteq> []" if "x \<in> set (cron_Entries ops c)" for x
    using that assms(2) by (auto simp: named_def nn_String_def)
  then show ?thesis
    using assms(2) unfolding pruneCronJobs_def pruneCronJobs_entries [OF assms(1)] named_def by auto
qed

lemma reconcile_crons_entries:
  assumes "cron_ops_ok (c_cron env) valid" "served env sa sched (Schedules (sa_Status sa))"
    and "case cr_crons reg nn of None \<Rightarrow> E = {} | Some c \<Rightarrow> E = set (cron_Entries (c_cron env) c)" "\<forall>x \<in> E. named x"
    and "reconcile_crons env nn sa reg st = (e, reg', st')" "cr_crons reg' nn = Some c'"
  shows "(let vs = Schedules (sa_Status sa); ps = readable_prefix sched vs; s = (\<lambda>v. projr (sched v))
     in if ps = vs
        then e = None \<and> set (cron_Entries (c_cron env) c') =
          entry_of sa s ` {v \<in> set vs. valid (cron_of (s v))} \<union>
          {x \<in> E. ce_Name x \<in> set vs \<and> \<not> valid (cron_of (s (ce_Name x)))}
        else (\<exists>err. e = Some err \<and> sched (vs ! length ps) = Inl err) \<and> set (cron_Entries (c_cron env) c') =
          entry_of sa s ` {v \<in> set ps. valid (cron_of (s v))} \<union>
          {x \<in> E. \<not> (ce_Name x \<in> set ps \<and> valid (cron_of (s (ce_Name x))))})"
proof -
  let ?ops = "c_cron env" and ?vs = "Schedules (sa_Status sa)" and ?s = "\<lambda>v. projr (sched v)"
  let ?ps = "readable_prefix sched ?vs"
  obtain c where c: "cr_crons (ensure_cron env nn sa reg) nn = Some c" "E = set (cron_Entries ?ops c)"
  proof (cases "cr_crons reg nn")
    case None
    have "cr_crons (ensure_cron env nn sa reg) nn = Some (cron_New ?ops)"
      using assms(5,6) None by (auto simp: ensure_cron_def reconcile_crons_def note_life_def Let_def split: if_splits)
    then show ?thesis using that None assms(1,3) by (auto simp: cron_ops_ok_def)
  next
    case (Some c0)
    then show ?thesis using that assms(3) by (simp add: ensure_cron_def)
  qed
  obtain e1 c1 st1 where a: "addCronJob env sa c st = (e1, c1, st1)" by (metis prod_cases3)
  note add = addCronJob_entries [OF assms(1,2) a [unfolded addCronJob_def], folded c(2)]
  have e: "e = e1" "c' = (if e1 = None then pruneCronJobs ?ops sa c1 else c1)"
    using assms(5,6) c(1) a by (cases e1; auto simp: reconcile_crons_def Let_def)+
  show ?thesis
  proof (cases "?ps = ?vs")
    case True
    then have e1: "e1 = None" and E1: "set (cron_Entries ?ops c1) = upserted sa ?s valid ?vs E" using add by auto
    have "\<forall>x \<in> set (cron_Entries ?ops c1). named x"
      using upserted_named [OF assms(2) subset_refl assms(4)] E1 by blast
    from prune_named [OF assms(1) this] have "set (cron_Entries ?ops c') =
        {x \<in> upserted sa ?s valid ?vs E. ce_Name x \<in> set ?vs}" using e e1 E1 by simp
    also have "\<dots> = entry_of sa ?s ` {v \<in> set ?vs. valid (cron_of (?s v))} \<union>
        {x \<in> E. ce_Name x \<in> set ?vs \<and> \<not> valid (cron_of (?s (ce_Name x)))}"
      by (auto simp: upserted_def entry_of_def)
    finally show ?thesis using True e(1) e1 by (simp add: Let_def)
  next
    case False
    then obtain err where "e1 = Some err" "sched (?vs ! length ?ps) = Inl err" using add by auto
    then show ?thesis using False e add by (simp add: upserted_def Let_def)
  qed
qed

section \<open>Properties\<close>

text \<open>
  C25. No worker leaks and none runs twice: after any sequence of reconciles, whatever the API
  server and the Google APIs answered, each syncer, cron scheduler and schedule worker was
  started exactly once more than it was stopped if it is registered, and equally often if it
  is not; cron schedulers and schedule workers are registered together; and once a reconcile
  finds that an autoscaler does not exist, none of its workers is running.
\<close>

theorem workers_registered:
  assumes "reachable_reg env reg"
  shows "count_list (cr_life reg) (Start w nn) =
           count_list (cr_life reg) (Stop w nn) + (if registered reg w nn then 1 else 0) \<and>
         (registered reg CronWorker nn \<longleftrightarrow> registered reg ScheduleWorker nn) \<and>
         (\<forall>st st1 res reg' st'. kread (k_get_sa (r_kube (c_r env)) nn) st = (Inl ErrNotFound, st1) \<longrightarrow>
            AutoscalerReconcile env nn reg st = (res, reg', st') \<longrightarrow>
            count_list (cr_life reg') (Start w nn) = count_list (cr_life reg') (Stop w nn))"
proof -
  have ok: "reg_ok reg" using assms by (rule reachable_reg_ok)
  have "count_list (cr_life reg') (Start w nn) = count_list (cr_life reg') (Stop w nn)"
    if "kread (k_get_sa (r_kube (c_r env)) nn) st = (Inl ErrNotFound, st1)"
      "AutoscalerReconcile env nn reg st = (res, reg', st')" for st st1 res reg' st'
  proof -
    have "reconcile_missing nn reg st1 = (reg', st')"
      using that by (auto simp: AutoscalerReconcile_def IsNotFound_def split: prod.splits)
    note m = reconcile_missing_ok [OF this ok]
    show ?thesis using m(1) m(2) [of w] unfolding reg_ok_def life_ok_def by simp
  qed
  then show ?thesis using ok unfolding reg_ok_def life_ok_def by blast
qed

theorem workers_registered_witness:
  "count_list (cr_life sample_reg) (Start SyncerWorker sample_nn) = 1"
proof -
  let ?R = "AutoscalerReconcile sample_cenv sample_nn NewRegistry (mem_state 9 [sample_sa] [] [])"
  obtain res reg' st' where R: "?R = (res, reg', st')" by (metis prod_cases3)
  have "reachable_reg sample_cenv sample_reg"
    using reg_step [OF reg_new R] R by (simp add: sample_reg_def)
  moreover have "registered sample_reg SyncerWorker sample_nn" "count_list (cr_life sample_reg) (Stop SyncerWorker sample_nn) = 0"
    by code_simp+
  ultimately show ?thesis using workers_registered [of sample_cenv sample_reg SyncerWorker sample_nn] by simp
qed

text \<open>
  C26. The cron jobs of an autoscaler against the list of schedules in its status, when the
  jobs so far carry the names of their schedules. If every listed schedule can be read, then
  after the cron part of a reconcile the running jobs are exactly one job per listed schedule
  with a valid expression, with the expression as it is now, and the previous job of a listed
  schedule whose expression is now invalid; jobs of schedules that are no longer listed are
  gone. Otherwise the first schedule that cannot be read ends it with that error: only the
  schedules listed before it are brought up to date, the jobs of all others stay as they were,
  those of schedules that are no longer listed included.
\<close>

theorem cron_jobs_refine_status:
  assumes "cron_ops_ok (c_cron env) valid" "served env sa sched (Schedules (sa_Status sa))"
    and "case cr_crons reg nn of None \<Rightarrow> E = {} | Some c \<Rightarrow> E = set (cron_Entries (c_cron env) c)" "\<forall>x \<in> E. named x"
    and "reconcile_crons env nn sa reg st = (e, reg', st')" "cr_crons reg' nn = Some c'"
  shows "(let vs = Schedules (sa_Status sa); ps = readable_prefix sched vs; s = (\<lambda>v. projr (sched v))
     in if ps = vs
        then e = None \<and> set (cron_Entries (c_cron env) c') =
          entry_of sa s ` {v \<in> set vs. valid (cron_of (s v))} \<union>
          {x \<in> E. ce_Name x \<in> set vs \<and> \<not> valid (cron_of (s (ce_Name x)))}
        else (\<exists>err. e = Some err \<and> sched (vs ! length ps) = Inl err) \<and> set (cron_Entries (c_cron env) c') =
          entry_of sa s ` {v \<in> set ps. valid (cron_of (s v))} \<union>
          {x \<in> E. \<not> (ce_Name x \<in> set ps \<and> valid (cron_of (s (ce_Name x))))})"
  using reconcile_crons_entries [OF assms] .

text \<open>A server that has the schedule \<open>ns/s\<close> only.\<close>

definition const_kube :: "SpannerAutoscaleSchedule \<Rightarrow> mem_world kube" where
  "const_kube sas = mem_kube\<lparr>k_get_sas := (\<lambda>n w. (if nn_Name n = ''s'' then Inr sas else Inl ErrNotFound, w))\<rparr>"

definition const_cenv :: "SpannerAutoscaleSchedule \<Rightarrow> (mem_world, unit, cron_entry list) cenv" where
  "const_cenv sas = sample_cenv\<lparr>c_r := sample_renv\<lparr>r_kube := const_kube sas\<rparr>\<rparr>"

lemma sample_cron_ops_ok: "cron_ops_ok sample_cron_ops (\<lambda>spec. spec \<noteq> [])"
  by (auto simp: cron_ops_ok_def sample_cron_ops_def)

theorem cron_jobs_refine_status_witness:
  "let sa = set_schedules [''ns/s'', ''ns/t''] sample_sa;
       (e, reg', st') = reconcile_crons (const_cenv sample_sas) sample_nn sa sample_reg (mem_state 9 [] [] [])
   in e = Some ErrNotFound \<and> (\<exists>c. cr_crons reg' sample_nn = Some c \<and> set c = {entry_of sa (\<lambda>v. sample_sas) ''ns/s''})"
proof -
  define sa where "sa = set_schedules [''ns/s'', ''ns/t''] sample_sa"
  define sched where "sched = (\<lambda>v. if v = ''ns/s'' then Inr sample_sas else Inl ErrNotFound)"
  let ?env = "const_cenv sample_sas" and ?st = "mem_state 9 [] [] []"
  obtain e reg' st' where R: "reconcile_crons ?env sample_nn sa sample_reg ?st = (e, reg', st')" by (metis prod_cases3)
  have "cr_crons (fst (snd (reconcile_crons ?env sample_nn sa sample_reg ?st))) sample_nn \<noteq> None"
    unfolding sa_def by code_simp
  then obtain c where c: "cr_crons reg' sample_nn = Some c" using R by auto
  have o: "c_cron ?env = sample_cron_ops" by (simp add: const_cenv_def sample_cenv_def)
  have vs: "Schedules (sa_Status sa) = [''ns/s'', ''ns/t'']" by (simp add: sa_def set_schedules_def)
  have r: "served ?env sa sched (Schedules (sa_Status sa))"
    unfolding vs
    by (simp add: served_def sched_def const_cenv_def const_kube_def kread_def parseNamespacedName_def nn_String_def Let_def)
  have p: "readable_prefix sched (Schedules (sa_Status sa)) = [''ns/s'']"
    unfolding vs by (simp add: readable_prefix_def sched_def)
  have n: "cr_crons sample_reg sample_nn = None" by code_simp
  have s: "sched ''ns/t'' = Inl ErrNotFound" "(\<lambda>v. projr (sched v)) ''ns/s'' = sample_sas" "cron_of sample_sas \<noteq> []"
    by (simp_all add: sched_def cron_of_def sample_sas_def)
  have "e = Some ErrNotFound" "set (cron_Entries sample_cron_ops c) = {entry_of sa (\<lambda>v. projr (sched v)) ''ns/s''}"
    using cron_jobs_refine_status [OF sample_cron_ops_ok [folded o] r _ _ R c, of "{}"] n o s p vs
    by (auto simp: Let_def)
  moreover have "entry_of sa (\<lambda>v. projr (sched v)) ''ns/s'' = entry_of sa (\<lambda>v. sample_sas) ''ns/s''"
    using s(2) by (simp add: entry_of_def)
  ultimately show ?thesis
    using c R unfolding Let_def sa_def [symmetric] by (simp add: sample_cron_ops_def)
qed

end
