(* ===== verification/Conversion.thy ===== *)
theory Conversion
  imports Api_Types
begin

text \<open>
  The deprecated version of the autoscaler resource, \<^verbatim>\<open>api/v1alpha1/spannerautoscaler_types.go\<close>,
  and its conversion to and from the stored version v1beta1,
  \<^verbatim>\<open>api/v1alpha1/spannerautoscaler_conversion.go\<close>.

  Both conversions write into an object they are given, so they are functions of the source
  and of that object. Dereferencing a nil pointer panics: a conversion that panics is \<open>None\<close>.
  The integers of v1alpha1 are \<^verbatim>\<open>int32\<close> and those of v1beta1 are \<^verbatim>\<open>int\<close>; the narrowing
  conversions of \<^verbatim>\<open>ConvertFrom\<close> are \<open>wrap32\<close>, and the widening ones do nothing.
\<close>

section \<open>Types of v1alpha1\<close>

record ScaleTargetRef =
  str_ProjectID :: "string option"
  str_InstanceID :: "string option"

record ServiceAccountSecretRef =
  ssr_Name :: "string option"
  ssr_Namespace :: "string option"
  ssr_Key :: "string option"

record v1alpha1_ImpersonateConfig =
  aic_TargetServiceAccount :: string
  aic_Delegates :: "string list"

record v1alpha1_TargetCPUUtilization =
  acpu_HighPriority :: "gint option"

record v1alpha1_SpannerAutoscalerSpec =
  a_ScaleTargetRef :: ScaleTargetRef
  a_ServiceAccountSecretRef :: "ServiceAccountSecretRef option"
  a_ImpersonateConfig :: "v1alpha1_ImpersonateConfig option"
  a_MinNodes :: "gint option"
  a_MaxNodes :: "gint option"
  a_MinProcessingUnits :: "gint option"
  a_MaxProcessingUnits :: "gint option"
  a_MaxScaleDownNodes :: "gint option"
  a_TargetCPUUtilization :: v1alpha1_TargetCPUUtilization

datatype v1alpha1_InstanceState =
    A_InstanceStateUnspecified
  | A_InstanceStateCreating
  | A_InstanceStateReady
  | A_InstanceState_other string

record v1alpha1_SpannerAutoscalerStatus =
  a_LastScaleTime :: "time option"
  a_LastSyncTime :: "time option"
  a_CurrentNodes :: "gint option"
  a_CurrentProcessingUnits :: "gint option"
  a_DesiredNodes :: "gint option"
  a_DesiredProcessingUnits :: "gint option"
  a_InstanceState :: v1alpha1_InstanceState
  a_CurrentHighPriorityCPUUtilization :: "gint option"

record v1alpha1_SpannerAutoscaler =
  a_Meta :: ObjectMeta
  a_Spec :: v1alpha1_SpannerAutoscalerSpec
  a_Status :: v1alpha1_SpannerAutoscalerStatus

section \<open>From v1alpha1 to v1beta1\<close>

text \<open>Both versions give their states the same strings, so a Go string conversion maps them.\<close>

fun state_to_beta :: "v1alpha1_InstanceState \<Rightarrow> InstanceState" where
  "state_to_beta A_InstanceStateUnspecified = InstanceStateUnspecified"
| "state_to_beta A_InstanceStateCreating = InstanceStateCreating"
| "state_to_beta A_InstanceStateReady = InstanceStateReady"
| "state_to_beta (A_InstanceState_other s) = InstanceState_other s"

fun state_to_alpha :: "InstanceState \<Rightarrow> v1alpha1_InstanceState" where
  "state_to_alpha InstanceStateUnspecified = A_InstanceStateUnspecified"
| "state_to_alpha InstanceStateCreating = A_InstanceStateCreating"
| "state_to_alpha InstanceStateReady = A_InstanceStateReady"
| "state_to_alpha (InstanceState_other s) = A_InstanceState_other s"

text \<open>The zero values of the structs the conversion starts from.\<close>

definition zero_auth :: Authentication where
  "zero_auth = \<lparr>auth_Type = AuthType_other [], auth_ImpersonateConfig = None, auth_IAMKeySecret = None\<rparr>"

definition zero_scaleConfig :: ScaleConfig where
  "zero_scaleConfig = \<lparr>sc_ComputeType = ComputeType_other [],
     sc_Nodes = \<lparr>nodes_Min = 0, nodes_Max = 0\<rparr>, sc_ProcessingUnits = \<lparr>pus_Min = 0, pus_Max = 0\<rparr>,
     sc_ScaledownStepSize = intstr_zero, sc_ScaledownInterval = None,
     sc_ScaleupStepSize = intstr_zero, sc_ScaleupInterval = None,
     sc_ScaledownAllowedTimes = [], sc_ScaledownNotAllowedTimes = [],
     sc_TargetCPUUtilization = \<lparr>cpu_HighPriority = None, cpu_Total = None\<rparr>\<rparr>"

definition to_auth :: "v1alpha1_SpannerAutoscalerSpec \<Rightarrow> Authentication option" where
  "to_auth s =
     (let auth = zero_auth;
          auth = (case a_ImpersonateConfig s of None \<Rightarrow> auth
            | Some c \<Rightarrow> auth\<lparr>auth_Type := AuthTypeImpersonation,
                auth_ImpersonateConfig := Some \<lparr>ic_TargetServiceAccount = aic_TargetServiceAccount c,
                  ic_Delegates = aic_Delegates c\<rparr>\<rparr>)
      in case a_ServiceAccountSecretRef s of None \<Rightarrow> Some auth
         | Some r \<Rightarrow> (case (ssr_Name r, ssr_Key r) of
             (Some name, Some key) \<Rightarrow>
               Some (auth\<lparr>auth_Type := AuthTypeSA,
                 auth_IAMKeySecret := Some \<lparr>iks_Name = name,
                   iks_Namespace = (case ssr_Namespace r of
                      Some ns \<Rightarrow> if ns \<noteq> [] then ns else [] | None \<Rightarrow> []),
                   iks_Key = key\<rparr>\<rparr>)
           | _ \<Rightarrow> None))"

definition both_at_least :: "gint \<Rightarrow> gint option \<Rightarrow> gint option \<Rightarrow> (gint \<times> gint) option" where
  "both_at_least k lo hi =
     (case (lo, hi) of (Some l, Some h) \<Rightarrow> if k \<le> l \<and> k \<le> h then Some (l, h) else None | _ \<Rightarrow> None)"

definition to_scaleConfig :: "v1alpha1_SpannerAutoscalerSpec \<Rightarrow> ScaleConfig option" where
  "to_scaleConfig s =
     (let sc = zero_scaleConfig;
          sc = (case both_at_least 1 (a_MinNodes s) (a_MaxNodes s) of None \<Rightarrow> sc
            | Some (l, h) \<Rightarrow> sc\<lparr>sc_ComputeType := ComputeTypeNode,
                sc_Nodes := \<lparr>nodes_Min = l, nodes_Max = h\<rparr>\<rparr>);
          sc = (case both_at_least 100 (a_MinProcessingUnits s) (a_MaxProcessingUnits s) of None \<Rightarrow> sc
            | Some (l, h) \<Rightarrow> sc\<lparr>sc_ComputeType := ComputeTypePU,
                sc_ProcessingUnits := \<lparr>pus_Min = l, pus_Max = h\<rparr>\<rparr>);
          sc = (case a_MaxScaleDownNodes s of None \<Rightarrow> sc
            | Some n \<Rightarrow> sc\<lparr>sc_ScaledownStepSize := intstr_FromInt (gmul n 1000)\<rparr>)
      in case acpu_HighPriority (a_TargetCPUUtilization s) of None \<Rightarrow> None
         | Some hp \<Rightarrow> Some (sc\<lparr>sc_TargetCPUUtilization := \<lparr>cpu_HighPriority = Some hp, cpu_Total = None\<rparr>\<rparr>))"

definition time_or :: "time \<Rightarrow> time option \<Rightarrow> time" where
  "time_or d t = (case t of Some u \<Rightarrow> if u \<noteq> 0 then u else d | None \<Rightarrow> d)"

definition int_or :: "gint \<Rightarrow> gint option \<Rightarrow> gint" where
  "int_or d x = (case x of Some v \<Rightarrow> v | None \<Rightarrow> d)"

definition to_status :: "v1alpha1_SpannerAutoscalerStatus \<Rightarrow> SpannerAutoscalerStatus \<Rightarrow> SpannerAutoscalerStatus" where
  "to_status s d = d\<lparr>
     LastScaleTime := time_or (LastScaleTime d) (a_LastScaleTime s),
     LastSyncTime := time_or (LastSyncTime d) (a_LastSyncTime s),
     CurrentProcessingUnits := int_or (CurrentProcessingUnits d) (a_CurrentProcessingUnits s),
     DesiredProcessingUnits_status := int_or (DesiredProcessingUnits_status d) (a_DesiredProcessingUnits s),
     CurrentHighPriorityCPUUtilization :=
       int_or (CurrentHighPriorityCPUUtilization d) (a_CurrentHighPriorityCPUUtilization s),
     InstanceState := state_to_beta (a_InstanceState s)\<rparr>"

definition ConvertTo :: "v1alpha1_SpannerAutoscaler \<Rightarrow> SpannerAutoscaler \<Rightarrow> SpannerAutoscaler option" where
  "ConvertTo src dst =
     (case (str_ProjectID (a_ScaleTargetRef (a_Spec src)), str_InstanceID (a_ScaleTargetRef (a_Spec src))) of
        (Some p, Some i) \<Rightarrow>
          (case to_auth (a_Spec src) of None \<Rightarrow> None
           | Some auth \<Rightarrow>
             (case to_scaleConfig (a_Spec src) of None \<Rightarrow> None
              | Some sc \<Rightarrow> Some (dst\<lparr>
                  sa_Spec := (sa_Spec dst)\<lparr>TargetInstance := \<lparr>ti_ProjectID = p, ti_InstanceID = i\<rparr>,
                    Authentication := auth, ScaleConfig := sc\<rparr>,
                  sa_Meta := a_Meta src,
                  sa_Status := to_status (a_Status src) (sa_Status dst)\<rparr>)))
      | _ \<Rightarrow> None)"

section \<open>From v1beta1 to v1alpha1\<close>

text \<open>The division of \<^verbatim>\<open>int32\<close> by 1000 cannot overflow.\<close>

definition from_auth :: "Authentication \<Rightarrow> v1alpha1_SpannerAutoscalerSpec \<Rightarrow> v1alpha1_SpannerAutoscalerSpec option" where
  "from_auth auth d =
     (if auth_Type auth = AuthTypeSA then
        (case auth_IAMKeySecret auth of None \<Rightarrow> None
         | Some k \<Rightarrow> Some (d\<lparr>a_ServiceAccountSecretRef := Some \<lparr>ssr_Name = Some (iks_Name k),
             ssr_Namespace = Some (iks_Namespace k), ssr_Key = Some (iks_Key k)\<rparr>\<rparr>))
      else if auth_Type auth = AuthTypeImpersonation then
        (case auth_ImpersonateConfig auth of None \<Rightarrow> None
         | Some c \<Rightarrow> Some (d\<lparr>a_ImpersonateConfig := Some \<lparr>
             aic_TargetServiceAccount = ic_TargetServiceAccount c, aic_Delegates = ic_Delegates c\<rparr>\<rparr>))
      else Some d)"

definition from_scaleConfig :: "ScaleConfig \<Rightarrow> v1alpha1_SpannerAutoscalerSpec \<Rightarrow> v1alpha1_SpannerAutoscalerSpec" where
  "from_scaleConfig sc d =
     (let d = (if sc_ComputeType sc = ComputeTypeNode then
                 d\<lparr>a_MinNodes := Some (wrap32 (nodes_Min (sc_Nodes sc))),
                   a_MaxNodes := Some (wrap32 (nodes_Max (sc_Nodes sc)))\<rparr>
               else if sc_ComputeType sc = ComputeTypePU then
                 d\<lparr>a_MinProcessingUnits := Some (wrap32 (pus_Min (sc_ProcessingUnits sc))),
                   a_MaxProcessingUnits := Some (wrap32 (pus_Max (sc_ProcessingUnits sc)))\<rparr>
               else d);
          d = (if ios_Type (sc_ScaledownStepSize sc) = intstr_Int
               then d\<lparr>a_MaxScaleDownNodes := Some (wrap32 (ios_IntVal (sc_ScaledownStepSize sc) sdiv 1000))\<rparr>
               else d\<lparr>a_MaxScaleDownNodes := Some 2\<rparr>)
      in case cpu_HighPriority (sc_TargetCPUUtilization sc) of None \<Rightarrow> d
         | Some hp \<Rightarrow> d\<lparr>a_TargetCPUUtilization := \<lparr>acpu_HighPriority = Some (wrap32 hp)\<rparr>\<rparr>)"

definition from_status :: "SpannerAutoscalerStatus \<Rightarrow> v1alpha1_SpannerAutoscalerStatus \<Rightarrow> v1alpha1_SpannerAutoscalerStatus" where
  "from_status s d = d\<lparr>
     a_LastScaleTime := Some (LastScaleTime s),
     a_LastSyncTime := Some (LastSyncTime s),
     a_CurrentNodes := Some (wrap32 (gdiv (CurrentProcessingUnits s) 1000)),
     a_CurrentProcessingUnits := Some (wrap32 (CurrentProcessingUnits s)),
     a_DesiredNodes := Some (wrap32 (gdiv (DesiredProcessingUnits_status s) 1000)),
     a_DesiredProcessingUnits := Some (wrap32 (DesiredProcessingUnits_status s)),
     a_CurrentHighPriorityCPUUtilization := Some (wrap32 (CurrentHighPriorityCPUUtilization s)),
     a_InstanceState := state_to_alpha (InstanceState s)\<rparr>"

definition ConvertFrom :: "SpannerAutoscaler \<Rightarrow> v1alpha1_SpannerAutoscaler \<Rightarrow> v1alpha1_SpannerAutoscaler option" where
  "ConvertFrom src dst =
     (let d = (a_Spec dst)\<lparr>a_ScaleTargetRef :=
                \<lparr>str_ProjectID = Some (ti_ProjectID (TargetInstance (sa_Spec src))),
                 str_InstanceID = Some (ti_InstanceID (TargetInstance (sa_Spec src)))\<rparr>\<rparr>
      in case from_auth (Authentication (sa_Spec src)) d of None \<Rightarrow> None
         | Some d \<Rightarrow> Some (dst\<lparr>a_Spec := from_scaleConfig (ScaleConfig (sa_Spec src)) d,
             a_Meta := sa_Meta src, a_Status := from_status (sa_Status src) (a_Status dst)\<rparr>))"

section \<open>Fresh objects and schema\<close>

text \<open>The zero objects controller-runtime passes to the conversions.\<close>

definition fresh_beta :: SpannerAutoscaler where
  "fresh_beta = \<lparr>sa_Meta = \<lparr>om_Name = [], om_Namespace = [], om_UID = [], om_ResourceVersion = [],
       om_CreationTimestamp = 0, om_DeletionTimestamp = None, om_Finalizers = [], om_ControllerUID = None\<rparr>,
     sa_Spec = \<lparr>TargetInstance = \<lparr>ti_ProjectID = [], ti_InstanceID = []\<rparr>,
       Authentication = zero_auth, ScaleConfig = zero_scaleConfig\<rparr>,
     sa_Status = \<lparr>Schedules = [], CurrentlyActiveSchedules = [], LastScaleTime = 0, LastSyncTime = 0,
       CurrentProcessingUnits = 0, DesiredProcessingUnits_status = 0, DesiredMinPUs = 0, DesiredMaxPUs = 0,
       InstanceState = InstanceState_other [], CurrentHighPriorityCPUUtilization = 0,
       CurrentTotalCPUUtilization = 0, CurrentCPUMetricType = CPUMetricType_other [],
       ActiveManualScaling = None\<rparr>\<rparr>"

definition fresh_alpha :: v1alpha1_SpannerAutoscaler where
  "fresh_alpha = \<lparr>a_Meta = sa_Meta fresh_beta,
     a_Spec = \<lparr>a_ScaleTargetRef = \<lparr>str_ProjectID = None, str_InstanceID = None\<rparr>,
       a_ServiceAccountSecretRef = None, a_ImpersonateConfig = None, a_MinNodes = None, a_MaxNodes = None,
       a_MinProcessingUnits = None, a_MaxProcessingUnits = None, a_MaxScaleDownNodes = None,
       a_TargetCPUUtilization = \<lparr>acpu_HighPriority = None\<rparr>\<rparr>,
     a_Status = \<lparr>a_LastScaleTime = None, a_LastSyncTime = None, a_CurrentNodes = None,
       a_CurrentProcessingUnits = None, a_DesiredNodes = None, a_DesiredProcessingUnits = None,
       a_InstanceState = A_InstanceState_other [], a_CurrentHighPriorityCPUUtilization = None\<rparr>\<rparr>"

text \<open>
  What the v1alpha1 schema demands: the required pointers are set, the limits of the markers
  hold, every number is an \<^verbatim>\<open>int32\<close>; and a scale-down step that fits an \<^verbatim>\<open>int32\<close> when it is
  counted in processing units.
\<close>

definition opt_all :: "('a \<Rightarrow> bool) \<Rightarrow> 'a option \<Rightarrow> bool" where
  "opt_all P x = (case x of None \<Rightarrow> True | Some v \<Rightarrow> P v)"

definition alpha_required :: "v1alpha1_SpannerAutoscaler \<Rightarrow> bool" where
  "alpha_required a \<longleftrightarrow>
     str_ProjectID (a_ScaleTargetRef (a_Spec a)) \<noteq> None \<and>
     str_InstanceID (a_ScaleTargetRef (a_Spec a)) \<noteq> None \<and>
     opt_all (\<lambda>r. ssr_Name r \<noteq> None \<and> ssr_Key r \<noteq> None) (a_ServiceAccountSecretRef (a_Spec a)) \<and>
     acpu_HighPriority (a_TargetCPUUtilization (a_Spec a)) \<noteq> None"

definition alpha_limits :: "v1alpha1_SpannerAutoscaler \<Rightarrow> bool" where
  "alpha_limits a \<longleftrightarrow>
     opt_all (\<lambda>x. 1 \<le> x \<and> in_int32 x) (a_MinNodes (a_Spec a)) \<and>
     opt_all (\<lambda>x. 1 \<le> x \<and> in_int32 x) (a_MaxNodes (a_Spec a)) \<and>
     opt_all (\<lambda>x. 100 \<le> x \<and> in_int32 x) (a_MinProcessingUnits (a_Spec a)) \<and>
     opt_all (\<lambda>x. 100 \<le> x \<and> in_int32 x) (a_MaxProcessingUnits (a_Spec a)) \<and>
     opt_all (\<lambda>x. 1 \<le> x \<and> in_int32 (x * 1000)) (a_MaxScaleDownNodes (a_Spec a)) \<and>
     opt_all (\<lambda>x. 0 \<le> x \<and> x \<le> 100) (acpu_HighPriority (a_TargetCPUUtilization (a_Spec a))) \<and>
     opt_all in_int32 (a_CurrentProcessingUnits (a_Status a)) \<and>
     opt_all in_int32 (a_DesiredProcessingUnits (a_Status a)) \<and>
     opt_all in_int32 (a_CurrentHighPriorityCPUUtilization (a_Status a))"

text \<open>
  The form in which an object comes back: a secret reference hides an impersonation and
  always names a namespace, a complete range of processing units hides one of nodes, an
  incomplete range is dropped, an absent scale-down limit is 0, and the numbers of nodes in
  the status follow from the processing units.
\<close>

definition canonical_spec :: "v1alpha1_SpannerAutoscalerSpec \<Rightarrow> v1alpha1_SpannerAutoscalerSpec" where
  "canonical_spec s =
     (let pu = a_MinProcessingUnits s \<noteq> None \<and> a_MaxProcessingUnits s \<noteq> None;
          nodes = \<not> pu \<and> a_MinNodes s \<noteq> None \<and> a_MaxNodes s \<noteq> None
      in s\<lparr>a_ServiceAccountSecretRef := map_option (\<lambda>r. r\<lparr>ssr_Namespace :=
               Some (case ssr_Namespace r of None \<Rightarrow> [] | Some ns \<Rightarrow> ns)\<rparr>) (a_ServiceAccountSecretRef s),
           a_ImpersonateConfig := (if a_ServiceAccountSecretRef s = None then a_ImpersonateConfig s else None),
           a_MinNodes := (if nodes then a_MinNodes s else None),
           a_MaxNodes := (if nodes then a_MaxNodes s else None),
           a_MinProcessingUnits := (if pu then a_MinProcessingUnits s else None),
           a_MaxProcessingUnits := (if pu then a_MaxProcessingUnits s else None),
           a_MaxScaleDownNodes := Some (int_or 0 (a_MaxScaleDownNodes s))\<rparr>)"

definition canonical_status :: "v1alpha1_SpannerAutoscalerStatus \<Rightarrow> v1alpha1_SpannerAutoscalerStatus" where
  "canonical_status s =
     (let cur = int_or 0 (a_CurrentProcessingUnits s); des = int_or 0 (a_DesiredProcessingUnits s)
      in s\<lparr>a_LastScaleTime := Some (time_or 0 (a_LastScaleTime s)),
           a_LastSyncTime := Some (time_or 0 (a_LastSyncTime s)),
           a_CurrentNodes := Some (cur sdiv 1000), a_CurrentProcessingUnits := Some cur,
           a_DesiredNodes := Some (des sdiv 1000), a_DesiredProcessingUnits := Some des,
           a_CurrentHighPriorityCPUUtilization := Some (int_or 0 (a_CurrentHighPriorityCPUUtilization s))\<rparr>)"

definition canonical :: "v1alpha1_SpannerAutoscaler \<Rightarrow> v1alpha1_SpannerAutoscaler" where
  "canonical a = a\<lparr>a_Spec := canonical_spec (a_Spec a), a_Status := canonical_status (a_Status a)\<rparr>"

text \<open>
  What of a stored object survives being read and written back as v1alpha1: the target, the
  authentication in use, the range in use, the scale-down step in whole nodes (2000 for a
  percentage), the high-priority target, and the status fields v1alpha1 has.
\<close>

definition beta_required :: "SpannerAutoscaler \<Rightarrow> bool" where
  "beta_required b \<longleftrightarrow>
     (auth_Type (Authentication (sa_Spec b)) = AuthTypeSA \<longrightarrow> auth_IAMKeySecret (Authentication (sa_Spec b)) \<noteq> None) \<and>
     (auth_Type (Authentication (sa_Spec b)) = AuthTypeImpersonation \<longrightarrow>
        auth_ImpersonateConfig (Authentication (sa_Spec b)) \<noteq> None)"

definition beta_limits :: "SpannerAutoscaler \<Rightarrow> bool" where
  "beta_limits b \<longleftrightarrow> (let sc = ScaleConfig (sa_Spec b); st = sa_Status b in
     (case sc_ComputeType sc of
        ComputeTypeNode \<Rightarrow> 1 \<le> nodes_Min (sc_Nodes sc) \<and> in_int32 (nodes_Min (sc_Nodes sc)) \<and>
          1 \<le> nodes_Max (sc_Nodes sc) \<and> in_int32 (nodes_Max (sc_Nodes sc))
      | ComputeTypePU \<Rightarrow> 100 \<le> pus_Min (sc_ProcessingUnits sc) \<and> in_int32 (pus_Min (sc_ProcessingUnits sc)) \<and>
          100 \<le> pus_Max (sc_ProcessingUnits sc) \<and> in_int32 (pus_Max (sc_ProcessingUnits sc))
      | ComputeType_other s \<Rightarrow> s = []) \<and>
     0 \<le> ios_IntVal (sc_ScaledownStepSize sc) \<and> in_int32 (ios_IntVal (sc_ScaledownStepSize sc)) \<and>
     opt_all in_int32 (cpu_HighPriority (sc_TargetCPUUtilization sc)) \<and>
     in_int32 (CurrentProcessingUnits st) \<and> in_int32 (DesiredProcessingUnits_status st) \<and>
     in_int32 (CurrentHighPriorityCPUUtilization st))"

definition carried_auth :: "Authentication \<Rightarrow> Authentication" where
  "carried_auth auth =
     (case auth_Type auth of
        AuthTypeSA \<Rightarrow> auth\<lparr>auth_ImpersonateConfig := None\<rparr>
      | AuthTypeImpersonation \<Rightarrow> auth\<lparr>auth_IAMKeySecret := None\<rparr>
      | _ \<Rightarrow> zero_auth)"

definition carried_scaleConfig :: "ScaleConfig \<Rightarrow> ScaleConfig" where
  "carried_scaleConfig sc = zero_scaleConfig\<lparr>
     sc_ComputeType := sc_ComputeType sc,
     sc_Nodes := (if sc_ComputeType sc = ComputeTypeNode then sc_Nodes sc else sc_Nodes zero_scaleConfig),
     sc_ProcessingUnits := (if sc_ComputeType sc = ComputeTypePU then sc_ProcessingUnits sc
                            else sc_ProcessingUnits zero_scaleConfig),
     sc_ScaledownStepSize := intstr_FromInt (if ios_Type (sc_ScaledownStepSize sc) = intstr_Int
       then ios_IntVal (sc_ScaledownStepSize sc) div 1000 * 1000 else 2000),
     sc_TargetCPUUtilization := (sc_TargetCPUUtilization sc)\<lparr>cpu_Total := None\<rparr>\<rparr>"

definition carried :: "SpannerAutoscaler \<Rightarrow> SpannerAutoscaler" where
  "carried b = \<lparr>sa_Meta = sa_Meta b,
     sa_Spec = \<lparr>TargetInstance = TargetInstance (sa_Spec b),
       Authentication = carried_auth (Authentication (sa_Spec b)),
       ScaleConfig = carried_scaleConfig (ScaleConfig (sa_Spec b))\<rparr>,
     sa_Status = (sa_Status fresh_beta)\<lparr>
       LastScaleTime := LastScaleTime (sa_Status b), LastSyncTime := LastSyncTime (sa_Status b),
       CurrentProcessingUnits := CurrentProcessingUnits (sa_Status b),
       DesiredProcessingUnits_status := DesiredProcessingUnits_status (sa_Status b),
       CurrentHighPriorityCPUUtilization := CurrentHighPriorityCPUUtilization (sa_Status b),
       InstanceState := InstanceState (sa_Status b)\<rparr>\<rparr>"

section \<open>Lemmas\<close>

lemma opt_all_simps [simp]: "opt_all P None" "opt_all P (Some v) = P v"
  by (simp_all add: opt_all_def)

lemma state_round_trip [simp]:
  "state_to_alpha (state_to_beta x) = x" "state_to_beta (state_to_alpha y) = y"
  by (cases x; simp) (cases y; simp)

lemma sdiv_1000_range: "in_int32 x \<Longrightarrow> in_int32 (x sdiv 1000)"
proof -
  assume "in_int32 x"
  then have "\<bar>x sdiv 1000\<bar> < 2 ^ 31"
    by (auto simp: signed_divide_int_def in_int32_def abs_mult abs_sgn_eq)
  then show ?thesis by (auto simp: in_int32_def)
qed

lemma gdiv_1000: "in_int32 x \<Longrightarrow> wrap32 (gdiv x 1000) = x sdiv 1000"
  by (simp add: gdiv_def sdiv_1000_range in_int32_in_int64)

lemma ConvertTo_None_iff: "ConvertTo a d = None \<longleftrightarrow> \<not> alpha_required a"
  by (auto simp: ConvertTo_def alpha_required_def to_auth_def to_scaleConfig_def opt_all_def Let_def
      split: option.splits)

lemma in_int32_percent: "0 \<le> x \<Longrightarrow> x \<le> 100 \<Longrightarrow> in_int32 x"
  by (simp add: in_int32_def)

lemma step_round_trip:
  "1 \<le> n \<Longrightarrow> in_int32 (n * 1000) \<Longrightarrow>
     ios_Type (intstr_FromInt (gmul n 1000)) = intstr_Int \<and>
     wrap32 (ios_IntVal (intstr_FromInt (gmul n 1000)) sdiv 1000) = n"
  by (simp add: intstr_FromInt_def gmul_def in_int32_in_int64 sdiv_nonneg)
     (simp add: in_int32_def)

lemma auth_round_trip:
  assumes "to_auth s = Some auth" "a_ServiceAccountSecretRef d = None" "a_ImpersonateConfig d = None"
  shows "from_auth auth d = Some (d\<lparr>a_ServiceAccountSecretRef := a_ServiceAccountSecretRef (canonical_spec s),
           a_ImpersonateConfig := a_ImpersonateConfig (canonical_spec s)\<rparr>)"
  using assms
  by (auto simp: to_auth_def from_auth_def canonical_spec_def zero_auth_def Let_def
      split: option.splits if_splits)

lemma both_at_least_limits:
  "opt_all (\<lambda>x. k \<le> x \<and> in_int32 x) lo \<Longrightarrow> opt_all (\<lambda>x. k \<le> x \<and> in_int32 x) hi \<Longrightarrow>
     both_at_least k lo hi = (if lo \<noteq> None \<and> hi \<noteq> None then Some (the lo, the hi) else None)"
  by (auto simp: both_at_least_def split: option.splits)

lemma the_int32: "opt_all (\<lambda>x. k \<le> x \<and> in_int32 x) x \<Longrightarrow> x \<noteq> None \<Longrightarrow> Some (wrap32 (the x)) = x"
  by auto

lemma to_scaleConfig_step:
  assumes "to_scaleConfig s = Some sc" "opt_all (\<lambda>x. 1 \<le> x \<and> in_int32 (x * 1000)) (a_MaxScaleDownNodes s)"
  shows "ios_Type (sc_ScaledownStepSize sc) = intstr_Int \<and>
     wrap32 (ios_IntVal (sc_ScaledownStepSize sc) sdiv 1000) = int_or 0 (a_MaxScaleDownNodes s)"
proof (cases "a_MaxScaleDownNodes s")
  case None
  then have "sc_ScaledownStepSize sc = intstr_zero"
    using assms(1) by (auto simp: to_scaleConfig_def zero_scaleConfig_def Let_def split: option.splits)
  then show ?thesis using None by (simp add: intstr_zero_def intstr_Int_def int_or_def wrap32_def)
next
  case (Some n)
  then have "sc_ScaledownStepSize sc = intstr_FromInt (gmul n 1000)"
    using assms(1) by (auto simp: to_scaleConfig_def Let_def split: option.splits)
  then show ?thesis using Some assms(2) step_round_trip [of n] by (simp add: int_or_def)
qed

lemma scaleConfig_round_trip:
  assumes "to_scaleConfig (a_Spec a) = Some sc" "alpha_limits a"
    and "a_MinNodes d = None" "a_MaxNodes d = None" "a_MinProcessingUnits d = None" "a_MaxProcessingUnits d = None"
  shows "from_scaleConfig sc d = d\<lparr>a_MinNodes := a_MinNodes (canonical_spec (a_Spec a)),
     a_MaxNodes := a_MaxNodes (canonical_spec (a_Spec a)),
     a_MinProcessingUnits := a_MinProcessingUnits (canonical_spec (a_Spec a)),
     a_MaxProcessingUnits := a_MaxProcessingUnits (canonical_spec (a_Spec a)),
     a_MaxScaleDownNodes := a_MaxScaleDownNodes (canonical_spec (a_Spec a)),
     a_TargetCPUUtilization := a_TargetCPUUtilization (a_Spec a)\<rparr>"
proof -
  define s where "s = a_Spec a"
  note l = assms(2) [unfolded alpha_limits_def s_def [symmetric]]
  let ?nodes = "both_at_least 1 (a_MinNodes s) (a_MaxNodes s)"
  let ?pus = "both_at_least 100 (a_MinProcessingUnits s) (a_MaxProcessingUnits s)"
  have b: "?nodes = (if a_MinNodes s \<noteq> None \<and> a_MaxNodes s \<noteq> None then Some (the (a_MinNodes s), the (a_MaxNodes s)) else None)"
    "?pus = (if a_MinProcessingUnits s \<noteq> None \<and> a_MaxProcessingUnits s \<noteq> None
       then Some (the (a_MinProcessingUnits s), the (a_MaxProcessingUnits s)) else None)"
    using l by (blast intro: both_at_least_limits)+
  have w: "a_MinNodes s \<noteq> None \<Longrightarrow> Some (wrap32 (the (a_MinNodes s))) = a_MinNodes s"
    "a_MaxNodes s \<noteq> None \<Longrightarrow> Some (wrap32 (the (a_MaxNodes s))) = a_MaxNodes s"
    "a_MinProcessingUnits s \<noteq> None \<Longrightarrow> Some (wrap32 (the (a_MinProcessingUnits s))) = a_MinProcessingUnits s"
    "a_MaxProcessingUnits s \<noteq> None \<Longrightarrow> Some (wrap32 (the (a_MaxProcessingUnits s))) = a_MaxProcessingUnits s"
    using l by (blast intro: the_int32)+
  obtain hp where hp: "acpu_HighPriority (a_TargetCPUUtilization s) = Some hp"
    using assms(1) by (auto simp: to_scaleConfig_def s_def Let_def split: option.splits)
  then have hp': "a_TargetCPUUtilization s = \<lparr>acpu_HighPriority = Some hp\<rparr>" "wrap32 hp = hp"
    using l by (auto simp: in_int32_percent)
  note step = to_scaleConfig_step [OF assms(1) [folded s_def], OF l [THEN conjunct2, THEN conjunct2, THEN conjunct2,
        THEN conjunct2, THEN conjunct1]]
  have sc: "sc_ComputeType sc = (if ?pus \<noteq> None then ComputeTypePU else if ?nodes \<noteq> None then ComputeTypeNode else ComputeType_other [])"
    "?nodes \<noteq> None \<Longrightarrow> sc_Nodes sc = \<lparr>nodes_Min = the (a_MinNodes s), nodes_Max = the (a_MaxNodes s)\<rparr>"
    "?pus \<noteq> None \<Longrightarrow> sc_ProcessingUnits sc = \<lparr>pus_Min = the (a_MinProcessingUnits s), pus_Max = the (a_MaxProcessingUnits s)\<rparr>"
    "cpu_HighPriority (sc_TargetCPUUtilization sc) = Some hp"
    using assms(1) b hp by (auto simp: to_scaleConfig_def s_def [symmetric] zero_scaleConfig_def Let_def
        split: option.splits if_splits)
  show ?thesis
    using assms(3-) step sc hp' b w
    by (simp add: from_scaleConfig_def canonical_spec_def Let_def s_def [symmetric])
qed

lemma int_or_int32: "opt_all in_int32 x \<Longrightarrow> in_int32 (int_or 0 x)"
  by (cases x) (auto simp: int_or_def in_int32_def)

lemma status_round_trip:
  assumes "alpha_limits a"
  shows "from_status (to_status (a_Status a) (sa_Status fresh_beta)) (a_Status fresh_alpha) =
    canonical_status (a_Status a)"
proof -
  note i = assms [unfolded alpha_limits_def, THEN conjunct2, THEN conjunct2, THEN conjunct2, THEN conjunct2,
      THEN conjunct2, THEN conjunct2]
  show ?thesis
    using i by (simp add: from_status_def to_status_def canonical_status_def fresh_beta_def
      fresh_alpha_def int_or_int32 gdiv_1000 Let_def)
qed

lemma alpha_to_beta_to_alpha:
  assumes "alpha_required a" "alpha_limits a"
  shows "Option.bind (ConvertTo a fresh_beta) (\<lambda>b. ConvertFrom b fresh_alpha) = Some (canonical a)"
proof -
  obtain p i auth sc where c: "str_ProjectID (a_ScaleTargetRef (a_Spec a)) = Some p"
    "str_InstanceID (a_ScaleTargetRef (a_Spec a)) = Some i"
    "to_auth (a_Spec a) = Some auth" "to_scaleConfig (a_Spec a) = Some sc"
    using assms(1) ConvertTo_None_iff [of a fresh_beta]
    by (auto simp: ConvertTo_def split: option.splits)
  let ?d = "(a_Spec fresh_alpha)\<lparr>a_ScaleTargetRef := \<lparr>str_ProjectID = Some p, str_InstanceID = Some i\<rparr>\<rparr>"
  let ?d' = "?d\<lparr>a_ServiceAccountSecretRef := a_ServiceAccountSecretRef (canonical_spec (a_Spec a)),
           a_ImpersonateConfig := a_ImpersonateConfig (canonical_spec (a_Spec a))\<rparr>"
  have au: "from_auth auth ?d = Some ?d'"
    by (rule auth_round_trip [OF c(3)]) (simp_all add: fresh_alpha_def)
  have s: "from_scaleConfig sc ?d' = canonical_spec (a_Spec a)"
    using c(1,2) by (subst scaleConfig_round_trip [OF c(4) assms(2)])
      (simp_all add: fresh_alpha_def canonical_spec_def Let_def)
  have "ConvertTo a fresh_beta = Some (fresh_beta\<lparr>
      sa_Spec := \<lparr>TargetInstance = \<lparr>ti_ProjectID = p, ti_InstanceID = i\<rparr>, Authentication = auth, ScaleConfig = sc\<rparr>,
      sa_Meta := a_Meta a, sa_Status := to_status (a_Status a) (sa_Status fresh_beta)\<rparr>)"
    using c by (simp add: ConvertTo_def fresh_beta_def)
  then show ?thesis
    using au s status_round_trip [OF assms(2)]
    by (simp add: ConvertFrom_def Let_def canonical_def)
qed

lemma int_or_Some: "int_or d (Some v) = v"
  by (simp add: int_or_def)

lemma canonical_spec_idem: "canonical_spec (canonical_spec s) = canonical_spec s"
proof -
  have "map_option (\<lambda>r. r\<lparr>ssr_Namespace := Some (case ssr_Namespace r of None \<Rightarrow> [] | Some ns \<Rightarrow> ns)\<rparr>)
      (a_ServiceAccountSecretRef (canonical_spec s)) = a_ServiceAccountSecretRef (canonical_spec s)"
    by (simp add: canonical_spec_def Let_def option.map_comp comp_def)
  then show ?thesis by (simp add: canonical_spec_def Let_def int_or_def)
qed

lemma canonical_idem: "canonical (canonical a) = canonical a"
  by (simp add: canonical_def canonical_spec_idem canonical_status_def int_or_def time_or_def Let_def
      split: option.splits)

lemma canonical_ok:
  assumes "alpha_required a" "alpha_limits a" "a_MaxScaleDownNodes (a_Spec a) \<noteq> None"
  shows "alpha_required (canonical a) \<and> alpha_limits (canonical a)"
proof
  show "alpha_required (canonical a)"
    using assms(1) by (auto simp: alpha_required_def canonical_def canonical_spec_def opt_all_def Let_def split: option.splits)
  note l = assms(2) [unfolded alpha_limits_def]
  show "alpha_limits (canonical a)"
    using l assms(3) by (auto simp: alpha_limits_def canonical_def canonical_spec_def canonical_status_def
        int_or_int32 int_or_Some Let_def)
qed

lemma auth_carried:
  assumes "from_auth auth d = Some d'" "a_ServiceAccountSecretRef d = None" "a_ImpersonateConfig d = None"
    and "a_ServiceAccountSecretRef s = a_ServiceAccountSecretRef d'" "a_ImpersonateConfig s = a_ImpersonateConfig d'"
  shows "to_auth s = Some (carried_auth auth)"
  using assms
  by (auto simp: to_auth_def from_auth_def carried_auth_def zero_auth_def Let_def
      split: option.splits if_splits AuthType.splits)

lemma from_scaleConfig_fields [simp]:
  "a_ServiceAccountSecretRef (from_scaleConfig sc d) = a_ServiceAccountSecretRef d"
  "a_ImpersonateConfig (from_scaleConfig sc d) = a_ImpersonateConfig d"
  "a_ScaleTargetRef (from_scaleConfig sc d) = a_ScaleTargetRef d"
  by (simp_all add: from_scaleConfig_def Let_def split: option.splits)

lemma step_carried:
  assumes "0 \<le> x" "in_int32 x"
  shows "gmul (wrap32 (x sdiv 1000)) 1000 = x div 1000 * 1000"
proof -
  have "0 \<le> x div 1000 * 1000" "x div 1000 * 1000 \<le> x" "x div 1000 \<le> x"
    using assms(1) div_mult_mod_eq [of x 1000] pos_mod_sign [of 1000 x] zdiv_mono2 [of x 1 1000]
    by (simp_all add: pos_imp_zdiv_nonneg_iff)
  moreover have "0 \<le> x div 1000" "x < 2 ^ 31" using assms by (auto simp: in_int32_def pos_imp_zdiv_nonneg_iff)
  ultimately have "in_int32 (x div 1000)" "in_int64 (x div 1000 * 1000)"
    unfolding in_int32_def in_int64_def by simp_all
  then show ?thesis using assms(1) by (simp add: gmul_def sdiv_nonneg)
qed

lemma from_auth_fields:
  "from_auth auth d = Some d' \<Longrightarrow> a_MinNodes d' = a_MinNodes d \<and> a_MaxNodes d' = a_MaxNodes d \<and>
     a_MinProcessingUnits d' = a_MinProcessingUnits d \<and> a_MaxProcessingUnits d' = a_MaxProcessingUnits d \<and>
     a_TargetCPUUtilization d' = a_TargetCPUUtilization d \<and> a_ScaleTargetRef d' = a_ScaleTargetRef d"
  by (auto simp: from_auth_def split: option.splits if_splits)

lemma from_auth_None_iff:
  "from_auth auth d = None \<longleftrightarrow> auth_Type auth = AuthTypeSA \<and> auth_IAMKeySecret auth = None \<or>
     auth_Type auth = AuthTypeImpersonation \<and> auth_ImpersonateConfig auth = None"
  by (auto simp: from_auth_def split: option.splits)

lemma to_scaleConfig_range:
  assumes "acpu_HighPriority (a_TargetCPUUtilization s) = Some hp" "a_MaxScaleDownNodes s = Some n"
    and "both_at_least 1 (a_MinNodes s) (a_MaxNodes s) = N" "both_at_least 100 (a_MinProcessingUnits s) (a_MaxProcessingUnits s) = U"
  shows "to_scaleConfig s = Some (zero_scaleConfig\<lparr>
     sc_ComputeType := (if U \<noteq> None then ComputeTypePU else if N \<noteq> None then ComputeTypeNode else ComputeType_other []),
     sc_Nodes := (case N of None \<Rightarrow> sc_Nodes zero_scaleConfig | Some (l, h) \<Rightarrow> \<lparr>nodes_Min = l, nodes_Max = h\<rparr>),
     sc_ProcessingUnits := (case U of None \<Rightarrow> sc_ProcessingUnits zero_scaleConfig | Some (l, h) \<Rightarrow> \<lparr>pus_Min = l, pus_Max = h\<rparr>),
     sc_ScaledownStepSize := intstr_FromInt (gmul n 1000),
     sc_TargetCPUUtilization := \<lparr>cpu_HighPriority = Some hp, cpu_Total = None\<rparr>\<rparr>)"
  using assms by (auto simp: to_scaleConfig_def zero_scaleConfig_def Let_def split: option.splits)

lemma scaleConfig_carried:
  assumes "beta_limits b" "ScaleConfig (sa_Spec b) = sc" "cpu_HighPriority (sc_TargetCPUUtilization sc) = Some hp"
    and "a_MinNodes d = None" "a_MaxNodes d = None" "a_MinProcessingUnits d = None" "a_MaxProcessingUnits d = None"
  shows "to_scaleConfig (from_scaleConfig sc d) = Some (carried_scaleConfig sc)"
proof -
  note l = assms(1) [unfolded beta_limits_def Let_def assms(2)]
  let ?s = "from_scaleConfig sc d"
  let ?N = "if sc_ComputeType sc = ComputeTypeNode then Some (nodes_Min (sc_Nodes sc), nodes_Max (sc_Nodes sc)) else None"
  let ?U = "if sc_ComputeType sc = ComputeTypePU then Some (pus_Min (sc_ProcessingUnits sc), pus_Max (sc_ProcessingUnits sc)) else None"
  let ?n = "if ios_Type (sc_ScaledownStepSize sc) = intstr_Int then wrap32 (ios_IntVal (sc_ScaledownStepSize sc) sdiv 1000) else 2"
  have hp: "acpu_HighPriority (a_TargetCPUUtilization ?s) = Some hp" "a_MaxScaleDownNodes ?s = Some ?n"
    using assms(3) l by (simp_all add: from_scaleConfig_def Let_def)
  have r: "both_at_least 1 (a_MinNodes ?s) (a_MaxNodes ?s) = ?N"
    "both_at_least 100 (a_MinProcessingUnits ?s) (a_MaxProcessingUnits ?s) = ?U"
    using assms(3-) l by (auto simp: from_scaleConfig_def both_at_least_def Let_def split: ComputeType.splits)
  have n: "gmul ?n 1000 = (if ios_Type (sc_ScaledownStepSize sc) = intstr_Int
       then ios_IntVal (sc_ScaledownStepSize sc) div 1000 * 1000 else 2000)"
    using l step_carried by (simp add: gmul_def wrap64_def)
  show ?thesis
    unfolding to_scaleConfig_range [OF hp r] carried_scaleConfig_def n
    using l assms(3) by (cases "sc_ComputeType sc"; cases "sc_TargetCPUUtilization sc") (simp_all add: zero_scaleConfig_def)
qed

lemma status_carried:
  assumes "beta_limits b"
  shows "to_status (from_status (sa_Status b) d) (sa_Status fresh_beta) = sa_Status (carried b)"
  using assms by (simp add: beta_limits_def Let_def to_status_def from_status_def carried_def fresh_beta_def
      time_or_def int_or_def)

lemma beta_to_alpha_to_beta:
  assumes "beta_required b" "beta_limits b"
  shows "Option.bind (ConvertFrom b fresh_alpha) (\<lambda>a. ConvertTo a fresh_beta) =
    (if cpu_HighPriority (sc_TargetCPUUtilization (ScaleConfig (sa_Spec b))) = None then None else Some (carried b))"
proof -
  define auth where "auth = Authentication (sa_Spec b)"
  define sc where "sc = ScaleConfig (sa_Spec b)"
  let ?d = "(a_Spec fresh_alpha)\<lparr>a_ScaleTargetRef :=
      \<lparr>str_ProjectID = Some (ti_ProjectID (TargetInstance (sa_Spec b))),
       str_InstanceID = Some (ti_InstanceID (TargetInstance (sa_Spec b)))\<rparr>\<rparr>"
  obtain d' where d': "from_auth auth ?d = Some d'"
    using assms(1) from_auth_None_iff [of auth ?d] by (auto simp: beta_required_def auth_def)
  note df = from_auth_fields [OF d']
  have a: "ConvertFrom b fresh_alpha = Some \<lparr>a_Meta = sa_Meta b, a_Spec = from_scaleConfig sc d',
      a_Status = from_status (sa_Status b) (a_Status fresh_alpha)\<rparr>"
    using d' by (simp add: ConvertFrom_def Let_def auth_def sc_def fresh_alpha_def)
  have au: "to_auth (from_scaleConfig sc d') = Some (carried_auth auth)"
    by (rule auth_carried [OF d']) (simp_all add: fresh_alpha_def)
  have sc_none: "to_scaleConfig (from_scaleConfig sc d') = None" if "cpu_HighPriority (sc_TargetCPUUtilization sc) = None"
    using that df by (auto simp: to_scaleConfig_def from_scaleConfig_def fresh_alpha_def Let_def)
  have sc_some: "to_scaleConfig (from_scaleConfig sc d') = Some (carried_scaleConfig sc)"
    if "cpu_HighPriority (sc_TargetCPUUtilization sc) = Some hp" for hp
    by (rule scaleConfig_carried [OF assms(2) sc_def [symmetric] that]) (use df in \<open>simp_all add: fresh_alpha_def\<close>)
  show ?thesis
    unfolding a using au sc_none sc_some df status_carried [OF assms(2)]
    by (cases "cpu_HighPriority (sc_TargetCPUUtilization sc)")
       (simp_all add: ConvertTo_def sc_def auth_def carried_def fresh_beta_def)
qed

section \<open>Properties\<close>

text \<open>
  C28. Round trip from v1alpha1: an object that meets the v1alpha1 schema is converted to
  v1beta1 without a panic, and converting the result back gives the object in canonical form.
  The canonical form is stable: converting it there and back again changes nothing when the
  object has a scale-down limit.
\<close>

theorem alpha_round_trip:
  assumes "alpha_required a" "alpha_limits a"
  shows "Option.bind (ConvertTo a fresh_beta) (\<lambda>b. ConvertFrom b fresh_alpha) = Some (canonical a) \<and>
    (a_MaxScaleDownNodes (a_Spec a) \<noteq> None \<longrightarrow>
       Option.bind (ConvertTo (canonical a) fresh_beta) (\<lambda>b. ConvertFrom b fresh_alpha) = Some (canonical a))"
proof -
  have "Option.bind (ConvertTo (canonical a) fresh_beta) (\<lambda>b. ConvertFrom b fresh_alpha) = Some (canonical (canonical a))"
    if "a_MaxScaleDownNodes (a_Spec a) \<noteq> None"
    using alpha_to_beta_to_alpha canonical_ok [OF assms that] by blast
  then show ?thesis using alpha_to_beta_to_alpha [OF assms] by (simp add: canonical_idem)
qed

definition sample_alpha :: v1alpha1_SpannerAutoscaler where
  "sample_alpha = fresh_alpha\<lparr>a_Spec := (a_Spec fresh_alpha)\<lparr>
     a_ScaleTargetRef := \<lparr>str_ProjectID = Some ''p'', str_InstanceID = Some ''i''\<rparr>,
     a_ServiceAccountSecretRef := Some \<lparr>ssr_Name = Some ''n'', ssr_Namespace = None, ssr_Key = Some ''k''\<rparr>,
     a_MinNodes := Some 1, a_MaxNodes := Some 10, a_MaxScaleDownNodes := Some 3,
     a_TargetCPUUtilization := \<lparr>acpu_HighPriority = Some 60\<rparr>\<rparr>\<rparr>"

theorem alpha_round_trip_witness:
  "Option.bind (ConvertTo sample_alpha fresh_beta) (\<lambda>b. ConvertFrom b fresh_alpha) = Some (canonical sample_alpha)"
  using alpha_round_trip [of sample_alpha]
  by (simp add: alpha_required_def alpha_limits_def sample_alpha_def fresh_alpha_def in_int32_def)

text \<open>
  C29. A stored object that is read and written back as v1alpha1 keeps exactly its target,
  the authentication and the range in use, its scale-down step in whole nodes, its
  high-priority target and the status fields v1alpha1 has; everything else becomes empty. An
  object that is scaled on total CPU only does not survive: converting it back panics.
\<close>

theorem beta_round_trip:
  assumes "beta_required b" "beta_limits b"
  shows "Option.bind (ConvertFrom b fresh_alpha) (\<lambda>a. ConvertTo a fresh_beta) =
    (if cpu_HighPriority (sc_TargetCPUUtilization (ScaleConfig (sa_Spec b))) = None then None else Some (carried b))"
  using assms by (rule beta_to_alpha_to_beta)

theorem beta_round_trip_witness:
  "Option.bind (ConvertFrom sample_sa fresh_alpha) (\<lambda>a. ConvertTo a fresh_beta) = Some (carried sample_sa)"
  using beta_round_trip [of sample_sa]
  by (simp add: beta_required_def beta_limits_def sample_defs intstr_FromInt_def in_int32_def wrap32_def)

end
