(* ===== verification/Monitoring_Emulator.thy ===== *)
theory Monitoring_Emulator
  imports Metrics_Client "HOL-Library.List_Lexorder" "HOL-Library.Char_ord"
begin

text \<open>
  \<^verbatim>\<open>internal/monitoringemulator\<close>, the in-memory server of the Cloud Monitoring API the
  end-to-end tests run against: parsing the filter of a request (\<^verbatim>\<open>filter.go\<close>), aggregation
  over regions (\<^verbatim>\<open>aggregate.go\<close>), the three stores of CPU values (\<^verbatim>\<open>static_store.go\<close>,
  \<^verbatim>\<open>workload_store.go\<close>, \<^verbatim>\<open>scenario_store.go\<close>), the service (\<^verbatim>\<open>server.go\<close>) and its admin
  handlers (\<^verbatim>\<open>admin.go\<close>).

  A store is a map under its lock. A Go map from region to utilization is an association list
  in the order in which one iteration visits it. Decoding JSON and YAML is a parameter; of a
  time series only the values of the points are kept, the client reads nothing else.
  Dereferencing nil, dividing by zero and indexing an empty slice panic: the result is
  \<open>LTS_panic\<close>.
\<close>

section \<open>Filters\<close>

datatype MetricKind = MetricKindHighPriority | MetricKindTotal | MetricKindUnknown

abbreviation quote :: char where "quote \<equiv> CHR 0x22"

text \<open>The class \<^verbatim>\<open>\s\<close> of Go's regular expressions.\<close>

definition re_space :: "char \<Rightarrow> bool" where
  "re_space c \<longleftrightarrow> of_char c \<in> {9, 10, 12, 13, 32 :: nat}"

text \<open>
  The patterns are a key, an equals sign with optional white space around it, and a quoted
  string; \<open>match_quoted key s\<close> matches the key to the opening quote at the start of
  \<open>s\<close> and returns what follows. White space is not an equals sign or a quote, so taking all
  of it never misses a match. The regular expressions are not anchored: \<open>re_search\<close> tries
  every position, the leftmost first.
\<close>

definition re_char :: "char \<Rightarrow> string \<Rightarrow> string option" where
  "re_char c s = (case s of [] \<Rightarrow> None | d # r \<Rightarrow> if d = c then Some r else None)"

definition match_quoted :: "string \<Rightarrow> string \<Rightarrow> string option" where
  "match_quoted key s =
     (if take (length key) s = key
      then case re_char (CHR ''='') (dropWhile re_space (drop (length key) s)) of
             None \<Rightarrow> None
           | Some r \<Rightarrow> re_char quote (dropWhile re_space r)
      else None)"

fun re_search :: "(string \<Rightarrow> 'a option) \<Rightarrow> string \<Rightarrow> 'a option" where
  "re_search m [] = m []"
| "re_search m (c # s) = (case m (c # s) of Some x \<Rightarrow> Some x | None \<Rightarrow> re_search m s)"

definition match_type :: "string \<Rightarrow> string \<Rightarrow> unit option" where
  "match_type metric s =
     (case match_quoted ''metric.type'' s of
        None \<Rightarrow> None
      | Some r \<Rightarrow> if take (length metric + 1) r = metric @ [quote] then Some () else None)"

definition metricTypeHighPriorityPattern :: "string \<Rightarrow> unit option" where
  "metricTypeHighPriorityPattern = match_type ''spanner.googleapis.com/instance/cpu/utilization_by_priority''"

definition metricTypeTotalPattern :: "string \<Rightarrow> unit option" where
  "metricTypeTotalPattern = match_type ''spanner.googleapis.com/instance/cpu/utilization''"

definition extractMetricKind :: "string \<Rightarrow> MetricKind" where
  "extractMetricKind filt =
     (if re_search metricTypeHighPriorityPattern filt \<noteq> None then MetricKindHighPriority
      else if re_search metricTypeTotalPattern filt \<noteq> None then MetricKindTotal
      else MetricKindUnknown)"

definition instanceIDRegex :: "string \<Rightarrow> string option" where
  "instanceIDRegex s =
     (case match_quoted ''resource.label.instance_id'' s of
        None \<Rightarrow> None
      | Some r \<Rightarrow> (let i = takeWhile (\<lambda>c. c \<noteq> quote) r
                    in if i \<noteq> [] \<and> dropWhile (\<lambda>c. c \<noteq> quote) r \<noteq> [] then Some i else None))"

datatype agg_err =
    Bad_group "string list"
  | Max_of_nothing
  | Bad_reducer reducer
  | Secondary_group

datatype lts_err =
    Bad_name string
  | No_instance_id string
  | Bad_metric string
  | No_admin_client
  | Admin_error grpc_err
  | Zero_units
  | Agg_primary agg_err
  | Agg_secondary agg_err
  | LTS_panic

definition extractInstanceID :: "string \<Rightarrow> lts_err + string" where
  "extractInstanceID filt =
     (case re_search instanceIDRegex filt of None \<Rightarrow> Inl (No_instance_id filt) | Some i \<Rightarrow> Inr i)"

text \<open>\<^verbatim>\<open>strings.SplitN(name, "/", 2)\<close>.\<close>

definition split2 :: "string \<Rightarrow> string list" where
  "split2 s = (case dropWhile (\<lambda>c. c \<noteq> CHR ''/'') s of
     [] \<Rightarrow> [s] | _ # r \<Rightarrow> [takeWhile (\<lambda>c. c \<noteq> CHR ''/'') s, r])"

definition extractProjectID :: "string \<Rightarrow> lts_err + string" where
  "extractProjectID name =
     (let parts = split2 name
      in if length parts \<noteq> 2 \<or> parts ! 0 \<noteq> ''projects'' \<or> parts ! 1 = [] then Inl (Bad_name name)
         else Inr (parts ! 1))"

section \<open>Aggregation\<close>

type_synonym regions = "(string \<times> float64) list"

definition locationGroupByField :: string where
  "locationGroupByField = ''resource.label.location''"

definition reduceCrossSeries :: "float64 list \<Rightarrow> reducer \<Rightarrow> agg_err + float64 list" where
  "reduceCrossSeries values r =
     (case r of
        REDUCE_NONE \<Rightarrow> Inr (f_sort values)
      | REDUCE_SUM \<Rightarrow> Inr [foldl f_add f_zero values]
      | REDUCE_MAX \<Rightarrow> (case values of [] \<Rightarrow> Inl Max_of_nothing | v # vs \<Rightarrow> Inr [foldl f_max v vs])
      | reducer_other n \<Rightarrow> Inl (Bad_reducer r))"

definition groupRegions :: "regions \<Rightarrow> string list \<Rightarrow> agg_err + (string \<times> float64 list) list" where
  "groupRegions rs groupBy =
     (if groupBy = [] then Inr [([], map snd rs)]
      else if groupBy = [locationGroupByField] then Inr (map (\<lambda>(region, v). (region, [v])) rs)
      else Inl (Bad_group groupBy))"

fun reduce_groups :: "(string \<times> float64 list) list \<Rightarrow> reducer \<Rightarrow> agg_err + (string \<times> float64 list) list" where
  "reduce_groups [] r = Inr []"
| "reduce_groups ((key, values) # gs) r =
     (case reduceCrossSeries values r of
        Inl err \<Rightarrow> Inl err
      | Inr vs \<Rightarrow> (case reduce_groups gs r of Inl err \<Rightarrow> Inl err | Inr rest \<Rightarrow> Inr ((key, vs) # rest)))"

text \<open>The generated getters read the zero value from a nil message.\<close>

definition get_groupBy :: "Aggregation option \<Rightarrow> string list" where
  "get_groupBy a = (case a of None \<Rightarrow> [] | Some a \<Rightarrow> agg_GroupByFields a)"

definition get_reducer :: "Aggregation option \<Rightarrow> reducer" where
  "get_reducer a = (case a of None \<Rightarrow> REDUCE_NONE | Some a \<Rightarrow> agg_CrossSeriesReducer a)"

definition aggregate :: "regions \<Rightarrow> Aggregation option \<Rightarrow> Aggregation option \<Rightarrow> lts_err + float64 list" where
  "aggregate rs primary secondary =
     (case groupRegions rs (get_groupBy primary) of
        Inl err \<Rightarrow> Inl (Agg_primary err)
      | Inr groups \<Rightarrow>
          (case reduce_groups groups (get_reducer primary) of
             Inl err \<Rightarrow> Inl (Agg_primary err)
           | Inr reduced \<Rightarrow>
               (let values = concat (map snd (sort_key fst reduced))
                in if secondary = None then Inr values
                   else if get_groupBy secondary \<noteq> [] then Inl (Agg_secondary Secondary_group)
                   else case reduceCrossSeries values (get_reducer secondary) of
                          Inl err \<Rightarrow> Inl (Agg_secondary err)
                        | Inr final \<Rightarrow> Inr final)))"

section \<open>The static and the workload store\<close>

definition storeKey :: "string \<Rightarrow> string \<Rightarrow> string" where
  "storeKey project instanceID = project @ ''/'' @ instanceID"

record CPUEntry =
  ce_HighPriority :: "float64 option"
  ce_HighPriorityRegions :: regions
  ce_Total :: "float64 option"
  ce_TotalRegions :: regions

fun CPUEntry_get :: "CPUEntry \<Rightarrow> MetricKind \<Rightarrow> float64 option" where
  "CPUEntry_get e MetricKindHighPriority = ce_HighPriority e"
| "CPUEntry_get e MetricKindTotal = ce_Total e"
| "CPUEntry_get e MetricKindUnknown = None"

definition regions_or :: "regions \<Rightarrow> float64 option \<Rightarrow> regions option" where
  "regions_or rs v = (if length rs > 0 then Some rs else case v of Some x \<Rightarrow> Some [([], x)] | None \<Rightarrow> None)"

fun CPUEntry_regions :: "CPUEntry \<Rightarrow> MetricKind \<Rightarrow> regions option" where
  "CPUEntry_regions e MetricKindHighPriority = regions_or (ce_HighPriorityRegions e) (ce_HighPriority e)"
| "CPUEntry_regions e MetricKindTotal = regions_or (ce_TotalRegions e) (ce_Total e)"
| "CPUEntry_regions e MetricKindUnknown = None"

type_synonym StaticStore = "string \<rightharpoonup> CPUEntry"

definition NewStaticStore :: StaticStore where
  "NewStaticStore = Map.empty"

definition StaticStore_Set :: "string \<Rightarrow> string \<Rightarrow> CPUEntry \<Rightarrow> StaticStore \<Rightarrow> StaticStore" where
  "StaticStore_Set project instanceID entry s = s(storeKey project instanceID \<mapsto> entry)"

definition StaticStore_Get :: "string \<Rightarrow> string \<Rightarrow> MetricKind \<Rightarrow> StaticStore \<Rightarrow> float64 option" where
  "StaticStore_Get project instanceID kind s =
     (case s (storeKey project instanceID) of None \<Rightarrow> None | Some e \<Rightarrow> CPUEntry_get e kind)"

definition StaticStore_GetEntry :: "string \<Rightarrow> string \<Rightarrow> StaticStore \<Rightarrow> CPUEntry option" where
  "StaticStore_GetEntry project instanceID s = s (storeKey project instanceID)"

definition StaticStore_Delete :: "string \<Rightarrow> string \<Rightarrow> StaticStore \<Rightarrow> StaticStore" where
  "StaticStore_Delete project instanceID s = s(storeKey project instanceID := None)"

record WorkloadParams =
  wp_Workload :: float64
  wp_ReferenceCPU :: float64
  wp_ReferencePU :: gint

definition newWorkloadParams :: "float64 \<Rightarrow> gint \<Rightarrow> WorkloadParams" where
  "newWorkloadParams cpuUtilization referencePU =
     \<lparr>wp_Workload = f_mul cpuUtilization (f_of_int referencePU),
      wp_ReferenceCPU = cpuUtilization, wp_ReferencePU = referencePU\<rparr>"

record WorkloadEntry =
  we_HighPriority :: "WorkloadParams option"
  we_Total :: "WorkloadParams option"

fun WorkloadEntry_get :: "WorkloadEntry \<Rightarrow> MetricKind \<Rightarrow> WorkloadParams option" where
  "WorkloadEntry_get e MetricKindHighPriority = we_HighPriority e"
| "WorkloadEntry_get e MetricKindTotal = we_Total e"
| "WorkloadEntry_get e MetricKindUnknown = None"

type_synonym WorkloadStore = "string \<rightharpoonup> WorkloadEntry"

definition NewWorkloadStore :: WorkloadStore where
  "NewWorkloadStore = Map.empty"

definition WorkloadStore_Set :: "string \<Rightarrow> string \<Rightarrow> WorkloadEntry \<Rightarrow> WorkloadStore \<Rightarrow> WorkloadStore" where
  "WorkloadStore_Set project instanceID entry s = s(storeKey project instanceID \<mapsto> entry)"

definition WorkloadStore_Get :: "string \<Rightarrow> string \<Rightarrow> MetricKind \<Rightarrow> WorkloadStore \<Rightarrow> WorkloadParams option" where
  "WorkloadStore_Get project instanceID kind s =
     (case s (storeKey project instanceID) of None \<Rightarrow> None | Some e \<Rightarrow> WorkloadEntry_get e kind)"

definition WorkloadStore_GetEntry :: "string \<Rightarrow> string \<Rightarrow> WorkloadStore \<Rightarrow> WorkloadEntry option" where
  "WorkloadStore_GetEntry project instanceID s = s (storeKey project instanceID)"

definition WorkloadStore_Delete :: "string \<Rightarrow> string \<Rightarrow> WorkloadStore \<Rightarrow> WorkloadStore" where
  "WorkloadStore_Delete project instanceID s = s(storeKey project instanceID := None)"

section \<open>The scenario store\<close>

record WorkloadScenario =
  ws_CPUUtilization :: float64
  ws_ReferenceProcessingUnits :: gint

record ScenarioMetric =
  sm_CPUUtilization :: "float64 option"
  sm_Workload :: "WorkloadScenario option"

record ScenarioStep =
  ss_Duration :: duration
  ss_HighPriority :: "ScenarioMetric option"
  ss_Total :: "ScenarioMetric option"

fun metricFor :: "ScenarioStep \<Rightarrow> MetricKind \<Rightarrow> ScenarioMetric option" where
  "metricFor s MetricKindHighPriority = ss_HighPriority s"
| "metricFor s MetricKindTotal = ss_Total s"
| "metricFor s MetricKindUnknown = None"

text \<open>Unquoting a duration before \<^verbatim>\<open>time.ParseDuration\<close>, which is the parameter \<open>parse\<close>.\<close>

definition Duration_UnmarshalJSON :: "(string \<Rightarrow> duration option) \<Rightarrow> string \<Rightarrow> string + duration" where
  "Duration_UnmarshalJSON parse b =
     (let s = (if length b \<ge> 2 \<and> b ! 0 = quote \<and> b ! (length b - 1) = quote
               then take (length b - 2) (drop 1 b) else b)
      in case parse s of None \<Rightarrow> Inl s | Some v \<Rightarrow> Inr v)"

record scenarioEntry =
  se_steps :: "ScenarioStep list"
  se_total :: duration
  se_startTime :: time

fun step_at :: "ScenarioStep list \<Rightarrow> duration \<Rightarrow> duration \<Rightarrow> ScenarioStep option" where
  "step_at [] cum elapsed = None"
| "step_at (s # steps) cum elapsed =
     (let cum = gadd cum (ss_Duration s) in if elapsed < cum then Some s else step_at steps cum elapsed)"

definition currentStep :: "time \<Rightarrow> scenarioEntry \<Rightarrow> ScenarioStep option" where
  "currentStep now e =
     (if se_total e = 0 then None
      else case step_at (se_steps e) 0 (grem (t_sub now (se_startTime e)) (se_total e)) of
             Some s \<Rightarrow> Some s
           | None \<Rightarrow> if se_steps e = [] then None else Some (last (se_steps e)))"

type_synonym ScenarioStore = "string \<rightharpoonup> scenarioEntry"

definition NewScenarioStore :: ScenarioStore where
  "NewScenarioStore = Map.empty"

datatype scenario_err =
    No_steps
  | Not_positive nat
  | No_metric nat
  | No_value nat string
  | Two_values nat string
  | Value_range nat string

definition f_outside_unit :: "float64 \<Rightarrow> bool" where
  "f_outside_unit v \<longleftrightarrow> f_less v f_zero \<or> f_less (f_of_int 1) v"

definition check_metric :: "nat \<Rightarrow> string \<Rightarrow> ScenarioMetric option \<Rightarrow> scenario_err option" where
  "check_metric i name metric =
     (case metric of None \<Rightarrow> None
      | Some m \<Rightarrow>
          (if sm_CPUUtilization m = None \<and> sm_Workload m = None then Some (No_value i name)
           else if sm_CPUUtilization m \<noteq> None \<and> sm_Workload m \<noteq> None then Some (Two_values i name)
           else case sm_CPUUtilization m of
                  Some v \<Rightarrow> if f_outside_unit v then Some (Value_range i name) else None
                | None \<Rightarrow> None))"

definition validateScenarioStep :: "nat \<Rightarrow> ScenarioStep \<Rightarrow> scenario_err option" where
  "validateScenarioStep i step =
     (if ss_HighPriority step = None \<and> ss_Total step = None then Some (No_metric i)
      else case check_metric i ''high_priority'' (ss_HighPriority step) of
             Some err \<Rightarrow> Some err
           | None \<Rightarrow> check_metric i ''total'' (ss_Total step))"

fun total_duration :: "nat \<Rightarrow> ScenarioStep list \<Rightarrow> duration \<Rightarrow> scenario_err + duration" where
  "total_duration i [] cum = Inr cum"
| "total_duration i (step # steps) cum =
     (if ss_Duration step \<le> 0 then Inl (Not_positive i)
      else case validateScenarioStep i step of
             Some err \<Rightarrow> Inl err
           | None \<Rightarrow> total_duration (Suc i) steps (gadd cum (ss_Duration step)))"

definition ScenarioStore_Set ::
    "time \<Rightarrow> string \<Rightarrow> string \<Rightarrow> ScenarioStep list \<Rightarrow> ScenarioStore \<Rightarrow> scenario_err + ScenarioStore" where
  "ScenarioStore_Set now project instanceID steps s =
     (if length steps = 0 then Inl No_steps
      else case total_duration 0 steps 0 of
             Inl err \<Rightarrow> Inl err
           | Inr cum \<Rightarrow> Inr (s(storeKey project instanceID \<mapsto>
               \<lparr>se_steps = steps, se_total = cum, se_startTime = now\<rparr>)))"

definition ScenarioStore_Get :: "time \<Rightarrow> string \<Rightarrow> string \<Rightarrow> ScenarioStore \<Rightarrow> ScenarioStep option option" where
  "ScenarioStore_Get now project instanceID s =
     (case s (storeKey project instanceID) of None \<Rightarrow> None | Some e \<Rightarrow> Some (currentStep now e))"

definition ScenarioStore_Delete :: "string \<Rightarrow> string \<Rightarrow> ScenarioStore \<Rightarrow> ScenarioStore" where
  "ScenarioStore_Delete project instanceID s = s(storeKey project instanceID := None)"

record instanceScenario =
  is_Project :: string
  is_Instance :: string
  is_Steps :: "ScenarioStep list"

datatype load_err = Load_read | Load_parse | Load_instance string string scenario_err

fun load_instances :: "time \<Rightarrow> instanceScenario list \<Rightarrow> ScenarioStore \<Rightarrow> load_err option \<times> ScenarioStore" where
  "load_instances now [] s = (None, s)"
| "load_instances now (x # xs) s =
     (case ScenarioStore_Set now (is_Project x) (is_Instance x) (is_Steps x) s of
        Inl err \<Rightarrow> (Some (Load_instance (is_Project x) (is_Instance x) err), s)
      | Inr s \<Rightarrow> load_instances now xs s)"

definition LoadFile ::
    "(string \<Rightarrow> string option) \<Rightarrow> (string \<Rightarrow> instanceScenario list option) \<Rightarrow> time \<Rightarrow> string \<Rightarrow>
     ScenarioStore \<Rightarrow> load_err option \<times> ScenarioStore" where
  "LoadFile read_file yaml now path s =
     (case read_file path of None \<Rightarrow> (Some Load_read, s)
      | Some data \<Rightarrow> (case yaml data of None \<Rightarrow> (Some Load_parse, s) | Some f \<Rightarrow> load_instances now f s))"

section \<open>The service\<close>

record stores =
  mes_static :: StaticStore
  mes_workload :: WorkloadStore
  mes_scenario :: ScenarioStore

definition buildResponse :: "float64 list \<Rightarrow> points list" where
  "buildResponse cpuUtilizations = map (\<lambda>v. [v]) cpuUtilizations"

definition calcCPUFromWorkload ::
    "'s get_instance option \<Rightarrow> string \<Rightarrow> string \<Rightarrow> float64 \<Rightarrow> 's \<Rightarrow> (lts_err + float64) \<times> 's" where
  "calcCPUFromWorkload admin projectID instanceID workload w =
     (case admin of None \<Rightarrow> (Inl No_admin_client, w)
      | Some get \<Rightarrow>
          (case get (instance_name projectID instanceID) w of
             (Inl err, w) \<Rightarrow> (Inl (Admin_error err), w)
           | (Inr resp, w) \<Rightarrow>
               (let currentPU = f_of_int (pb_ProcessingUnits resp)
                in if f_man currentPU = 0 then (Inl Zero_units, w)
                   else (Inr (f_div workload currentPU), w))))"

definition one_value :: "(lts_err + float64) \<times> 's \<Rightarrow> (lts_err + points list) \<times> 's" where
  "one_value r = (case r of (Inl err, w) \<Rightarrow> (Inl err, w) | (Inr cpu, w) \<Rightarrow> (Inr (buildResponse [cpu]), w))"

definition scenario_response ::
    "'s get_instance option \<Rightarrow> string \<Rightarrow> string \<Rightarrow> MetricKind \<Rightarrow> ScenarioStep \<Rightarrow> 's \<Rightarrow>
     (lts_err + points list) \<times> 's" where
  "scenario_response admin projectID instanceID kind step w =
     (case metricFor step kind of
        None \<Rightarrow> (Inr [], w)
      | Some metric \<Rightarrow>
          (case sm_Workload metric of
             Some wl \<Rightarrow> one_value (calcCPUFromWorkload admin projectID instanceID
                 (f_mul (ws_CPUUtilization wl) (f_of_int (ws_ReferenceProcessingUnits wl))) w)
           | None \<Rightarrow> (case sm_CPUUtilization metric of
                         Some v \<Rightarrow> (Inr (buildResponse [v]), w)
                       | None \<Rightarrow> (Inl LTS_panic, w))))"

definition static_response ::
    "ListTimeSeriesRequest \<Rightarrow> MetricKind \<Rightarrow> CPUEntry \<Rightarrow> lts_err + points list" where
  "static_response req kind entry =
     (case CPUEntry_regions entry kind of
        None \<Rightarrow> Inr []
      | Some rs \<Rightarrow> (case aggregate rs (req_Aggregation req) (req_SecondaryAggregation req) of
                       Inl err \<Rightarrow> Inl err | Inr values \<Rightarrow> Inr (buildResponse values)))"

definition ListTimeSeries ::
    "'s get_instance option \<Rightarrow> time \<Rightarrow> stores \<Rightarrow> ListTimeSeriesRequest \<Rightarrow> 's \<Rightarrow> (lts_err + points list) \<times> 's" where
  "ListTimeSeries admin now s req w =
     (case extractProjectID (req_Name req) of Inl err \<Rightarrow> (Inl err, w)
      | Inr projectID \<Rightarrow>
     (case extractInstanceID (req_Filter req) of Inl err \<Rightarrow> (Inl err, w)
      | Inr instanceID \<Rightarrow>
     (let kind = extractMetricKind (req_Filter req)
      in if kind = MetricKindUnknown then (Inl (Bad_metric (req_Filter req)), w)
         else case ScenarioStore_Get now projectID instanceID (mes_scenario s) of
                Some None \<Rightarrow> (Inl LTS_panic, w)
              | Some (Some step) \<Rightarrow> scenario_response admin projectID instanceID kind step w
              | None \<Rightarrow>
                  (case WorkloadStore_Get projectID instanceID kind (mes_workload s) of
                     Some params \<Rightarrow> one_value (calcCPUFromWorkload admin projectID instanceID (wp_Workload params) w)
                   | None \<Rightarrow>
                       (case StaticStore_GetEntry projectID instanceID (mes_static s) of
                          Some entry \<Rightarrow> (static_response req kind entry, w)
                        | None \<Rightarrow> (Inr [], w))))))"

section \<open>The admin handlers\<close>

record staticSetRequest =
  sr_HighPriority :: "float64 option"
  sr_HighPriorityRegions :: regions
  sr_Total :: "float64 option"
  sr_TotalRegions :: regions

record staticResponse =
  sp_ProjectID :: string
  sp_InstanceID :: string
  sp_HighPriority :: "float64 option"
  sp_HighPriorityRegions :: regions
  sp_Total :: "float64 option"
  sp_TotalRegions :: regions

record workloadMetricRequest =
  wr_CPUUtilization :: float64
  wr_ReferenceProcessingUnits :: gint

record workloadSetRequest =
  wsr_HighPriority :: "workloadMetricRequest option"
  wsr_Total :: "workloadMetricRequest option"

record workloadMetricResponse =
  wmr_Workload :: float64
  wmr_ReferenceCPUUtilization :: float64
  wmr_ReferenceProcessingUnits :: gint

record workloadResponse =
  wp_ProjectID :: string
  wp_InstanceID :: string
  wp_HighPriority :: "workloadMetricResponse option"
  wp_Total :: "workloadMetricResponse option"

datatype admin_err =
    Bad_body
  | Must_set
  | Exclusive string
  | Out_of_range string
  | Region_out_of_range string string
  | Reference_not_positive string
  | Scenario_err scenario_err

datatype http_response =
    Http_error nat "admin_err option"
  | Http_static staticResponse
  | Http_workload workloadResponse
  | Http_status nat

definition validateCPUField :: "string \<Rightarrow> float64 option \<Rightarrow> admin_err option" where
  "validateCPUField name v =
     (case v of None \<Rightarrow> None | Some x \<Rightarrow> if f_outside_unit x then Some (Out_of_range name) else None)"

fun validateCPURegions :: "string \<Rightarrow> regions \<Rightarrow> admin_err option" where
  "validateCPURegions name [] = None"
| "validateCPURegions name ((region, v) # rs) =
     (if f_outside_unit v then Some (Region_out_of_range name region) else validateCPURegions name rs)"

definition validateWorkloadMetric :: "string \<Rightarrow> float64 \<Rightarrow> gint \<Rightarrow> admin_err option" where
  "validateWorkloadMetric name cpu pu =
     (if f_outside_unit cpu then Some (Out_of_range name)
      else if pu \<le> 0 then Some (Reference_not_positive name) else None)"

definition staticEntryFromRequest :: "staticSetRequest \<Rightarrow> admin_err + CPUEntry" where
  "staticEntryFromRequest req =
     (if sr_HighPriority req = None \<and> length (sr_HighPriorityRegions req) = 0 \<and>
         sr_Total req = None \<and> length (sr_TotalRegions req) = 0 then Inl Must_set
      else if sr_HighPriority req \<noteq> None \<and> length (sr_HighPriorityRegions req) > 0 then Inl (Exclusive ''high_priority'')
      else if sr_Total req \<noteq> None \<and> length (sr_TotalRegions req) > 0 then Inl (Exclusive ''total'')
      else case validateCPUField ''high_priority'' (sr_HighPriority req) of Some err \<Rightarrow> Inl err | None \<Rightarrow>
          (case validateCPUField ''total'' (sr_Total req) of Some err \<Rightarrow> Inl err | None \<Rightarrow>
          (case validateCPURegions ''high_priority_regions'' (sr_HighPriorityRegions req) of Some err \<Rightarrow> Inl err | None \<Rightarrow>
          (case validateCPURegions ''total_regions'' (sr_TotalRegions req) of Some err \<Rightarrow> Inl err | None \<Rightarrow>
            Inr \<lparr>ce_HighPriority = sr_HighPriority req, ce_HighPriorityRegions = sr_HighPriorityRegions req,
                 ce_Total = sr_Total req, ce_TotalRegions = sr_TotalRegions req\<rparr>))))"

definition static_body :: "string \<Rightarrow> string \<Rightarrow> CPUEntry \<Rightarrow> staticResponse" where
  "static_body projectID instanceID entry =
     \<lparr>sp_ProjectID = projectID, sp_InstanceID = instanceID,
      sp_HighPriority = ce_HighPriority entry, sp_HighPriorityRegions = ce_HighPriorityRegions entry,
      sp_Total = ce_Total entry, sp_TotalRegions = ce_TotalRegions entry\<rparr>"

definition handleStaticSet ::
    "(string \<Rightarrow> staticSetRequest option) \<Rightarrow> string \<Rightarrow> string \<Rightarrow> string \<Rightarrow> StaticStore \<Rightarrow> http_response \<times> StaticStore" where
  "handleStaticSet decode projectID instanceID body s =
     (case decode body of
        None \<Rightarrow> (Http_error 400 (Some Bad_body), s)
      | Some req \<Rightarrow>
          (case staticEntryFromRequest req of
             Inl err \<Rightarrow> (Http_error 400 (Some err), s)
           | Inr entry \<Rightarrow> (Http_static (static_body projectID instanceID entry),
                            StaticStore_Set projectID instanceID entry s)))"

definition handleStaticGet :: "string \<Rightarrow> string \<Rightarrow> StaticStore \<Rightarrow> http_response" where
  "handleStaticGet projectID instanceID s =
     (case StaticStore_GetEntry projectID instanceID s of
        None \<Rightarrow> Http_error 404 None
      | Some entry \<Rightarrow> Http_static (static_body projectID instanceID entry))"

definition handleStaticDelete :: "string \<Rightarrow> string \<Rightarrow> StaticStore \<Rightarrow> http_response \<times> StaticStore" where
  "handleStaticDelete projectID instanceID s = (Http_status 204, StaticStore_Delete projectID instanceID s)"

definition workloadParamsToResponse :: "WorkloadParams option \<Rightarrow> workloadMetricResponse option" where
  "workloadParamsToResponse p =
     (case p of None \<Rightarrow> None
      | Some p \<Rightarrow> Some \<lparr>wmr_Workload = wp_Workload p, wmr_ReferenceCPUUtilization = wp_ReferenceCPU p,
                         wmr_ReferenceProcessingUnits = wp_ReferencePU p\<rparr>)"

definition workload_body :: "string \<Rightarrow> string \<Rightarrow> WorkloadEntry \<Rightarrow> workloadResponse" where
  "workload_body projectID instanceID entry =
     \<lparr>wp_ProjectID = projectID, wp_InstanceID = instanceID,
      wp_HighPriority = workloadParamsToResponse (we_HighPriority entry),
      wp_Total = workloadParamsToResponse (we_Total entry)\<rparr>"

definition workload_metric :: "string \<Rightarrow> workloadMetricRequest option \<Rightarrow> admin_err + WorkloadParams option" where
  "workload_metric name r =
     (case r of None \<Rightarrow> Inr None
      | Some m \<Rightarrow>
          (case validateWorkloadMetric name (wr_CPUUtilization m) (wr_ReferenceProcessingUnits m) of
             Some err \<Rightarrow> Inl err
           | None \<Rightarrow> Inr (Some (newWorkloadParams (wr_CPUUtilization m) (wr_ReferenceProcessingUnits m)))))"

definition handleWorkloadSet ::
    "(string \<Rightarrow> workloadSetRequest option) \<Rightarrow> string \<Rightarrow> string \<Rightarrow> string \<Rightarrow> WorkloadStore \<Rightarrow> http_response \<times> WorkloadStore" where
  "handleWorkloadSet decode projectID instanceID body s =
     (case decode body of
        None \<Rightarrow> (Http_error 400 (Some Bad_body), s)
      | Some req \<Rightarrow>
          (if wsr_HighPriority req = None \<and> wsr_Total req = None then (Http_error 400 (Some Must_set), s)
           else case workload_metric ''high_priority'' (wsr_HighPriority req) of
                  Inl err \<Rightarrow> (Http_error 400 (Some err), s)
                | Inr hp \<Rightarrow>
                    (case workload_metric ''total'' (wsr_Total req) of
                       Inl err \<Rightarrow> (Http_error 400 (Some err), s)
                     | Inr t \<Rightarrow>
                         (let entry = \<lparr>we_HighPriority = hp, we_Total = t\<rparr>
                          in (Http_workload (workload_body projectID instanceID entry),
                              WorkloadStore_Set projectID instanceID entry s)))))"

definition handleWorkloadGet :: "string \<Rightarrow> string \<Rightarrow> WorkloadStore \<Rightarrow> http_response" where
  "handleWorkloadGet projectID instanceID s =
     (case WorkloadStore_GetEntry projectID instanceID s of
        None \<Rightarrow> Http_error 404 None
      | Some entry \<Rightarrow> Http_workload (workload_body projectID instanceID entry))"

definition handleWorkloadDelete :: "string \<Rightarrow> string \<Rightarrow> WorkloadStore \<Rightarrow> http_response \<times> WorkloadStore" where
  "handleWorkloadDelete projectID instanceID s = (Http_status 204, WorkloadStore_Delete projectID instanceID s)"

definition handleScenarioSet ::
    "(string \<Rightarrow> ScenarioStep list option) \<Rightarrow> time \<Rightarrow> string \<Rightarrow> string \<Rightarrow> string \<Rightarrow> ScenarioStore \<Rightarrow>
     http_response \<times> ScenarioStore" where
  "handleScenarioSet decode now projectID instanceID body s =
     (case decode body of
        None \<Rightarrow> (Http_error 400 (Some Bad_body), s)
      | Some steps \<Rightarrow>
          (case ScenarioStore_Set now projectID instanceID steps s of
             Inl err \<Rightarrow> (Http_error 400 (Some (Scenario_err err)), s)
           | Inr s \<Rightarrow> (Http_status 200, s)))"

definition handleScenarioDelete :: "string \<Rightarrow> string \<Rightarrow> ScenarioStore \<Rightarrow> http_response \<times> ScenarioStore" where
  "handleScenarioDelete projectID instanceID s = (Http_status 204, ScenarioStore_Delete projectID instanceID s)"

text \<open>The routes of \<^verbatim>\<open>NewAdminHandler\<close>, with the path values and the body of each.\<close>

datatype admin_request =
    PUT_metrics string string string
  | GET_metrics string string
  | DELETE_metrics string string
  | PUT_workload string string string
  | GET_workload string string
  | DELETE_workload string string
  | PUT_scenario string string string
  | DELETE_scenario string string

record decoders =
  dec_static :: "string \<Rightarrow> staticSetRequest option"
  dec_workload :: "string \<Rightarrow> workloadSetRequest option"
  dec_scenario :: "string \<Rightarrow> ScenarioStep list option"

fun NewAdminHandler :: "decoders \<Rightarrow> time \<Rightarrow> admin_request \<Rightarrow> stores \<Rightarrow> http_response \<times> stores" where
  "NewAdminHandler d now (PUT_metrics p i b) s =
     (case handleStaticSet (dec_static d) p i b (mes_static s) of (r, t) \<Rightarrow> (r, s\<lparr>mes_static := t\<rparr>))"
| "NewAdminHandler d now (GET_metrics p i) s = (handleStaticGet p i (mes_static s), s)"
| "NewAdminHandler d now (DELETE_metrics p i) s =
     (case handleStaticDelete p i (mes_static s) of (r, t) \<Rightarrow> (r, s\<lparr>mes_static := t\<rparr>))"
| "NewAdminHandler d now (PUT_workload p i b) s =
     (case handleWorkloadSet (dec_workload d) p i b (mes_workload s) of (r, t) \<Rightarrow> (r, s\<lparr>mes_workload := t\<rparr>))"
| "NewAdminHandler d now (GET_workload p i) s = (handleWorkloadGet p i (mes_workload s), s)"
| "NewAdminHandler d now (DELETE_workload p i) s =
     (case handleWorkloadDelete p i (mes_workload s) of (r, t) \<Rightarrow> (r, s\<lparr>mes_workload := t\<rparr>))"
| "NewAdminHandler d now (PUT_scenario p i b) s =
     (case handleScenarioSet (dec_scenario d) now p i b (mes_scenario s) of (r, t) \<Rightarrow> (r, s\<lparr>mes_scenario := t\<rparr>))"
| "NewAdminHandler d now (DELETE_scenario p i) s =
     (case handleScenarioDelete p i (mes_scenario s) of (r, t) \<Rightarrow> (r, s\<lparr>mes_scenario := t\<rparr>))"

definition NewStores :: stores where
  "NewStores = \<lparr>mes_static = NewStaticStore, mes_workload = NewWorkloadStore, mes_scenario = NewScenarioStore\<rparr>"

end
