(* ===== verification/Emulated_Metrics.thy ===== *)
theory Emulated_Metrics
  imports Monitoring_Emulator
begin

text \<open>
  What the monitoring emulator promises: the contract of its three stores as the locale
  \<open>keyed_store\<close>, the step of a scenario that is in force at a moment, and the answer the
  metrics client of \<^verbatim>\<open>internal/metrics\<close> gets from it.
\<close>

section \<open>Stores\<close>

lemma storeKey_inj:
  assumes "CHR ''/'' \<notin> set p" "CHR ''/'' \<notin> set q"
  shows "storeKey p i = storeKey q j \<longleftrightarrow> p = q \<and> i = j"
proof
  assume e: "storeKey p i = storeKey q j"
  have t: "takeWhile (\<lambda>c. c \<noteq> CHR ''/'') (storeKey r k) = r" if "CHR ''/'' \<notin> set r" for r k
    using that by (induction r) (auto simp: storeKey_def)
  have "p = q" using t [OF assms(1), of i] t [OF assms(2), of j] e by simp
  then show "p = q \<and> i = j" using e by (simp add: storeKey_def)
qed simp

text \<open>
  \<open>put\<close> and \<open>del\<close> change a store under the key of an instance and \<open>look\<close> reads it;
  a value that is not accepted leaves the store as it was, and an accepted one reads as its
  \<open>view\<close>.
\<close>

locale keyed_store =
  fixes put :: "string \<Rightarrow> string \<Rightarrow> 'e \<Rightarrow> 's \<Rightarrow> 's"
    and look :: "string \<Rightarrow> string \<Rightarrow> 's \<Rightarrow> 'v option"
    and del :: "string \<Rightarrow> string \<Rightarrow> 's \<Rightarrow> 's"
    and accepts :: "'e \<Rightarrow> bool"
    and view :: "'e \<Rightarrow> 'v"
  assumes look_put: "look p i (put q j e s) =
      (if storeKey p i = storeKey q j \<and> accepts e then Some (view e) else look p i s)"
    and look_del: "look p i (del q j s) = (if storeKey p i = storeKey q j then None else look p i s)"
begin

lemma put_same: "accepts e \<Longrightarrow> look p i (put p i e s) = Some (view e)"
  by (simp add: look_put)

lemma put_other:
  assumes "CHR ''/'' \<notin> set p" "CHR ''/'' \<notin> set q" "(p, i) \<noteq> (q, j)"
  shows "look p i (put q j e s) = look p i s"
  using assms by (auto simp: look_put storeKey_inj)

lemma del_other:
  assumes "CHR ''/'' \<notin> set p" "CHR ''/'' \<notin> set q" "(p, i) \<noteq> (q, j)"
  shows "look p i (del q j s) = look p i s"
  using assms by (auto simp: look_del storeKey_inj)

end

interpretation static: keyed_store StaticStore_Set StaticStore_GetEntry StaticStore_Delete "\<lambda>e. True" "\<lambda>e. e"
  by unfold_locales (simp_all add: StaticStore_Set_def StaticStore_GetEntry_def StaticStore_Delete_def)

interpretation workload: keyed_store WorkloadStore_Set WorkloadStore_GetEntry WorkloadStore_Delete "\<lambda>e. True" "\<lambda>e. e"
  by unfold_locales (simp_all add: WorkloadStore_Set_def WorkloadStore_GetEntry_def WorkloadStore_Delete_def)

text \<open>A scenario is stored with the moment at which it was set and the length of one round.\<close>

definition scenario_put :: "string \<Rightarrow> string \<Rightarrow> ScenarioStep list \<times> time \<Rightarrow> ScenarioStore \<Rightarrow> ScenarioStore" where
  "scenario_put p i e s = (case ScenarioStore_Set (snd e) p i (fst e) s of Inl err \<Rightarrow> s | Inr s' \<Rightarrow> s')"

definition scenario_accepts :: "ScenarioStep list \<times> time \<Rightarrow> bool" where
  "scenario_accepts e \<longleftrightarrow> fst e \<noteq> [] \<and> (\<exists>t. total_duration 0 (fst e) 0 = Inr t)"

definition scenario_view :: "ScenarioStep list \<times> time \<Rightarrow> scenarioEntry" where
  "scenario_view e = \<lparr>se_steps = fst e,
     se_total = (case total_duration 0 (fst e) 0 of Inl err \<Rightarrow> 0 | Inr t \<Rightarrow> t), se_startTime = snd e\<rparr>"

interpretation scenario: keyed_store scenario_put "\<lambda>p i s. s (storeKey p i)" ScenarioStore_Delete
    scenario_accepts scenario_view
  by unfold_locales
     (auto simp: scenario_put_def ScenarioStore_Set_def scenario_accepts_def scenario_view_def
       ScenarioStore_Delete_def split: sum.splits)

lemma total_duration_ok:
  "total_duration i steps c = Inr t \<Longrightarrow> (\<forall>x \<in> set steps. 0 < ss_Duration x) \<and>
     (c + sum_list (map ss_Duration steps) < 2 ^ 63 \<longrightarrow> 0 \<le> c \<longrightarrow> t = c + sum_list (map ss_Duration steps))"
proof (induction i steps c rule: total_duration.induct)
  case (2 i x xs c)
  from "2.prems" have d: "0 < ss_Duration x" and v: "validateScenarioStep i x = None"
    and r: "total_duration (Suc i) xs (gadd c (ss_Duration x)) = Inr t"
    by (auto split: if_splits option.splits)
  note IH = "2.IH" [OF _ v r]
  have pos: "\<forall>y \<in> set xs. 0 < ss_Duration y" using IH d by auto
  then have "0 \<le> sum_list (map ss_Duration xs)" by (intro sum_list_nonneg) auto
  then have "gadd c (ss_Duration x) = c + ss_Duration x"
    if "c + sum_list (map ss_Duration (x # xs)) < 2 ^ 63" "0 \<le> c"
    using that d by (intro gadd_id) auto
  then show ?case using IH d by (auto simp: add.assoc)
qed auto

section \<open>The state of the emulator\<close>

text \<open>Every request of the admin API touches one instance only.\<close>

fun req_instance :: "admin_request \<Rightarrow> string \<times> string" where
  "req_instance (PUT_metrics p i b) = (p, i)"
| "req_instance (GET_metrics p i) = (p, i)"
| "req_instance (DELETE_metrics p i) = (p, i)"
| "req_instance (PUT_workload p i b) = (p, i)"
| "req_instance (GET_workload p i) = (p, i)"
| "req_instance (DELETE_workload p i) = (p, i)"
| "req_instance (PUT_scenario p i b) = (p, i)"
| "req_instance (DELETE_scenario p i) = (p, i)"

lemma handleStaticSet_store:
  "\<exists>e. snd (handleStaticSet d p i b s) = s \<or> snd (handleStaticSet d p i b s) = StaticStore_Set p i e s"
  by (auto simp: handleStaticSet_def split: option.splits sum.splits)

lemma handleWorkloadSet_store:
  "\<exists>e. snd (handleWorkloadSet d p i b s) = s \<or> snd (handleWorkloadSet d p i b s) = WorkloadStore_Set p i e s"
  by (auto simp: handleWorkloadSet_def Let_def split: option.splits sum.splits)

lemma handleScenarioSet_store:
  "snd (handleScenarioSet d now p i b s) = (case d b of None \<Rightarrow> s | Some steps \<Rightarrow> scenario_put p i (steps, now) s)"
  by (auto simp: handleScenarioSet_def scenario_put_def split: option.splits sum.splits)

definition stores_at :: "string \<Rightarrow> string \<Rightarrow> stores \<Rightarrow> CPUEntry option \<times> WorkloadEntry option \<times> scenarioEntry option" where
  "stores_at p i s = (StaticStore_GetEntry p i (mes_static s), WorkloadStore_GetEntry p i (mes_workload s),
     mes_scenario s (storeKey p i))"

lemma admin_other:
  assumes "CHR ''/'' \<notin> set p" "CHR ''/'' \<notin> set (fst (req_instance r))" "(p, i) \<noteq> req_instance r"
  shows "stores_at p i (snd (NewAdminHandler d now r s)) = stores_at p i s"
proof (cases r)
  case (PUT_metrics q j b)
  then show ?thesis using assms handleStaticSet_store [of "dec_static d" q j b "mes_static s"]
    by (auto simp: stores_at_def static.put_other split: prod.splits)
next
  case (PUT_workload q j b)
  then show ?thesis using assms handleWorkloadSet_store [of "dec_workload d" q j b "mes_workload s"]
    by (auto simp: stores_at_def workload.put_other split: prod.splits)
next
  case (PUT_scenario q j b)
  then show ?thesis using assms handleScenarioSet_store [of "dec_scenario d" now q j b "mes_scenario s"]
    by (auto simp: stores_at_def scenario.put_other split: prod.splits option.splits)
qed (use assms in \<open>auto simp: stores_at_def handleStaticDelete_def handleWorkloadDelete_def handleScenarioDelete_def
       static.del_other workload.del_other scenario.del_other\<close>)

lemma ListTimeSeries_at:
  assumes "extractProjectID (req_Name req) = Inr p" "extractInstanceID (req_Filter req) = Inr i"
    and "stores_at p i s = stores_at p i s'"
  shows "ListTimeSeries admin now s req w = ListTimeSeries admin now s' req w"
proof -
  have "StaticStore_GetEntry p i (mes_static s) = StaticStore_GetEntry p i (mes_static s')"
    "WorkloadStore_Get p i kind (mes_workload s) = WorkloadStore_Get p i kind (mes_workload s')"
    "ScenarioStore_Get now p i (mes_scenario s) = ScenarioStore_Get now p i (mes_scenario s')" for kind
    using assms(3) by (simp_all add: stores_at_def ScenarioStore_Get_def WorkloadStore_Get_def WorkloadStore_GetEntry_def)
  then show ?thesis using assms(1,2) by (simp only: ListTimeSeries_def sum.case)
qed

text \<open>
  The states after any sequence of admin requests and loads of scenario files, of which a load
  that fails has stored the scenarios before the one it stopped at. \<open>d\<close> and \<open>yaml\<close> decode the
  bodies and the files.
\<close>

inductive emu_reachable :: "decoders \<Rightarrow> (string \<Rightarrow> instanceScenario list option) \<Rightarrow> stores \<Rightarrow> bool" for d yaml where
  emu_new: "emu_reachable d yaml NewStores"
| emu_admin: "emu_reachable d yaml s \<Longrightarrow> emu_reachable d yaml (snd (NewAdminHandler d now r s))"
| emu_load: "emu_reachable d yaml s \<Longrightarrow>
    emu_reachable d yaml (s\<lparr>mes_scenario := snd (LoadFile read_file yaml now path (mes_scenario s))\<rparr>)"

text \<open>
  What a stored scenario has: steps of positive length, and the length of a round if it fits a
  \<^verbatim>\<open>time.Duration\<close>; the sum is not checked and wraps around otherwise.
\<close>

definition round_length :: "scenarioEntry \<Rightarrow> int" where
  "round_length e = sum_list (map ss_Duration (se_steps e))"

definition scenario_ok :: "scenarioEntry \<Rightarrow> bool" where
  "scenario_ok e \<longleftrightarrow> se_steps e \<noteq> [] \<and> (\<forall>x \<in> set (se_steps e). 0 < ss_Duration x) \<and>
     (round_length e < 2 ^ 63 \<longrightarrow> se_total e = round_length e)"

definition scenario_store_ok :: "ScenarioStore \<Rightarrow> bool" where
  "scenario_store_ok s \<longleftrightarrow> (\<forall>k e. s k = Some e \<longrightarrow> scenario_ok e)"

lemma scenario_view_ok: "scenario_accepts e \<Longrightarrow> scenario_ok (scenario_view e)"
  using total_duration_ok [of 0 "fst e" 0]
  by (auto simp: scenario_accepts_def scenario_ok_def scenario_view_def round_length_def)

lemma scenario_put_lookup:
  "scenario_put p i e s k =
     (if k = storeKey p i \<and> scenario_accepts e then Some (scenario_view e) else s k)"
  by (auto simp: scenario_put_def ScenarioStore_Set_def scenario_accepts_def scenario_view_def split: sum.splits)

lemma scenario_put_ok: "scenario_store_ok s \<Longrightarrow> scenario_store_ok (scenario_put p i e s)"
  using scenario_view_ok by (auto simp: scenario_store_ok_def scenario_put_lookup split: if_splits)

lemma admin_scenarios_ok:
  assumes "scenario_store_ok (mes_scenario s)"
  shows "scenario_store_ok (mes_scenario (snd (NewAdminHandler d now r s)))"
proof (cases r)
  case (PUT_scenario p i b)
  have "scenario_store_ok (snd (handleScenarioSet (dec_scenario d) now p i b (mes_scenario s)))"
    using assms scenario_put_ok unfolding handleScenarioSet_store by (auto split: option.splits)
  then show ?thesis using PUT_scenario by (auto split: prod.splits)
qed (use assms in \<open>auto simp: scenario_store_ok_def handleScenarioDelete_def ScenarioStore_Delete_def split: prod.splits if_splits\<close>)

lemma load_instances_ok:
  "scenario_store_ok s \<Longrightarrow> scenario_store_ok (snd (load_instances now xs s))"
proof (induction xs arbitrary: s)
  case (Cons x xs)
  show ?case
  proof (cases "ScenarioStore_Set now (is_Project x) (is_Instance x) (is_Steps x) s")
    case (Inr s1)
    then have "scenario_put (is_Project x) (is_Instance x) (is_Steps x, now) s = s1" by (simp add: scenario_put_def)
    then show ?thesis using Cons.IH [of s1] Cons.prems scenario_put_ok Inr by auto
  qed (use Cons.prems in simp)
qed simp

lemma LoadFile_ok: "scenario_store_ok s \<Longrightarrow> scenario_store_ok (snd (LoadFile read_file yaml now path s))"
  by (auto simp: LoadFile_def load_instances_ok split: option.splits)

lemma emu_reachable_ok: "emu_reachable d yaml s \<Longrightarrow> scenario_store_ok (mes_scenario s)"
proof (induction rule: emu_reachable.induct)
  case emu_new
  then show ?case by (simp add: scenario_store_ok_def NewStores_def NewScenarioStore_def)
qed (simp_all add: admin_scenarios_ok LoadFile_ok)

section \<open>The step in force\<close>

lemma step_at_exact:
  assumes "\<forall>x \<in> set steps. 0 < ss_Duration x" "0 \<le> c" "c \<le> t" "t < c + sum_list (map ss_Duration steps)"
    and "c + sum_list (map ss_Duration steps) < 2 ^ 63"
  shows "\<exists>k < length steps. step_at steps c t = Some (steps ! k) \<and>
     c + sum_list (map ss_Duration (take k steps)) \<le> t \<and> t < c + sum_list (map ss_Duration (take (Suc k) steps))"
  using assms
proof (induction steps arbitrary: c)
  case (Cons x xs)
  have "0 \<le> sum_list (map ss_Duration xs)" using Cons.prems(1) by (intro sum_list_nonneg) auto
  then have g: "gadd c (ss_Duration x) = c + ss_Duration x"
    using Cons.prems by (intro gadd_id) auto
  show ?case
  proof (cases "t < c + ss_Duration x")
    case True
    then show ?thesis using g Cons.prems by (intro exI [of _ 0]) simp
  next
    case False
    then have "\<exists>k < length xs. step_at xs (c + ss_Duration x) t = Some (xs ! k) \<and>
        c + ss_Duration x + sum_list (map ss_Duration (take k xs)) \<le> t \<and>
        t < c + ss_Duration x + sum_list (map ss_Duration (take (Suc k) xs))"
      using Cons.prems by (intro Cons.IH) (auto simp: algebra_simps)
    then obtain k where "k < length xs" "step_at xs (c + ss_Duration x) t = Some (xs ! k)"
      "c + ss_Duration x + sum_list (map ss_Duration (take k xs)) \<le> t"
      "t < c + ss_Duration x + sum_list (map ss_Duration (take (Suc k) xs))" by blast
    then show ?thesis using g False by (intro exI [of _ "Suc k"]) (simp add: algebra_simps)
  qed
qed simp

lemma currentStep_exact:
  assumes "scenario_ok e" "round_length e < 2 ^ 63" "se_startTime e \<le> now" "now - se_startTime e < 2 ^ 63"
  shows "\<exists>k < length (se_steps e). currentStep now e = Some (se_steps e ! k) \<and>
     sum_list (map ss_Duration (take k (se_steps e))) \<le> (now - se_startTime e) mod round_length e \<and>
     (now - se_startTime e) mod round_length e < sum_list (map ss_Duration (take (Suc k) (se_steps e)))"
proof -
  let ?t = "(now - se_startTime e) mod round_length e"
  obtain x xs where x: "se_steps e = x # xs" using assms(1) by (cases "se_steps e") (auto simp: scenario_ok_def)
  have tot: "se_total e = round_length e" using assms(1,2) by (simp add: scenario_ok_def)
  have "0 \<le> sum_list (map ss_Duration xs)"
    using assms(1) x by (intro sum_list_nonneg) (auto simp: scenario_ok_def less_imp_le)
  then have pos: "0 < round_length e" using assms(1) x by (auto simp: scenario_ok_def round_length_def)
  have s: "t_sub now (se_startTime e) = now - se_startTime e" using assms(3,4) by (simp add: t_sub_def)
  have g: "grem (t_sub now (se_startTime e)) (se_total e) = ?t"
    unfolding s tot using assms(3) pos by (simp add: grem_nonneg)
  have "0 \<le> ?t" "?t < round_length e" using pos by simp_all
  with step_at_exact [of "se_steps e" 0 ?t] assms(1,2) g pos tot show ?thesis
    by (force simp: scenario_ok_def currentStep_def round_length_def)
qed

section \<open>The filter of the client\<close>

lemma newline_char: "newline = CHR 0x0A"
  by code_simp

lemma tab2_chars: "tab2 = [CHR 0x09, CHR 0x09]"
  by code_simp

lemma re_search_None: "re_search m s = None \<longleftrightarrow> (\<forall>p q. s = p @ q \<longrightarrow> m q = None)"
  by (induction s) (auto simp: Cons_eq_append_conv split: option.splits)

lemma re_char_Some: "re_char c s = Some r \<longleftrightarrow> s = c # r"
  by (auto simp: re_char_def split: list.splits if_splits)

lemma match_quoted_quote: "match_quoted key s = Some r \<Longrightarrow> \<exists>p. s = p @ quote # r"
proof -
  assume m: "match_quoted key s = Some r"
  then obtain r1 where "dropWhile re_space (drop (length key) s) = CHR ''='' # r1" "dropWhile re_space r1 = quote # r"
    by (auto simp: match_quoted_def re_char_Some split: if_splits option.splits)
  then have "s = take (length key) s @ takeWhile re_space (drop (length key) s) @ [CHR ''=''] @ takeWhile re_space r1 @ quote # r"
    using takeWhile_dropWhile_id [of re_space "drop (length key) s"] takeWhile_dropWhile_id [of re_space r1]
    by (metis append_Cons append_Nil append_take_drop_id)
  then show ?thesis by (metis append.assoc)
qed

text \<open>An identifier without quotes cannot start a match of a metric type.\<close>

lemma match_type_id:
  assumes "quote \<notin> set u" "metric \<noteq> []" "hd metric \<noteq> newline"
  shows "match_type metric (u @ [quote, newline]) = None"
proof -
  have "r = [newline]" if m: "match_quoted ''metric.type'' (u @ [quote, newline]) = Some r" for r
  proof -
    obtain p where p: "u @ [quote, newline] = p @ quote # r" using match_quoted_quote [OF m] by blast
    have n: "newline \<noteq> quote" by (simp add: newline_char)
    show ?thesis
      using p assms(1) n by (auto simp: append_eq_append_conv2 append_eq_Cons_conv Cons_eq_append_conv)
  qed
  then show ?thesis using assms(2,3) by (cases metric) (auto simp: match_type_def split: option.splits)
qed

lemma search_type_id:
  assumes "quote \<notin> set u" "metric \<noteq> []" "hd metric \<noteq> newline"
  shows "re_search (match_type metric) (u @ [quote, newline]) = None"
  using assms(1)
proof (induction u)
  case Nil
  show ?case by (simp add: match_type_def match_quoted_def newline_char)
next
  case (Cons c u)
  then show ?case using match_type_id [of "c # u" metric] assms(2,3) by simp
qed

lemma re_space_simps [simp]:
  "re_space (CHR '' '')" "re_space (CHR 0x09)" "re_space (CHR 0x0A)" "\<not> re_space (CHR ''='')" "\<not> re_space quote"
  by (simp_all add: re_space_def)

lemma kind_high: "extractMetricKind (metricsFilterHighPriority i) = MetricKindHighPriority"
  by (simp add: extractMetricKind_def metricTypeHighPriorityPattern_def metricsFilterHighPriority_def
      newline_char tab2_chars fmt_q_def match_type_def match_quoted_def re_char_def)

lemma kind_total:
  assumes "quote \<notin> set i"
  shows "extractMetricKind (metricsFilterTotal i) = MetricKindTotal"
proof -
  have "re_search (match_type ''spanner.googleapis.com/instance/cpu/utilization_by_priority'') (i @ [quote, CHR 0x0A]) = None"
    using search_type_id [OF assms, of "''spanner.googleapis.com/instance/cpu/utilization_by_priority''"]
    by (simp add: newline_char)
  then show ?thesis
    by (simp add: extractMetricKind_def metricTypeHighPriorityPattern_def metricTypeTotalPattern_def metricsFilterTotal_def
      newline_char tab2_chars fmt_q_def match_type_def match_quoted_def re_char_def)
qed

lemma instance_regex:
  assumes "quote \<notin> set i" "i \<noteq> []"
  shows "instanceIDRegex (''resource.label.instance_id = '' @ quote # i @ [quote, CHR 0x0A]) = Some i"
proof -
  have "takeWhile (\<lambda>c. c \<noteq> quote) (i @ [quote, CHR 0x0A]) = i" "dropWhile (\<lambda>c. c \<noteq> quote) (i @ [quote, CHR 0x0A]) \<noteq> []"
    using assms(1) by (induction i) auto
  then show ?thesis using assms(2) by (simp add: instanceIDRegex_def match_quoted_def re_char_def)
qed

lemma instance_high:
  assumes "quote \<notin> set i" "i \<noteq> []"
  shows "extractInstanceID (metricsFilterHighPriority i) = Inr i"
  using instance_regex [OF assms]
  by (simp add: extractInstanceID_def metricsFilterHighPriority_def newline_char tab2_chars fmt_q_def instanceIDRegex_def
      match_quoted_def)

lemma instance_total:
  assumes "quote \<notin> set i" "i \<noteq> []"
  shows "extractInstanceID (metricsFilterTotal i) = Inr i"
  using instance_regex [OF assms]
  by (simp add: extractInstanceID_def metricsFilterTotal_def newline_char tab2_chars fmt_q_def instanceIDRegex_def
      match_quoted_def)

section \<open>What the metrics client reads\<close>

text \<open>The iterator of the generated client over one answer of the service.\<close>

definition emu_series ::
    "'s get_instance option \<Rightarrow> time \<Rightarrow> stores \<Rightarrow> ListTimeSeriesRequest \<Rightarrow> 's \<Rightarrow> (string + points) list \<times> 's" where
  "emu_series admin now s req w =
     (case ListTimeSeries admin now s req w of
        (Inl err, w) \<Rightarrow> ([Inl ''rpc error''], w)
      | (Inr series, w) \<Rightarrow> (map Inr series, w))"

fun kind_of :: "MetricType \<Rightarrow> MetricKind" where
  "kind_of MetricTypeHighPriority = MetricKindHighPriority"
| "kind_of MetricTypeTotal = MetricKindTotal"

lemma request_fields:
  assumes "quote \<notin> set (mc_instanceID c)" "mc_instanceID c \<noteq> []" "mc_projectID c \<noteq> []"
  shows "extractProjectID (req_Name (buildListTimeSeriesRequest c mt now)) = Inr (mc_projectID c)"
    and "extractInstanceID (req_Filter (buildListTimeSeriesRequest c mt now)) = Inr (mc_instanceID c)"
    and "extractMetricKind (req_Filter (buildListTimeSeriesRequest c mt now)) = kind_of mt"
  using assms
  by (cases mt; simp add: buildListTimeSeriesRequest_def extractProjectID_def split2_def
      instance_high instance_total kind_high kind_total)+

lemma concat_singletons: "concat (map (\<lambda>x. [f x]) xs) = map f xs"
  by (induction xs) auto

lemma reduce_sum_groups:
  "reduce_groups (map (\<lambda>(region, v). (region, [v])) rs) REDUCE_SUM = Inr (map (\<lambda>(region, v). (region, [v])) rs)"
  by (induction rs) (auto simp: reduceCrossSeries_def f_add_def f_zero_def)

lemma foldl_f_max:
  "foldl f_max v vs \<in> set (v # vs) \<and> (\<forall>x \<in> set (v # vs). \<not> f_less (foldl f_max v vs) x)"
proof (induction vs arbitrary: v)
  case (Cons a vs)
  have m: "f_max v a \<in> {v, a}" "\<not> f_less (f_max v a) v" "\<not> f_less (f_max v a) a"
    using f_less_asym by (auto simp: f_max_def)
  have IH: "foldl f_max (f_max v a) vs \<in> set (f_max v a # vs)"
    "\<forall>x \<in> set (f_max v a # vs). \<not> f_less (foldl f_max (f_max v a) vs) x"
    using Cons.IH [of "f_max v a"] by blast+
  have "\<not> f_less (foldl f_max (f_max v a) vs) x" if "x \<in> {v, a}" for x
    using f_not_less_trans [of "foldl f_max (f_max v a) vs" "f_max v a" x] IH(2) m(2,3) that by auto
  then show ?case using IH m(1) by auto
qed simp

lemma insort_key_map_snd:
  "insort_key fst (a, f b) (map (\<lambda>(a, b). (a, f b)) xs) = map (\<lambda>(a, b). (a, f b)) (insort_key fst (a, b) xs)"
  by (induction xs) auto

lemma sort_key_map_snd: "sort_key fst (map (\<lambda>(a, b). (a, f b)) xs) = map (\<lambda>(a, b). (a, f b)) (sort_key fst xs)"
  by (induction xs) (auto simp: insort_key_map_snd)

text \<open>The request of the client reduces the regions to their maximum.\<close>

lemma aggregate_max:
  assumes "rs \<noteq> []"
  shows "\<exists>v. aggregate rs (req_Aggregation (buildListTimeSeriesRequest c mt now))
        (req_SecondaryAggregation (buildListTimeSeriesRequest c mt now)) = Inr [v] \<and>
     v \<in> snd ` set rs \<and> (\<forall>x \<in> snd ` set rs. \<not> f_less v x)"
proof -
  let ?g = "map (\<lambda>(region, v). (region, [v])) rs" and ?vs = "map snd (sort_key fst rs)"
  have "concat (map snd (sort_key fst ?g)) = ?vs"
  proof -
    have "sort_key fst ?g = map (\<lambda>(region, v). (region, [v])) (sort_key fst rs)"
      by (rule sort_key_map_snd)
    then show ?thesis by (simp add: comp_def case_prod_beta concat_singletons)
  qed
  moreover obtain v vs where v: "?vs = v # vs" using assms by (cases ?vs) (auto dest: arg_cong [of _ _ length])
  moreover have "set ?vs = snd ` set rs" by simp
  ultimately show ?thesis using foldl_f_max [of v vs]
    by (auto simp: aggregate_def buildListTimeSeriesRequest_def get_groupBy_def get_reducer_def groupRegions_def
        locationGroupByField_def reduce_sum_groups reduceCrossSeries_def)
qed

lemma emulated_regions:
  assumes c: "quote \<notin> set (mc_instanceID c)" "mc_instanceID c \<noteq> []" "mc_projectID c \<noteq> []"
    and s: "stores_at (mc_projectID c) (mc_instanceID c) s = (Some e, wl, None)"
      "case wl of None \<Rightarrow> True | Some x \<Rightarrow> WorkloadEntry_get x (kind_of mt) = None"
    and rs: "CPUEntry_regions e (kind_of mt) = Some rs"
  shows "\<exists>v. v \<in> snd ` set rs \<and> (\<forall>x \<in> snd ` set rs. \<not> f_less v x) \<and>
     emu_series admin now s (buildListTimeSeriesRequest c mt now) w = ([Inr [v]], w)"
proof -
  let ?req = "buildListTimeSeriesRequest c mt now"
  note f = request_fields [OF c, of mt now]
  have "rs \<noteq> []" using rs by (cases mt) (auto simp: regions_or_def split: if_splits option.splits)
  from aggregate_max [OF this, of c mt now] obtain v where v: "v \<in> snd ` set rs" "\<forall>x \<in> snd ` set rs. \<not> f_less v x"
    "aggregate rs (req_Aggregation ?req) (req_SecondaryAggregation ?req) = Inr [v]" by blast
  have "ScenarioStore_Get now (mc_projectID c) (mc_instanceID c) (mes_scenario s) = None"
    "WorkloadStore_Get (mc_projectID c) (mc_instanceID c) (kind_of mt) (mes_workload s) = None"
    "StaticStore_GetEntry (mc_projectID c) (mc_instanceID c) (mes_static s) = Some e"
    using s by (auto simp: stores_at_def ScenarioStore_Get_def WorkloadStore_Get_def WorkloadStore_GetEntry_def
        split: option.splits)
  moreover have "kind_of mt \<noteq> MetricKindUnknown" by (cases mt) simp_all
  ultimately have "ListTimeSeries admin now s ?req w = (Inr [[v]], w)"
    using v(3) rs by (simp add: ListTimeSeries_def f static_response_def buildResponse_def)
  then show ?thesis using v by (auto simp: emu_series_def)
qed

section \<open>Properties\<close>

text \<open>
  The monitoring emulator answers the metrics client: when an instance has static values
  for a metric, given for several regions or as one value, and no scenario or workload
  overrides them, the client reads exactly the percentage of the largest of the regional
  values, in whatever order the emulator iterates over the regions. The identifiers must not
  be empty and the instance identifier must not contain a quote.
\<close>

theorem emulated_static_metrics:
  assumes "quote \<notin> set (mc_instanceID c)" "mc_instanceID c \<noteq> []" "mc_projectID c \<noteq> []"
    and "stores_at (mc_projectID c) (mc_instanceID c) s = (Some e, wl, None)"
    and "case wl of None \<Rightarrow> True | Some x \<Rightarrow> WorkloadEntry_get x (kind_of mt) = None"
    and "CPUEntry_regions e (kind_of mt) = Some rs"
  shows "\<exists>v percent. v \<in> snd ` set rs \<and> (\<forall>x \<in> snd ` set rs. \<not> f_less v x) \<and>
     firstPointAsPercent [v] = Inr percent \<and>
     GetInstanceMetrics (emu_series admin now s) c mt now w =
       (Inr (if mt = MetricTypeTotal
             then \<lparr>im_CurrentHighPriorityCPUUtilization = 0, im_CurrentTotalCPUUtilization = percent\<rparr>
             else \<lparr>im_CurrentHighPriorityCPUUtilization = percent, im_CurrentTotalCPUUtilization = 0\<rparr>), w)"
proof -
  obtain v where v: "v \<in> snd ` set rs" "\<forall>x \<in> snd ` set rs. \<not> f_less v x"
    and e: "emu_series admin now s (buildListTimeSeriesRequest c mt now) w = ([Inr [v]], w)"
    using emulated_regions [OF assms, of admin now w] by blast
  have "firstPointAsPercent [v] = Inr (f_to_int (f_mul v (f_of_int 100)))" by (simp add: firstPointAsPercent_def)
  moreover from this e have "GetInstanceMetrics (emu_series admin now s) c mt now w =
       (Inr (if mt = MetricTypeTotal
             then \<lparr>im_CurrentHighPriorityCPUUtilization = 0, im_CurrentTotalCPUUtilization = f_to_int (f_mul v (f_of_int 100))\<rparr>
             else \<lparr>im_CurrentHighPriorityCPUUtilization = f_to_int (f_mul v (f_of_int 100)), im_CurrentTotalCPUUtilization = 0\<rparr>), w)"
    by (cases mt) (simp_all add: GetInstanceMetrics_def)
  ultimately show ?thesis using v by blast
qed

text \<open>
  C27. A scenario loops over its steps: in every state the emulator can reach, whatever admin
  requests it served and scenario files it loaded, and for every stored scenario whose steps
  last less than 2 ^ 63 nanoseconds (292 years) in total, the step in force at any later moment
  is the one whose share of the round contains the time elapsed since the start, modulo the
  length of a round; the service does not index out of range and does not divide by zero.
\<close>

theorem scenario_step_in_force:
  assumes "emu_reachable d yaml s" "mes_scenario s key = Some e" "sum_list (map ss_Duration (se_steps e)) < 2 ^ 63"
    and "se_startTime e \<le> now" "now - se_startTime e < 2 ^ 63"
  shows "\<exists>k < length (se_steps e). currentStep now e = Some (se_steps e ! k) \<and>
     sum_list (map ss_Duration (take k (se_steps e))) \<le>
       (now - se_startTime e) mod sum_list (map ss_Duration (se_steps e)) \<and>
     (now - se_startTime e) mod sum_list (map ss_Duration (se_steps e)) <
       sum_list (map ss_Duration (take (Suc k) (se_steps e)))"
proof -
  have "scenario_ok e" using emu_reachable_ok [OF assms(1)] assms(2) by (simp add: scenario_store_ok_def)
  from currentStep_exact [OF this _ assms(4,5)] show ?thesis using assms(3) by (simp add: round_length_def)
qed

text \<open>
  Instances do not disturb each other: an admin request for one instance changes nothing
  in what the service answers for another, when project identifiers contain no slash.
\<close>

lemma emulator_isolation:
  assumes "CHR ''/'' \<notin> set p" "CHR ''/'' \<notin> set (fst (req_instance r))" "(p, i) \<noteq> req_instance r"
    and "extractProjectID (req_Name req) = Inr p" "extractInstanceID (req_Filter req) = Inr i"
  shows "ListTimeSeries admin now (snd (NewAdminHandler d now' r s)) req w = ListTimeSeries admin now s req w"
  by (rule ListTimeSeries_at [OF assms(4,5)]) (rule admin_other [OF assms(1-3)])

section \<open>Witnesses\<close>

definition sample_value :: "int \<Rightarrow> float64" where
  "sample_value m = \<lparr>f_man = m, f_exp = - 2\<rparr>"

definition sample_step :: "duration \<Rightarrow> ScenarioStep" where
  "sample_step d = \<lparr>ss_Duration = d, ss_HighPriority =
     Some \<lparr>sm_CPUUtilization = Some (sample_value 1), sm_Workload = None\<rparr>, ss_Total = None\<rparr>"

definition sample_decoders :: decoders where
  "sample_decoders = \<lparr>dec_static = (\<lambda>b. Some \<lparr>sr_HighPriority = None,
       sr_HighPriorityRegions = [(''a'', sample_value 1), (''b'', sample_value 3)], sr_Total = None, sr_TotalRegions = []\<rparr>),
     dec_workload = (\<lambda>b. None), dec_scenario = (\<lambda>b. Some [sample_step 10, sample_step 20])\<rparr>"

definition sample_metrics_client :: metrics_client where
  "sample_metrics_client = \<lparr>mc_projectID = ''p'', mc_instanceID = ''i'', mc_term = 10 * minute\<rparr>"

definition sample_stores :: stores where
  "sample_stores = snd (NewAdminHandler sample_decoders 5 (PUT_metrics ''p'' ''i'' []) NewStores)"

theorem emulated_static_metrics_witness:
  "fst (GetInstanceMetrics (emu_series None 9 sample_stores) sample_metrics_client MetricTypeHighPriority 9 ()) =
     Inr \<lparr>im_CurrentHighPriorityCPUUtilization = 75, im_CurrentTotalCPUUtilization = 0\<rparr>"
proof -
  let ?rs = "[(''a'', sample_value 1), (''b'', sample_value 3)]"
  have e: "stores_at (mc_projectID sample_metrics_client) (mc_instanceID sample_metrics_client) sample_stores = (Some \<lparr>ce_HighPriority = None, ce_HighPriorityRegions = ?rs,
      ce_Total = None, ce_TotalRegions = []\<rparr>, None, None)" by code_simp
  have m: "\<not> f_less (sample_value 3) (sample_value 1)" "f_less (sample_value 1) (sample_value 3)"
    "firstPointAsPercent [sample_value 3] = Inr 75" by code_simp+
  show ?thesis
    using emulated_static_metrics [of sample_metrics_client sample_stores, OF _ _ _ e,
        where mt = MetricTypeHighPriority and rs = ?rs and admin = None and now = 9 and w = "()"] m
    by (auto simp: sample_metrics_client_def regions_or_def)
qed

text \<open>
  Without the bound on the length of a round it is not so: four steps of 2 ^ 62 nanoseconds are
  accepted, the length of their round wraps around to 0, and the read of the step in force
  divides by it.
\<close>

lemma scenario_total_wraps:
  "\<exists>e. ScenarioStore_Set now p i (replicate 4 (sample_step (2 ^ 62))) s = Inr (s(storeKey p i \<mapsto> e)) \<and> currentStep t e = None"
proof -
  have "total_duration 0 (replicate 4 (sample_step (2 ^ 62))) 0 = Inr 0" by code_simp
  then show ?thesis
    by (intro exI [of _ "\<lparr>se_steps = replicate 4 (sample_step (2 ^ 62)), se_total = 0, se_startTime = now\<rparr>"])
      (simp add: ScenarioStore_Set_def currentStep_def)
qed

theorem scenario_step_in_force_witness:
  "currentStep 37 \<lparr>se_steps = [sample_step 10, sample_step 20], se_total = 30, se_startTime = 5\<rparr> = Some (sample_step 10)"
proof -
  let ?e = "\<lparr>se_steps = [sample_step 10, sample_step 20], se_total = 30, se_startTime = 5\<rparr>"
  let ?s = "snd (NewAdminHandler sample_decoders 5 (PUT_scenario ''p'' ''i'' []) NewStores)"
  have r: "emu_reachable sample_decoders (\<lambda>f. None) ?s" by (rule emu_admin [OF emu_new])
  have e: "mes_scenario ?s ''p/i'' = Some ?e" by code_simp
  obtain k where k: "k < Suc (Suc 0)" "currentStep 37 ?e = Some (se_steps ?e ! k)"
      "2 < sum_list (map ss_Duration (take (Suc k) (se_steps ?e)))"
      "sum_list (map ss_Duration (take k (se_steps ?e))) \<le> 2"
    using scenario_step_in_force [OF r e, of 37] by (auto simp: sample_step_def)
  have "k = 0" using k(1,4) by (cases k) (auto simp: sample_step_def)
  then show ?thesis using k(2) by simp
qed

end
