(* ===== verification/Simulator.thy ===== *)
theory Simulator
  imports Autoscaler_Controller Go_Float
begin

text \<open>
  \<^verbatim>\<open>internal/simulator/simulator.go\<close> and \<^verbatim>\<open>result.go\<close>: the replay of recorded metrics
  against a candidate configuration and the summary of the run.

  The replay calls the functions of \<^verbatim>\<open>internal/scaling\<close>, the ones of the theory \<open>Scaling\<close>.
  The cron parser, \<^verbatim>\<open>time.ParseDuration\<close> and the sorting of the points by time are
  parameters. The loop that looks for the last firing of a schedule asks the schedule for one
  firing after the other and ends when the schedule says so; it is a partial function. A
  function that may not return, because such a loop does not end or because it panics, has an
  option as its result.
\<close>

section \<open>Points and configuration\<close>

definition DefaultScaleUpInterval :: duration where "DefaultScaleUpInterval = 60 * second"
definition DefaultScaleDownInterval :: duration where "DefaultScaleDownInterval = 55 * minute"
definition DefaultLowConfidenceCPU :: float64 where "DefaultLowConfidenceCPU = f_of_int 50"

record Point =
  pt_Time :: time
  pt_ProcessingUnits :: gint
  pt_HighPriorityCPU :: "float64 option"
  pt_TotalCPU :: "float64 option"

record Config =
  cfg_Autoscaler :: "SpannerAutoscaler option"
  cfg_Schedules :: "SpannerAutoscaleSchedule list"
  cfg_InitialPU :: gint
  cfg_ScaleUpInterval :: duration
  cfg_ScaleDownInterval :: duration
  cfg_LowConfidenceCPU :: float64

record scheduleRuntime =
  rt_name :: string
  rt_schedule :: cron_schedule
  rt_duration :: duration
  rt_additionalPU :: gint
  rt_maxPUPolicy :: MaxPUPolicy

datatype sim_err =
    Sim_no_autoscaler
  | Sim_no_points
  | Sim_no_target
  | Sim_bad_cron string string string
  | Sim_bad_duration string string string
  | Sim_initial_pu gint
  | Sim_window string

section \<open>Schedules\<close>

fun prepareSchedules ::
    "cron_parser \<Rightarrow> (string \<Rightarrow> string + duration) \<Rightarrow> SpannerAutoscaler \<Rightarrow> SpannerAutoscaleSchedule list \<Rightarrow>
     sim_err + scheduleRuntime list" where
  "prepareSchedules parse parseDuration sa [] = Inr []"
| "prepareSchedules parse parseDuration sa (sas # schedules) =
     (let target = sas_TargetResource (sas_Spec sas); name = om_Name (sas_Meta sas); ns = om_Namespace (sas_Meta sas);
          spec = sas_Schedule (sas_Spec sas)
      in if target \<noteq> [] \<and> om_Name (sa_Meta sa) \<noteq> [] \<and> target \<noteq> om_Name (sa_Meta sa)
         then prepareSchedules parse parseDuration sa schedules
         else if ns \<noteq> [] \<and> om_Namespace (sa_Meta sa) \<noteq> [] \<and> ns \<noteq> om_Namespace (sa_Meta sa)
         then prepareSchedules parse parseDuration sa schedules
         else case parse (sched_Cron spec) of
                Inl err \<Rightarrow> Inl (Sim_bad_cron name (sched_Cron spec) err)
              | Inr parsed \<Rightarrow>
                  (case parseDuration (sched_Duration spec) of
                     Inl err \<Rightarrow> Inl (Sim_bad_duration name (sched_Duration spec) err)
                   | Inr d \<Rightarrow>
                       (case prepareSchedules parse parseDuration sa schedules of
                          Inl err \<Rightarrow> Inl err
                        | Inr prepared \<Rightarrow>
                            Inr (\<lparr>rt_name = (if ns \<noteq> [] then ns @ ''/'' @ name else name),
                                  rt_schedule = parsed, rt_duration = d,
                                  rt_additionalPU = sas_AdditionalProcessingUnits (sas_Spec sas),
                                  rt_maxPUPolicy = Normalized (sas_MaxPUPolicy (sas_Spec sas))\<rparr> # prepared))))"

partial_function (option) last_fire :: "cron_schedule \<Rightarrow> time \<Rightarrow> time \<Rightarrow> time \<Rightarrow> time option" where
  "last_fire nxt now n lastFire =
     (if n \<noteq> 0 \<and> \<not> now < n then last_fire nxt now (nxt n) n else Some lastFire)"

declare last_fire.simps [code]

text \<open>Replacing the first entry of the schedule, or appending one.\<close>

fun upsert_entry :: "ActiveSchedule \<Rightarrow> ActiveSchedule list \<Rightarrow> ActiveSchedule list" where
  "upsert_entry entry [] = [entry]"
| "upsert_entry entry (as # active) =
     (if as_ScheduleName as = as_ScheduleName entry then entry # active else as # upsert_entry entry active)"

fun fireSchedules ::
    "scheduleRuntime list \<Rightarrow> ActiveSchedule list \<Rightarrow> time \<Rightarrow> time \<Rightarrow> ActiveSchedule list option" where
  "fireSchedules [] active prev now = Some active"
| "fireSchedules (sr # schedules) active prev now =
     (case last_fire (rt_schedule sr) now (rt_schedule sr prev) 0 of
        None \<Rightarrow> None
      | Some lastFire \<Rightarrow>
          (let endTime = lastFire + rt_duration sr
           in if lastFire = 0 \<or> endTime < now then fireSchedules schedules active prev now
              else fireSchedules schedules
                     (upsert_entry \<lparr>as_ScheduleName = rt_name sr, as_EndTime = endTime,
                        as_AdditionalPU = rt_additionalPU sr, as_MaxPUPolicy = rt_maxPUPolicy sr\<rparr> active)
                     prev now))"

section \<open>The simulated CPU\<close>

definition scale_cpu :: "Point \<Rightarrow> gint \<Rightarrow> float64 option \<Rightarrow> float64 option" where
  "scale_cpu p simPU cpu =
     (case cpu of None \<Rightarrow> None
      | Some c \<Rightarrow> Some (f_div (f_mul c (f_of_int (pt_ProcessingUnits p))) (f_of_int simPU)))"

definition simulatedCPU ::
    "CPUMetricFlags \<Rightarrow> Point \<Rightarrow> gint \<Rightarrow> float64 option \<times> float64 option \<times> bool" where
  "simulatedCPU flags p simPU =
     (if pt_ProcessingUnits p \<le> 0 \<or> simPU \<le> 0 then (None, None, False)
      else
        let high = scale_cpu p simPU (pt_HighPriorityCPU p);
            tot = scale_cpu p simPU (pt_TotalCPU p)
        in if and flags CPUMetricFlagHighPriority \<noteq> 0 \<and> high = None then (None, None, False)
           else if and flags CPUMetricFlagTotal \<noteq> 0 \<and> tot = None then (None, None, False)
           else (high, tot, True))"

definition setStatusCPU ::
    "SpannerAutoscaler \<Rightarrow> CPUMetricFlags \<Rightarrow> float64 option \<Rightarrow> float64 option \<Rightarrow> SpannerAutoscaler option" where
  "setStatusCPU sa flags high tot =
     (let sa = upd_status (\<lambda>s. s\<lparr>CurrentHighPriorityCPUUtilization := 0, CurrentTotalCPUUtilization := 0\<rparr>) sa
      in if flags = or CPUMetricFlagHighPriority CPUMetricFlagTotal then
           (case (high, tot) of
              (Some h, Some t) \<Rightarrow> Some (upd_status (\<lambda>s. s\<lparr>CurrentHighPriorityCPUUtilization := f_to_int h,
                 CurrentTotalCPUUtilization := f_to_int t, CurrentCPUMetricType := CPUMetricTypeBoth\<rparr>) sa)
            | _ \<Rightarrow> None)
         else if flags = CPUMetricFlagTotal then
           (case tot of
              Some t \<Rightarrow> Some (upd_status (\<lambda>s. s\<lparr>CurrentTotalCPUUtilization := f_to_int t,
                 CurrentCPUMetricType := CPUMetricTypeTotal\<rparr>) sa)
            | None \<Rightarrow> None)
         else if flags = CPUMetricFlagHighPriority then
           (case high of
              Some h \<Rightarrow> Some (upd_status (\<lambda>s. s\<lparr>CurrentHighPriorityCPUUtilization := f_to_int h,
                 CurrentCPUMetricType := CPUMetricTypeHighPriority\<rparr>) sa)
            | None \<Rightarrow> None)
         else Some sa)"

definition tickDuration :: "Point list \<Rightarrow> nat \<Rightarrow> duration" where
  "tickDuration points i =
     (if i + 1 < length points then t_sub (pt_Time (points ! (i + 1))) (pt_Time (points ! i))
      else if i > 0 then min (t_sub (pt_Time (points ! i)) (pt_Time (points ! (i - 1)))) minute
      else minute)"

section \<open>Results\<close>

record Event =
  ev_Time :: time
  ev_FromPU :: gint
  ev_ToPU :: gint

record SimPoint =
  sp_Time :: time
  sp_ActualPU :: gint
  sp_SimPU :: gint
  sp_ActualHighCPU :: "float64 option"
  sp_ActualTotalCPU :: "float64 option"
  sp_SimHighCPU :: "float64 option"
  sp_SimTotalCPU :: "float64 option"
  sp_Gap :: bool

record CPUStats =
  cs_Mean :: float64
  cs_P50 :: float64
  cs_P95 :: float64
  cs_P99 :: float64
  cs_Max :: float64

record Summary =
  sum_Start :: time
  sum_End :: time
  sum_DataPoints :: nat
  sum_GapMinutes :: float64
  sum_ActualPUHours :: float64
  sum_SimPUHours :: float64
  sum_PUHoursSavedPercent :: float64
  sum_ScaleUps :: nat
  sum_ScaleDowns :: nat
  sum_SimHighPriorityCPU :: "CPUStats option"
  sum_SimTotalCPU :: "CPUStats option"
  sum_TargetExceededMinutes :: float64
  sum_LowConfidenceMinutes :: float64
  sum_MinPinnedMinutes :: float64
  sum_ScaleStepViolations :: nat
  sum_ScaleGapsUnder10Min :: nat
  sum_ScaleGapsUnder30Min :: nat
  sum_SpecMinPU :: gint
  sum_MinPinnedPercent :: float64
  sum_RequiredPUAtMinP95 :: gint
  sum_TargetExceededAtMinMinutes :: float64

record Result =
  res_Summary :: Summary
  res_Events :: "Event list"
  res_Points :: "SimPoint list"

section \<open>The aggregator\<close>

record aggregator =
  ag_flags :: CPUMetricFlags
  ag_lowConfidenceCPU :: float64
  ag_targetHigh :: gint
  ag_targetTotal :: gint
  ag_specMinPU :: gint
  ag_dataPoints :: nat
  ag_totalMinutes :: float64
  ag_gapMinutes :: float64
  ag_actualPUHours :: float64
  ag_simPUHours :: float64
  ag_simHighValues :: "float64 list"
  ag_simTotalValues :: "float64 list"
  ag_targetExceededMinutes :: float64
  ag_lowConfidenceMinutes :: float64
  ag_minPinnedMinutes :: float64
  ag_targetExceededAtMinMinutes :: float64
  ag_requiredPUWhilePinned :: "float64 list"

definition newAggregator :: "CPUMetricFlags \<Rightarrow> float64 \<Rightarrow> gint \<Rightarrow> gint \<Rightarrow> gint \<Rightarrow> aggregator" where
  "newAggregator flags lowConfidenceCPU targetHigh targetTotal specMinPU =
     \<lparr>ag_flags = flags, ag_lowConfidenceCPU = lowConfidenceCPU, ag_targetHigh = targetHigh,
      ag_targetTotal = targetTotal, ag_specMinPU = specMinPU, ag_dataPoints = 0, ag_totalMinutes = f_zero,
      ag_gapMinutes = f_zero, ag_actualPUHours = f_zero, ag_simPUHours = f_zero, ag_simHighValues = [],
      ag_simTotalValues = [], ag_targetExceededMinutes = f_zero, ag_lowConfidenceMinutes = f_zero,
      ag_minPinnedMinutes = f_zero, ag_targetExceededAtMinMinutes = f_zero, ag_requiredPUWhilePinned = []\<rparr>"

definition roundUpToValidPU :: "gint \<Rightarrow> gint" where
  "roundUpToValidPU pu =
     (if pu < 1000 then gmul (gadd (gdiv pu 100) 1) 100 else gmul (gadd (gdiv pu 1000) 1) 1000)"

definition need_for :: "CPUMetricFlags \<Rightarrow> CPUMetricFlags \<Rightarrow> float64 option \<Rightarrow> gint \<Rightarrow> Point \<Rightarrow> float64 \<Rightarrow> float64" where
  "need_for flags flag cpu target p need =
     (case cpu of
        Some c \<Rightarrow> if and flags flag \<noteq> 0 \<and> target > 0
                  then f_max need (f_div (f_mul c (f_of_int (pt_ProcessingUnits p))) (f_of_int target)) else need
      | None \<Rightarrow> need)"

definition requiredPU :: "CPUMetricFlags \<Rightarrow> gint \<Rightarrow> gint \<Rightarrow> Point \<Rightarrow> gint" where
  "requiredPU flags targetHigh targetTotal p =
     (let need = f_zero;
          need = need_for flags CPUMetricFlagHighPriority (pt_HighPriorityCPU p) targetHigh p need;
          need = need_for flags CPUMetricFlagTotal (pt_TotalCPU p) targetTotal p need
      in if \<not> f_less f_zero need then 0 else roundUpToValidPU (f_to_int need))"

definition at_least :: "float64 \<Rightarrow> float64 option \<Rightarrow> bool" where
  "at_least limit cpu = (case cpu of None \<Rightarrow> False | Some c \<Rightarrow> \<not> f_less c limit)"

definition observeCommon :: "Point \<Rightarrow> gint \<Rightarrow> duration \<Rightarrow> aggregator \<Rightarrow> aggregator" where
  "observeCommon p simPU dt a =
     (let a = a\<lparr>ag_dataPoints := Suc (ag_dataPoints a),
                ag_totalMinutes := f_add (ag_totalMinutes a) (Minutes dt),
                ag_actualPUHours := f_add (ag_actualPUHours a) (f_mul (f_of_int (pt_ProcessingUnits p)) (Hours dt)),
                ag_simPUHours := f_add (ag_simPUHours a) (f_mul (f_of_int simPU) (Hours dt))\<rparr>
      in if at_least (ag_lowConfidenceCPU a) (pt_HighPriorityCPU p) \<or> at_least (ag_lowConfidenceCPU a) (pt_TotalCPU p)
         then a\<lparr>ag_lowConfidenceMinutes := f_add (ag_lowConfidenceMinutes a) (Minutes dt)\<rparr> else a)"

definition observeGap :: "Point \<Rightarrow> gint \<Rightarrow> duration \<Rightarrow> aggregator \<Rightarrow> aggregator" where
  "observeGap p simPU dt a =
     (let a = observeCommon p simPU dt a in a\<lparr>ag_gapMinutes := f_add (ag_gapMinutes a) (Minutes dt)\<rparr>)"

definition observeMissingSpan :: "float64 \<Rightarrow> aggregator \<Rightarrow> aggregator" where
  "observeMissingSpan minutes a = a\<lparr>ag_gapMinutes := f_add (ag_gapMinutes a) minutes\<rparr>"

definition observe_metric ::
    "CPUMetricFlags \<Rightarrow> CPUMetricFlags \<Rightarrow> float64 option \<Rightarrow> gint \<Rightarrow> float64 list \<times> bool \<Rightarrow> float64 list \<times> bool" where
  "observe_metric flags flag cpu target acc =
     (case cpu of
        Some c \<Rightarrow> if and flags flag \<noteq> 0
                  then (fst acc @ [c], snd acc \<or> f_less (f_of_int target) c) else acc
      | None \<Rightarrow> acc)"

definition observe :: "Point \<Rightarrow> SimPoint \<Rightarrow> gint \<Rightarrow> gint \<Rightarrow> duration \<Rightarrow> aggregator \<Rightarrow> aggregator" where
  "observe p sp effectiveMinPU puBefore dt a =
     (let a = observeCommon p (sp_SimPU sp) dt a;
          minutes = Minutes dt;
          (highs, exceeded) = observe_metric (ag_flags a) CPUMetricFlagHighPriority (sp_SimHighCPU sp) (ag_targetHigh a)
             (ag_simHighValues a, False);
          (totals, exceeded) = observe_metric (ag_flags a) CPUMetricFlagTotal (sp_SimTotalCPU sp) (ag_targetTotal a)
             (ag_simTotalValues a, exceeded);
          a = a\<lparr>ag_simHighValues := highs, ag_simTotalValues := totals\<rparr>;
          a = (if exceeded
               then (let a = a\<lparr>ag_targetExceededMinutes := f_add (ag_targetExceededMinutes a) minutes\<rparr>
                     in if puBefore \<le> effectiveMinPU
                        then a\<lparr>ag_targetExceededAtMinMinutes := f_add (ag_targetExceededAtMinMinutes a) minutes\<rparr> else a)
               else a)
      in if sp_SimPU sp \<le> effectiveMinPU
         then (let a = a\<lparr>ag_minPinnedMinutes := f_add (ag_minPinnedMinutes a) minutes\<rparr>;
                   req = requiredPU (ag_flags a) (ag_targetHigh a) (ag_targetTotal a) p
               in if req > 0
                  then a\<lparr>ag_requiredPUWhilePinned := ag_requiredPUWhilePinned a @ [f_of_int req]\<rparr> else a)
         else a)"

section \<open>The summary\<close>

definition percentile :: "float64 list \<Rightarrow> float64 \<Rightarrow> float64 option" where
  "percentile xs q =
     (let rank = f_ceil (f_mul (f_div q (f_of_int 100)) (f_of_int (int (length xs))));
          rank = max rank 1
      in if rank - 1 < int (length xs) then Some (xs ! nat (rank - 1)) else None)"

definition cpuStats :: "float64 list \<Rightarrow> CPUStats option" where
  "cpuStats values =
     (let xs = f_sort values; total = foldl f_add f_zero xs
      in case (percentile xs (f_of_int 50), percentile xs (f_of_int 95), percentile xs (f_of_int 99)) of
           (Some p50, Some p95, Some p99) \<Rightarrow>
             Some \<lparr>cs_Mean = f_div total (f_of_int (int (length xs))), cs_P50 = p50, cs_P95 = p95, cs_P99 = p99,
                   cs_Max = last xs\<rparr>
         | _ \<Rightarrow> None)"

definition GuidelineMinScaleGap :: duration where "GuidelineMinScaleGap = 10 * minute"
definition GuidelinePreferredScaleGap :: duration where "GuidelinePreferredScaleGap = 30 * minute"

record event_counts =
  ec_ScaleUps :: nat
  ec_ScaleDowns :: nat
  ec_StepViolations :: nat
  ec_GapsUnder10 :: nat
  ec_GapsUnder30 :: nat

text \<open>One round of the loop over the events; \<open>prev\<close> is the time of the previous one.\<close>

definition step_violation :: "Event \<Rightarrow> bool" where
  "step_violation e \<longleftrightarrow>
     f_less (f_mul (f_of_int (ev_FromPU e)) (f_of_int 2)) (f_of_int (ev_ToPU e)) \<or>
     f_less (f_of_int (ev_ToPU e)) (f_div (f_of_int (ev_FromPU e)) (f_of_int 2))"

definition count_event :: "time option \<Rightarrow> Event \<Rightarrow> event_counts \<Rightarrow> event_counts" where
  "count_event prev e c =
     (let c = (if ev_ToPU e > ev_FromPU e then c\<lparr>ec_ScaleUps := Suc (ec_ScaleUps c)\<rparr>
               else c\<lparr>ec_ScaleDowns := Suc (ec_ScaleDowns c)\<rparr>);
          c = (if step_violation e then c\<lparr>ec_StepViolations := Suc (ec_StepViolations c)\<rparr> else c)
      in case prev of None \<Rightarrow> c
         | Some t \<Rightarrow>
             (let gap = t_sub (ev_Time e) t
              in if gap < GuidelineMinScaleGap
                 then c\<lparr>ec_GapsUnder10 := Suc (ec_GapsUnder10 c), ec_GapsUnder30 := Suc (ec_GapsUnder30 c)\<rparr>
                 else if gap < GuidelinePreferredScaleGap then c\<lparr>ec_GapsUnder30 := Suc (ec_GapsUnder30 c)\<rparr> else c))"

fun count_events :: "time option \<Rightarrow> Event list \<Rightarrow> event_counts \<Rightarrow> event_counts" where
  "count_events prev [] c = c"
| "count_events prev (e # es) c = count_events (Some (ev_Time e)) es (count_event prev e c)"

text \<open>Statistics and percentiles are taken of non-empty slices only.\<close>

definition if_values :: "float64 list \<Rightarrow> 'a \<Rightarrow> (float64 list \<Rightarrow> 'a option) \<Rightarrow> 'a option" where
  "if_values values d f = (if length values > 0 then f values else Some d)"

definition aggregator_summary :: "time \<Rightarrow> time \<Rightarrow> Event list \<Rightarrow> aggregator \<Rightarrow> Summary option" where
  "aggregator_summary start end_time events a =
     (let ec = count_events None events \<lparr>ec_ScaleUps = 0, ec_ScaleDowns = 0, ec_StepViolations = 0,
                 ec_GapsUnder10 = 0, ec_GapsUnder30 = 0\<rparr>
      in case if_values (ag_requiredPUWhilePinned a) 0
                (\<lambda>vs. map_option f_to_int (percentile (f_sort vs) (f_of_int 95))) of
           None \<Rightarrow> None
         | Some required \<Rightarrow>
         (case if_values (ag_simHighValues a) None (\<lambda>vs. map_option Some (cpuStats vs)) of
            None \<Rightarrow> None
          | Some high \<Rightarrow>
         (case if_values (ag_simTotalValues a) None (\<lambda>vs. map_option Some (cpuStats vs)) of
            None \<Rightarrow> None
          | Some tot \<Rightarrow>
            Some \<lparr>sum_Start = start, sum_End = end_time, sum_DataPoints = ag_dataPoints a,
              sum_GapMinutes = ag_gapMinutes a, sum_ActualPUHours = ag_actualPUHours a,
              sum_SimPUHours = ag_simPUHours a,
              sum_PUHoursSavedPercent = (if f_less f_zero (ag_actualPUHours a)
                 then f_mul (f_div (f_sub (ag_actualPUHours a) (ag_simPUHours a)) (ag_actualPUHours a)) (f_of_int 100)
                 else f_zero),
              sum_ScaleUps = ec_ScaleUps ec, sum_ScaleDowns = ec_ScaleDowns ec,
              sum_SimHighPriorityCPU = high, sum_SimTotalCPU = tot,
              sum_TargetExceededMinutes = ag_targetExceededMinutes a,
              sum_LowConfidenceMinutes = ag_lowConfidenceMinutes a,
              sum_MinPinnedMinutes = ag_minPinnedMinutes a,
              sum_ScaleStepViolations = ec_StepViolations ec,
              sum_ScaleGapsUnder10Min = ec_GapsUnder10 ec, sum_ScaleGapsUnder30Min = ec_GapsUnder30 ec,
              sum_SpecMinPU = ag_specMinPU a,
              sum_MinPinnedPercent = (if f_less f_zero (ag_totalMinutes a)
                 then f_mul (f_div (ag_minPinnedMinutes a) (ag_totalMinutes a)) (f_of_int 100) else f_zero),
              sum_RequiredPUAtMinP95 = required,
              sum_TargetExceededAtMinMinutes = ag_targetExceededAtMinMinutes a\<rparr>)))"

section \<open>The replay\<close>

record sim_ctx =
  sx_gsv :: scaled_value
  sx_parse :: cron_parser
  sx_flags :: CPUMetricFlags
  sx_up :: duration
  sx_down :: duration
  sx_schedules :: "scheduleRuntime list"

record sim_state =
  ss_PU :: gint
  ss_sa :: SpannerAutoscaler
  ss_active :: "ActiveSchedule list"
  ss_prev :: time
  ss_agg :: aggregator
  ss_points :: "SimPoint list"
  ss_events :: "Event list"

text \<open>The part of a tick that takes the decision, on the simulated resource.\<close>

definition sim_decide ::
    "sim_ctx \<Rightarrow> SpannerAutoscaler \<Rightarrow> time \<Rightarrow> SpannerAutoscaler \<times> gint \<times> Decision \<times> string option" where
  "sim_decide c sa now =
     (let (minPU, maxPU, _, _) = DesiredPURange sa;
          sa = upd_status (\<lambda>s. s\<lparr>DesiredMinPUs := minPU, DesiredMaxPUs := maxPU\<rparr>) sa;
          desired = DesiredProcessingUnits (sx_gsv c) sa;
          (decision, err) = Decide (sx_parse c) sa desired now (sx_up c) (sx_down c)
      in (sa, desired, decision, err))"

definition sim_point :: "Point \<Rightarrow> float64 option \<Rightarrow> float64 option \<Rightarrow> gint \<Rightarrow> bool \<Rightarrow> SimPoint" where
  "sim_point p high tot pu gap =
     \<lparr>sp_Time = pt_Time p, sp_ActualPU = pt_ProcessingUnits p, sp_SimPU = pu,
      sp_ActualHighCPU = pt_HighPriorityCPU p, sp_ActualTotalCPU = pt_TotalCPU p,
      sp_SimHighCPU = high, sp_SimTotalCPU = tot, sp_Gap = gap\<rparr>"

definition decided_tick ::
    "sim_ctx \<Rightarrow> Point \<Rightarrow> duration \<Rightarrow> float64 option \<Rightarrow> float64 option \<Rightarrow> sim_state \<Rightarrow> (sim_err + sim_state) option" where
  "decided_tick c p dt high tot s =
     (let now = pt_Time p;
          sa = upd_status (\<lambda>x. x\<lparr>CurrentProcessingUnits := ss_PU s, CurrentlyActiveSchedules := ss_active s\<rparr>) (ss_sa s)
      in case setStatusCPU sa (sx_flags c) high tot of
           None \<Rightarrow> None
         | Some sa \<Rightarrow>
             (let d = sim_decide c sa now; sa = fst d; desired = fst (snd d); decision = fst (snd (snd d))
              in case snd (snd (snd d)) of
                Some err \<Rightarrow> Some (Inl (Sim_window err))
              | None \<Rightarrow>
                  (let puBefore = ss_PU s;
                       scale = (decision = DecisionScale);
                       pu = (if scale then desired else ss_PU s);
                       sp = sim_point p high tot pu False
                   in Some (Inr (s\<lparr>
                        ss_PU := pu,
                        ss_sa := (if scale then upd_status (\<lambda>x. x\<lparr>LastScaleTime := now\<rparr>) sa else sa),
                        ss_events := (if scale
                          then ss_events s @ [\<lparr>ev_Time = now, ev_FromPU = ss_PU s, ev_ToPU = desired\<rparr>]
                          else ss_events s),
                        ss_points := ss_points s @ [sp],
                        ss_agg := observe p sp (DesiredMinPUs (sa_Status sa)) puBefore dt (ss_agg s)\<rparr>)))))"

definition sim_tick :: "sim_ctx \<Rightarrow> Point list \<Rightarrow> nat \<Rightarrow> Point \<Rightarrow> sim_state \<Rightarrow> (sim_err + sim_state) option" where
  "sim_tick c points i p s =
     (let now = pt_Time p;
          gap = tickDuration points i;
          s = (if minute < gap
               then s\<lparr>ss_agg := observeMissingSpan (Minutes (gap - minute)) (ss_agg s)\<rparr> else s);
          dt = (if minute < gap then minute else gap);
          active = filter (\<lambda>as. \<not> as_EndTime as < now) (ss_active s)
      in case fireSchedules (sx_schedules c) active (ss_prev s) now of
           None \<Rightarrow> None
         | Some active \<Rightarrow>
             (let s = s\<lparr>ss_active := active, ss_prev := now\<rparr>;
                  cpu = simulatedCPU (sx_flags c) p (ss_PU s);
                  high = fst cpu; tot = fst (snd cpu); ok = snd (snd cpu)
              in if \<not> ok
                 then Some (Inr (s\<lparr>ss_points := ss_points s @ [sim_point p high tot (ss_PU s) True],
                                   ss_agg := observeGap p (ss_PU s) dt (ss_agg s)\<rparr>))
                 else decided_tick c p dt high tot s))"

fun sim_loop :: "sim_ctx \<Rightarrow> Point list \<Rightarrow> nat \<Rightarrow> Point list \<Rightarrow> sim_state \<Rightarrow> (sim_err + sim_state) option" where
  "sim_loop c points i [] s = Some (Inr s)"
| "sim_loop c points i (p # ps) s =
     (case sim_tick c points i p s of
        None \<Rightarrow> None
      | Some (Inl err) \<Rightarrow> Some (Inl err)
      | Some (Inr s) \<Rightarrow> sim_loop c points (Suc i) ps s)"

record sim_env =
  se_gsv :: scaled_value
  se_parse :: cron_parser
  se_parseDuration :: "string \<Rightarrow> string + duration"
  se_sort :: "(Point \<Rightarrow> Point \<Rightarrow> bool) \<Rightarrow> Point list \<Rightarrow> Point list"

definition or_default :: "duration \<Rightarrow> duration \<Rightarrow> duration" where
  "or_default d v = (if v = 0 then d else v)"

text \<open>The simulated resource starts with the metadata and the spec of the candidate only.\<close>

definition sim_resource :: "SpannerAutoscaler \<Rightarrow> SpannerAutoscaler" where
  "sim_resource sa = \<lparr>sa_Meta = (sa_Meta sa_zero)\<lparr>om_Name := om_Name (sa_Meta sa), om_Namespace := om_Namespace (sa_Meta sa)\<rparr>,
     sa_Spec = sa_Spec sa, sa_Status = sa_Status sa_zero\<rparr>"

definition target_or_zero :: "gint option \<Rightarrow> gint" where
  "target_or_zero t = (case t of None \<Rightarrow> 0 | Some x \<Rightarrow> x)"

definition sim_start :: "SpannerAutoscaler \<Rightarrow> CPUMetricFlags \<Rightarrow> float64 \<Rightarrow> gint \<Rightarrow> Point \<Rightarrow> sim_state" where
  "sim_start sa flags lowConfidenceCPU simPU p =
     (let sa = sim_resource sa; t = sc_TargetCPUUtilization (scale_config sa)
      in \<lparr>ss_PU = simPU, ss_sa = sa, ss_active = [], ss_prev = pt_Time p - minute,
          ss_agg = newAggregator flags lowConfidenceCPU (target_or_zero (cpu_HighPriority t))
            (target_or_zero (cpu_Total t)) (pus_Min (sc_ProcessingUnits (scale_config sa))),
          ss_points = [], ss_events = []\<rparr>)"

definition Run :: "sim_env \<Rightarrow> Config \<Rightarrow> Point list \<Rightarrow> (sim_err + Result) option" where
  "Run env cfg points =
     (case cfg_Autoscaler cfg of
        None \<Rightarrow> Some (Inl Sim_no_autoscaler)
      | Some sa \<Rightarrow>
     (if length points = 0 then Some (Inl Sim_no_points)
      else
        let flags = ActiveMetricFlags (sc_TargetCPUUtilization (scale_config sa))
        in if flags = 0 then Some (Inl Sim_no_target)
           else
             let up = or_default DefaultScaleUpInterval (cfg_ScaleUpInterval cfg);
                 down = or_default DefaultScaleDownInterval (cfg_ScaleDownInterval cfg);
                 low = (if f_man (cfg_LowConfidenceCPU cfg) = 0 then DefaultLowConfidenceCPU else cfg_LowConfidenceCPU cfg)
             in case prepareSchedules (se_parse env) (se_parseDuration env) sa (cfg_Schedules cfg) of
                  Inl err \<Rightarrow> Some (Inl err)
                | Inr schedules \<Rightarrow>
                    (let points = se_sort env (\<lambda>a b. pt_Time a < pt_Time b) points;
                         simPU = (if cfg_InitialPU cfg = 0 then pt_ProcessingUnits (points ! 0) else cfg_InitialPU cfg)
                     in if simPU \<le> 0 then Some (Inl (Sim_initial_pu simPU))
                        else
                          let c = \<lparr>sx_gsv = se_gsv env, sx_parse = se_parse env, sx_flags = flags, sx_up = up,
                                   sx_down = down, sx_schedules = schedules\<rparr>
                          in case sim_loop c points 0 points (sim_start sa flags low simPU (points ! 0)) of
                               None \<Rightarrow> None
                             | Some (Inl err) \<Rightarrow> Some (Inl err)
                             | Some (Inr s) \<Rightarrow>
                                 (case aggregator_summary (pt_Time (points ! 0)) (pt_Time (last points)) (ss_events s) (ss_agg s) of
                                    None \<Rightarrow> None
                                  | Some summary \<Rightarrow>
                                      Some (Inr \<lparr>res_Summary = summary, res_Events = ss_events s,
                                                 res_Points = ss_points s\<rparr>)))))"

end
