(* ===== verification/Simulation.thy ===== *)
theory Simulation
  imports Simulator
begin

text \<open>
  Correctness of the replay: it returns, its decisions are the ones of the controller, and
  the trace of simulated changes is consistent and respects the cooldowns.
\<close>

section \<open>Firings of a schedule\<close>

text \<open>
  The firings the loop of \<^verbatim>\<open>fireSchedules\<close> visits are increasing, so it ends, with the last
  firing up to the current moment.
\<close>

lemma last_fire_loop:
  assumes "cron_next_ok fires nxt" "0 \<le> prev" "n = 0 \<or> fires n \<and> prev < n"
    and "\<forall>u. fires u \<longrightarrow> prev < u \<longrightarrow> l < u \<longrightarrow> n \<noteq> 0 \<and> n \<le> u"
  shows "\<exists>r. last_fire nxt now n l = Some r \<and> (r = l \<or> fires r \<and> prev < r \<and> r \<le> now) \<and>
     (\<forall>u. fires u \<longrightarrow> prev < u \<longrightarrow> r < u \<longrightarrow> now < u)"
  using assms(3-)
proof (induction "nat (now + 1 - n)" arbitrary: n l rule: less_induct)
  case less
  show ?case
  proof (cases "n \<noteq> 0 \<and> \<not> now < n")
    case True
    have f: "fires n" "prev < n" using True less.prems(1) by auto
    have nx: "nxt n = 0 \<or> n < nxt n \<and> fires (nxt n)" using assms(1) by (auto simp: cron_next_ok_def)
    have first: "nxt n \<noteq> 0 \<and> nxt n \<le> u" if "fires u" "n < u" for u
    proof -
      have "n < nxt n \<and> nxt n \<le> u" using assms(1) that unfolding cron_next_ok_def by blast
      then show ?thesis using assms(2) f(2) by auto
    qed
    have "\<exists>r. last_fire nxt now (nxt n) n = Some r \<and> (r = n \<or> fires r \<and> prev < r \<and> r \<le> now) \<and>
        (\<forall>u. fires u \<longrightarrow> prev < u \<longrightarrow> r < u \<longrightarrow> now < u)"
    proof (cases "nxt n = 0")
      case z: True
      then have "last_fire nxt now (nxt n) n = Some n" by (simp add: last_fire.simps)
      moreover have "now < u" if "fires u" "n < u" for u using first [OF that] z by simp
      ultimately show ?thesis by blast
    next
      case False
      then have "n < nxt n" "fires (nxt n)" using nx by auto
      then show ?thesis by (intro less.hyps) (use True f first in auto)
    qed
    moreover have "last_fire nxt now n l = last_fire nxt now (nxt n) n"
      using True by (subst last_fire.simps) simp
    ultimately show ?thesis using True f by auto
  next
    case False
    then have "last_fire nxt now n l = Some l" by (subst last_fire.simps) auto
    moreover have "now < u" if "fires u" "prev < u" "l < u" for u using less.prems(2) that False by force
    ultimately show ?thesis by blast
  qed
qed

lemma last_fire_exact:
  assumes "cron_next_ok fires nxt" "0 \<le> prev"
  shows "\<exists>r. last_fire nxt now (nxt prev) 0 = Some r \<and> (r = 0 \<or> fires r \<and> prev < r \<and> r \<le> now) \<and>
     (\<forall>u. fires u \<longrightarrow> prev < u \<longrightarrow> r < u \<longrightarrow> now < u)"
proof (rule last_fire_loop [OF assms])
  show "nxt prev = 0 \<or> fires (nxt prev) \<and> prev < nxt prev" using assms(1) by (auto simp: cron_next_ok_def)
  have "prev < nxt prev \<and> nxt prev \<le> u" if "fires u" "prev < u" for u
    using assms(1) that unfolding cron_next_ok_def by blast
  then show "\<forall>u. fires u \<longrightarrow> prev < u \<longrightarrow> 0 < u \<longrightarrow> nxt prev \<noteq> 0 \<and> nxt prev \<le> u" using assms(2) by force
qed

text \<open>What the replay needs of the parsed schedules.\<close>

definition schedule_ok :: "scheduleRuntime \<Rightarrow> bool" where
  "schedule_ok sr \<longleftrightarrow> (\<exists>fires. cron_next_ok fires (rt_schedule sr))"

lemma prepareSchedules_ok:
  assumes "prepareSchedules parse pd sa scheds = Inr rts" "\<forall>e nxt. parse e = Inr nxt \<longrightarrow> (\<exists>fires. cron_next_ok fires nxt)"
  shows "\<forall>sr \<in> set rts. schedule_ok sr"
  using assms(1)
proof (induction scheds arbitrary: rts)
  case (Cons sas scheds)
  then show ?case
    using assms(2) by (auto simp: Let_def schedule_ok_def split: if_splits sum.splits)
qed simp

lemma fireSchedules_returns:
  assumes "\<forall>sr \<in> set schedules. schedule_ok sr" "0 \<le> prev"
  shows "\<exists>active'. fireSchedules schedules active prev now = Some active'"
  using assms(1)
proof (induction schedules arbitrary: active)
  case (Cons sr schedules)
  then obtain fires where f: "cron_next_ok fires (rt_schedule sr)" by (auto simp: schedule_ok_def)
  obtain r where "last_fire (rt_schedule sr) now (rt_schedule sr prev) 0 = Some r"
    using last_fire_exact [OF f assms(2)] by blast
  then show ?case using Cons by (auto simp: Let_def)
qed simp

section \<open>The decision is the controller's\<close>

lemma sim_decide_with_range:
  assumes "sim_decide c sa now = (sa', desired, decision, err)"
  shows "sa' = with_range sa \<and> desired = DesiredProcessingUnits (sx_gsv c) (with_range sa) \<and>
     Decide (sx_parse c) (with_range sa) desired now (sx_up c) (sx_down c) = (decision, err)"
  using assms by (auto simp: sim_decide_def with_range_def Let_def split: prod.splits)

lemma reconcile_cpu_exact:
  assumes "reconcile_cpu env upd dropped sa ch st = (res, sa', st')" "\<forall>st. fst (clock_now (c_r env) st) = now"
  shows "if Decide (r_parse (c_r env)) (with_range sa) (DesiredProcessingUnits (r_gsv (c_r env)) (with_range sa)) now
             (r_scaleUpInterval (c_r env)) (r_scaleDownInterval (c_r env)) = (DecisionScale, None)
         then \<exists>e. update_calls st' = update_calls st @
                [UpdateInstanceCall (DesiredProcessingUnits (r_gsv (c_r env)) (with_range sa)) e]
         else update_calls st' = update_calls st"
proof -
  obtain sa1 ch1 st1 where p: "publish_desired_range sa ch st = (sa1, ch1, st1)" by (metis prod_cases3)
  let ?d = "DesiredProcessingUnits (r_gsv (c_r env)) (with_range sa)"
  have s: "sa1 = with_range sa" "update_calls st1 = update_calls st" using publish_desired_range_sa [OF p] by auto
  obtain err sa2 ch2 st2 where c: "cpu_update env upd ?d (with_range sa) ch1 st1 = (err, sa2, ch2, st2)" by (metis prod_cases4)
  obtain st0 where n: "clock_now (c_r env) st1 = (now, st0)" using assms(2) by (metis prod.collapse)
  obtain e3 sa3 st3 where q: "persist_status env ?d dropped sa2 ch2 st2 = (e3, sa3, st3)" by (metis prod_cases3)
  have "st' = st2 \<or> st' = st3"
    using assms(1) p s(1) c q by (cases err) (auto simp: reconcile_cpu_def calcDesiredProcessingUnits_def Let_def)
  then have "update_calls st' = update_calls st2" using persist_status_calls [OF q] by auto
  then show ?thesis using cpu_update_calls [OF c n] s(2) by auto
qed

section \<open>Percentiles are in range\<close>

lemma unit_mul_ceil:
  assumes "unit_float a" "0 \<le> n" "n < 2 ^ 53"
  shows "f_ceil (f_mul a (f_of_int n)) \<le> n"
proof -
  define j where "j = nat (- f_exp a)"
  define m where "m = f_man a * n"
  define k where "k = excess_bits m"
  define R where "R = round_shift k m"
  have a: "f_man a \<le> 2 ^ j" "0 \<le> f_man a" "f_exp a = - int j" using assms(1) by (simp_all add: unit_float_def j_def)
  have m: "0 \<le> m" "m \<le> 2 ^ j * n" using a assms(2) by (auto simp: m_def intro: mult_right_mono)
  have kj: "k \<le> j"
  proof (cases "m < 2 ^ 53")
    case True
    then show ?thesis by (simp add: k_def excess_bits_zero)
  next
    case False
    then have "(2::int) ^ (52 + k) \<le> m" using excess_bits_ge [of m] unfolding k_def by linarith
    also have "\<dots> \<le> 2 ^ j * n" by (rule m(2))
    also have "\<dots> < 2 ^ j * 2 ^ 53" using assms(3) by (intro mult_strict_left_mono) simp_all
    also have "\<dots> = 2 ^ (j + 53)" by (simp only: power_add)
    finally have "52 + k < j + 53" by (rule power_less_imp_less_exp [rotated]) simp
    then show ?thesis by simp
  qed
  have p: "(2::int) ^ j = 2 ^ (j - k) * 2 ^ k" using kj by (simp flip: power_add)
  have "R \<le> (m + (2 ^ k - 1)) div 2 ^ k" unfolding R_def by (rule round_shift_upper)
  also have "\<dots> \<le> (n * 2 ^ (j - k) * 2 ^ k + (2 ^ k - 1)) div 2 ^ k"
    using m(2) p by (intro zdiv_mono1) (auto simp: algebra_simps)
  also have "\<dots> = n * 2 ^ (j - k)" by (rule int_div_pos_eq [of _ _ _ "2 ^ k - 1"]) (auto simp: algebra_simps)
  finally have R: "R \<le> n * 2 ^ (j - k)" .
  have fn: "f_of_int n = \<lparr>f_man = n, f_exp = 0\<rparr>"
    using assms(2,3) by (cases "n = 0") (simp_all add: f_of_int_def round_float64_def excess_bits_zero sgn_if)
  have sg: "sgn m * R = R"
    using m(1) by (cases "m = 0") (simp_all add: R_def k_def excess_bits_zero sgn_if)
  have mul: "f_mul a (f_of_int n) = \<lparr>f_man = R, f_exp = int k - int j\<rparr>"
    using m(1) sg by (simp add: f_mul_def fn round_float64_def a(3) Let_def R_def k_def m_def)
  show ?thesis
  proof (cases "k = j")
    case True
    then show ?thesis using R by (simp add: mul f_ceil_def)
  next
    case False
    then have "nat (int j - int k) = j - k" "\<not> int j \<le> int k" using kj by auto
    moreover have "- n * 2 ^ (j - k) div 2 ^ (j - k) = - n" by (rule nonzero_mult_div_cancel_right) simp
    moreover from this have "- n \<le> (- R) div 2 ^ (j - k)"
      using zdiv_mono1 [of "- n * 2 ^ (j - k)" "- R" "2 ^ (j - k)"] R by simp
    ultimately show ?thesis by (simp add: mul f_ceil_def)
  qed
qed

lemma percentile_in_range:
  assumes "unit_float (f_div q (f_of_int 100))" "0 < length xs" "int (length xs) < 2 ^ 53"
  shows "\<exists>v. percentile xs q = Some v"
proof -
  have "1 \<le> int (length xs)" using assms(2) by linarith
  then show ?thesis
    using unit_mul_ceil [OF assms(1) _ assms(3)] assms(2) by (auto simp: percentile_def Let_def max_def)
qed

lemma percent_ranks:
  "unit_float (f_div (f_of_int 50) (f_of_int 100))" "unit_float (f_div (f_of_int 95) (f_of_int 100))"
  "unit_float (f_div (f_of_int 99) (f_of_int 100))"
  by code_simp+

lemma f_insert_length [simp]: "length (f_insert x ys) = Suc (length ys)"
  by (induction ys) auto

lemma f_sort_length [simp]: "length (f_sort xs) = length xs"
  by (induction xs) (auto simp: f_sort_def)

lemma cpuStats_returns:
  assumes "0 < length vs" "int (length vs) < 2 ^ 53"
  shows "\<exists>s. cpuStats vs = Some s"
proof -
  obtain a b c where "percentile (f_sort vs) (f_of_int 50) = Some a" "percentile (f_sort vs) (f_of_int 95) = Some b"
    "percentile (f_sort vs) (f_of_int 99) = Some c"
    using percentile_in_range [OF percent_ranks(1), of "f_sort vs"] percentile_in_range [OF percent_ranks(2), of "f_sort vs"]
      percentile_in_range [OF percent_ranks(3), of "f_sort vs"] assms by auto
  then show ?thesis by (simp add: cpuStats_def Let_def)
qed

text \<open>Every list of the aggregator has at most one element per tick.\<close>

definition agg_within :: "nat \<Rightarrow> aggregator \<Rightarrow> bool" where
  "agg_within n a \<longleftrightarrow> length (ag_simHighValues a) \<le> n \<and> length (ag_simTotalValues a) \<le> n \<and>
     length (ag_requiredPUWhilePinned a) \<le> n"

lemma if_values_returns:
  assumes "length vs \<le> n" "int n < 2 ^ 53" "0 < length vs \<Longrightarrow> int (length vs) < 2 ^ 53 \<Longrightarrow> \<exists>x. f vs = Some x"
  obtains x where "if_values vs d f = Some x"
proof (cases "0 < length vs")
  case True
  have "int (length vs) < 2 ^ 53" using assms(1,2) by linarith
  then show ?thesis using assms(3) True that by (auto simp: if_values_def)
qed (use that in \<open>simp add: if_values_def\<close>)

lemma summary_returns:
  assumes "agg_within n a" "int n < 2 ^ 53"
  shows "\<exists>s. aggregator_summary t u es a = Some s"
proof -
  have l: "length (ag_simHighValues a) \<le> n" "length (ag_simTotalValues a) \<le> n" "length (ag_requiredPUWhilePinned a) \<le> n"
    using assms(1) by (simp_all add: agg_within_def)
  have pr: "\<exists>x. map_option f_to_int (percentile (f_sort ws) (f_of_int 95)) = Some x"
    if "0 < length ws" "int (length ws) < 2 ^ 53" for ws
    using percentile_in_range [OF percent_ranks(2), of "f_sort ws"] that by auto
  have c: "\<exists>x. map_option Some (cpuStats ws) = Some x" if "0 < length ws" "int (length ws) < 2 ^ 53" for ws
    using cpuStats_returns [OF that] by auto
  obtain r where r: "if_values (ag_requiredPUWhilePinned a) 0
      (\<lambda>vs. map_option f_to_int (percentile (f_sort vs) (f_of_int 95))) = Some r"
    by (rule if_values_returns [OF l(3) assms(2) pr])
  obtain x where x: "if_values (ag_simHighValues a) None (\<lambda>vs. map_option Some (cpuStats vs)) = Some x"
    by (rule if_values_returns [OF l(1) assms(2) c])
  obtain y where y: "if_values (ag_simTotalValues a) None (\<lambda>vs. map_option Some (cpuStats vs)) = Some y"
    by (rule if_values_returns [OF l(2) assms(2) c])
  show ?thesis using r x y by (simp add: aggregator_summary_def Let_def)
qed

lemma observeCommon_lists [simp]:
  "ag_simHighValues (observeCommon p pu dt a) = ag_simHighValues a"
  "ag_simTotalValues (observeCommon p pu dt a) = ag_simTotalValues a"
  "ag_requiredPUWhilePinned (observeCommon p pu dt a) = ag_requiredPUWhilePinned a"
  by (simp_all add: observeCommon_def Let_def)

lemma observe_metric_length: "length (fst (observe_metric fl f cpu t (vs, b))) \<le> Suc (length vs)"
  by (simp add: observe_metric_def split: option.splits)

lemma observe_within:
  assumes "agg_within n a"
  shows "agg_within (Suc n) (observe p sp m b dt a)"
proof -
  let ?a = "observeCommon p (sp_SimPU sp) dt a"
  obtain hs e1 where h: "observe_metric (ag_flags ?a) CPUMetricFlagHighPriority (sp_SimHighCPU sp) (ag_targetHigh ?a)
      (ag_simHighValues ?a, False) = (hs, e1)" by fastforce
  obtain ts e2 where t: "observe_metric (ag_flags ?a) CPUMetricFlagTotal (sp_SimTotalCPU sp) (ag_targetTotal ?a)
      (ag_simTotalValues ?a, e1) = (ts, e2)" by fastforce
  have "length hs \<le> Suc (length (ag_simHighValues a))" "length ts \<le> Suc (length (ag_simTotalValues a))"
    using observe_metric_length [of _ _ _ _ "ag_simHighValues ?a"] observe_metric_length [of _ _ _ _ "ag_simTotalValues ?a"] h t
    by (metis fst_conv observeCommon_lists)+
  then show ?thesis
    using assms unfolding observe_def h t Let_def prod.case by (auto simp: agg_within_def)
qed

lemma observeGap_within: "agg_within n a \<Longrightarrow> agg_within (Suc n) (observeGap p pu dt a)"
  by (simp add: agg_within_def observeGap_def Let_def)

lemma observeMissingSpan_within: "agg_within n (observeMissingSpan x a) = agg_within n a"
  by (simp add: agg_within_def observeMissingSpan_def)

section \<open>One tick\<close>

lemma ActiveMetricFlags_nonzero:
  "ActiveMetricFlags t \<noteq> 0 \<Longrightarrow> ActiveMetricFlags t \<in>
     {CPUMetricFlagHighPriority, CPUMetricFlagTotal, or CPUMetricFlagHighPriority CPUMetricFlagTotal}"
  by (cases "cpu_HighPriority t"; cases "cpu_Total t") (simp_all add: ActiveMetricFlags_cases)

lemma flag_and:
  "and (or CPUMetricFlagHighPriority CPUMetricFlagTotal) CPUMetricFlagHighPriority \<noteq> 0"
  "and (or CPUMetricFlagHighPriority CPUMetricFlagTotal) CPUMetricFlagTotal \<noteq> 0"
  "and CPUMetricFlagTotal CPUMetricFlagTotal \<noteq> 0"
  "and CPUMetricFlagHighPriority CPUMetricFlagHighPriority \<noteq> 0"
  by (simp_all add: CPUMetricFlagHighPriority_def CPUMetricFlagTotal_def)

lemma setStatusCPU_returns:
  assumes "simulatedCPU flags p pu = (high, tot, True)" "flags \<in>
     {CPUMetricFlagHighPriority, CPUMetricFlagTotal, or CPUMetricFlagHighPriority CPUMetricFlagTotal}"
  shows "\<exists>sa'. setStatusCPU sa flags high tot = Some sa'"
  using assms flag_and flag_distinct(6,7) [symmetric]
  by (auto simp: simulatedCPU_def setStatusCPU_def Let_def split: if_splits option.splits)

lemma setStatusCPU_keeps:
  assumes "setStatusCPU sa flags high tot = Some sa'"
  shows "sa_Spec sa' = sa_Spec sa" "LastScaleTime (sa_Status sa') = LastScaleTime (sa_Status sa)" "cur_pu sa' = cur_pu sa"
  using assms by (auto simp: setStatusCPU_def upd_status_def Let_def split: if_splits option.splits)

text \<open>
  What a tick keeps: the agreement of the simulated resource with the list of events. The
  intervals are the ones in force for the candidate.
\<close>

fun chain :: "gint \<Rightarrow> Event list \<Rightarrow> gint \<Rightarrow> bool" where
  "chain a [] b = (a = b)"
| "chain a (e # es) b = (ev_FromPU e = a \<and> ev_ToPU e \<noteq> a \<and> chain (ev_ToPU e) es b)"

fun spaced :: "duration \<Rightarrow> duration \<Rightarrow> time \<Rightarrow> Event list \<Rightarrow> bool" where
  "spaced up down t [] = True"
| "spaced up down t (e # es) =
     (t + (if ev_FromPU e < ev_ToPU e then up else down) \<le> ev_Time e \<and> spaced up down (ev_Time e) es)"

definition last_time :: "Event list \<Rightarrow> time" where
  "last_time es = (if es = [] then 0 else ev_Time (last es))"

lemma chain_snoc: "chain a es b \<Longrightarrow> ev_FromPU e = b \<Longrightarrow> ev_ToPU e \<noteq> b \<Longrightarrow> chain a (es @ [e]) (ev_ToPU e)"
  by (induction es arbitrary: a) auto

lemma spaced_snoc:
  "spaced up down t es \<Longrightarrow> (if es = [] then t else ev_Time (last es)) + (if ev_FromPU e < ev_ToPU e then up else down) \<le> ev_Time e \<Longrightarrow>
     spaced up down t (es @ [e])"
  by (induction es arbitrary: t) (auto split: if_splits)

definition trace_inv :: "sim_ctx \<Rightarrow> SpannerAutoscalerSpec \<Rightarrow> gint \<Rightarrow> nat \<Rightarrow> sim_state \<Rightarrow> bool" where
  "trace_inv c spec pu0 n s \<longleftrightarrow>
     sa_Spec (ss_sa s) = spec \<and> LastScaleTime (sa_Status (ss_sa s)) = last_time (ss_events s) \<and>
     chain pu0 (ss_events s) (ss_PU s) \<and>
     spaced (DurationOr (sc_ScaleupInterval (ScaleConfig spec)) (sx_up c))
            (DurationOr (sc_ScaledownInterval (ScaleConfig spec)) (sx_down c)) 0 (ss_events s) \<and>
     length (ss_points s) = n \<and> (ss_points s \<noteq> [] \<longrightarrow> sp_SimPU (last (ss_points s)) = ss_PU s) \<and>
     ag_dataPoints (ss_agg s) = n \<and> agg_within n (ss_agg s)"

lemma Decide_Scale:
  assumes "Decide parse sa d now up down = (DecisionScale, None)"
  shows "d \<noteq> cur_pu sa" and "LastScaleTime (sa_Status sa) +
     (if cur_pu sa < d then DurationOr (sc_ScaleupInterval (scale_config sa)) up
      else DurationOr (sc_ScaledownInterval (scale_config sa)) down) \<le> now"
  using assms by (auto simp: Decide_def Let_def split: if_splits sum.splits)

lemma observe_dataPoints [simp]:
  "ag_dataPoints (observe p sp m b dt a) = Suc (ag_dataPoints a)"
  "ag_dataPoints (observeGap p pu dt a) = Suc (ag_dataPoints a)"
  "ag_dataPoints (observeMissingSpan x a) = ag_dataPoints a"
  by (simp_all add: observe_def observeGap_def observeMissingSpan_def observeCommon_def Let_def split: prod.splits)

lemma decided_tick_inv:
  assumes "trace_inv c spec pu0 n s" "decided_tick c p dt high tot s = Some (Inr s')"
  shows "trace_inv c spec pu0 (Suc n) s' \<and> ss_prev s' = ss_prev s"
proof -
  let ?sa0 = "upd_status (\<lambda>x. x\<lparr>CurrentProcessingUnits := ss_PU s, CurrentlyActiveSchedules := ss_active s\<rparr>) (ss_sa s)"
  obtain sa1 where sa1: "setStatusCPU ?sa0 (sx_flags c) high tot = Some sa1"
    using assms(2) by (auto simp: decided_tick_def Let_def split: option.splits)
  obtain sa2 d dec err where dec: "sim_decide c sa1 (pt_Time p) = (sa2, d, dec, err)" by (metis prod_cases4)
  have err: "err = None" using assms(2) sa1 dec by (auto simp: decided_tick_def Let_def split: option.splits)
  note w = sim_decide_with_range [OF dec]
  have keep: "sa_Spec sa2 = spec" "LastScaleTime (sa_Status sa2) = last_time (ss_events s)" "cur_pu sa2 = ss_PU s"
    using setStatusCPU_keeps [OF sa1] w assms(1) by (auto simp: with_range_def upd_status_def trace_inv_def)
  have s': "s' = s\<lparr>ss_PU := (if dec = DecisionScale then d else ss_PU s),
      ss_sa := (if dec = DecisionScale then upd_status (\<lambda>x. x\<lparr>LastScaleTime := pt_Time p\<rparr>) sa2 else sa2),
      ss_events := (if dec = DecisionScale
        then ss_events s @ [\<lparr>ev_Time = pt_Time p, ev_FromPU = ss_PU s, ev_ToPU = d\<rparr>] else ss_events s),
      ss_points := ss_points s @ [sim_point p high tot (if dec = DecisionScale then d else ss_PU s) False],
      ss_agg := observe p (sim_point p high tot (if dec = DecisionScale then d else ss_PU s) False)
        (DesiredMinPUs (sa_Status sa2)) (ss_PU s) dt (ss_agg s)\<rparr>"
    using assms(2) unfolding decided_tick_def Let_def sa1 option.case dec err fst_conv snd_conv by simp
  show ?thesis
  proof (cases "dec = DecisionScale")
    case True
    have D: "Decide (sx_parse c) sa2 d (pt_Time p) (sx_up c) (sx_down c) = (DecisionScale, None)" using w True err by metis
    let ?e = "\<lparr>ev_Time = pt_Time p, ev_FromPU = ss_PU s, ev_ToPU = d\<rparr>"
    have "chain pu0 (ss_events s @ [?e]) (ev_ToPU ?e)"
      using assms(1) Decide_Scale(1) [OF D] keep(3) by (intro chain_snoc) (auto simp: trace_inv_def)
    moreover have "spaced (DurationOr (sc_ScaleupInterval (ScaleConfig spec)) (sx_up c))
        (DurationOr (sc_ScaledownInterval (ScaleConfig spec)) (sx_down c)) 0 (ss_events s @ [?e])"
      using assms(1) Decide_Scale(2) [OF D] keep
      by (intro spaced_snoc) (auto simp: trace_inv_def last_time_def split: if_splits)
    ultimately show ?thesis
      using assms(1) keep True observe_within
      by (simp add: s' trace_inv_def last_time_def upd_status_def sim_point_def)
  next
    case False
    then show ?thesis using assms(1) keep observe_within by (simp add: s' trace_inv_def sim_point_def)
  qed
qed

lemma sim_tick_inv:
  assumes "trace_inv c spec pu0 n s" "sim_tick c points i p s = Some (Inr s')"
  shows "trace_inv c spec pu0 (Suc n) s' \<and> ss_prev s' = pt_Time p"
proof -
  define dt where "dt = tickDuration points i"
  define s1 where "s1 = (if minute < dt then s\<lparr>ss_agg := observeMissingSpan (Minutes (dt - minute)) (ss_agg s)\<rparr> else s)"
  obtain active where f: "fireSchedules (sx_schedules c) (filter (\<lambda>as. \<not> as_EndTime as < pt_Time p) (ss_active s1)) (ss_prev s1)
      (pt_Time p) = Some active"
    using assms(2) by (auto simp: sim_tick_def Let_def s1_def dt_def split: option.splits if_splits)
  define s2 where "s2 = s1\<lparr>ss_active := active, ss_prev := pt_Time p\<rparr>"
  have s2: "trace_inv c spec pu0 n s2" using assms(1) by (simp add: s2_def s1_def trace_inv_def observeMissingSpan_within)
  obtain high tot ok where cpu: "simulatedCPU (sx_flags c) p (ss_PU s2) = (high, tot, ok)" by (metis prod_cases3)
  have r: "(if ok then decided_tick c p (min dt minute) high tot s2
       else Some (Inr (s2\<lparr>ss_points := ss_points s2 @ [sim_point p high tot (ss_PU s2) True],
              ss_agg := observeGap p (ss_PU s2) (min dt minute) (ss_agg s2)\<rparr>))) = Some (Inr s')"
    using assms(2) f cpu by (auto simp: sim_tick_def Let_def s2_def s1_def dt_def min_def split: if_splits)
  show ?thesis
  proof (cases ok)
    case True
    then show ?thesis using decided_tick_inv [OF s2] r by (auto simp: s2_def)
  next
    case False
    then have "s' = s2\<lparr>ss_points := ss_points s2 @ [sim_point p high tot (ss_PU s2) True],
              ss_agg := observeGap p (ss_PU s2) (min dt minute) (ss_agg s2)\<rparr>" using r by simp
    then show ?thesis
      using s2 by (simp add: trace_inv_def sim_point_def observeGap_within) (simp add: s2_def)
  qed
qed

lemma sim_tick_returns:
  assumes "\<forall>sr \<in> set (sx_schedules c). schedule_ok sr" "0 \<le> ss_prev s" "sx_flags c \<in>
     {CPUMetricFlagHighPriority, CPUMetricFlagTotal, or CPUMetricFlagHighPriority CPUMetricFlagTotal}"
  shows "\<exists>r. sim_tick c points i p s = Some r"
proof -
  define dt where "dt = tickDuration points i"
  define s1 where "s1 = (if minute < dt then s\<lparr>ss_agg := observeMissingSpan (Minutes (dt - minute)) (ss_agg s)\<rparr> else s)"
  have "0 \<le> ss_prev s1" using assms(2) by (simp add: s1_def)
  from fireSchedules_returns [OF assms(1) this] obtain active where
    f: "fireSchedules (sx_schedules c) (filter (\<lambda>as. \<not> as_EndTime as < pt_Time p) (ss_active s1)) (ss_prev s1)
      (pt_Time p) = Some active" by blast
  define s2 where "s2 = s1\<lparr>ss_active := active, ss_prev := pt_Time p\<rparr>"
  obtain high tot ok where cpu: "simulatedCPU (sx_flags c) p (ss_PU s2) = (high, tot, ok)" by (metis prod_cases3)
  have e: "sim_tick c points i p s = (if ok then decided_tick c p (min dt minute) high tot s2
       else Some (Inr (s2\<lparr>ss_points := ss_points s2 @ [sim_point p high tot (ss_PU s2) True],
              ss_agg := observeGap p (ss_PU s2) (min dt minute) (ss_agg s2)\<rparr>)))"
    using f cpu by (auto simp: sim_tick_def Let_def s2_def s1_def dt_def min_def split: if_splits)
  have "\<exists>r. decided_tick c p (min dt minute) high tot s2 = Some r" if ok
    using setStatusCPU_returns [OF _ assms(3)] cpu that
    by (fastforce simp: decided_tick_def Let_def split: prod.splits option.splits)
  then show ?thesis using e by (cases ok) auto
qed

section \<open>The whole replay\<close>

lemma sim_loop_inv:
  assumes "sim_loop c points i ps s = Some (Inr s')" "trace_inv c spec pu0 n s"
  shows "trace_inv c spec pu0 (n + length ps) s'"
  using assms
proof (induction ps arbitrary: i n s)
  case (Cons p ps)
  then obtain s1 where "sim_tick c points i p s = Some (Inr s1)" "sim_loop c points (Suc i) ps s1 = Some (Inr s')"
    by (auto split: option.splits sum.splits)
  then show ?case using Cons.IH sim_tick_inv [OF Cons.prems(2)] by fastforce
qed simp

lemma sim_loop_returns:
  assumes "\<forall>sr \<in> set (sx_schedules c). schedule_ok sr" "0 \<le> ss_prev s" "sx_flags c \<in>
     {CPUMetricFlagHighPriority, CPUMetricFlagTotal, or CPUMetricFlagHighPriority CPUMetricFlagTotal}"
    and "\<forall>p \<in> set ps. 0 \<le> pt_Time p" "trace_inv c spec pu0 n s"
  shows "\<exists>r. sim_loop c points i ps s = Some r"
  using assms(2,4,5)
proof (induction ps arbitrary: i n s)
  case (Cons p ps)
  obtain r where r: "sim_tick c points i p s = Some r" using sim_tick_returns [OF assms(1) Cons.prems(1) assms(3)] by blast
  show ?case
  proof (cases r)
    case (Inl err)
    then show ?thesis using r by simp
  next
    case (Inr s1)
    have "trace_inv c spec pu0 (Suc n) s1 \<and> ss_prev s1 = pt_Time p" using sim_tick_inv [OF Cons.prems(3)] r Inr by blast
    then show ?thesis using Cons.IH [of s1] Cons.prems(2) r Inr by auto
  qed
qed simp

text \<open>What the replay relies on of the cron library and of \<^verbatim>\<open>slices.SortFunc\<close>.\<close>

definition sim_env_ok :: "sim_env \<Rightarrow> bool" where
  "sim_env_ok env \<longleftrightarrow> (\<forall>e nxt. se_parse env e = Inr nxt \<longrightarrow> (\<exists>fires. cron_next_ok fires nxt)) \<and> sort_ok (se_sort env)"

lemma sorted_points:
  assumes "sort_ok (se_sort env)"
  shows "mset (se_sort env (\<lambda>a b. pt_Time a < pt_Time b) points) = mset points"
  by (rule sort_ok_mset [OF assms]) (auto simp: weak_order_def)

lemma sim_start_inv: "trace_inv c (sa_Spec sa) pu 0 (sim_start sa flags low pu p)"
  by (simp add: trace_inv_def sim_start_def sim_resource_def Let_def last_time_def agg_within_def newAggregator_def
      sa_zero_def)

lemma count_event_ups:
  "ec_ScaleUps (count_event prev e c) = ec_ScaleUps c + (if ev_FromPU e < ev_ToPU e then 1 else 0)"
  "ec_ScaleDowns (count_event prev e c) = ec_ScaleDowns c + (if ev_FromPU e < ev_ToPU e then 0 else 1)"
  by (auto simp: count_event_def Let_def split: option.splits)

lemma count_events_ups:
  "ec_ScaleUps (count_events prev es c) = ec_ScaleUps c + length (filter (\<lambda>e. ev_FromPU e < ev_ToPU e) es)"
  "ec_ScaleDowns (count_events prev es c) = ec_ScaleDowns c + length (filter (\<lambda>e. \<not> ev_FromPU e < ev_ToPU e) es)"
  by (induction es arbitrary: prev c) (simp_all add: count_event_ups)

lemma summary_counts:
  assumes "aggregator_summary t u es a = Some s"
  shows "sum_ScaleUps s = length (filter (\<lambda>e. ev_FromPU e < ev_ToPU e) es)"
    "sum_ScaleDowns s = length (filter (\<lambda>e. \<not> ev_FromPU e < ev_ToPU e) es)" "sum_DataPoints s = ag_dataPoints a"
  using assms by (auto simp: aggregator_summary_def Let_def count_events_ups split: option.splits)

text \<open>A run that gets past the checks of its input is a loop over the sorted points and its summary.\<close>

abbreviation by_time :: "sim_env \<Rightarrow> Point list \<Rightarrow> Point list" where
  "by_time env points \<equiv> se_sort env (\<lambda>a b. pt_Time a < pt_Time b) points"

definition run_ctx :: "sim_env \<Rightarrow> Config \<Rightarrow> SpannerAutoscaler \<Rightarrow> scheduleRuntime list \<Rightarrow> sim_ctx" where
  "run_ctx env cfg sa schedules = \<lparr>sx_gsv = se_gsv env, sx_parse = se_parse env,
     sx_flags = ActiveMetricFlags (sc_TargetCPUUtilization (scale_config sa)),
     sx_up = or_default DefaultScaleUpInterval (cfg_ScaleUpInterval cfg),
     sx_down = or_default DefaultScaleDownInterval (cfg_ScaleDownInterval cfg), sx_schedules = schedules\<rparr>"

definition run_start :: "sim_env \<Rightarrow> Config \<Rightarrow> SpannerAutoscaler \<Rightarrow> Point list \<Rightarrow> sim_state" where
  "run_start env cfg sa points = sim_start sa (ActiveMetricFlags (sc_TargetCPUUtilization (scale_config sa)))
     (if f_man (cfg_LowConfidenceCPU cfg) = 0 then DefaultLowConfidenceCPU else cfg_LowConfidenceCPU cfg)
     (if cfg_InitialPU cfg = 0 then pt_ProcessingUnits (by_time env points ! 0) else cfg_InitialPU cfg) (by_time env points ! 0)"

definition run_result :: "sim_env \<Rightarrow> Point list \<Rightarrow> (sim_err + sim_state) option \<Rightarrow> (sim_err + Result) option" where
  "run_result env points r =
     (case r of
        None \<Rightarrow> None
      | Some (Inl err) \<Rightarrow> Some (Inl err)
      | Some (Inr s) \<Rightarrow>
          (case aggregator_summary (pt_Time (by_time env points ! 0)) (pt_Time (last (by_time env points))) (ss_events s) (ss_agg s) of
             None \<Rightarrow> None
           | Some summary \<Rightarrow>
               Some (Inr \<lparr>res_Summary = summary, res_Events = ss_events s, res_Points = ss_points s\<rparr>)))"

lemma Run_cases:
  obtains err where "Run env cfg points = Some (Inl err)"
  | sa schedules where "cfg_Autoscaler cfg = Some sa" "points \<noteq> []" "0 < ss_PU (run_start env cfg sa points)"
      "ActiveMetricFlags (sc_TargetCPUUtilization (scale_config sa)) \<noteq> 0"
      "prepareSchedules (se_parse env) (se_parseDuration env) sa (cfg_Schedules cfg) = Inr schedules"
      "Run env cfg points = run_result env points (sim_loop (run_ctx env cfg sa schedules) (by_time env points) 0
         (by_time env points) (run_start env cfg sa points))"
proof (cases "cfg_Autoscaler cfg")
  case None
  then show ?thesis using that(1) by (simp add: Run_def)
next
  case (Some sa)
  let ?flags = "ActiveMetricFlags (sc_TargetCPUUtilization (scale_config sa))"
  let ?prep = "prepareSchedules (se_parse env) (se_parseDuration env) sa (cfg_Schedules cfg)"
  define pu where "pu = (if cfg_InitialPU cfg = 0 then pt_ProcessingUnits (by_time env points ! 0) else cfg_InitialPU cfg)"
  consider "points = []" | "points \<noteq> []" "?flags = 0" | err where "points \<noteq> []" "?flags \<noteq> 0" "?prep = Inl err"
    | rts where "points \<noteq> []" "?flags \<noteq> 0" "?prep = Inr rts" "pu \<le> 0"
    | rts where "points \<noteq> []" "?flags \<noteq> 0" "?prep = Inr rts" "0 < pu"
    using not_le [of pu 0] by (cases ?prep) blast+
  then show ?thesis
  proof cases
    case 5
    have "ss_PU (run_start env cfg sa points) = pu" by (simp add: run_start_def sim_start_def Let_def pu_def)
    moreover have "Run env cfg points = run_result env points (sim_loop (run_ctx env cfg sa rts) (by_time env points) 0
         (by_time env points) (run_start env cfg sa points))"
      using Some 5 unfolding run_result_def run_ctx_def run_start_def by (simp add: Run_def Let_def pu_def)
    ultimately show ?thesis using that(2) [OF Some] 5 by simp
  qed (use Some that(1) in \<open>simp_all add: Run_def Let_def pu_def\<close>)
qed

lemma run_start_inv: "trace_inv c (sa_Spec sa) (ss_PU (run_start env cfg sa points)) 0 (run_start env cfg sa points)"
proof -
  have "ss_PU (sim_start sa flags low pu p) = pu" for flags low pu p by (simp add: sim_start_def Let_def)
  then show ?thesis unfolding run_start_def using sim_start_inv by simp
qed

section \<open>Sample runs\<close>

definition sample_points :: "Point list" where
  "sample_points = [\<lparr>pt_Time = 100 * minute, pt_ProcessingUnits = 3000, pt_HighPriorityCPU = Some (f_of_int 75), pt_TotalCPU = None\<rparr>]"

definition sample_sim_env :: sim_env where
  "sample_sim_env = \<lparr>se_gsv = sample_gsv, se_parse = (\<lambda>e. Inr every_minute), se_parseDuration = (\<lambda>s. Inr minute), se_sort = sort_by\<rparr>"

definition sample_cfg :: Config where
  "sample_cfg = \<lparr>cfg_Autoscaler = Some sample_sa, cfg_Schedules = [], cfg_InitialPU = 0, cfg_ScaleUpInterval = 0,
     cfg_ScaleDownInterval = 0, cfg_LowConfidenceCPU = f_zero\<rparr>"

lemma sample_sim_env_ok: "sim_env_ok sample_sim_env"
  using every_minute_ok sort_by_ok by (auto simp: sim_env_ok_def sample_sim_env_def)

lemma Run_returns:
  assumes "sim_env_ok env" "\<forall>p \<in> set points. minute \<le> pt_Time p" "int (length points) < 2 ^ 53"
  shows "\<exists>r. Run env cfg points = Some r"
proof (rule Run_cases [of env cfg points])
  fix sa rts
  let ?c = "run_ctx env cfg sa rts" and ?s = "run_start env cfg sa points" and ?ps = "by_time env points"
  assume a: "points \<noteq> []" "ActiveMetricFlags (sc_TargetCPUUtilization (scale_config sa)) \<noteq> 0"
    "prepareSchedules (se_parse env) (se_parseDuration env) sa (cfg_Schedules cfg) = Inr rts"
    "Run env cfg points = run_result env points (sim_loop ?c ?ps 0 ?ps ?s)"
  have m: "mset ?ps = mset points" using assms(1) sorted_points by (auto simp: sim_env_ok_def)
  then have ps: "set ?ps = set points" "length ?ps = length points" by (metis set_mset_mset, metis size_mset)
  then have "?ps ! 0 \<in> set points" using a(1) by (metis length_greater_0_conv nth_mem)
  then have prev: "0 \<le> ss_prev ?s" using assms(2) by (simp add: run_start_def sim_start_def Let_def)
  have sched: "\<forall>sr \<in> set (sx_schedules ?c). schedule_ok sr"
    using prepareSchedules_ok [OF a(3)] assms(1) by (simp add: run_ctx_def sim_env_ok_def)
  have pos: "\<forall>p \<in> set ?ps. 0 \<le> pt_Time p" using assms(2) ps(1) minute_pos by (metis order_trans less_imp_le)
  obtain r where r: "sim_loop ?c ?ps 0 ?ps ?s = Some r"
    using sim_loop_returns [OF sched prev _ pos run_start_inv] ActiveMetricFlags_nonzero [OF a(2)]
    by (auto simp: run_ctx_def)
  show ?thesis
  proof (cases r)
    case (Inl err)
    then show ?thesis using a(4) r by (simp add: run_result_def)
  next
    case (Inr s)
    then have "agg_within (length points) (ss_agg s)"
      using sim_loop_inv [OF r [unfolded Inr] run_start_inv] ps(2) by (simp add: trace_inv_def)
    then obtain sm where "aggregator_summary (pt_Time (?ps ! 0)) (pt_Time (last ?ps)) (ss_events s) (ss_agg s) = Some sm"
      using summary_returns [OF _ assms(3)] by blast
    then show ?thesis using a(4) r Inr by (simp add: run_result_def)
  qed
qed blast

section \<open>Properties\<close>

text \<open>
  C31. The replay ends: for every recording and every configuration, when the schedules fire as
  go-cron schedules do, \<^verbatim>\<open>Run\<close> returns a result or an error; the search for the last firing
  of a schedule ends at every tick, no nil pointer is dereferenced, and no percentile is taken
  out of range, in spite of the rounding of the rank.
\<close>

theorem simulation_returns:
  assumes "sim_env_ok env" "\<forall>p \<in> set points. minute \<le> pt_Time p" "int (length points) < 2 ^ 53"
  shows "\<exists>r. Run env cfg points = Some r"
  using assms by (rule Run_returns)

theorem simulation_returns_witness:
  "\<exists>r. Run sample_sim_env sample_cfg sample_points = Some r"
  by (rule simulation_returns [OF sample_sim_env_ok]) (simp_all add: sample_points_def)

text \<open>
  C32. The trace of a replay is sound: one point of the result per recorded point; the changes
  of the simulated instance form a chain from its first size to its last, each one a real
  change; every change waits for the cooldown of its direction after the change before it
  (the interval of the spec or the configured default); and the summary counts the points and
  the changes in each direction exactly.
\<close>

theorem simulated_trace_sound:
  assumes "sort_ok (se_sort env)" "cfg_Autoscaler cfg = Some sa" "Run env cfg points = Some (Inr r)"
  shows "length (res_Points r) = length points \<and>
     (\<exists>pu > 0. chain pu (res_Events r) (sp_SimPU (last (res_Points r)))) \<and>
     spaced (DurationOr (sc_ScaleupInterval (scale_config sa)) (or_default DefaultScaleUpInterval (cfg_ScaleUpInterval cfg)))
            (DurationOr (sc_ScaledownInterval (scale_config sa)) (or_default DefaultScaleDownInterval (cfg_ScaleDownInterval cfg)))
            0 (res_Events r) \<and>
     sum_DataPoints (res_Summary r) = length points \<and>
     sum_ScaleUps (res_Summary r) = length (filter (\<lambda>e. ev_FromPU e < ev_ToPU e) (res_Events r)) \<and>
     sum_ScaleDowns (res_Summary r) = length (filter (\<lambda>e. \<not> ev_FromPU e < ev_ToPU e) (res_Events r))"
proof (rule Run_cases [of env cfg points])
  fix err
  assume "Run env cfg points = Some (Inl err)"
  then show ?thesis using assms(3) by simp
next
  fix sa' rts
  let ?c = "run_ctx env cfg sa rts" and ?s = "run_start env cfg sa points" and ?ps = "by_time env points"
  assume "cfg_Autoscaler cfg = Some sa'" "points \<noteq> []" "0 < ss_PU (run_start env cfg sa' points)"
    "Run env cfg points = run_result env points (sim_loop (run_ctx env cfg sa' rts) ?ps 0 ?ps (run_start env cfg sa' points))"
  then have a: "points \<noteq> []" "0 < ss_PU ?s" "Run env cfg points = run_result env points (sim_loop ?c ?ps 0 ?ps ?s)"
    using assms(2) by auto
  have len: "length ?ps = length points" using sorted_points [OF assms(1)] by (metis size_mset)
  obtain s where s: "sim_loop ?c ?ps 0 ?ps ?s = Some (Inr s)"
    and sm: "aggregator_summary (pt_Time (?ps ! 0)) (pt_Time (last ?ps)) (ss_events s) (ss_agg s) = Some (res_Summary r)"
    and r: "res_Events r = ss_events s" "res_Points r = ss_points s"
    using a(3) assms(3) by (auto simp: run_result_def split: option.splits sum.splits)
  have "trace_inv ?c (sa_Spec sa) (ss_PU ?s) (length points) s"
    using sim_loop_inv [OF s run_start_inv] len by simp
  moreover have "ss_points s \<noteq> []" using calculation a(1) by (auto simp: trace_inv_def)
  ultimately show ?thesis
    using a(2) summary_counts [OF sm] by (auto simp: r trace_inv_def run_ctx_def)
qed

theorem simulated_trace_sound_witness:
  "\<exists>r. Run sample_sim_env sample_cfg sample_points = Some (Inr r) \<and> length (res_Events r) = 1 \<and>
     length (res_Points r) = 1 \<and> sum_ScaleUps (res_Summary r) + sum_ScaleDowns (res_Summary r) = 1"
proof -
  have "case Run sample_sim_env sample_cfg sample_points of Some (Inr r) \<Rightarrow> length (res_Events r) = 1 | _ \<Rightarrow> False" by code_simp
  then obtain r where r: "Run sample_sim_env sample_cfg sample_points = Some (Inr r)" "length (res_Events r) = 1"
    by (auto split: option.splits sum.splits)
  have "sort_ok (se_sort sample_sim_env)" "cfg_Autoscaler sample_cfg = Some sample_sa"
    by (simp_all add: sample_sim_env_def sort_by_ok sample_cfg_def)
  from simulated_trace_sound [OF this r(1)] show ?thesis
    using r sum_length_filter_compl [of "\<lambda>e. ev_FromPU e < ev_ToPU e" "res_Events r"]
    by (auto simp: sample_points_def)
qed

text \<open>
  C30. The simulator decides as the controller does: on the same resource, at the same clock
  reading and with the same default intervals, the CPU path of a reconcile calls the Spanner
  API exactly when the replay scales, and with the same processing units; when the replay
  reports a configuration error, the controller calls nothing.
\<close>

theorem simulator_decides_as_controller:
  assumes "r_gsv (c_r env) = sx_gsv c" "r_parse (c_r env) = sx_parse c"
    and "r_scaleUpInterval (c_r env) = sx_up c" "r_scaleDownInterval (c_r env) = sx_down c"
    and "\<forall>st. fst (clock_now (c_r env) st) = now"
    and "sim_decide c sa now = (sa', desired, decision, err)"
    and "reconcile_cpu env upd dropped sa ch st = (res, sa'', st')"
  shows "if decision = DecisionScale \<and> err = None
         then \<exists>e. update_calls st' = update_calls st @ [UpdateInstanceCall desired e]
         else update_calls st' = update_calls st"
  using reconcile_cpu_exact [OF assms(7,5)] sim_decide_with_range [OF assms(6)] assms(1-4) by auto

definition sample_sim_ctx :: sim_ctx where
  "sample_sim_ctx = \<lparr>sx_gsv = sample_gsv, sx_parse = (\<lambda>e. Inr every_minute), sx_flags = CPUMetricFlagHighPriority,
     sx_up = minute, sx_down = 55 * minute, sx_schedules = []\<rparr>"

definition fixed_cenv :: "time \<Rightarrow> (mem_world, unit, cron_entry list) cenv" where
  "fixed_cenv t = sample_cenv\<lparr>c_r := sample_renv\<lparr>r_kube := mem_kube\<lparr>k_now := (\<lambda>w. (t, w))\<rparr>\<rparr>\<rparr>"

theorem simulator_decides_as_controller_witness:
  "\<exists>e. update_calls (snd (snd (reconcile_cpu (fixed_cenv (100 * minute)) (\<lambda>pu w. (None, w)) [] sample_sa False
      (mem_state (100 * minute) [sample_sa] [] [])))) = [UpdateInstanceCall 4000 e]"
proof -
  let ?st = "mem_state (100 * minute) [sample_sa] [] []"
  let ?R = "reconcile_cpu (fixed_cenv (100 * minute)) (\<lambda>pu w. (None, w)) [] sample_sa False ?st"
  obtain res sa'' st' where R: "?R = (res, sa'', st')" by (metis prod_cases3)
  obtain sa' d dec err where D: "sim_decide sample_sim_ctx sample_sa (100 * minute) = (sa', d, dec, err)" by (metis prod_cases4)
  have "case sim_decide sample_sim_ctx sample_sa (100 * minute) of (sa', d, dec, err) \<Rightarrow> d = 4000 \<and> dec = DecisionScale \<and> err = None"
    by code_simp
  then have d: "d = 4000" "dec = DecisionScale" "err = None" using D by auto
  have "update_calls ?st = []" by (simp add: update_calls_def mem_state_def)
  moreover have "\<exists>e. update_calls st' = update_calls ?st @ [UpdateInstanceCall d e]"
    using simulator_decides_as_controller [OF _ _ _ _ _ D R] d(2,3)
    by (simp add: fixed_cenv_def sample_sim_ctx_def sample_renv_def clock_now_def kread_def)
  ultimately show ?thesis using d R by simp
qed

end
