(* ===== verification/Recommender.thy ===== *)
theory Recommender
  imports Simulation Autoscaler_Webhook
begin

text \<open>
  \<^verbatim>\<open>internal/simulator/recommend.go\<close>: the search over candidate configurations, the
  constraints, the ranking of the candidates and the choice of the one to recommend.

  The rendering of a duration and of an \<^verbatim>\<open>intstr.IntOrString\<close> as a string are parameters, as
  is everything the replay and the admission webhook are parameterized with. The candidates
  are evaluated by goroutines that each write their own element of a slice; \<open>order\<close> is the
  order in which they finish. Texts of reasons are values with what they report.
\<close>

section \<open>Search space, constraints and candidates\<close>

definition maxRecommendCombinations :: gint where
  "maxRecommendCombinations = 20000"

record SearchSpace =
  sp_MinPUs :: "gint list"
  sp_ScaledownStepSizes :: "IntOrString list"
  sp_ScaledownIntervals :: "duration list"
  sp_ScaledownAllowedTimes :: "string list list"
  sp_ScaleupStepSizes :: "IntOrString list"
  sp_ScaleupIntervals :: "duration list"
  sp_TargetHighPriorityCPUs :: "gint list"
  sp_TargetTotalCPUs :: "gint list"

record Constraints =
  con_MaxTargetExceededMinutes :: float64
  con_MaxSimCPUP99 :: "float64 option"
  con_MaxHighPriorityCPU :: gint
  con_MaxScaleStepViolations :: "gint option"
  con_MaxShortScaleGaps :: "gint option"
  con_MaxGapMinutes :: "float64 option"

datatype infeasible_reason =
    Above_target float64 float64
  | P99_high float64 float64
  | P99_total float64 float64
  | Target_above_recommended gint gint
  | P99_above_recommended float64 gint
  | Steps_beyond nat gint
  | Short_gaps nat gint
  | Data_gaps float64 float64

datatype cand_error = Cand_rejected admission_error | Cand_run sim_err

type_synonym params = "(string \<times> string) list"

record Candidate =
  ca_Overrides :: params
  ca_Summary :: Summary
  ca_Feasible :: bool
  ca_InfeasibleReasons :: "infeasible_reason list"
  ca_Error :: "cand_error option"
  ca_Autoscaler :: "SpannerAutoscaler option"

definition OverrideMinPU :: string where "OverrideMinPU = ''minPU''"
definition OverrideScaledownStepSize :: string where "OverrideScaledownStepSize = ''scaledownStepSize''"
definition OverrideScaledownInterval :: string where "OverrideScaledownInterval = ''scaledownInterval''"
definition OverrideScaledownAllowedTimes :: string where "OverrideScaledownAllowedTimes = ''scaledownAllowedTimes''"
definition OverrideScaleupStepSize :: string where "OverrideScaleupStepSize = ''scaleupStepSize''"
definition OverrideScaleupInterval :: string where "OverrideScaleupInterval = ''scaleupInterval''"
definition OverrideTargetHighPriorityCPU :: string where "OverrideTargetHighPriorityCPU = ''targetHighPriorityCPU''"
definition OverrideTargetTotalCPU :: string where "OverrideTargetTotalCPU = ''targetTotalCPU''"

definition OverrideKeys :: "string list" where
  "OverrideKeys = [OverrideMinPU, OverrideScaledownStepSize, OverrideScaledownInterval, OverrideScaledownAllowedTimes,
     OverrideScaleupStepSize, OverrideScaleupInterval, OverrideTargetHighPriorityCPU, OverrideTargetTotalCPU]"

record rec_env =
  re_sim :: sim_env
  re_validPercent :: "string \<Rightarrow> string list"
  re_durString :: "duration \<Rightarrow> string"
  re_iosString :: "IntOrString \<Rightarrow> string"

section \<open>Rendering the current values\<close>

fun join :: "string \<Rightarrow> string list \<Rightarrow> string" where
  "join sep [] = []"
| "join sep [x] = x"
| "join sep (x # y # ys) = x @ sep @ join sep (y # ys)"

definition DurationValueOr :: "duration option \<Rightarrow> duration \<Rightarrow> duration" where
  "DurationValueOr spec def = (case spec of Some d \<Rightarrow> d | None \<Rightarrow> def)"

definition target_text :: "gint option \<Rightarrow> string" where
  "target_text t = (case t of Some v \<Rightarrow> fmt_d v | None \<Rightarrow> ''none'')"

definition CurrentParameterValues :: "rec_env \<Rightarrow> SpannerAutoscaler \<Rightarrow> duration \<Rightarrow> duration \<Rightarrow> params" where
  "CurrentParameterValues env sa up down =
     (let sc = scale_config sa
      in [(OverrideMinPU, fmt_d (pus_Min (sc_ProcessingUnits sc))),
          (OverrideScaledownStepSize, re_iosString env (sc_ScaledownStepSize sc)),
          (OverrideScaleupStepSize, re_iosString env (sc_ScaleupStepSize sc)),
          (OverrideScaledownInterval, re_durString env (DurationValueOr (sc_ScaledownInterval sc) down)),
          (OverrideScaleupInterval, re_durString env (DurationValueOr (sc_ScaleupInterval sc) up)),
          (OverrideScaledownAllowedTimes,
             if length (sc_ScaledownAllowedTimes sc) > 0 then join '';'' (sc_ScaledownAllowedTimes sc)
             else if length (sc_ScaledownNotAllowedTimes sc) > 0
             then ''notAllowedTimes:'' @ join '';'' (sc_ScaledownNotAllowedTimes sc)
             else ''none''),
          (OverrideTargetHighPriorityCPU, target_text (cpu_HighPriority (sc_TargetCPUUtilization sc))),
          (OverrideTargetTotalCPU, target_text (cpu_Total (sc_TargetCPUUtilization sc)))])"

definition mark_default :: "string \<Rightarrow> bool \<Rightarrow> params \<Rightarrow> params" where
  "mark_default key unset m =
     (if unset then map (\<lambda>(k, v). (k, if k = key then ''controller default ('' @ v @ '')'' else v)) m else m)"

definition CurrentParameterDisplay :: "rec_env \<Rightarrow> SpannerAutoscaler \<Rightarrow> duration \<Rightarrow> duration \<Rightarrow> params" where
  "CurrentParameterDisplay env sa up down =
     mark_default OverrideScaleupInterval (sc_ScaleupInterval (scale_config sa) = None)
       (mark_default OverrideScaledownInterval (sc_ScaledownInterval (scale_config sa) = None)
          (CurrentParameterValues env sa up down))"

text \<open>Reading a key a Go map does not have yields the empty string.\<close>

definition DescribeChanges :: "params \<Rightarrow> params \<Rightarrow> string" where
  "DescribeChanges current overrides =
     (let parts = concat (map (\<lambda>key. case map_of overrides key of
                None \<Rightarrow> []
              | Some v \<Rightarrow> if v \<noteq> (case map_of current key of None \<Rightarrow> [] | Some c \<Rightarrow> c) then [key @ ''='' @ v] else [])
              OverrideKeys)
      in if length parts = 0 then ''(no change vs current)'' else join '' '' parts)"

definition DescribeOverrides :: "params \<Rightarrow> string" where
  "DescribeOverrides overrides =
     (let parts = concat (map (\<lambda>key. case map_of overrides key of None \<Rightarrow> [] | Some v \<Rightarrow> [key @ ''='' @ v]) OverrideKeys)
      in if length parts = 0 then ''(base)'' else join '' '' parts)"

section \<open>The grid\<close>

text \<open>An override without \<open>apply\<close> is the no-op of a parameter that is not searched.\<close>

record override =
  ov_key :: string
  ov_value :: string
  ov_apply :: "(SpannerAutoscaler \<Rightarrow> SpannerAutoscaler) option"

definition upd_config :: "(ScaleConfig \<Rightarrow> ScaleConfig) \<Rightarrow> SpannerAutoscaler \<Rightarrow> SpannerAutoscaler" where
  "upd_config f sa = sa\<lparr>sa_Spec := (sa_Spec sa)\<lparr>ScaleConfig := f (scale_config sa)\<rparr>\<rparr>"

definition make_override :: "string \<Rightarrow> ('a \<Rightarrow> string) \<Rightarrow> ('a \<Rightarrow> ScaleConfig \<Rightarrow> ScaleConfig) \<Rightarrow> 'a \<Rightarrow> override" where
  "make_override key render f v = \<lparr>ov_key = key, ov_value = render v, ov_apply = Some (upd_config (f v))\<rparr>"

definition noop :: "override list" where
  "noop = [\<lparr>ov_key = [], ov_value = [], ov_apply = None\<rparr>]"

definition dim_of :: "override list \<Rightarrow> override list" where
  "dim_of overrides = (if length overrides = 0 then noop else overrides)"

definition set_minPU :: "gint \<Rightarrow> ScaleConfig \<Rightarrow> ScaleConfig" where
  "set_minPU v sc = sc\<lparr>sc_ProcessingUnits := (sc_ProcessingUnits sc)\<lparr>pus_Min := v\<rparr>\<rparr>"

definition set_windows :: "string list \<Rightarrow> ScaleConfig \<Rightarrow> ScaleConfig" where
  "set_windows v sc = sc\<lparr>sc_ScaledownAllowedTimes := v, sc_ScaledownNotAllowedTimes := []\<rparr>"

definition set_highTarget :: "gint \<Rightarrow> ScaleConfig \<Rightarrow> ScaleConfig" where
  "set_highTarget v sc = sc\<lparr>sc_TargetCPUUtilization := (sc_TargetCPUUtilization sc)\<lparr>cpu_HighPriority := Some v\<rparr>\<rparr>"

definition set_totalTarget :: "gint \<Rightarrow> ScaleConfig \<Rightarrow> ScaleConfig" where
  "set_totalTarget v sc = sc\<lparr>sc_TargetCPUUtilization := (sc_TargetCPUUtilization sc)\<lparr>cpu_Total := Some v\<rparr>\<rparr>"

definition buildDimensions :: "rec_env \<Rightarrow> SearchSpace \<Rightarrow> override list list" where
  "buildDimensions env space =
     [dim_of (map (make_override OverrideMinPU fmt_d set_minPU) (sp_MinPUs space)),
      dim_of (map (make_override OverrideScaledownStepSize (re_iosString env) (\<lambda>v sc. sc\<lparr>sc_ScaledownStepSize := v\<rparr>))
        (sp_ScaledownStepSizes space)),
      dim_of (map (make_override OverrideScaledownInterval (re_durString env) (\<lambda>v sc. sc\<lparr>sc_ScaledownInterval := Some v\<rparr>))
        (sp_ScaledownIntervals space)),
      dim_of (map (make_override OverrideScaledownAllowedTimes
          (\<lambda>v. if length v > 0 then join '';'' v else ''none'') set_windows) (sp_ScaledownAllowedTimes space)),
      dim_of (map (make_override OverrideScaleupStepSize (re_iosString env) (\<lambda>v sc. sc\<lparr>sc_ScaleupStepSize := v\<rparr>))
        (sp_ScaleupStepSizes space)),
      dim_of (map (make_override OverrideScaleupInterval (re_durString env) (\<lambda>v sc. sc\<lparr>sc_ScaleupInterval := Some v\<rparr>))
        (sp_ScaleupIntervals space)),
      dim_of (map (make_override OverrideTargetHighPriorityCPU fmt_d set_highTarget) (sp_TargetHighPriorityCPUs space)),
      dim_of (map (make_override OverrideTargetTotalCPU fmt_d set_totalTarget) (sp_TargetTotalCPUs space))]"

fun cartesian_from :: "override list list \<Rightarrow> override list list \<Rightarrow> override list list" where
  "cartesian_from combos [] = combos"
| "cartesian_from combos (dim # dims) = cartesian_from (concat (map (\<lambda>combo. map (\<lambda>ov. combo @ [ov]) dim) combos)) dims"

definition cartesian :: "override list list \<Rightarrow> override list list" where
  "cartesian dimensions = cartesian_from [[]] dimensions"

section \<open>Evaluating a candidate\<close>

definition zero_summary :: Summary where
  "zero_summary = \<lparr>sum_Start = 0, sum_End = 0, sum_DataPoints = 0, sum_GapMinutes = f_zero, sum_ActualPUHours = f_zero,
     sum_SimPUHours = f_zero, sum_PUHoursSavedPercent = f_zero, sum_ScaleUps = 0, sum_ScaleDowns = 0,
     sum_SimHighPriorityCPU = None, sum_SimTotalCPU = None, sum_TargetExceededMinutes = f_zero,
     sum_LowConfidenceMinutes = f_zero, sum_MinPinnedMinutes = f_zero, sum_ScaleStepViolations = 0,
     sum_ScaleGapsUnder10Min = 0, sum_ScaleGapsUnder30Min = 0, sum_SpecMinPU = 0, sum_MinPinnedPercent = f_zero,
     sum_RequiredPUAtMinP95 = 0, sum_TargetExceededAtMinMinutes = f_zero\<rparr>"

definition p99_above :: "float64 \<Rightarrow> CPUStats option \<Rightarrow> bool" where
  "p99_above limit s = (case s of None \<Rightarrow> False | Some st \<Rightarrow> f_less limit (cs_P99 st))"

definition p99_of :: "CPUStats option \<Rightarrow> float64" where
  "p99_of s = (case s of None \<Rightarrow> f_zero | Some st \<Rightarrow> cs_P99 st)"

definition reasons_p99 :: "Summary \<Rightarrow> float64 option \<Rightarrow> infeasible_reason list" where
  "reasons_p99 s limit =
     (case limit of None \<Rightarrow> []
      | Some p \<Rightarrow>
          (if p99_above p (sum_SimHighPriorityCPU s) then [P99_high (p99_of (sum_SimHighPriorityCPU s)) p] else []) @
          (if p99_above p (sum_SimTotalCPU s) then [P99_total (p99_of (sum_SimTotalCPU s)) p] else []))"

definition reasons_ceiling :: "SpannerAutoscaler \<Rightarrow> Summary \<Rightarrow> gint \<Rightarrow> infeasible_reason list" where
  "reasons_ceiling sa s limit =
     (if limit > 0
      then (case cpu_HighPriority (sc_TargetCPUUtilization (scale_config sa)) of
              Some t \<Rightarrow> if t > limit then [Target_above_recommended t limit] else []
            | None \<Rightarrow> []) @
           (if p99_above (f_of_int limit) (sum_SimHighPriorityCPU s)
            then [P99_above_recommended (p99_of (sum_SimHighPriorityCPU s)) limit] else [])
      else [])"

definition infeasibleReasons :: "SpannerAutoscaler \<Rightarrow> Summary \<Rightarrow> Constraints \<Rightarrow> infeasible_reason list" where
  "infeasibleReasons sa s con =
     (if f_less (con_MaxTargetExceededMinutes con) (sum_TargetExceededMinutes s)
      then [Above_target (sum_TargetExceededMinutes s) (con_MaxTargetExceededMinutes con)] else []) @
     reasons_p99 s (con_MaxSimCPUP99 con) @
     reasons_ceiling sa s (con_MaxHighPriorityCPU con) @
     (case con_MaxScaleStepViolations con of
        Some m \<Rightarrow> if int (sum_ScaleStepViolations s) > m then [Steps_beyond (sum_ScaleStepViolations s) m] else []
      | None \<Rightarrow> []) @
     (case con_MaxShortScaleGaps con of
        Some m \<Rightarrow> if int (sum_ScaleGapsUnder10Min s) > m then [Short_gaps (sum_ScaleGapsUnder10Min s) m] else []
      | None \<Rightarrow> []) @
     (case con_MaxGapMinutes con of
        Some m \<Rightarrow> if f_less m (sum_GapMinutes s) then [Data_gaps (sum_GapMinutes s) m] else []
      | None \<Rightarrow> [])"

definition put_param :: "string \<Rightarrow> string \<Rightarrow> params \<Rightarrow> params" where
  "put_param k v m = filter (\<lambda>x. fst x \<noteq> k) m @ [(k, v)]"

fun apply_overrides :: "override list \<Rightarrow> SpannerAutoscaler \<Rightarrow> params \<Rightarrow> SpannerAutoscaler \<times> params" where
  "apply_overrides [] sa m = (sa, m)"
| "apply_overrides (ov # ovs) sa m =
     (case ov_apply ov of
        None \<Rightarrow> apply_overrides ovs sa m
      | Some f \<Rightarrow> apply_overrides ovs (f sa) (put_param (ov_key ov) (ov_value ov) m))"

definition evaluate ::
    "rec_env \<Rightarrow> Config \<Rightarrow> SpannerAutoscaler \<Rightarrow> Constraints \<Rightarrow> Point list \<Rightarrow> override list \<Rightarrow> Candidate option" where
  "evaluate env base baseSA con points combo =
     (let (sa, overrides) = apply_overrides combo baseSA [];
          c = \<lparr>ca_Overrides = overrides, ca_Summary = zero_summary, ca_Feasible = False, ca_InfeasibleReasons = [],
               ca_Error = None, ca_Autoscaler = Some sa\<rparr>
      in case ValidateSpec (re_validPercent env) (se_parse (re_sim env)) sa of
           Some err \<Rightarrow> Some (c\<lparr>ca_Error := Some (Cand_rejected err)\<rparr>)
         | None \<Rightarrow>
             (case Run (re_sim env) (base\<lparr>cfg_Autoscaler := Some sa\<rparr>) points of
                None \<Rightarrow> None
              | Some (Inl err) \<Rightarrow> Some (c\<lparr>ca_Error := Some (Cand_run err)\<rparr>)
              | Some (Inr r) \<Rightarrow>
                  (let reasons = infeasibleReasons sa (res_Summary r) con
                   in Some (c\<lparr>ca_Summary := res_Summary r, ca_InfeasibleReasons := reasons,
                              ca_Feasible := (length reasons = 0)\<rparr>))))"

section \<open>Ranking\<close>

definition changedParameterCount :: "params \<Rightarrow> Candidate \<Rightarrow> gint" where
  "changedParameterCount current c =
     int (length (filter (\<lambda>(key, v). case map_of current key of Some cur \<Rightarrow> cur \<noteq> v | None \<Rightarrow> False) (ca_Overrides c)))"

definition ranked_before :: "params \<Rightarrow> Candidate \<Rightarrow> Candidate \<Rightarrow> bool" where
  "ranked_before current a b =
     (if ca_Feasible a \<noteq> ca_Feasible b then ca_Feasible a
      else if f_less (sum_SimPUHours (ca_Summary a)) (sum_SimPUHours (ca_Summary b)) then True
      else if f_less (sum_SimPUHours (ca_Summary b)) (sum_SimPUHours (ca_Summary a)) then False
      else changedParameterCount current a < changedParameterCount current b)"

fun grid_size :: "override list list \<Rightarrow> gint \<Rightarrow> gint" where
  "grid_size [] n = n"
| "grid_size (dim # dims) n = grid_size dims (gmul n (int (length dim)))"

text \<open>The goroutines fill the slice in the order in which they finish.\<close>

definition fill :: "('a \<Rightarrow> 'b) \<Rightarrow> 'a list \<Rightarrow> nat list \<Rightarrow> 'b list \<Rightarrow> 'b list" where
  "fill f xs order ys = fold (\<lambda>i ys. ys[i := f (xs ! i)]) order ys"

datatype rec_error = Rec_no_autoscaler | Rec_too_many gint

definition Recommend ::
    "rec_env \<Rightarrow> nat list \<Rightarrow> Config \<Rightarrow> SearchSpace \<Rightarrow> Constraints \<Rightarrow> Point list \<Rightarrow> (rec_error + Candidate list) option" where
  "Recommend env order base space con points =
     (case cfg_Autoscaler base of
        None \<Rightarrow> Some (Inl Rec_no_autoscaler)
      | Some sa \<Rightarrow>
          (let dimensions = buildDimensions env space;
               total = grid_size dimensions 1
           in if total > maxRecommendCombinations then Some (Inl (Rec_too_many total))
              else
                let combos = cartesian dimensions;
                    slots = fill (evaluate env base sa con points) combos order (replicate (length combos) None)
                in if None \<in> set slots then None
                   else
                     let current = CurrentParameterValues env sa
                           (or_default DefaultScaleUpInterval (cfg_ScaleUpInterval base))
                           (or_default DefaultScaleDownInterval (cfg_ScaleDownInterval base))
                     in Some (Inr (sort_by (ranked_before current) (map the slots)))))"

section \<open>Choosing a recommendation\<close>

definition f_eq :: "float64 \<Rightarrow> float64 \<Rightarrow> bool" where
  "f_eq x y \<longleftrightarrow> \<not> f_less x y \<and> \<not> f_less y x"

definition scaledownRate :: "scaled_value \<Rightarrow> gint \<Rightarrow> Candidate \<Rightarrow> float64" where
  "scaledownRate gsv refPU c =
     (case ca_Autoscaler c of
        None \<Rightarrow> f_zero
      | Some sa \<Rightarrow>
          (if refPU \<le> 0 then f_zero
           else
             let step = ResolveStepSize gsv (Some (sc_ScaledownStepSize (scale_config sa))) refPU StepDirectionScaledown;
                 interval = DurationValueOr (sc_ScaledownInterval (scale_config sa)) DefaultScaleDownInterval
             in if interval \<le> 0 then f_of_int step else f_div (f_of_int step) (Minutes interval)))"

definition lessRisky :: "scaled_value \<Rightarrow> params \<Rightarrow> gint \<Rightarrow> Candidate \<Rightarrow> Candidate \<Rightarrow> bool" where
  "lessRisky gsv current refPU a b =
     (let sa = scaledownRate gsv refPU a; sb = scaledownRate gsv refPU b;
          ea = sum_TargetExceededMinutes (ca_Summary a); eb = sum_TargetExceededMinutes (ca_Summary b);
          ga = sum_ScaleGapsUnder10Min (ca_Summary a); gb = sum_ScaleGapsUnder10Min (ca_Summary b);
          na = changedParameterCount current a; nb = changedParameterCount current b
      in if \<not> f_eq sa sb then f_less sa sb
         else if \<not> f_eq ea eb then f_less ea eb
         else if ga \<noteq> gb then ga < gb
         else if na \<noteq> nb then na < nb
         else f_less (sum_SimPUHours (ca_Summary a)) (sum_SimPUHours (ca_Summary b)))"

text \<open>The index loops; an index of \<^verbatim>\<open>-1\<close> is \<open>None\<close>.\<close>

fun cheapest_loop :: "(Candidate \<Rightarrow> bool) \<Rightarrow> Candidate list \<Rightarrow> nat \<Rightarrow> (nat \<times> float64) option \<Rightarrow> (nat \<times> float64) option" where
  "cheapest_loop p [] i best = best"
| "cheapest_loop p (c # cs) i best =
     cheapest_loop p cs (Suc i)
       (if \<not> p c then best
        else case best of
               None \<Rightarrow> Some (i, sum_SimPUHours (ca_Summary c))
             | Some (j, cost) \<Rightarrow>
                 if f_less (sum_SimPUHours (ca_Summary c)) cost then Some (i, sum_SimPUHours (ca_Summary c)) else best)"

fun least_loop :: "(Candidate \<Rightarrow> bool) \<Rightarrow> (Candidate \<Rightarrow> Candidate \<Rightarrow> bool) \<Rightarrow> Candidate list \<Rightarrow> Candidate list \<Rightarrow> nat \<Rightarrow> nat \<Rightarrow> nat" where
  "least_loop p lt xs [] i best = best"
| "least_loop p lt xs (c # cs) i best =
     least_loop p lt xs cs (Suc i) (if p c \<and> lt c (xs ! best) then i else best)"

datatype keep_reason = Keep_none_feasible | Keep_none_cheaper | Keep_too_many_changes gint

definition eligible :: "Summary \<Rightarrow> Candidate \<Rightarrow> bool" where
  "eligible base c \<longleftrightarrow> ca_Feasible c \<and> f_less (sum_SimPUHours (ca_Summary c)) (sum_SimPUHours base)"

definition inPool :: "Summary \<Rightarrow> params \<Rightarrow> gint \<Rightarrow> Candidate \<Rightarrow> bool" where
  "inPool base current maxChanges c \<longleftrightarrow>
     eligible base c \<and> (maxChanges \<le> 0 \<or> changedParameterCount current c \<le> maxChanges)"

definition close_to :: "float64 \<Rightarrow> Candidate \<Rightarrow> bool" where
  "close_to minSaved c \<longleftrightarrow> \<not> f_less (sum_PUHoursSavedPercent (ca_Summary c)) minSaved"

definition RecommendedIndex ::
    "scaled_value \<Rightarrow> Summary \<Rightarrow> params \<Rightarrow> Candidate list \<Rightarrow> float64 \<Rightarrow> gint \<Rightarrow> nat option \<times> nat option \<times> keep_reason option" where
  "RecommendedIndex gsv base current candidates tolerance maxChanges =
     (case cheapest_loop ca_Feasible candidates 0 None of
        None \<Rightarrow> (None, None, Some Keep_none_feasible)
      | Some (cheapest, _) \<Rightarrow>
     (if \<not> eligible base (candidates ! cheapest) then (None, None, Some Keep_none_cheaper)
      else
        case cheapest_loop (inPool base current maxChanges) candidates 0 None of
          None \<Rightarrow> (None, None, Some (Keep_too_many_changes maxChanges))
        | Some (poolBest, _) \<Rightarrow>
            (let saved = (\<lambda>i. sum_PUHoursSavedPercent (ca_Summary (candidates ! i)));
                 minSaved = f_sub (saved poolBest) tolerance;
                 r = least_loop (\<lambda>c. inPool base current maxChanges c \<and> close_to minSaved c)
                       (lessRisky gsv current (sum_SpecMinPU base)) candidates candidates 0 poolBest
             in if cheapest \<noteq> r \<and> f_less (f_add (saved r) tolerance) (saved cheapest)
                then (Some r, Some cheapest, None) else (Some r, None, None))))"

section \<open>Groups of equal outcomes\<close>

definition same_outcome :: "Candidate \<Rightarrow> Candidate \<Rightarrow> bool" where
  "same_outcome a b \<longleftrightarrow>
     f_eq (sum_SimPUHours (ca_Summary a)) (sum_SimPUHours (ca_Summary b)) \<and>
     f_eq (sum_TargetExceededMinutes (ca_Summary a)) (sum_TargetExceededMinutes (ca_Summary b)) \<and>
     sum_ScaleGapsUnder10Min (ca_Summary a) = sum_ScaleGapsUnder10Min (ca_Summary b) \<and>
     sum_ScaleStepViolations (ca_Summary a) = sum_ScaleStepViolations (ca_Summary b) \<and>
     sum_ScaleUps (ca_Summary a) = sum_ScaleUps (ca_Summary b) \<and>
     sum_ScaleDowns (ca_Summary a) = sum_ScaleDowns (ca_Summary b) \<and>
     ca_Feasible a = ca_Feasible b \<and> ca_Error a = ca_Error b"

text \<open>A group is kept with its first candidate, which stands for its key in the index map.\<close>

fun add_to_group :: "Candidate \<Rightarrow> nat \<Rightarrow> (Candidate \<times> nat list) list \<Rightarrow> (Candidate \<times> nat list) list" where
  "add_to_group c i [] = [(c, [i])]"
| "add_to_group c i ((k, is) # gs) = (if same_outcome k c then (k, is @ [i]) # gs else (k, is) # add_to_group c i gs)"

fun group_loop :: "Candidate list \<Rightarrow> nat \<Rightarrow> (Candidate \<times> nat list) list \<Rightarrow> (Candidate \<times> nat list) list" where
  "group_loop [] i gs = gs"
| "group_loop (c # cs) i gs = group_loop cs (Suc i) (add_to_group c i gs)"

definition GroupEquivalent :: "Candidate list \<Rightarrow> nat list list" where
  "GroupEquivalent candidates = map snd (group_loop candidates 0 [])"

section \<open>Generated candidates\<close>

fun required_list :: "CPUMetricFlags \<Rightarrow> gint \<Rightarrow> gint \<Rightarrow> Point list \<Rightarrow> float64 list" where
  "required_list flags h t [] = []"
| "required_list flags h t (p # ps) =
     (let req = requiredPU flags h t p
      in if req > 0 then f_of_int req # required_list flags h t ps else required_list flags h t ps)"

definition minPUCandidatePercentiles :: "float64 list" where
  "minPUCandidatePercentiles = map f_of_int [50, 75, 90, 95, 99]"

fun percentile_candidates :: "float64 list \<Rightarrow> gint \<Rightarrow> float64 list \<Rightarrow> gint list option" where
  "percentile_candidates required maxPU [] = Some []"
| "percentile_candidates required maxPU (q # qs) =
     (case percentile required q of
        None \<Rightarrow> None
      | Some v \<Rightarrow>
          (case percentile_candidates required maxPU qs of
             None \<Rightarrow> None
           | Some cs \<Rightarrow> (let c = max (f_to_int v) 100; c = (if maxPU > 0 then min c maxPU else c) in Some (c # cs))))"

definition MinPUCandidates :: "SpannerAutoscaler \<Rightarrow> Point list \<Rightarrow> gint list option" where
  "MinPUCandidates sa points =
     (let t = sc_TargetCPUUtilization (scale_config sa);
          required = required_list (ActiveMetricFlags t) (target_or_zero (cpu_HighPriority t)) (target_or_zero (cpu_Total t)) points
      in if length required = 0 then Some []
         else case percentile_candidates (f_sort required) (pus_Max (sc_ProcessingUnits (scale_config sa)))
                     minPUCandidatePercentiles of
                None \<Rightarrow> None
              | Some cs \<Rightarrow> Some (remdups_adj (sort (pus_Min (sc_ProcessingUnits (scale_config sa)) # cs))))"

definition appendMissing :: "'a list \<Rightarrow> 'a \<Rightarrow> 'a list" where
  "appendMissing candidates current = (if current \<in> set candidates then candidates else candidates @ [current])"

definition RecommendedHighPriorityCPURegional :: gint where
  "RecommendedHighPriorityCPURegional = 65"

definition RecommendedHighPriorityCPUMultiRegion :: gint where
  "RecommendedHighPriorityCPUMultiRegion = 45"

definition FillGuidelineStepCandidates :: "SpannerAutoscaler \<Rightarrow> duration \<Rightarrow> duration \<Rightarrow> SearchSpace \<Rightarrow> SearchSpace" where
  "FillGuidelineStepCandidates sa up down s =
     (let sc = scale_config sa;
          guidelineIntervals = [GuidelineMinScaleGap, GuidelinePreferredScaleGap];
          s = (if length (sp_ScaledownStepSizes s) = 0
               then s\<lparr>sp_ScaledownStepSizes := appendMissing (map intstr_FromString [''5%'', ''10%'', ''15%'', ''20%''])
                        (sc_ScaledownStepSize sc)\<rparr> else s);
          s = (if length (sp_ScaledownIntervals s) = 0
               then s\<lparr>sp_ScaledownIntervals := appendMissing guidelineIntervals (DurationValueOr (sc_ScaledownInterval sc) down)\<rparr>
               else s)
      in if length (sp_ScaleupIntervals s) = 0
         then s\<lparr>sp_ScaleupIntervals := appendMissing guidelineIntervals (DurationValueOr (sc_ScaleupInterval sc) up)\<rparr>
         else s)"

section \<open>Orders\<close>

text \<open>The comparisons of the candidates are lexicographic combinations of weak orders.\<close>

definition lex :: "('a \<Rightarrow> 'a \<Rightarrow> bool) \<Rightarrow> ('a \<Rightarrow> 'a \<Rightarrow> bool) \<Rightarrow> 'a \<Rightarrow> 'a \<Rightarrow> bool" where
  "lex lt1 lt2 x y \<longleftrightarrow> lt1 x y \<or> (\<not> lt1 y x \<and> lt2 x y)"

lemma weak_orderI:
  "\<lbrakk>\<And>x. \<not> lt x x; \<And>x y z. lt x y \<Longrightarrow> lt y z \<Longrightarrow> lt x z; \<And>x y z. \<not> lt x y \<Longrightarrow> \<not> lt y z \<Longrightarrow> \<not> lt x z\<rbrakk> \<Longrightarrow> weak_order lt"
  unfolding weak_order_def by blast

lemma weak_orderD:
  assumes "weak_order lt"
  shows "\<not> lt x x" "lt x y \<Longrightarrow> lt y z \<Longrightarrow> lt x z" "\<not> lt x y \<Longrightarrow> \<not> lt y z \<Longrightarrow> \<not> lt x z"
  using assms unfolding weak_order_def by blast+

lemma weak_order_lex [intro]:
  assumes "weak_order lt1" "weak_order lt2"
  shows "weak_order (lex lt1 lt2)"
proof (rule weak_orderI)
  note w1 = weak_orderD [OF assms(1)] and w2 = weak_orderD [OF assms(2)]
  show "\<not> lex lt1 lt2 x x" for x using w1(1) w2(1) by (simp add: lex_def)
  show "lex lt1 lt2 x z" if "lex lt1 lt2 x y" "lex lt1 lt2 y z" for x y z
    using that w1(2) [of x y z] w2(2) [of x y z] w1(3) [of x z y] w1(3) [of y x z] w1(3) [of z y x]
    unfolding lex_def by metis
  show "\<not> lex lt1 lt2 x z" if "\<not> lex lt1 lt2 x y" "\<not> lex lt1 lt2 y z" for x y z
    using that w1(3) [of x y z] w2(3) [of x y z] w1(3) [of z x y] w1(3) [of y z x]
    unfolding lex_def by metis
qed

lemma weak_order_key [intro]: "weak_order (\<lambda>x y. (f x :: 'b :: linorder) < f y)"
  by (auto simp: weak_order_def)

lemma weak_order_float [intro]: "weak_order (\<lambda>x y. f_less (f x) (f y))"
  unfolding weak_order_def using f_less_irrefl f_less_trans f_not_less_trans by blast

lemma lex_if:
  "(if \<not> f_eq x y then f_less x y else q) \<longleftrightarrow> f_less x y \<or> (\<not> f_less y x \<and> q)"
  "(if (m :: 'b :: linorder) \<noteq> n then m < n else q) \<longleftrightarrow> m < n \<or> (\<not> n < m \<and> q)"
  using f_less_asym by (auto simp: f_eq_def)

lemma lessRisky_lex:
  "lessRisky gsv current refPU =
     lex (\<lambda>a b. f_less (scaledownRate gsv refPU a) (scaledownRate gsv refPU b))
     (lex (\<lambda>a b. f_less (sum_TargetExceededMinutes (ca_Summary a)) (sum_TargetExceededMinutes (ca_Summary b)))
     (lex (\<lambda>a b. sum_ScaleGapsUnder10Min (ca_Summary a) < sum_ScaleGapsUnder10Min (ca_Summary b))
     (lex (\<lambda>a b. changedParameterCount current a < changedParameterCount current b)
          (\<lambda>a b. f_less (sum_SimPUHours (ca_Summary a)) (sum_SimPUHours (ca_Summary b))))))"
  by (intro ext) (simp only: lessRisky_def lex_def lex_if Let_def)

lemma lessRisky_weak_order: "weak_order (lessRisky gsv current refPU)"
  unfolding lessRisky_lex by (intro weak_order_lex weak_order_float weak_order_key)

lemma ranked_before_lex:
  "ranked_before current =
     lex (\<lambda>a b. (\<not> ca_Feasible a) < (\<not> ca_Feasible b))
     (lex (\<lambda>a b. f_less (sum_SimPUHours (ca_Summary a)) (sum_SimPUHours (ca_Summary b)))
          (\<lambda>a b. changedParameterCount current a < changedParameterCount current b))"
  by (intro ext) (auto simp: ranked_before_def lex_def)

lemma ranked_before_weak_order: "weak_order (ranked_before current)"
  unfolding ranked_before_lex by (intro weak_order_lex weak_order_float weak_order_key)

section \<open>The index loops\<close>

definition hours_of :: "Candidate \<Rightarrow> float64" where
  "hours_of c = sum_SimPUHours (ca_Summary c)"

text \<open>The cheapest candidate among the first \<open>n\<close> that satisfy \<open>p\<close>.\<close>

definition cheapest_of :: "(Candidate \<Rightarrow> bool) \<Rightarrow> Candidate list \<Rightarrow> nat \<Rightarrow> (nat \<times> float64) option \<Rightarrow> bool" where
  "cheapest_of p cs n best =
     (case best of
        None \<Rightarrow> \<forall>j < n. \<not> p (cs ! j)
      | Some (i, v) \<Rightarrow> i < n \<and> p (cs ! i) \<and> v = hours_of (cs ! i) \<and> (\<forall>j < n. p (cs ! j) \<longrightarrow> \<not> f_less (hours_of (cs ! j)) v))"

definition better :: "(Candidate \<Rightarrow> bool) \<Rightarrow> Candidate \<Rightarrow> nat \<Rightarrow> (nat \<times> float64) option \<Rightarrow> (nat \<times> float64) option" where
  "better p c n best =
     (if \<not> p c then best
      else case best of None \<Rightarrow> Some (n, hours_of c)
           | Some (j, v) \<Rightarrow> if f_less (hours_of c) v then Some (n, hours_of c) else best)"

lemma cheapest_loop_better: "cheapest_loop p (c # cs) n best = cheapest_loop p cs (Suc n) (better p c n best)"
  unfolding better_def hours_of_def by simp

lemma cheapest_of_better:
  assumes "cheapest_of p cs n best"
  shows "cheapest_of p cs (Suc n) (better p (cs ! n) n best)"
  using assms unfolding cheapest_of_def better_def
  by (auto simp: less_Suc_eq split: option.splits prod.splits dest: f_less_asym intro: f_less_trans)

lemma cheapest_loop_ok:
  "cheapest_of p (pre @ cs) (length pre) best \<Longrightarrow>
     cheapest_of p (pre @ cs) (length (pre @ cs)) (cheapest_loop p cs (length pre) best)"
proof (induction cs arbitrary: pre best)
  case (Cons c cs)
  show ?case
    using Cons.IH [of "pre @ [c]"] cheapest_of_better [OF Cons.prems]
    by (simp add: cheapest_loop_better del: cheapest_loop.simps)
qed simp

lemma cheapest_loop_cheapest: "cheapest_of p cs (length cs) (cheapest_loop p cs 0 None)"
  using cheapest_loop_ok [of p "[]" cs None] by (simp add: cheapest_of_def)

text \<open>The loop ends with a candidate that no candidate it looks at is below.\<close>

lemma least_loop_ok:
  assumes "weak_order lt" "b < length xs" "xs = pre @ cs" "q (xs ! b)" "\<forall>c. p c \<longrightarrow> q c"
    "\<forall>c \<in> set pre. p c \<longrightarrow> \<not> lt c (xs ! b)"
  shows "let r = least_loop p lt xs cs (length pre) b
     in r < length xs \<and> q (xs ! r) \<and> (\<forall>c \<in> set xs. p c \<longrightarrow> \<not> lt c (xs ! r)) \<and> (r = b \<or> p (xs ! r))"
  using assms(2-4,6)
proof (induction cs arbitrary: pre b)
  case (Cons c cs)
  have w: "\<not> lt x x" "lt x y \<Longrightarrow> lt y z \<Longrightarrow> lt x z" for x y z using assms(1) unfolding weak_order_def by blast+
  let ?b = "if p c \<and> lt c (xs ! b) then length pre else b"
  have x: "xs = (pre @ [c]) @ cs" "xs ! length pre = c" using Cons.prems(2) by simp_all
  have "?b < length xs" "q (xs ! ?b)" using Cons.prems assms(5) x by auto
  moreover have "\<forall>d \<in> set (pre @ [c]). p d \<longrightarrow> \<not> lt d (xs ! ?b)" using Cons.prems(4) w x(2) by auto
  ultimately have "let r = least_loop p lt xs cs (length (pre @ [c])) ?b
     in r < length xs \<and> q (xs ! r) \<and> (\<forall>c \<in> set xs. p c \<longrightarrow> \<not> lt c (xs ! r)) \<and> (r = ?b \<or> p (xs ! r))"
    using Cons.IH x(1) by blast
  then show ?case using x(2) by (auto simp: Let_def split: if_splits)
qed simp

lemma least_loop_least:
  assumes "weak_order lt" "b < length xs" "q (xs ! b)" "\<forall>c. p c \<longrightarrow> q c"
  shows "least_loop p lt xs xs 0 b < length xs" "q (xs ! least_loop p lt xs xs 0 b)"
    "c \<in> set xs \<Longrightarrow> p c \<Longrightarrow> \<not> lt c (xs ! least_loop p lt xs xs 0 b)"
    "least_loop p lt xs xs 0 b = b \<or> p (xs ! least_loop p lt xs xs 0 b)"
  using least_loop_ok [OF assms(1,2), of "[]" xs q p] assms(3,4) by (auto simp: Let_def)

lemma cheapest_loop_None:
  assumes "cheapest_loop p cs 0 None = None" "c \<in> set cs"
  shows "\<not> p c"
  using cheapest_loop_cheapest [of p cs] assms by (auto simp: cheapest_of_def in_set_conv_nth)

lemma cheapest_loop_Some:
  assumes "cheapest_loop p cs 0 None = Some (i, v)"
  shows "i < length cs" "p (cs ! i)" "c \<in> set cs \<Longrightarrow> p c \<Longrightarrow> \<not> f_less (hours_of c) (hours_of (cs ! i))"
  using cheapest_loop_cheapest [of p cs] assms by (auto simp: cheapest_of_def in_set_conv_nth)

section \<open>The grid is searched completely\<close>

lemma fill_nth:
  "i < length ys \<Longrightarrow> fill f xs order ys ! i = (if i \<in> set order then f (xs ! i) else ys ! i)"
  by (induction order arbitrary: ys) (auto simp: fill_def nth_list_update)

lemma fill_length: "length (fill f xs order ys) = length ys"
  by (induction order arbitrary: ys) (auto simp: fill_def)

lemma fill_any_order:
  assumes "set order = {..<length xs}"
  shows "fill f xs order (replicate (length xs) y) = map f xs"
  using assms by (intro nth_equalityI) (auto simp: fill_nth fill_length)

lemma cartesian_from_mem:
  "x \<in> set (cartesian_from combos dims) \<longleftrightarrow>
     (\<exists>combo \<in> set combos. \<exists>rest. x = combo @ rest \<and> list_all2 (\<lambda>ov dim. ov \<in> set dim) rest dims)"
proof (induction dims arbitrary: combos)
  case (Cons dim dims)
  have "x \<in> set (cartesian_from combos (dim # dims)) \<longleftrightarrow>
     (\<exists>combo \<in> set combos. \<exists>ov \<in> set dim. \<exists>rest. x = combo @ ov # rest \<and> list_all2 (\<lambda>ov dim. ov \<in> set dim) rest dims)"
    by (simp add: Cons.IH)
  also have "\<dots> \<longleftrightarrow> (\<exists>combo \<in> set combos. \<exists>rest. x = combo @ rest \<and> list_all2 (\<lambda>ov dim. ov \<in> set dim) rest (dim # dims))"
    unfolding list_all2_Cons2 by blast
  finally show ?case .
qed simp

lemma cartesian_set: "set (cartesian dims) = {combo. list_all2 (\<lambda>ov dim. ov \<in> set dim) combo dims}"
  by (auto simp: cartesian_def cartesian_from_mem)

lemma cartesian_from_length: "length (cartesian_from combos dims) = length combos * prod_list (map length dims)"
proof (induction dims arbitrary: combos)
  case (Cons dim dims)
  have "sum_list (map (\<lambda>_. length dim) combos) = length combos * length dim" by (induction combos) auto
  then show ?case by (simp add: Cons.IH length_concat comp_def)
qed simp

lemma cartesian_length: "length (cartesian dims) = prod_list (map length dims)"
  by (simp add: cartesian_def cartesian_from_length)

lemma grid_size_exact:
  assumes "0 \<le> n" "\<forall>dim \<in> set dims. dim \<noteq> []" "n * int (prod_list (map length dims)) < 2 ^ 63"
  shows "grid_size dims n = n * int (prod_list (map length dims))"
  using assms
proof (induction dims arbitrary: n)
  case (Cons dim dims)
  have "0 < prod_list (map length dims)" using Cons.prems(2) by (induction dims) auto
  then have "n * int (length dim) * 1 \<le> n * int (length dim) * int (prod_list (map length dims))"
    using Cons.prems(1) by (intro mult_left_mono) auto
  then have "gmul n (int (length dim)) = n * int (length dim)"
    using Cons.prems by (intro gmul_id) (auto simp: mult.assoc intro: order_trans [of _ 0])
  then show ?case using Cons by (simp add: mult.assoc)
qed simp

lemma dim_of_nonempty: "dim_of overrides \<noteq> []"
  by (simp add: dim_of_def noop_def)

lemma buildDimensions_nonempty: "dim \<in> set (buildDimensions env space) \<Longrightarrow> dim \<noteq> []"
  by (auto simp: buildDimensions_def dim_of_nonempty dim_of_nonempty [symmetric])

text \<open>The constraints a feasible candidate satisfies.\<close>

definition satisfies :: "Constraints \<Rightarrow> SpannerAutoscaler \<Rightarrow> Summary \<Rightarrow> bool" where
  "satisfies con sa s \<longleftrightarrow>
     \<not> f_less (con_MaxTargetExceededMinutes con) (sum_TargetExceededMinutes s) \<and>
     (\<forall>p. con_MaxSimCPUP99 con = Some p \<longrightarrow> \<not> p99_above p (sum_SimHighPriorityCPU s) \<and> \<not> p99_above p (sum_SimTotalCPU s)) \<and>
     (0 < con_MaxHighPriorityCPU con \<longrightarrow>
        (\<forall>t. cpu_HighPriority (sc_TargetCPUUtilization (scale_config sa)) = Some t \<longrightarrow> t \<le> con_MaxHighPriorityCPU con) \<and>
        \<not> p99_above (f_of_int (con_MaxHighPriorityCPU con)) (sum_SimHighPriorityCPU s)) \<and>
     (\<forall>m. con_MaxScaleStepViolations con = Some m \<longrightarrow> int (sum_ScaleStepViolations s) \<le> m) \<and>
     (\<forall>m. con_MaxShortScaleGaps con = Some m \<longrightarrow> int (sum_ScaleGapsUnder10Min s) \<le> m) \<and>
     (\<forall>m. con_MaxGapMinutes con = Some m \<longrightarrow> \<not> f_less m (sum_GapMinutes s))"

lemma infeasibleReasons_empty: "infeasibleReasons sa s con = [] \<longleftrightarrow> satisfies con sa s"
  by (simp add: infeasibleReasons_def reasons_p99_def reasons_ceiling_def satisfies_def split: option.splits)

lemma evaluate_returns:
  assumes "sim_env_ok (re_sim env)" "\<forall>p \<in> set points. minute \<le> pt_Time p" "int (length points) < 2 ^ 53"
  shows "\<exists>c. evaluate env base sa con points combo = Some c"
  using Run_returns [OF assms] by (simp add: evaluate_def Let_def split: prod.splits option.splits sum.splits) (metis option.distinct(1))

lemma evaluate_feasible:
  assumes "evaluate env base sa con points combo = Some c" "ca_Feasible c"
  shows "\<exists>sa' r. ca_Autoscaler c = Some sa' \<and> ValidateSpec (re_validPercent env) (se_parse (re_sim env)) sa' = None \<and>
     Run (re_sim env) (base\<lparr>cfg_Autoscaler := Some sa'\<rparr>) points = Some (Inr r) \<and> ca_Summary c = res_Summary r \<and>
     satisfies con sa' (res_Summary r)"
  using assms
  by (auto simp: evaluate_def Let_def infeasibleReasons_empty split: prod.splits option.splits sum.splits if_splits)

text \<open>
  C34. The search is complete and does not depend on the order in which the goroutines finish:
  a grid of more than 20000 combinations is refused before anything is replayed; otherwise the
  search returns, with exactly one candidate for each choice of one value per searched
  parameter, ranked with the feasible ones first, then by cost, then by the number of changes;
  and a candidate is feasible only when its configuration passes the validation of the
  admission webhook and its own replay satisfies every constraint.
\<close>

theorem recommend_complete:
  assumes "sim_env_ok (re_sim env)" "\<forall>p \<in> set points. minute \<le> pt_Time p" "int (length points) < 2 ^ 53"
    and "cfg_Autoscaler base = Some sa" "dims = buildDimensions env space"
    and "n = prod_list (map length dims)" "int n < 2 ^ 63" "set order = {..<n}"
  shows "(20000 < n \<longrightarrow> Recommend env order base space con points = Some (Inl (Rec_too_many (int n)))) \<and>
     (n \<le> 20000 \<longrightarrow>
       (\<exists>cs. Recommend env order base space con points = Some (Inr cs) \<and> length cs = n \<and>
          (\<forall>c. c \<in> set cs \<longleftrightarrow>
             (\<exists>combo. list_all2 (\<lambda>ov dim. ov \<in> set dim) combo dims \<and> evaluate env base sa con points combo = Some c)) \<and>
          sorted_wrt (\<lambda>a b. \<not> ranked_before
             (CurrentParameterValues env sa (or_default DefaultScaleUpInterval (cfg_ScaleUpInterval base))
               (or_default DefaultScaleDownInterval (cfg_ScaleDownInterval base))) b a) cs \<and>
          (\<forall>c \<in> set cs. ca_Feasible c \<longrightarrow>
             (\<exists>sa' r. ca_Autoscaler c = Some sa' \<and>
                ValidateSpec (re_validPercent env) (se_parse (re_sim env)) sa' = None \<and>
                Run (re_sim env) (base\<lparr>cfg_Autoscaler := Some sa'\<rparr>) points = Some (Inr r) \<and>
                ca_Summary c = res_Summary r \<and> satisfies con sa' (res_Summary r)))))"
proof -
  let ?e = "evaluate env base sa con points"
  let ?current = "CurrentParameterValues env sa (or_default DefaultScaleUpInterval (cfg_ScaleUpInterval base))
               (or_default DefaultScaleDownInterval (cfg_ScaleDownInterval base))"
  have ev: "\<exists>c. ?e combo = Some c" for combo using evaluate_returns [OF assms(1-3)] .
  have g: "grid_size (buildDimensions env space) 1 = int n"
    using grid_size_exact [of 1 "buildDimensions env space"] buildDimensions_nonempty assms(5-7) by auto
  have len: "length (cartesian (buildDimensions env space)) = n" using assms(5,6) by (simp add: cartesian_length)
  have f: "fill ?e (cartesian (buildDimensions env space)) order (replicate n None) =
      map ?e (cartesian (buildDimensions env space))"
    using fill_any_order [of order "cartesian (buildDimensions env space)" ?e None] len assms(8) by simp
  define slots where "slots = map ?e (cartesian (buildDimensions env space))"
  define cs where "cs = sort_by (ranked_before ?current) (map the slots)"
  have no: "None \<notin> set slots" using ev by (auto simp: slots_def) (metis option.distinct(1))
  have sl: "Some (the x) = x" if "x \<in> set slots" for x using no that by (cases x) auto
  have R: "n \<le> 20000 \<Longrightarrow> Recommend env order base space con points = Some (Inr cs)"
    using assms(4) g len f no by (simp add: Recommend_def Let_def maxRecommendCombinations_def slots_def cs_def)
  have m: "mset cs = mset (map the slots)"
    unfolding cs_def by (rule sort_ok_mset [OF sort_by_ok ranked_before_weak_order])
  have "length cs = n" using m len by (metis size_mset length_map slots_def)
  moreover have mem: "c \<in> set cs \<longleftrightarrow>
      (\<exists>combo. list_all2 (\<lambda>ov dim. ov \<in> set dim) combo dims \<and> ?e combo = Some c)" for c
  proof -
    have "set cs = the ` set slots" using m by (metis set_map set_mset_mset)
    then have "c \<in> set cs \<longleftrightarrow> Some c \<in> set slots" using sl by (metis image_iff option.sel)
    then show ?thesis unfolding slots_def using assms(5) by (auto simp: cartesian_set image_iff)
  qed
  moreover have "sorted_wrt (\<lambda>a b. \<not> ranked_before ?current b a) cs"
    unfolding cs_def by (rule sort_ok_sorted [OF sort_by_ok ranked_before_weak_order])
  moreover have "20000 < n \<Longrightarrow> Recommend env order base space con points = Some (Inl (Rec_too_many (int n)))"
    using assms(4) g by (simp add: Recommend_def Let_def maxRecommendCombinations_def)
  ultimately show ?thesis using R evaluate_feasible mem by blast
qed

section \<open>The recommendation\<close>

definition saved_of :: "Candidate \<Rightarrow> float64" where
  "saved_of c = sum_PUHoursSavedPercent (ca_Summary c)"

text \<open>The cheapest candidate of a pool.\<close>

definition cheapest_in :: "(Candidate \<Rightarrow> bool) \<Rightarrow> Candidate list \<Rightarrow> nat \<Rightarrow> bool" where
  "cheapest_in p cs i \<longleftrightarrow> i < length cs \<and> p (cs ! i) \<and> (\<forall>c \<in> set cs. p c \<longrightarrow> \<not> f_less (hours_of c) (hours_of (cs ! i)))"

lemma cheapest_loop_in: "cheapest_loop p cs 0 None = Some (i, v) \<Longrightarrow> cheapest_in p cs i"
  unfolding cheapest_in_def using cheapest_loop_Some by blast

lemma cheapest_not_eligible:
  assumes "cheapest_in ca_Feasible cs i" "\<not> eligible base (cs ! i)" "c \<in> set cs"
  shows "\<not> eligible base c"
proof
  assume e: "eligible base c"
  then have "\<not> f_less (hours_of c) (hours_of (cs ! i))" using assms by (simp add: cheapest_in_def eligible_def)
  moreover have "\<not> f_less (hours_of (cs ! i)) (sum_SimPUHours base)"
    using assms by (simp add: cheapest_in_def eligible_def hours_of_def)
  ultimately have "\<not> f_less (hours_of c) (sum_SimPUHours base)" by (rule f_not_less_trans)
  then show False using e by (simp add: eligible_def hours_of_def)
qed

text \<open>What the function returns, by the three ways it ends early and the way it ends with an index.\<close>

lemma RecommendedIndex_cases:
  obtains (none_feasible) "RecommendedIndex gsv base current cs tol m = (None, None, Some Keep_none_feasible)"
      "\<forall>c \<in> set cs. \<not> ca_Feasible c"
  | (none_cheaper) "RecommendedIndex gsv base current cs tol m = (None, None, Some Keep_none_cheaper)"
      "\<exists>c \<in> set cs. ca_Feasible c" "\<forall>c \<in> set cs. \<not> eligible base c"
  | (too_many) "RecommendedIndex gsv base current cs tol m = (None, None, Some (Keep_too_many_changes m))"
      "\<exists>c \<in> set cs. eligible base c" "\<forall>c \<in> set cs. \<not> inPool base current m c"
  | (some) i b k further where "RecommendedIndex gsv base current cs tol m = (Some i, further, None)"
      "cheapest_in ca_Feasible cs k" "cheapest_in (inPool base current m) cs b"
      "i = least_loop (\<lambda>c. inPool base current m c \<and> close_to (f_sub (saved_of (cs ! b)) tol) c)
             (lessRisky gsv current (sum_SpecMinPU base)) cs cs 0 b"
      "further = (if k \<noteq> i \<and> f_less (f_add (saved_of (cs ! i)) tol) (saved_of (cs ! k)) then Some k else None)"
proof (cases "cheapest_loop ca_Feasible cs 0 None")
  case None
  then show ?thesis by (intro none_feasible) (auto simp: RecommendedIndex_def dest: cheapest_loop_None)
next
  case (Some kv)
  obtain k v where kv: "kv = (k, v)" by (cases kv)
  note K = cheapest_loop_in [OF Some [unfolded kv]]
  then have mem: "cs ! k \<in> set cs" "ca_Feasible (cs ! k)" by (simp_all add: cheapest_in_def)
  show ?thesis
  proof (cases "eligible base (cs ! k)")
    case False
    show ?thesis
      using mem cheapest_not_eligible [OF K False]
      by (intro none_cheaper) (auto simp: RecommendedIndex_def Some kv False)
  next
    case True
    show ?thesis
    proof (cases "cheapest_loop (inPool base current m) cs 0 None")
      case None
      show ?thesis
        using mem True cheapest_loop_None [OF None]
        by (intro too_many) (auto simp: RecommendedIndex_def Some kv None)
    next
      case (Some bw)
      obtain b w where bw: "bw = (b, w)" by (cases bw)
      note B = cheapest_loop_in [OF Some [unfolded bw]]
      show ?thesis
        by (rule some [OF _ K B refl refl])
          (simp add: RecommendedIndex_def \<open>cheapest_loop ca_Feasible cs 0 None = Some kv\<close> kv True Some bw Let_def saved_of_def)
    qed
  qed
qed

lemma recommended_in_pool:
  assumes "fst (RecommendedIndex gsv base current cs tol m) = Some i"
  shows "i < length cs \<and> inPool base current m (cs ! i)"
proof (cases rule: RecommendedIndex_cases [of gsv base current cs tol m])
  case (some j b k further)
  have b: "b < length cs" "inPool base current m (cs ! b)" using some(3) by (auto simp: cheapest_in_def)
  have "j < length cs" "inPool base current m (cs ! j)"
    unfolding some(4) by (rule least_loop_least(1,2) [OF lessRisky_weak_order, where q = "inPool base current m"], use b in auto)+
  then show ?thesis using some(1) assms by simp
qed (use assms in auto)

text \<open>
  C35. The recommendation is sound. An index is returned exactly when some candidate satisfies
  every constraint, is cheaper than the current configuration and stays within the budget of
  changes; the recommended candidate does all three, is the cheapest such candidate or saves
  almost as much, and no candidate that does is less risky; the further option, when there is
  one, is the cheapest of all feasible candidates and saves more than the tolerance on top.
  The reason to keep the current configuration is the true one.
\<close>

theorem recommended_sound:
  "case RecommendedIndex gsv base current cs tol m of
     (Some i, further, reason) \<Rightarrow>
       i < length cs \<and> reason = None \<and> ca_Feasible (cs ! i) \<and>
       f_less (sum_SimPUHours (ca_Summary (cs ! i))) (sum_SimPUHours base) \<and>
       (0 < m \<longrightarrow> changedParameterCount current (cs ! i) \<le> m) \<and>
       (\<exists>b. cheapest_in (inPool base current m) cs b \<and>
          (i = b \<or> close_to (f_sub (saved_of (cs ! b)) tol) (cs ! i)) \<and>
          (\<forall>c \<in> set cs. inPool base current m c \<and> close_to (f_sub (saved_of (cs ! b)) tol) c \<longrightarrow>
             \<not> lessRisky gsv current (sum_SpecMinPU base) c (cs ! i))) \<and>
       (\<forall>k. further = Some k \<longrightarrow>
          k \<noteq> i \<and> cheapest_in ca_Feasible cs k \<and> f_less (f_add (saved_of (cs ! i)) tol) (saved_of (cs ! k)))
   | (None, further, reason) \<Rightarrow>
       further = None \<and> (\<forall>c \<in> set cs. \<not> inPool base current m c) \<and>
       reason = Some (if \<forall>c \<in> set cs. \<not> ca_Feasible c then Keep_none_feasible
                      else if \<forall>c \<in> set cs. \<not> eligible base c then Keep_none_cheaper
                      else Keep_too_many_changes m)"
proof (cases rule: RecommendedIndex_cases [of gsv base current cs tol m])
  case none_feasible
  then show ?thesis by (auto simp: inPool_def eligible_def)
next
  case none_cheaper
  then show ?thesis by (auto simp: inPool_def)
next
  case too_many
  then show ?thesis by (auto simp: eligible_def)
next
  case (some i b k further)
  let ?p = "\<lambda>c. inPool base current m c \<and> close_to (f_sub (saved_of (cs ! b)) tol) c"
  note L = least_loop_least [OF lessRisky_weak_order [of gsv current "sum_SpecMinPU base"],
      of b cs "inPool base current m" ?p, folded some(4)]
  have b: "b < length cs" "inPool base current m (cs ! b)" using some(3) by (auto simp: cheapest_in_def)
  have i: "i < length cs" "inPool base current m (cs ! i)" "i = b \<or> ?p (cs ! i)" using L(1,2,4) [OF b] by auto
  have "\<forall>c \<in> set cs. ?p c \<longrightarrow> \<not> lessRisky gsv current (sum_SpecMinPU base) c (cs ! i)" using L(3) [OF b] by auto
  then have "\<exists>b. cheapest_in (inPool base current m) cs b \<and>
          (i = b \<or> close_to (f_sub (saved_of (cs ! b)) tol) (cs ! i)) \<and>
          (\<forall>c \<in> set cs. inPool base current m c \<and> close_to (f_sub (saved_of (cs ! b)) tol) c \<longrightarrow>
             \<not> lessRisky gsv current (sum_SpecMinPU base) c (cs ! i))"
    using some(3) i(3) by blast
  moreover have "ca_Feasible (cs ! i)" "f_less (sum_SimPUHours (ca_Summary (cs ! i))) (sum_SimPUHours base)"
    "0 < m \<longrightarrow> changedParameterCount current (cs ! i) \<le> m"
    using i(2) by (auto simp: inPool_def eligible_def)
  ultimately show ?thesis using some(1,2,5) i(1) by (auto split: if_splits)
qed

section \<open>Witnesses\<close>

definition sample_rec_env :: rec_env where
  "sample_rec_env = \<lparr>re_sim = sample_sim_env, re_validPercent = (\<lambda>s. []), re_durString = (\<lambda>d. ''d''),
     re_iosString = ios_StrVal\<rparr>"

definition sample_space :: SearchSpace where
  "sample_space = \<lparr>sp_MinPUs = [1000, 2000], sp_ScaledownStepSizes = [], sp_ScaledownIntervals = [minute, 2 * minute],
     sp_ScaledownAllowedTimes = [], sp_ScaleupStepSizes = [], sp_ScaleupIntervals = [], sp_TargetHighPriorityCPUs = [],
     sp_TargetTotalCPUs = []\<rparr>"

definition sample_con :: Constraints where
  "sample_con = \<lparr>con_MaxTargetExceededMinutes = f_zero, con_MaxSimCPUP99 = Some (f_of_int 90), con_MaxHighPriorityCPU = 65,
     con_MaxScaleStepViolations = None, con_MaxShortScaleGaps = None, con_MaxGapMinutes = None\<rparr>"

theorem recommend_complete_witness:
  "\<exists>cs. Recommend sample_rec_env [3, 1, 0, 2] sample_cfg sample_space sample_con sample_points = Some (Inr cs) \<and> length cs = 4"
proof -
  have "4 = prod_list (map length (buildDimensions sample_rec_env sample_space))"
    by (simp add: buildDimensions_def sample_space_def dim_of_def noop_def)
  moreover have "sim_env_ok (re_sim sample_rec_env)" by (simp add: sample_rec_env_def sample_sim_env_ok)
  ultimately show ?thesis
    using recommend_complete [of sample_rec_env sample_points sample_cfg sample_sa _ sample_space 4 "[3, 1, 0, 2]" sample_con]
    by (simp add: sample_points_def sample_cfg_def lessThan_nat_numeral lessThan_Suc) blast
qed

definition sample_candidate :: "gint \<Rightarrow> gint \<Rightarrow> Candidate" where
  "sample_candidate hours saved = \<lparr>ca_Overrides = [], ca_Summary = zero_summary\<lparr>sum_SimPUHours := f_of_int hours,
     sum_PUHoursSavedPercent := f_of_int saved\<rparr>, ca_Feasible = True, ca_InfeasibleReasons = [], ca_Error = None,
     ca_Autoscaler = Some sample_sa\<rparr>"

theorem recommended_sound_witness:
  "RecommendedIndex sample_gsv (zero_summary\<lparr>sum_SimPUHours := f_of_int 90, sum_SpecMinPU := 1000\<rparr>) []
       [sample_candidate 95 5, sample_candidate 80 20, sample_candidate 70 30] (f_of_int 2) 1 = (Some 2, None, None) \<and>
     f_less (sum_SimPUHours (ca_Summary (sample_candidate 70 30))) (f_of_int 90)"
proof -
  let ?base = "zero_summary\<lparr>sum_SimPUHours := f_of_int 90, sum_SpecMinPU := 1000\<rparr>"
  let ?cs = "[sample_candidate 95 5, sample_candidate 80 20, sample_candidate 70 30]"
  have "RecommendedIndex sample_gsv ?base [] ?cs (f_of_int 2) 1 = (Some 2, None, None)" by code_simp
  then show ?thesis using recommended_sound [where gsv = sample_gsv and base = ?base and current = "[]" and cs = ?cs and tol = "f_of_int 2" and m = 1] by simp
qed

end
