(* ===== verification/Csv_Text.thy ===== *)
theory Csv_Text
  imports Go_Prelude
begin

text \<open>
  The part of Go's \<^verbatim>\<open>encoding/csv\<close> and \<^verbatim>\<open>strings\<close> the simulator uses: a reader with
  \<^verbatim>\<open>TrimLeadingSpace\<close> and the default field count check, as a machine that reads one
  character at a time, the default writer, and that the reader returns what the writer wrote.
  Texts are ASCII, so white space is the ASCII white space.
\<close>

section \<open>White space\<close>

definition nl :: char where "nl = char_of (10 :: nat)"
definition cr :: char where "cr = char_of (13 :: nat)"
definition quote :: char where "quote = CHR 0x22"
definition comma :: char where "comma = CHR 0x2C"

definition is_space :: "char \<Rightarrow> bool" where
  "is_space c \<longleftrightarrow> (let n = of_char c :: nat in n = 32 \<or> (9 \<le> n \<and> n \<le> 13))"

definition TrimSpace :: "string \<Rightarrow> string" where
  "TrimSpace s = rev (dropWhile is_space (rev (dropWhile is_space s)))"

definition lower :: "char \<Rightarrow> char" where
  "lower c = (let n = of_char c :: nat in if 65 \<le> n \<and> n \<le> 90 then char_of (n + 32) else c)"

definition ToLower :: "string \<Rightarrow> string" where
  "ToLower s = map lower s"

section \<open>The reader\<close>

datatype csv_err = Bare_quote | Bad_quote | Field_count

datatype csv_state =
    Line_start
  | Field_start
  | Unquoted string
  | Quoted string
  | Quote_seen string

text \<open>
  \<^verbatim>\<open>\r\n\<close> is read as \<^verbatim>\<open>\n\<close>, and a \<^verbatim>\<open>\r\<close> before the end of the file is dropped.
\<close>

fun normalize :: "string \<Rightarrow> string" where
  "normalize [] = []"
| "normalize [c] = (if c = cr then [] else [c])"
| "normalize (c # d # s) = (if c = cr \<and> d = nl then normalize (d # s) else c # normalize (d # s))"

text \<open>
  The records before the first error, and that error. \<open>fs\<close> are the fields of the record that
  is being read; an empty line is skipped.
\<close>

definition emit :: "string list \<Rightarrow> string list list \<times> csv_err option \<Rightarrow> string list list \<times> csv_err option" where
  "emit r res = (r # fst res, snd res)"

fun scan :: "csv_state \<Rightarrow> string list \<Rightarrow> string \<Rightarrow> string list list \<times> csv_err option" where
  "scan Line_start fs [] = ([], None)"
| "scan Field_start fs [] = ([fs @ [[]]], None)"
| "scan (Unquoted f) fs [] = ([fs @ [f]], None)"
| "scan (Quoted f) fs [] = ([], Some Bad_quote)"
| "scan (Quote_seen f) fs [] = ([fs @ [f]], None)"
| "scan Line_start fs (c # s) =
     (if c = nl then scan Line_start [] s
      else if is_space c then scan Field_start [] s
      else if c = quote then scan (Quoted []) [] s
      else if c = comma then scan Field_start [[]] s
      else scan (Unquoted [c]) [] s)"
| "scan Field_start fs (c # s) =
     (if c = nl then emit (fs @ [[]]) (scan Line_start [] s)
      else if is_space c then scan Field_start fs s
      else if c = quote then scan (Quoted []) fs s
      else if c = comma then scan Field_start (fs @ [[]]) s
      else scan (Unquoted [c]) fs s)"
| "scan (Unquoted f) fs (c # s) =
     (if c = nl then emit (fs @ [f]) (scan Line_start [] s)
      else if c = quote then ([], Some Bare_quote)
      else if c = comma then scan Field_start (fs @ [f]) s
      else scan (Unquoted (f @ [c])) fs s)"
| "scan (Quoted f) fs (c # s) =
     (if c = quote then scan (Quote_seen f) fs s else scan (Quoted (f @ [c])) fs s)"
| "scan (Quote_seen f) fs (c # s) =
     (if c = quote then scan (Quoted (f @ [c])) fs s
      else if c = comma then scan Field_start (fs @ [f]) s
      else if c = nl then emit (fs @ [f]) (scan Line_start [] s)
      else ([], Some Bad_quote))"

text \<open>Every record has as many fields as the first one.\<close>

fun check_count :: "nat \<Rightarrow> string list list \<Rightarrow> csv_err option \<Rightarrow> string list list \<times> csv_err option" where
  "check_count n [] e = ([], e)"
| "check_count n (r # rs) e = (if length r \<noteq> n then ([], Some Field_count) else emit r (check_count n rs e))"

definition read_all :: "string \<Rightarrow> string list list \<times> csv_err option" where
  "read_all text =
     (let res = scan Line_start [] (normalize text)
      in case fst res of [] \<Rightarrow> ([], snd res) | r # rs \<Rightarrow> check_count (length r) (fst res) (snd res))"

section \<open>The writer\<close>

definition fieldNeedsQuotes :: "string \<Rightarrow> bool" where
  "fieldNeedsQuotes field =
     (case field of
        [] \<Rightarrow> False
      | c # _ \<Rightarrow> field = [CHR 0x5C, CHR 0x2E] \<or> (\<exists>d \<in> set field. d = comma \<or> d = quote \<or> d = cr \<or> d = nl) \<or> is_space c)"

definition escape :: "string \<Rightarrow> string" where
  "escape field = concat (map (\<lambda>c. if c = quote then [quote, quote] else [c]) field)"

definition write_field :: "string \<Rightarrow> string" where
  "write_field field = (if fieldNeedsQuotes field then [quote] @ escape field @ [quote] else field)"

fun write_fields :: "string list \<Rightarrow> string" where
  "write_fields [] = [nl]"
| "write_fields [f] = write_field f @ [nl]"
| "write_fields (f # g # fs) = write_field f @ [comma] @ write_fields (g # fs)"

definition write_all :: "string list list \<Rightarrow> string" where
  "write_all rows = concat (map write_fields rows)"

section \<open>What is written is read back\<close>

lemma chars_distinct [simp]:
  "quote \<noteq> nl" "comma \<noteq> nl" "quote \<noteq> comma" "nl \<noteq> quote" "nl \<noteq> comma" "comma \<noteq> quote"
  "\<not> is_space quote" "\<not> is_space comma" "is_space nl" "nl \<noteq> cr" "cr \<noteq> nl" "quote \<noteq> cr" "comma \<noteq> cr"
  unfolding quote_def comma_def nl_def cr_def is_space_def by code_simp+

text \<open>A carriage return is the one character that is not always read back.\<close>

definition field_ok :: "string \<Rightarrow> bool" where
  "field_ok f \<longleftrightarrow> cr \<notin> set f"

lemma normalize_id: "cr \<notin> set s \<Longrightarrow> normalize s = s"
  by (induction s rule: normalize.induct) auto

lemma write_field_cr: "field_ok f \<Longrightarrow> cr \<notin> set (write_field f)"
  by (auto simp: write_field_def escape_def field_ok_def split: if_splits) (metis chars_distinct(12))+

lemma write_fields_cr: "\<forall>f \<in> set fs. field_ok f \<Longrightarrow> cr \<notin> set (write_fields fs)"
  by (induction fs rule: write_fields.induct) (auto simp: write_field_cr dest: sym)

lemma scan_quoted: "scan (Quoted f) fs (escape g @ quote # s) = scan (Quote_seen (f @ g)) fs s"
  by (induction g arbitrary: f) (auto simp: escape_def)

text \<open>A field is followed by a comma or by the end of its line.\<close>

definition field_end :: "char \<Rightarrow> string list \<Rightarrow> string \<Rightarrow> string list list \<times> csv_err option" where
  "field_end c fs s = (if c = comma then scan Field_start fs s else emit fs (scan Line_start [] s))"

lemma scan_unquoted:
  assumes "\<forall>d \<in> set g. d \<noteq> comma \<and> d \<noteq> quote \<and> d \<noteq> nl" "c = comma \<or> c = nl"
  shows "scan (Unquoted f) fs (g @ c # s) = field_end c (fs @ [f @ g]) s"
  using assms by (induction g arbitrary: f) (auto simp: field_end_def)

lemma scan_field:
  assumes "c = comma \<or> c = nl"
  shows "scan Field_start fs (write_field f @ c # s) = field_end c (fs @ [f]) s"
proof (cases "fieldNeedsQuotes f")
  case True
  then show ?thesis using assms by (auto simp: write_field_def scan_quoted [simplified] field_end_def)
next
  case False
  show ?thesis
  proof (cases f)
    case Nil
    then show ?thesis using assms by (auto simp: write_field_def fieldNeedsQuotes_def field_end_def)
  next
    case (Cons d g)
    then have "\<forall>d \<in> set g. d \<noteq> comma \<and> d \<noteq> quote \<and> d \<noteq> nl" "d \<noteq> comma" "d \<noteq> quote" "d \<noteq> nl" "\<not> is_space d"
      using False by (auto simp: fieldNeedsQuotes_def)
    then show ?thesis using scan_unquoted [of g c "[d]"] assms Cons False by (simp add: write_field_def)
  qed
qed

lemma scan_fields:
  "gs \<noteq> [] \<Longrightarrow> scan Field_start fs (write_fields gs @ s) = emit (fs @ gs) (scan Line_start [] s)"
proof (induction gs arbitrary: fs rule: write_fields.induct)
  case (2 f)
  show ?case using scan_field [of nl fs f s] by (simp add: field_end_def)
next
  case (3 f g gs)
  show ?case using scan_field [of comma fs f] 3 by (simp add: field_end_def)
qed simp

text \<open>At the start of a line the first field is read as at the start of a field, unless the line is empty.\<close>

lemma scan_line_start:
  assumes "t \<noteq> []" "hd t \<noteq> nl"
  shows "scan Line_start [] t = scan Field_start [] t"
  using assms by (cases t) auto

lemma write_fields_hd:
  assumes "gs \<noteq> []" "gs \<noteq> [[]]"
  shows "write_fields gs \<noteq> []" "hd (write_fields gs @ s) \<noteq> nl"
proof -
  have h: "hd (write_field f @ t) \<noteq> nl" if "f \<noteq> []" for f t
    using that by (cases f) (auto simp: write_field_def fieldNeedsQuotes_def)
  show "write_fields gs \<noteq> []" by (cases gs rule: write_fields.cases) auto
  show "hd (write_fields gs @ s) \<noteq> nl"
  proof (cases gs rule: write_fields.cases)
    case (3 f g gs')
    show ?thesis by (cases "f = []") (use 3 h in \<open>auto simp: write_field_def fieldNeedsQuotes_def\<close>)
  qed (use assms h in auto)
qed

lemma scan_rows:
  "\<forall>r \<in> set rows. r \<noteq> [] \<and> r \<noteq> [[]] \<Longrightarrow> scan Line_start [] (write_all rows) = (rows, None)"
proof (induction rows)
  case (Cons r rows)
  have "scan Line_start [] (write_fields r @ write_all rows) = scan Field_start [] (write_fields r @ write_all rows)"
    using write_fields_hd [of r] Cons.prems by (intro scan_line_start) auto
  then show ?case using Cons scan_fields [of r "[]"] by (simp add: write_all_def emit_def)
qed (simp add: write_all_def)

lemma check_count_all: "\<forall>r \<in> set rows. length r = n \<Longrightarrow> check_count n rows e = (rows, e)"
  by (induction rows) (auto simp: emit_def)

lemma read_written:
  assumes "\<forall>r \<in> set rows. length r = n \<and> (\<forall>f \<in> set r. field_ok f)" "1 < n"
  shows "read_all (write_all rows) = (rows, None)"
proof -
  have "cr \<notin> set (write_all rows)"
    using assms(1) write_fields_cr by (auto simp: write_all_def)
  moreover have "\<forall>r \<in> set rows. r \<noteq> [] \<and> r \<noteq> [[]]" using assms by fastforce
  ultimately have "scan Line_start [] (normalize (write_all rows)) = (rows, None)"
    by (simp add: normalize_id scan_rows)
  then show ?thesis using assms(1) check_count_all [of rows n None] by (cases rows) (auto simp: read_all_def Let_def)
qed

end
