(* ===== verification/Recordings.thy ===== *)
theory Recordings
  imports Simulation Csv_Text Autoscaler_Webhook "HOL-Library.AList"
begin

text \<open>
  The recordings the simulator replays: \<^verbatim>\<open>cmd/simulator/fetch.go\<close>, which downloads the series
  of an instance and joins them on their time stamps, \<^verbatim>\<open>internal/simulator/csv.go\<close>, which
  stores and loads them, \<^verbatim>\<open>WritePointsCSV\<close> and \<^verbatim>\<open>AssessMinPU\<close> of
  \<^verbatim>\<open>internal/simulator/result.go\<close>, and \<^verbatim>\<open>internal/simulator/manifest.go\<close>.

  \<^verbatim>\<open>time.Parse\<close>, \<^verbatim>\<open>Time.Format\<close> and \<^verbatim>\<open>strconv.ParseFloat\<close> are the functions of
  \<open>text_env\<close>; what the sources rely on is \<open>text_env_ok\<close>. The generated API client is the
  function \<open>list_series\<close> as in the metrics client, and the YAML decoders are functions on the
  text of a document.
\<close>

section \<open>Numbers as text\<close>

datatype number = Num float64 | NaN | Inf

record text_env =
  te_formatTime :: "time \<Rightarrow> string"
  te_parseTime :: "string \<Rightarrow> string + time"
  te_parseFloat :: "string \<Rightarrow> string + number"

text \<open>
  \<^verbatim>\<open>int(math.Round(v))\<close>: to the nearest integer, half away from zero, and then to 64 bits. What
  Go's conversion makes of a value that does not fit is up to the implementation; here it is the
  least integer, as on amd64.
\<close>

definition f_nearest :: "float64 \<Rightarrow> int" where
  "f_nearest x =
     (if f_exp x \<ge> 0 then f_man x * 2 ^ nat (f_exp x)
      else sgn (f_man x) * ((2 * \<bar>f_man x\<bar> + 2 ^ nat (- f_exp x)) div 2 ^ Suc (nat (- f_exp x))))"

definition f_round :: "float64 \<Rightarrow> gint" where
  "f_round x = (if - (2 ^ 63) \<le> f_nearest x \<and> f_nearest x < 2 ^ 63 then f_nearest x else - (2 ^ 63))"

text \<open>
  \<^verbatim>\<open>strconv.FormatFloat(v, 'f', p, 64)\<close>: the exact value times \<open>10 ^ p\<close>, rounded to an integer
  with ties to even, and its digits with a decimal point.
\<close>

definition f_scaled :: "nat \<Rightarrow> float64 \<Rightarrow> int" where
  "f_scaled p v =
     (if f_exp v \<ge> 0 then \<bar>f_man v\<bar> * 10 ^ p * 2 ^ nat (f_exp v)
      else round_shift (nat (- f_exp v)) (\<bar>f_man v\<bar> * 10 ^ p))"

primrec pad_digits :: "nat \<Rightarrow> nat \<Rightarrow> string" where
  "pad_digits 0 n = []"
| "pad_digits (Suc p) n = pad_digits p (n div 10) @ [char_of (48 + n mod 10)]"

definition fixed_text :: "nat \<Rightarrow> nat \<Rightarrow> string" where
  "fixed_text p q = digits (q div 10 ^ p) @ ''.'' @ pad_digits p (q mod 10 ^ p)"

definition FormatFloat :: "nat \<Rightarrow> float64 \<Rightarrow> string" where
  "FormatFloat p v = (if f_man v < 0 then ''-'' else []) @ fixed_text p (nat (f_scaled p v))"

section \<open>Loading and storing recordings\<close>

definition columnTime :: string where "columnTime = ''time''"
definition columnProcessingUnits :: string where "columnProcessingUnits = ''processing_units''"
definition columnHighPriorityCPU :: string where "columnHighPriorityCPU = ''high_priority_cpu''"
definition columnTotalCPU :: string where "columnTotalCPU = ''total_cpu''"

definition parseCSVFloat :: "text_env \<Rightarrow> string \<Rightarrow> string + float64 option" where
  "parseCSVFloat env s =
     (let s = TrimSpace s
      in if s = [] then Inr None
         else case te_parseFloat env s of
                Inl err \<Rightarrow> Inl err
              | Inr NaN \<Rightarrow> Inl ''not a finite non-negative number''
              | Inr Inf \<Rightarrow> Inl ''not a finite non-negative number''
              | Inr (Num v) \<Rightarrow> if f_man v < 0 then Inl ''not a finite non-negative number'' else Inr (Some v))"

datatype load_err =
    Load_header "csv_err option"
  | Load_missing string
  | Load_csv nat csv_err
  | Load_bad_time nat string
  | Load_bad_cell nat string string
  | Load_no_rows

text \<open>The column of each name; of two columns with the same name the later one.\<close>

definition columns :: "string list \<Rightarrow> string \<Rightarrow> nat option" where
  "columns header = map_of (rev (zip (map (\<lambda>name. TrimSpace (ToLower name)) header) [0..<length header]))"

definition optional_cell :: "text_env \<Rightarrow> nat \<Rightarrow> string \<Rightarrow> nat option \<Rightarrow> string list \<Rightarrow> load_err + float64 option" where
  "optional_cell env line name idx record =
     (case idx of
        None \<Rightarrow> Inr None
      | Some i \<Rightarrow> (case parseCSVFloat env (record ! i) of
                    Inl _ \<Rightarrow> Inl (Load_bad_cell line name (record ! i)) | Inr v \<Rightarrow> Inr v))"

definition parse_row ::
    "text_env \<Rightarrow> nat \<Rightarrow> nat \<Rightarrow> nat option \<Rightarrow> nat option \<Rightarrow> nat \<Rightarrow> string list \<Rightarrow> load_err + Point" where
  "parse_row env timeIdx puIdx highIdx totalIdx line record =
     (case te_parseTime env (TrimSpace (record ! timeIdx)) of
        Inl err \<Rightarrow> Inl (Load_bad_time line err)
      | Inr t \<Rightarrow>
     (case parseCSVFloat env (record ! puIdx) of
        Inl _ \<Rightarrow> Inl (Load_bad_cell line columnProcessingUnits (record ! puIdx))
      | Inr None \<Rightarrow> Inl (Load_bad_cell line columnProcessingUnits (record ! puIdx))
      | Inr (Some pu) \<Rightarrow>
     (case optional_cell env line columnHighPriorityCPU highIdx record of
        Inl err \<Rightarrow> Inl err
      | Inr high \<Rightarrow>
     (case optional_cell env line columnTotalCPU totalIdx record of
        Inl err \<Rightarrow> Inl err
      | Inr total_cpu \<Rightarrow>
          Inr \<lparr>pt_Time = t, pt_ProcessingUnits = f_round pu, pt_HighPriorityCPU = high, pt_TotalCPU = total_cpu\<rparr>))))"

fun load_rows :: "(nat \<Rightarrow> string list \<Rightarrow> load_err + Point) \<Rightarrow> nat \<Rightarrow> string list list \<Rightarrow> csv_err option \<Rightarrow> load_err + Point list" where
  "load_rows parse line [] e = (case e of None \<Rightarrow> Inr [] | Some err \<Rightarrow> Inl (Load_csv line err))"
| "load_rows parse line (r # rs) e =
     (case parse line r of
        Inl err \<Rightarrow> Inl err
      | Inr p \<Rightarrow> (case load_rows parse (Suc line) rs e of Inl err \<Rightarrow> Inl err | Inr ps \<Rightarrow> Inr (p # ps)))"

definition LoadCSV :: "text_env \<Rightarrow> string \<Rightarrow> load_err + Point list" where
  "LoadCSV env text =
     (case fst (read_all text) of
        [] \<Rightarrow> Inl (Load_header (snd (read_all text)))
      | header # rows \<Rightarrow>
          (let col = columns header
           in case col columnTime of
                None \<Rightarrow> Inl (Load_missing columnTime)
              | Some timeIdx \<Rightarrow>
             (case col columnProcessingUnits of
                None \<Rightarrow> Inl (Load_missing columnProcessingUnits)
              | Some puIdx \<Rightarrow>
             (case load_rows (parse_row env timeIdx puIdx (col columnHighPriorityCPU) (col columnTotalCPU)) 2 rows
                     (snd (read_all text)) of
                Inl err \<Rightarrow> Inl err
              | Inr points \<Rightarrow> if length points = 0 then Inl Load_no_rows else Inr points))))"

definition formatCPU :: "nat \<Rightarrow> float64 option \<Rightarrow> string" where
  "formatCPU p v = (case v of None \<Rightarrow> [] | Some x \<Rightarrow> FormatFloat p x)"

definition csv_row :: "text_env \<Rightarrow> Point \<Rightarrow> string list" where
  "csv_row env p = [te_formatTime env (pt_Time p), fmt_d (pt_ProcessingUnits p), formatCPU 4 (pt_HighPriorityCPU p),
     formatCPU 4 (pt_TotalCPU p)]"

definition WriteCSV :: "text_env \<Rightarrow> Point list \<Rightarrow> string" where
  "WriteCSV env points =
     write_all ([columnTime, columnProcessingUnits, columnHighPriorityCPU, columnTotalCPU] # map (csv_row env) points)"

definition point_row :: "text_env \<Rightarrow> SimPoint \<Rightarrow> string list" where
  "point_row env p = [te_formatTime env (sp_Time p), fmt_d (sp_ActualPU p), fmt_d (sp_SimPU p),
     formatCPU 2 (sp_ActualHighCPU p), formatCPU 2 (sp_ActualTotalCPU p), formatCPU 2 (sp_SimHighCPU p),
     formatCPU 2 (sp_SimTotalCPU p), if sp_Gap p then ''true'' else ''false'']"

definition WritePointsCSV :: "text_env \<Rightarrow> Result \<Rightarrow> string" where
  "WritePointsCSV env r =
     write_all ([''time'', ''actual_pu'', ''sim_pu'', ''actual_high_priority_cpu'', ''actual_total_cpu'',
       ''sim_high_priority_cpu'', ''sim_total_cpu'', ''gap''] # map (point_row env) (res_Points r))"

section \<open>Fetching\<close>

datatype typed_value = DoubleValue float64 | Int64Value gint | OtherValue

definition typedValue :: "typed_value \<Rightarrow> float64" where
  "typedValue v = (case v of DoubleValue x \<Rightarrow> x | Int64Value n \<Rightarrow> f_of_int n | OtherValue \<Rightarrow> f_zero)"

definition fetchFilterHighPriorityCPU :: "string \<Rightarrow> string" where
  "fetchFilterHighPriorityCPU instanceID =
     ''metric.type = '' @ fmt_q ''spanner.googleapis.com/instance/cpu/utilization_by_priority'' @
     '' AND metric.label.priority = '' @ fmt_q ''high'' @ '' AND resource.label.instance_id = '' @ fmt_q instanceID"

definition fetchFilterTotalCPU :: "string \<Rightarrow> string" where
  "fetchFilterTotalCPU instanceID =
     ''metric.type = '' @ fmt_q ''spanner.googleapis.com/instance/cpu/utilization'' @
     '' AND resource.label.instance_id = '' @ fmt_q instanceID"

definition fetchFilterProcessingUnits :: "string \<Rightarrow> string" where
  "fetchFilterProcessingUnits instanceID =
     ''metric.type = '' @ fmt_q ''spanner.googleapis.com/instance/processing_units'' @
     '' AND resource.label.instance_id = '' @ fmt_q instanceID"

type_synonym series = "(time \<times> typed_value) list"

fun visit_all :: "(string + series) list \<Rightarrow> string + (time \<times> float64) list" where
  "visit_all [] = Inr []"
| "visit_all (Inl err # rs) = Inl err"
| "visit_all (Inr ts # rs) =
     (case visit_all rs of Inl err \<Rightarrow> Inl err | Inr samples \<Rightarrow> Inr (map (\<lambda>(t, v). (t, typedValue v)) ts @ samples))"

text \<open>The request of the command, whose interval is given by instants rather than by whole seconds.\<close>

record fetch_request =
  fr_Name :: string
  fr_Filter :: string
  fr_StartTime :: time
  fr_EndTime :: time
  fr_Aggregation :: Aggregation
  fr_SecondaryAggregation :: Aggregation
  fr_View :: series_view

definition listSeries ::
    "(fetch_request \<Rightarrow> (string + series) list) \<Rightarrow> string \<Rightarrow> string \<Rightarrow> time \<Rightarrow> time \<Rightarrow> string + (time \<times> float64) list" where
  "listSeries list_series project filt start_time end_time =
     visit_all (list_series
       \<lparr>fr_Name = ''projects/'' @ project, fr_Filter = filt, fr_StartTime = start_time, fr_EndTime = end_time,
        fr_Aggregation = \<lparr>agg_AlignmentPeriod = 60, agg_PerSeriesAligner = ALIGN_MEAN,
          agg_CrossSeriesReducer = REDUCE_SUM, agg_GroupByFields = [''resource.label.location'']\<rparr>,
        fr_SecondaryAggregation = \<lparr>agg_AlignmentPeriod = 60, agg_PerSeriesAligner = ALIGN_MEAN,
          agg_CrossSeriesReducer = REDUCE_MAX, agg_GroupByFields = []\<rparr>, fr_View = FULL\<rparr>)"

text \<open>The map \<^verbatim>\<open>byTime\<close>, and the assignments of the three series.\<close>

type_synonym by_time_map = "(time \<times> Point) list"

definition new_point :: "time \<Rightarrow> Point" where
  "new_point t = \<lparr>pt_Time = t, pt_ProcessingUnits = 0, pt_HighPriorityCPU = None, pt_TotalCPU = None\<rparr>"

definition upsert :: "(float64 \<Rightarrow> Point \<Rightarrow> Point) \<Rightarrow> time \<times> float64 \<Rightarrow> by_time_map \<Rightarrow> by_time_map" where
  "upsert assign s m =
     AList.update (fst s) (assign (snd s) (case map_of m (fst s) of Some p \<Rightarrow> p | None \<Rightarrow> new_point (fst s))) m"

definition assign_high :: "float64 \<Rightarrow> Point \<Rightarrow> Point" where
  "assign_high v p = p\<lparr>pt_HighPriorityCPU := Some (f_mul v (f_of_int 100))\<rparr>"

definition assign_total :: "float64 \<Rightarrow> Point \<Rightarrow> Point" where
  "assign_total v p = p\<lparr>pt_TotalCPU := Some (f_mul v (f_of_int 100))\<rparr>"

definition assign_units :: "float64 \<Rightarrow> Point \<Rightarrow> Point" where
  "assign_units v p = p\<lparr>pt_ProcessingUnits := f_round v\<rparr>"

datatype fetch_err = Fetch_series string string | Fetch_no_points

fun fetch_loop ::
    "(string \<Rightarrow> string + (time \<times> float64) list) \<Rightarrow> (string \<times> string \<times> (float64 \<Rightarrow> Point \<Rightarrow> Point)) list \<Rightarrow>
     by_time_map \<Rightarrow> fetch_err + by_time_map" where
  "fetch_loop get [] m = Inr m"
| "fetch_loop get ((name, filt, assign) # ss) m =
     (case get filt of
        Inl err \<Rightarrow> Inl (Fetch_series name err)
      | Inr samples \<Rightarrow> fetch_loop get ss (fold (upsert assign) samples m))"

definition fetchPoints ::
    "(fetch_request \<Rightarrow> (string + series) list) \<Rightarrow> string \<Rightarrow> string \<Rightarrow> time \<Rightarrow> time \<Rightarrow> fetch_err + Point list" where
  "fetchPoints list_series project instanceID start_time end_time =
     (case fetch_loop (\<lambda>filt. listSeries list_series project filt start_time end_time)
             [(''high-priority cpu'', fetchFilterHighPriorityCPU instanceID, assign_high),
              (''total cpu'', fetchFilterTotalCPU instanceID, assign_total),
              (''processing units'', fetchFilterProcessingUnits instanceID, assign_units)] [] of
        Inl err \<Rightarrow> Inl err
      | Inr byTime \<Rightarrow>
          (let points = filter (\<lambda>p. \<not> pt_ProcessingUnits p \<le> 0) (sort_key pt_Time (map snd byTime))
           in if length points = 0 then Inl Fetch_no_points else Inr points))"

section \<open>The assessment of the minimum\<close>

datatype lower_verdict =
    Lower_rarely_binds float64
  | Lower_no_signal
  | Lower_needed gint gint
  | Lower_possible gint gint float64

datatype raise_verdict =
    Raise_not_indicated
  | Raise_consider float64 float64
  | Raise_would_not_help float64 float64

record MinPUAssessment =
  as_Lower :: lower_verdict
  as_Raise :: raise_verdict

definition AssessMinPU :: "Summary \<Rightarrow> MinPUAssessment" where
  "AssessMinPU s =
     \<lparr>as_Lower =
        (if f_less (sum_MinPinnedPercent s) (f_of_int 5) then Lower_rarely_binds (sum_MinPinnedPercent s)
         else if sum_RequiredPUAtMinP95 s = 0 then Lower_no_signal
         else if sum_RequiredPUAtMinP95 s \<ge> sum_SpecMinPU s then Lower_needed (sum_RequiredPUAtMinP95 s) (sum_SpecMinPU s)
         else Lower_possible (sum_RequiredPUAtMinP95 s) (sum_SpecMinPU s) (sum_MinPinnedPercent s)),
      as_Raise =
        (if f_man (sum_TargetExceededMinutes s) = 0 then Raise_not_indicated
         else if \<not> f_less (sum_TargetExceededAtMinMinutes s) (f_div (sum_TargetExceededMinutes s) (f_of_int 2))
         then Raise_consider (sum_TargetExceededAtMinMinutes s) (sum_TargetExceededMinutes s)
         else Raise_would_not_help (sum_TargetExceededAtMinMinutes s) (sum_TargetExceededMinutes s))\<rparr>"

section \<open>Manifests\<close>

text \<open>
  The regular expression \<^verbatim>\<open>(?m)^---\s*$\<close> matches three dashes at the start of a line and the
  longest run of white space after them that ends before a line end or at the end of the text.
\<close>

definition re_space :: "char \<Rightarrow> bool" where
  "re_space c \<longleftrightarrow> is_space c \<and> of_char c \<noteq> (11 :: nat)"

definition sep_rest :: "string \<Rightarrow> string option" where
  "sep_rest s =
     (let ws = takeWhile re_space s; rest = dropWhile re_space s
      in if rest = [] then Some []
         else if nl \<in> set ws then Some (nl # rev (takeWhile (\<lambda>c. c \<noteq> nl) (rev ws)) @ rest)
         else None)"

definition separator :: "string \<Rightarrow> string option" where
  "separator s = (if take 3 s = ''---'' then sep_rest (drop 3 s) else None)"

lemma sep_rest_length: "sep_rest s = Some r \<Longrightarrow> length r \<le> length s"
proof -
  assume a: "sep_rest s = Some r"
  let ?ws = "takeWhile re_space s" and ?rest = "dropWhile re_space s"
  have l: "length ?ws + length ?rest = length s" by (metis length_append takeWhile_dropWhile_id)
  have "length (takeWhile (\<lambda>c. c \<noteq> nl) (rev ?ws)) < length ?ws" if "nl \<in> set ?ws"
  proof -
    have "takeWhile (\<lambda>c. c \<noteq> nl) (rev ?ws) \<noteq> rev ?ws" using that by (metis set_rev set_takeWhileD)
    then show ?thesis by (metis le_neq_implies_less length_rev length_takeWhile_le takeWhile_eq_take take_all)
  qed
  then show ?thesis using a l by (auto simp: sep_rest_def Let_def split: if_splits)
qed

function split_docs :: "bool \<Rightarrow> string \<Rightarrow> string \<Rightarrow> string list" where
  "split_docs bol acc s =
     (case (if bol then separator s else None) of
        Some rest \<Rightarrow> acc # split_docs False [] rest
      | None \<Rightarrow> (case s of [] \<Rightarrow> [acc] | c # cs \<Rightarrow> split_docs (c = nl) (acc @ [c]) cs))"
  by pat_completeness auto

termination split_docs
proof (relation "measure (\<lambda>(bol, acc, s). length s)")
  fix bol acc s r
  assume "(if bol then separator s else None) = Some r"
  then have t: "take 3 s = ''---''" "sep_rest (drop 3 s) = Some r" by (auto simp: separator_def split: if_splits)
  then have "length r \<le> length (drop 3 s)" "s \<noteq> []" by (auto dest: sep_rest_length)
  then show "((False, [], r), bol, acc, s) \<in> measure (\<lambda>(bol, acc, s). length s)" by (cases s) auto
qed auto

declare split_docs.simps [simp del]

datatype manifest_err =
    Manifest_meta nat string
  | Manifest_multiple nat
  | Manifest_autoscaler nat string
  | Manifest_schedule nat string
  | Manifest_no_autoscaler

record yaml_env =
  ye_kind :: "string \<Rightarrow> string + string"
  ye_autoscaler :: "string \<Rightarrow> string + SpannerAutoscaler"
  ye_schedule :: "string \<Rightarrow> string + SpannerAutoscaleSchedule"

fun load_docs ::
    "yaml_env \<Rightarrow> nat \<Rightarrow> string list \<Rightarrow> SpannerAutoscaler option \<Rightarrow> SpannerAutoscaleSchedule list \<Rightarrow>
     manifest_err + SpannerAutoscaler option \<times> SpannerAutoscaleSchedule list" where
  "load_docs env i [] autoscaler schedules = Inr (autoscaler, schedules)"
| "load_docs env i (doc # docs) autoscaler schedules =
     (if TrimSpace doc = [] then load_docs env (Suc i) docs autoscaler schedules
      else case ye_kind env doc of
             Inl err \<Rightarrow> Inl (Manifest_meta i err)
           | Inr kind \<Rightarrow>
               (if kind = ''SpannerAutoscaler''
                then if autoscaler \<noteq> None then Inl (Manifest_multiple i)
                     else case ye_autoscaler env doc of
                            Inl err \<Rightarrow> Inl (Manifest_autoscaler i err)
                          | Inr sa \<Rightarrow> load_docs env (Suc i) docs (Some sa) schedules
                else if kind = ''SpannerAutoscaleSchedule''
                then case ye_schedule env doc of
                       Inl err \<Rightarrow> Inl (Manifest_schedule i err)
                     | Inr sas \<Rightarrow> load_docs env (Suc i) docs autoscaler (schedules @ [sas])
                else load_docs env (Suc i) docs autoscaler schedules))"

definition LoadManifests :: "yaml_env \<Rightarrow> string \<Rightarrow> manifest_err + SpannerAutoscaler \<times> SpannerAutoscaleSchedule list" where
  "LoadManifests env data =
     (case load_docs env 1 (split_docs True [] data) None [] of
        Inl err \<Rightarrow> Inl err
      | Inr (None, _) \<Rightarrow> Inl Manifest_no_autoscaler
      | Inr (Some sa, schedules) \<Rightarrow> Inr (Default sa, schedules))"

section \<open>Decimal rounding\<close>

lemma round_shift_error: "2 * \<bar>round_shift k n * 2 ^ k - n\<bar> \<le> 2 ^ k"
proof -
  have n: "n = n div 2 ^ k * 2 ^ k + n mod 2 ^ k" by (simp only: div_mult_mod_eq)
  define q r where "q = n div 2 ^ k" and "r = n mod (2 :: int) ^ k"
  have r: "0 \<le> r" "r < 2 ^ k" by (simp_all add: r_def)
  show ?thesis
  proof (cases "2 * r > 2 ^ k \<or> (2 * r = 2 ^ k \<and> q mod 2 = 1)")
    case True
    then have "round_shift k n = q + 1" by (simp add: round_shift_def Let_def q_def r_def)
    then have "round_shift k n * 2 ^ k - n = 2 ^ k - r" using n q_def r_def by (simp add: algebra_simps)
    then show ?thesis using True r by auto
  next
    case False
    then have "round_shift k n = q" unfolding round_shift_def Let_def q_def r_def by auto
    then have "round_shift k n * 2 ^ k - n = - r" using n q_def r_def by (simp add: algebra_simps)
    then show ?thesis using False r by auto
  qed
qed

lemma round_shift_near:
  assumes "2 * \<bar>n - q * 2 ^ j\<bar> < 2 ^ j"
  shows "round_shift j n = q"
proof (cases "q * 2 ^ j \<le> n")
  case True
  define d where "d = n - q * 2 ^ j"
  have d: "0 \<le> d" "2 * d < 2 ^ j" "n = d + q * 2 ^ j" using True assms by (auto simp: d_def)
  then have "n div 2 ^ j = q" "n mod 2 ^ j = d" by simp_all
  then show ?thesis using d by (simp add: round_shift_def Let_def)
next
  case False
  define d where "d = n - (q - 1) * 2 ^ j"
  have d: "0 \<le> d" "d < 2 ^ j" "2 ^ j < 2 * d" "n = d + (q - 1) * 2 ^ j"
    using False assms by (auto simp: d_def algebra_simps)
  then have "n div 2 ^ j = q - 1" "n mod 2 ^ j = d" by simp_all
  then show ?thesis using d by (simp add: round_shift_def Let_def)
qed

lemma f_of_int_small: "\<bar>n\<bar> < 2 ^ 53 \<Longrightarrow> f_of_int n = \<lparr>f_man = n, f_exp = 0\<rparr>"
  by (simp add: f_of_int_def round_float64_def excess_bits_zero Let_def sgn_mult_abs)

text \<open>The float nearest to a decimal fraction with four digits; printed again with four digits, it is the same fraction.\<close>

definition decimal4 :: "int \<Rightarrow> float64" where
  "decimal4 q = f_div (f_of_int q) (f_of_int 10000)"

definition quot :: "int \<Rightarrow> int \<Rightarrow> int" where
  "quot a d = 2 * (a * 2 ^ 110 div d) + (if a * 2 ^ 110 mod d = 0 then 0 else 1)"

lemma f_div_quot:
  assumes "0 < f_man x" "0 < f_man y"
  shows "f_div x y = round_float64 (quot (f_man x) (f_man y)) (f_exp x - f_exp y - 111)"
proof -
  have "sgn (f_man x) = 1" "sgn (f_man y) = 1" "\<bar>f_man x\<bar> = f_man x" "\<bar>f_man y\<bar> = f_man y" using assms by auto
  then show ?thesis by (simp only: f_div_def Let_def quot_def mult_1)
qed

lemma quot_near:
  assumes "0 < a" "0 < d"
  shows "0 \<le> quot a d" "\<bar>d * quot a d - a * 2 ^ 111\<bar> \<le> d"
proof -
  define n where "n = a * 2 ^ 110"
  have q: "quot a d = 2 * (n div d) + (if n mod d = 0 then 0 else 1)" by (simp only: quot_def n_def)
  have n0: "0 \<le> n" using assms by (simp add: n_def)
  have m: "d * (n div d) = n - n mod d" by (simp add: minus_mod_eq_mult_div)
  have r: "0 \<le> n mod d" "n mod d < d" using assms by simp_all
  show "0 \<le> quot a d" unfolding q using n0 assms by (simp add: pos_imp_zdiv_nonneg_iff)
  have t: "a * 2 ^ 111 = 2 * n" by (simp add: n_def)
  define m where "m = n mod d"
  have "d * quot a d = 2 * (n - m) + (if m = 0 then 0 else d)"
    unfolding q m_def m [symmetric] by (simp add: algebra_simps)
  moreover have "0 \<le> m" "m < d" using r by (simp_all add: m_def)
  ultimately show "\<bar>d * quot a d - a * 2 ^ 111\<bar> \<le> d" unfolding t by (auto split: if_splits)
qed

lemma excess_bits_bound:
  assumes "n < 2 ^ (53 + k)"
  shows "excess_bits n \<le> k"
proof (cases "n < 2 ^ 53")
  case False
  then have "(2 :: int) ^ (52 + excess_bits n) < 2 ^ (53 + k)" using excess_bits_ge [of n] assms by linarith
  then have "52 + excess_bits n < 53 + k" by (rule power_less_imp_less_exp [rotated]) simp
  then show ?thesis by simp
qed (simp add: excess_bits_zero)

lemma near_scaled: "2 * \<bar>x - y\<bar> \<le> 2 ^ 95 \<Longrightarrow> \<bar>10000 * y - z\<bar> \<le> 10000 \<Longrightarrow> 2 * \<bar>10000 * x - z\<bar> < (2 :: int) ^ 111"
  by (simp add: abs_le_iff abs_less_iff)

text \<open>Printed again with four digits, the float is the same fraction.\<close>

lemma decimal4_scaled:
  assumes "0 \<le> q" "q < 2 ^ 50"
  shows "f_scaled 4 (decimal4 q) = q" "0 \<le> f_man (decimal4 q)"
proof -
  have e: "f_of_int q = \<lparr>f_man = q, f_exp = 0\<rparr>" "f_of_int 10000 = \<lparr>f_man = 10000, f_exp = 0\<rparr>"
    using assms by (simp_all add: f_of_int_small)
  have "f_scaled 4 (decimal4 q) = q \<and> 0 \<le> f_man (decimal4 q)"
  proof (cases "q = 0")
    case True
    then show ?thesis
      by (simp add: decimal4_def f_div_def round_float64_def f_of_int_def excess_bits_zero f_scaled_def Let_def round_shift_def)
  next
    case False
    define Q k where "Q = quot q 10000" and "k = excess_bits Q"
    define R where "R = round_shift k Q"
    have Q: "0 \<le> Q" "\<bar>10000 * Q - q * 2 ^ 111\<bar> \<le> 10000" using quot_near [of q 10000] False assms by (simp_all add: Q_def)
    have R0: "0 \<le> R" using round_shift_lower [of Q k] Q(1) pos_imp_zdiv_nonneg_iff [of "2 ^ k" Q] by (auto simp: R_def)
    have "q * 2 ^ 111 < 2 ^ 50 * 2 ^ 111" using assms(2) by simp
    then have "10000 * Q < 10000 * 2 ^ (53 + 95)" using Q(2) by simp
    then have k: "k \<le> 95" unfolding k_def by (intro excess_bits_bound) simp
    have d: "decimal4 q = \<lparr>f_man = R, f_exp = int k - 111\<rparr>" if "0 < Q"
      using that f_div_quot [of "f_of_int q" "f_of_int 10000"] False assms(1)
      by (simp add: decimal4_def e Q_def [symmetric] round_float64_def Let_def k_def R_def)
    have Qpos: "0 < Q" using Q False assms(1) by (cases "Q = 0") auto
    have err: "2 * \<bar>R * 2 ^ k - Q\<bar> \<le> 2 ^ k" unfolding R_def by (rule round_shift_error)
    have "(2 :: int) ^ k \<le> 2 ^ 95" using k by (intro power_increasing) auto
    then have "2 * \<bar>R * 2 ^ k - Q\<bar> \<le> 2 ^ 95" using err by (rule order_trans [rotated])
    then have "2 * \<bar>10000 * (R * 2 ^ k) - q * 2 ^ 111\<bar> < 2 ^ 111" using Q(2) by (rule near_scaled)
    moreover have "(2 :: int) ^ 111 = 2 ^ (111 - k) * 2 ^ k" using k by (simp flip: power_add)
    ultimately have "2 * \<bar>(R * 10000 - q * 2 ^ (111 - k)) * 2 ^ k\<bar> < 2 ^ (111 - k) * 2 ^ k"
      by (simp add: algebra_simps)
    then have "2 * \<bar>R * 10000 - q * 2 ^ (111 - k)\<bar> < 2 ^ (111 - k)"
      by (simp add: abs_mult flip: mult.assoc)
    then have "round_shift (111 - k) (R * 10000) = q" by (rule round_shift_near)
    moreover have "nat (- (int k - 111)) = 111 - k" "int k - 111 < 0" using k by auto
    ultimately show ?thesis using R0 by (simp add: d [OF Qpos] f_scaled_def)
  qed
  then show "f_scaled 4 (decimal4 q) = q" "0 \<le> f_man (decimal4 q)" by blast+
qed

section \<open>Stored recordings\<close>

definition rfc3339_limit :: time where
  "rfc3339_limit = 315537897600 * second"

text \<open>
  What the sources rely on: a time of the years 1 to 9999 printed as RFC 3339 has no white
  space and is parsed to the second; a decimal number is parsed to the nearest float.
\<close>

definition text_env_ok :: "text_env \<Rightarrow> bool" where
  "text_env_ok env \<longleftrightarrow>
     (\<forall>t. 0 \<le> t \<and> t < rfc3339_limit \<longrightarrow>
        te_parseTime env (te_formatTime env t) = Inr (t_truncate t second) \<and>
        (\<forall>c \<in> set (te_formatTime env t). \<not> is_space c)) \<and>
     (\<forall>n. int n < 2 ^ 53 \<longrightarrow> te_parseFloat env (digits n) = Inr (Num (f_of_int (int n)))) \<and>
     (\<forall>q. int q < 2 ^ 53 \<longrightarrow> te_parseFloat env (fixed_text 4 q) = Inr (Num (decimal4 (int q))))"

definition stored_cpu :: "float64 \<Rightarrow> float64" where
  "stored_cpu v = decimal4 (f_scaled 4 v)"

definition stored :: "Point \<Rightarrow> Point" where
  "stored p = p\<lparr>pt_Time := t_truncate (pt_Time p) second, pt_HighPriorityCPU := map_option stored_cpu (pt_HighPriorityCPU p),
     pt_TotalCPU := map_option stored_cpu (pt_TotalCPU p)\<rparr>"

definition cpu_ok :: "float64 option \<Rightarrow> bool" where
  "cpu_ok v \<longleftrightarrow> (case v of None \<Rightarrow> True | Some x \<Rightarrow> 0 \<le> f_man x \<and> f_scaled 4 x < 2 ^ 50)"

definition recordable :: "Point \<Rightarrow> bool" where
  "recordable p \<longleftrightarrow> 0 \<le> pt_Time p \<and> pt_Time p < rfc3339_limit \<and>
     0 \<le> pt_ProcessingUnits p \<and> pt_ProcessingUnits p < 2 ^ 53 \<and> cpu_ok (pt_HighPriorityCPU p) \<and> cpu_ok (pt_TotalCPU p)"

lemma TrimSpace_id:
  assumes "\<forall>c \<in> set s. \<not> is_space c"
  shows "TrimSpace s = s"
proof -
  have "dropWhile is_space t = t" if "\<forall>c \<in> set t. \<not> is_space c" for t using that by (cases t) auto
  from this [of s] this [of "rev s"] show ?thesis using assms by (simp add: TrimSpace_def)
qed

lemma parseCSVFloat_ok:
  "\<forall>c \<in> set s. \<not> is_space c \<Longrightarrow> s \<noteq> [] \<Longrightarrow> te_parseFloat env s = Inr (Num v) \<Longrightarrow> 0 \<le> f_man v \<Longrightarrow>
     parseCSVFloat env s = Inr (Some v)"
  by (simp add: parseCSVFloat_def TrimSpace_id)

lemma digit_char: "n < 10 \<Longrightarrow> \<not> is_space (char_of (48 + n))" for n :: nat
  by (simp add: is_space_def of_char_of Let_def)

lemma digits_no_space: "c \<in> set (digits n) \<Longrightarrow> \<not> is_space c"
  by (induction n rule: digits.induct) (subst (asm) digits.simps, auto simp: digit_char split: if_splits)

lemma pad_digits_no_space: "c \<in> set (pad_digits p n) \<Longrightarrow> \<not> is_space c"
  by (induction p arbitrary: n) (auto simp: digit_char)

lemma fixed_text_no_space: "c \<in> set (fixed_text p q) \<Longrightarrow> \<not> is_space c"
proof -
  have "\<not> is_space (CHR ''.'')" by code_simp
  then show "c \<in> set (fixed_text p q) \<Longrightarrow> \<not> is_space c" by (auto simp: fixed_text_def digits_no_space pad_digits_no_space)
qed

lemma digits_nonempty: "digits n \<noteq> []"
  by (subst digits.simps) simp

lemma f_scaled_nonneg: "0 \<le> f_scaled p v"
proof -
  have "0 \<le> round_shift k (\<bar>m\<bar> * 10 ^ p)" for k m
    by (rule order_trans [OF _ round_shift_lower]) (simp add: pos_imp_zdiv_nonneg_iff)
  then show ?thesis by (simp add: f_scaled_def)
qed

lemma parse_units:
  assumes "text_env_ok env" "0 \<le> n" "n < 2 ^ 53"
  shows "parseCSVFloat env (fmt_d n) = Inr (Some \<lparr>f_man = n, f_exp = 0\<rparr>)"
proof -
  have t: "fmt_d n = digits (nat n)" using assms(2) by (simp add: fmt_d_def)
  have "te_parseFloat env (digits (nat n)) = Inr (Num (f_of_int n))"
    using assms unfolding text_env_ok_def by (metis int_nat_eq)
  then show ?thesis unfolding t
    using assms f_of_int_small [of n] by (intro parseCSVFloat_ok) (auto simp: digits_nonempty digits_no_space)
qed

lemma parse_cpu:
  assumes "text_env_ok env" "cpu_ok v"
  shows "parseCSVFloat env (formatCPU 4 v) = Inr (map_option stored_cpu v)"
proof (cases v)
  case None
  then show ?thesis by (simp add: formatCPU_def parseCSVFloat_def TrimSpace_def)
next
  case (Some x)
  let ?q = "f_scaled 4 x"
  have x: "0 \<le> f_man x" "0 \<le> ?q" "?q < 2 ^ 50" using assms(2) Some f_scaled_nonneg by (auto simp: cpu_ok_def)
  have t: "formatCPU 4 v = fixed_text 4 (nat ?q)" using Some x by (simp add: formatCPU_def FormatFloat_def)
  have "int (nat ?q) < 2 ^ 53" using x by simp
  then have "te_parseFloat env (fixed_text 4 (nat ?q)) = Inr (Num (decimal4 (int (nat ?q))))"
    using assms(1) unfolding text_env_ok_def by blast
  moreover have "fixed_text 4 (nat ?q) \<noteq> []" by (simp add: fixed_text_def)
  ultimately have "parseCSVFloat env (fixed_text 4 (nat ?q)) = Inr (Some (decimal4 ?q))"
    using x decimal4_scaled(2) [of ?q] by (intro parseCSVFloat_ok) (auto simp: fixed_text_no_space)
  then show ?thesis unfolding t by (simp add: Some stored_cpu_def)
qed

lemma parse_written_row:
  assumes "text_env_ok env" "recordable p"
  shows "parse_row env 0 1 (Some 2) (Some 3) line (csv_row env p) = Inr (stored p)"
proof -
  have t: "te_parseTime env (TrimSpace (te_formatTime env (pt_Time p))) = Inr (t_truncate (pt_Time p) second)"
    using assms TrimSpace_id [of "te_formatTime env (pt_Time p)"] unfolding text_env_ok_def recordable_def by auto
  have "f_round \<lparr>f_man = pt_ProcessingUnits p, f_exp = 0\<rparr> = pt_ProcessingUnits p"
    using assms(2) by (simp add: f_round_def f_nearest_def recordable_def)
  then show ?thesis
    using assms(2) t parse_units [OF assms(1)] parse_cpu [OF assms(1)]
    by (simp add: parse_row_def csv_row_def optional_cell_def recordable_def stored_def numeral_2_eq_2 numeral_3_eq_3)
qed

lemma load_rows_all:
  "\<forall>r \<in> set rs. \<forall>line. parse line (f r) = Inr (g r) \<Longrightarrow> load_rows parse line (map f rs) None = Inr (map g rs)"
  by (induction rs arbitrary: line) auto

lemma csv_header_columns:
  "columns [columnTime, columnProcessingUnits, columnHighPriorityCPU, columnTotalCPU] columnTime = Some 0"
  "columns [columnTime, columnProcessingUnits, columnHighPriorityCPU, columnTotalCPU] columnProcessingUnits = Some 1"
  "columns [columnTime, columnProcessingUnits, columnHighPriorityCPU, columnTotalCPU] columnHighPriorityCPU = Some 2"
  "columns [columnTime, columnProcessingUnits, columnHighPriorityCPU, columnTotalCPU] columnTotalCPU = Some 3"
  by code_simp+

lemma no_space_field_ok: "\<forall>c \<in> set f. \<not> is_space c \<Longrightarrow> field_ok f"
proof -
  have "is_space cr" by code_simp
  then show "\<forall>c \<in> set f. \<not> is_space c \<Longrightarrow> field_ok f" by (auto simp: field_ok_def)
qed

lemma csv_row_fields:
  assumes "text_env_ok env" "recordable p" "f \<in> set (csv_row env p)"
  shows "field_ok f"
proof (rule no_space_field_ok)
  have "\<forall>c \<in> set (formatCPU 4 v). \<not> is_space c" if "cpu_ok v" for v
    using that by (cases v) (auto simp: formatCPU_def FormatFloat_def cpu_ok_def fixed_text_no_space)
  then show "\<forall>c \<in> set f. \<not> is_space c"
    using assms by (auto simp: csv_row_def recordable_def text_env_ok_def fmt_d_def digits_no_space)
qed

lemma load_written:
  assumes "text_env_ok env" "points \<noteq> []" "\<forall>p \<in> set points. recordable p"
  shows "LoadCSV env (WriteCSV env points) = Inr (map stored points)"
proof -
  let ?h = "[columnTime, columnProcessingUnits, columnHighPriorityCPU, columnTotalCPU]"
  have "\<forall>f \<in> set ?h. field_ok f" by code_simp
  then have "read_all (WriteCSV env points) = (?h # map (csv_row env) points, None)"
    unfolding WriteCSV_def using csv_row_fields [OF assms(1)] assms(3)
    by (intro read_written [of _ 4]) (auto simp: csv_row_def)
  moreover have "load_rows (parse_row env 0 1 (Some 2) (Some 3)) 2 (map (csv_row env) points) None = Inr (map stored points)"
    using parse_written_row [OF assms(1)] assms(3) by (intro load_rows_all) auto
  ultimately show ?thesis using assms(2) by (simp add: LoadCSV_def csv_header_columns Let_def)
qed

lemma stored_recordable: "recordable p \<Longrightarrow> recordable (stored p)"
proof -
  have "cpu_ok (map_option stored_cpu v)" if "cpu_ok v" for v
    using that decimal4_scaled f_scaled_nonneg by (cases v) (auto simp: cpu_ok_def stored_cpu_def)
  moreover have "0 \<le> t_truncate t second \<and> t_truncate t second \<le> t" if "0 \<le> t" for t
    using that by (auto simp: t_truncate_def second_def zmod_le_nonneg_dividend)
  ultimately show "recordable p \<Longrightarrow> recordable (stored p)"
    by (auto simp: recordable_def stored_def intro: order_le_less_trans)
qed

lemma stored_stored:
  assumes "recordable p"
  shows "stored (stored p) = stored p"
proof -
  have "map_option stored_cpu (map_option stored_cpu v) = map_option stored_cpu v" if "cpu_ok v" for v
    using that decimal4_scaled f_scaled_nonneg by (cases v) (auto simp: cpu_ok_def stored_cpu_def)
  moreover have "t_truncate (t_truncate t second) second = t_truncate t second" for t
    by (simp add: t_truncate_def second_def)
  ultimately show ?thesis using assms by (simp add: stored_def recordable_def)
qed

text \<open>
  C37. A recording that was fetched and stored is loaded as it was, with times cut to the second
  and CPU values rounded to four decimals; stored again, it does not change any more: what is
  lost is lost once. Quoting, white space, the header and the order of the columns included.
\<close>

theorem recording_round_trip:
  assumes "text_env_ok env" "points \<noteq> []" "\<forall>p \<in> set points. recordable p"
  shows "LoadCSV env (WriteCSV env points) = Inr (map stored points) \<and>
     LoadCSV env (WriteCSV env (map stored points)) = Inr (map stored points)"
proof -
  have "\<forall>p \<in> set (map stored points). recordable p" using assms(3) stored_recordable by auto
  moreover have "map stored (map stored points) = map stored points" using assms(3) stored_stored by simp
  ultimately show ?thesis using load_written [OF assms(1)] assms(2,3) by (metis map_is_Nil_conv)
qed

text \<open>A text environment with times as seconds and plain decimal numbers.\<close>

definition read_from :: "nat \<Rightarrow> string \<Rightarrow> nat" where
  "read_from n s = foldl (\<lambda>n c. 10 * n + (of_char c - 48)) n s"

definition sample_text_env :: text_env where
  "sample_text_env = \<lparr>te_formatTime = (\<lambda>t. digits (nat (t div second))),
     te_parseTime = (\<lambda>s. Inr (second * int (read_from 0 s))),
     te_parseFloat = (\<lambda>s. Inr (Num (if CHR ''.'' \<in> set s then decimal4 (int (read_from 0 (filter (\<lambda>c. c \<noteq> CHR ''.'') s)))
        else f_of_int (int (read_from 0 s)))))\<rparr>"

lemma read_from_append: "read_from n (s @ t) = read_from (read_from n s) t"
  by (simp add: read_from_def)

lemma read_digits: "read_from 0 (digits n) = n"
proof (induction n rule: digits.induct)
  case (1 n)
  show ?case
  proof (cases "n < 10")
    case True
    then show ?thesis by (subst digits.simps) (simp add: read_from_def of_char_of)
  next
    case False
    then have "read_from 0 (digits n) = read_from (n div 10) [char_of (48 + n mod 10)]"
      using 1 by (subst digits.simps) (simp add: read_from_append)
    then show ?thesis by (simp add: read_from_def of_char_of)
  qed
qed

lemma read_pad: "read_from a (pad_digits p n) = a * 10 ^ p + n mod 10 ^ p"
proof (induction p arbitrary: n)
  case (Suc p)
  have "n mod (10 * 10 ^ p) = 10 * (n div 10 mod 10 ^ p) + n mod 10" by (simp add: mod_mult2_eq)
  moreover have "read_from a (pad_digits (Suc p) n) = 10 * (a * 10 ^ p + n div 10 mod 10 ^ p) + n mod 10"
    by (simp add: read_from_append Suc) (simp add: read_from_def of_char_of)
  ultimately show ?case by simp
qed (simp add: read_from_def)

lemma digit_not_dot: "n < 10 \<Longrightarrow> char_of (48 + n) \<noteq> CHR ''.''" for n :: nat
proof
  assume a: "n < 10" "char_of (48 + n) = CHR ''.''"
  then have "(of_char (char_of (48 + n) :: char) :: nat) = of_char CHR ''.''" by simp
  then show False using a(1) by (simp add: of_char_of)
qed

lemma digits_no_dot: "CHR ''.'' \<notin> set (digits n)"
proof (induction n rule: digits.induct)
  case (1 n)
  show ?case
  proof (cases "n < 10")
    case True
    then show ?thesis using digit_not_dot by (subst digits.simps) (auto dest: sym)
  next
    case False
    then show ?thesis using 1 digit_not_dot [of "n mod 10"] by (subst digits.simps) (auto dest: sym)
  qed
qed

lemma pad_digits_no_dot: "CHR ''.'' \<notin> set (pad_digits p n)"
proof (induction p arbitrary: n)
  case (Suc p)
  then show ?case using digit_not_dot [of "n mod 10"] by auto
qed simp

lemma no_dot_filter: "CHR ''.'' \<notin> set s \<Longrightarrow> filter (\<lambda>c. c \<noteq> CHR ''.'') s = s"
  by (auto simp: filter_id_conv)

lemma sample_text_env_ok: "text_env_ok sample_text_env"
proof -
  have "second * (t div second) = t_truncate t second" for t
    by (simp add: t_truncate_def second_def minus_mod_eq_mult_div)
  moreover have "read_from 0 (filter (\<lambda>c. c \<noteq> CHR ''.'') (fixed_text 4 q)) = q" for q
    by (simp add: fixed_text_def no_dot_filter digits_no_dot pad_digits_no_dot read_from_append read_digits read_pad)
  ultimately show ?thesis
    by (auto simp: text_env_ok_def sample_text_env_def read_digits digits_no_space digits_no_dot second_def fixed_text_def
        pos_imp_zdiv_nonneg_iff)
qed

theorem recording_round_trip_witness:
  "LoadCSV sample_text_env (WriteCSV sample_text_env sample_points) = Inr (map stored sample_points)"
proof -
  have "\<forall>p \<in> set sample_points. recordable p" by code_simp
  then show ?thesis using recording_round_trip [OF sample_text_env_ok, of sample_points] by (simp add: sample_points_def)
qed

section \<open>Joined series\<close>

text \<open>What a series writes: one field of the point of its time, the last sample of a time last.\<close>

definition keyed :: "by_time_map \<Rightarrow> bool" where
  "keyed m \<longleftrightarrow> distinct (map fst m) \<and> (\<forall>(t, p) \<in> set m. pt_Time p = t)"

definition point_at :: "by_time_map \<Rightarrow> time \<Rightarrow> Point" where
  "point_at m t = (case map_of m t of Some p \<Rightarrow> p | None \<Rightarrow> new_point t)"

definition sample_at :: "(time \<times> float64) list \<Rightarrow> time \<Rightarrow> float64 option" where
  "sample_at samples t = map_of (rev samples) t"

locale series_field =
  fixes assign :: "float64 \<Rightarrow> Point \<Rightarrow> Point"
  assumes keeps_time: "pt_Time (assign v p) = pt_Time p"
    and overwrites: "assign v (assign w p) = assign v p"
begin

lemma upsert_map:
  "map_of (upsert assign s m) t = (if t = fst s then Some (assign (snd s) (point_at m t)) else map_of m t)"
  by (auto simp: upsert_def update_conv point_at_def)

lemma fold_map:
  "map_of (fold (upsert assign) samples m) t =
     (case sample_at samples t of None \<Rightarrow> map_of m t | Some v \<Rightarrow> Some (assign v (point_at m t)))"
proof (induction samples arbitrary: m)
  case (Cons s samples)
  have "sample_at (s # samples) t = (case sample_at samples t of None \<Rightarrow> if t = fst s then Some (snd s) else None | Some v \<Rightarrow> Some v)"
    by (cases s) (auto simp: sample_at_def map_add_def split: option.splits)
  then show ?case
    by (auto simp: Cons.IH upsert_map point_at_def overwrites split: option.splits)
qed (simp add: sample_at_def)

lemma upsert_keyed:
  assumes "keyed m"
  shows "keyed (upsert assign s m)"
proof -
  have d: "distinct (map fst (upsert assign s m))"
    using assms unfolding upsert_def keyed_def by (simp add: distinct_update)
  have "pt_Time p = t" if "(t, p) \<in> set (upsert assign s m)" for t p
  proof -
    have "map_of (upsert assign s m) t = Some p" using d that by simp
    moreover have "pt_Time (point_at m t) = t"
      using assms by (auto simp: point_at_def keyed_def new_point_def split: option.splits dest!: map_of_SomeD)
    ultimately show ?thesis using assms
      by (auto simp: upsert_map keeps_time keyed_def split: if_splits dest!: map_of_SomeD)
  qed
  then show ?thesis using d by (auto simp: keyed_def)
qed

lemma fold_keyed: "keyed m \<Longrightarrow> keyed (fold (upsert assign) samples m)"
  by (induction samples arbitrary: m) (auto simp: upsert_keyed)

end

interpretation high_field: series_field assign_high
  by unfold_locales (simp_all add: assign_high_def)

interpretation total_field: series_field assign_total
  by unfold_locales (simp_all add: assign_total_def)

interpretation units_field: series_field assign_units
  by unfold_locales (simp_all add: assign_units_def)

definition joined ::
    "(time \<times> float64) list \<Rightarrow> (time \<times> float64) list \<Rightarrow> (time \<times> float64) list \<Rightarrow> time \<Rightarrow> Point" where
  "joined hs ts us t =
     \<lparr>pt_Time = t, pt_ProcessingUnits = (case sample_at us t of None \<Rightarrow> 0 | Some v \<Rightarrow> f_round v),
      pt_HighPriorityCPU = map_option (\<lambda>v. f_mul v (f_of_int 100)) (sample_at hs t),
      pt_TotalCPU = map_option (\<lambda>v. f_mul v (f_of_int 100)) (sample_at ts t)\<rparr>"

definition joined_map ::
    "(time \<times> float64) list \<Rightarrow> (time \<times> float64) list \<Rightarrow> (time \<times> float64) list \<Rightarrow> by_time_map" where
  "joined_map hs ts us = fold (upsert assign_units) us (fold (upsert assign_total) ts (fold (upsert assign_high) hs []))"

lemma joined_map_keyed: "keyed (joined_map hs ts us)"
  unfolding joined_map_def
  by (intro units_field.fold_keyed total_field.fold_keyed high_field.fold_keyed) (simp add: keyed_def)

lemma joined_map_of:
  "map_of (joined_map hs ts us) t =
     (if sample_at hs t = None \<and> sample_at ts t = None \<and> sample_at us t = None then None else Some (joined hs ts us t))"
  by (auto simp: joined_map_def units_field.fold_map total_field.fold_map high_field.fold_map point_at_def joined_def
      new_point_def assign_high_def assign_total_def assign_units_def split: option.splits)

lemma keyed_points:
  assumes "keyed m"
  shows "p \<in> set (map snd m) \<longleftrightarrow> map_of m (pt_Time p) = Some p" "distinct (map pt_Time (map snd m))"
proof -
  have t: "map pt_Time (map snd m) = map fst m" using assms by (auto simp: keyed_def)
  show "distinct (map pt_Time (map snd m))" unfolding t using assms by (simp add: keyed_def)
  show "p \<in> set (map snd m) \<longleftrightarrow> map_of m (pt_Time p) = Some p"
    using assms by (force simp: keyed_def image_iff dest: map_of_SomeD)
qed

text \<open>
  C38. The fetched recording is the join of the three series: it is in strictly increasing order
  of time, has a point for a time exactly when the instance had a positive number of processing
  units there, and each point carries the last value of each series at its time, CPU as a
  percentage and absent where the series has no sample; a fetch without a usable point is an
  error.
\<close>

theorem fetched_joined:
  assumes "listSeries list_series project (fetchFilterHighPriorityCPU i) start_time end_time = Inr hs"
    "listSeries list_series project (fetchFilterTotalCPU i) start_time end_time = Inr ts"
    "listSeries list_series project (fetchFilterProcessingUnits i) start_time end_time = Inr us"
  shows "(case fetchPoints list_series project i start_time end_time of
       Inl err \<Rightarrow> err = Fetch_no_points \<and> (\<forall>t. pt_ProcessingUnits (joined hs ts us t) \<le> 0)
     | Inr points \<Rightarrow> points \<noteq> [] \<and> sorted_wrt (\<lambda>p q. pt_Time p < pt_Time q) points \<and>
         (\<forall>p. p \<in> set points \<longleftrightarrow> p = joined hs ts us (pt_Time p) \<and> 0 < pt_ProcessingUnits p))"
proof -
  let ?m = "joined_map hs ts us"
  define points where "points = filter (\<lambda>p. \<not> pt_ProcessingUnits p \<le> 0) (sort_key pt_Time (map snd ?m))"
  have f: "fetchPoints list_series project i start_time end_time = (if points = [] then Inl Fetch_no_points else Inr points)"
    using assms by (simp add: fetchPoints_def joined_map_def points_def Let_def)
  note k = keyed_points [OF joined_map_keyed [of hs ts us]]
  have mem: "p \<in> set points \<longleftrightarrow> p = joined hs ts us (pt_Time p) \<and> 0 < pt_ProcessingUnits p" for p
  proof -
    have "p \<in> set points \<longleftrightarrow> map_of ?m (pt_Time p) = Some p \<and> 0 < pt_ProcessingUnits p"
      using k(1) [of p] by (auto simp: points_def)
    also have "\<dots> \<longleftrightarrow> p = joined hs ts us (pt_Time p) \<and> 0 < pt_ProcessingUnits p"
    proof -
      have "pt_ProcessingUnits (joined hs ts us (pt_Time p)) = 0" if "sample_at us (pt_Time p) = None"
        using that by (simp add: joined_def)
      then show ?thesis unfolding joined_map_of by (auto split: if_splits)
    qed
    finally show ?thesis .
  qed
  have "sorted (map pt_Time points)" unfolding points_def by (intro sorted_filter) simp
  moreover have "mset (map pt_Time (sort_key pt_Time (map snd ?m))) = mset (map pt_Time (map snd ?m))"
    by (simp only: mset_map mset_sort)
  then have "distinct (map pt_Time (sort_key pt_Time (map snd ?m)))" using k(2) mset_eq_imp_distinct_iff by blast
  then have "distinct (map pt_Time points)" unfolding points_def by (rule distinct_map_filter)
  ultimately have "sorted_wrt (<) (map pt_Time points)" by (simp add: strict_sorted_iff)
  then have "sorted_wrt (\<lambda>p q. pt_Time p < pt_Time q) points" by (simp add: sorted_wrt_map)
  moreover have "pt_ProcessingUnits (joined hs ts us t) \<le> 0" if "points = []" for t
    using mem [of "joined hs ts us t"] that by (simp add: joined_def split: option.splits)
  ultimately show ?thesis using mem by (simp add: f)
qed

definition sample_list_series :: "fetch_request \<Rightarrow> (string + series) list" where
  "sample_list_series r =
     (if fr_Filter r = fetchFilterProcessingUnits ''i'' then [Inr [(2 * minute, Int64Value 2000), (minute, Int64Value 1000)]]
      else if fr_Filter r = fetchFilterTotalCPU ''i'' then [Inr [(3 * minute, DoubleValue (f_of_int 1))]]
      else [Inr [(minute, DoubleValue (f_of_int 0))], Inr [(2 * minute, DoubleValue (f_of_int 1))]])"

theorem fetched_joined_witness:
  "case fetchPoints sample_list_series ''p'' ''i'' minute (9 * minute) of
     Inr points \<Rightarrow> sorted_wrt (\<lambda>p q. pt_Time p < pt_Time q) points | Inl _ \<Rightarrow> False"
proof -
  have l: "listSeries sample_list_series ''p'' (fetchFilterHighPriorityCPU ''i'') minute (9 * minute) =
      Inr [(minute, f_of_int 0), (2 * minute, f_of_int 1)]"
    "listSeries sample_list_series ''p'' (fetchFilterTotalCPU ''i'') minute (9 * minute) = Inr [(3 * minute, f_of_int 1)]"
    "listSeries sample_list_series ''p'' (fetchFilterProcessingUnits ''i'') minute (9 * minute) =
      Inr [(2 * minute, f_of_int 2000), (minute, f_of_int 1000)]"
    by code_simp+
  have "case fetchPoints sample_list_series ''p'' ''i'' minute (9 * minute) of Inl _ \<Rightarrow> False | Inr ps \<Rightarrow> True" by code_simp
  then show ?thesis using fetched_joined [OF l] by (auto split: sum.splits)
qed

end
