(* ===== verification/Report.thy ===== *)
theory Report
  imports Recommender Recordings
begin

text \<open>
  The views of \<^verbatim>\<open>cmd/simulator/report.go\<close> and the conclusion of
  \<^verbatim>\<open>cmd/simulator/recommend.go\<close>: what the HTML pages and the text report show, as values. The
  timelines are the buckets of the downsampled series. The coordinates on
  the page are in \<open>Chart_View\<close>, the texts in \<open>Report_Text\<close>; the templates and the colours are not
  part of the model. Indexing a slice out of range panics: the result is \<open>None\<close>.
\<close>

section \<open>The conclusion\<close>

text \<open>A line of the conclusion and a row of the candidate table.\<close>

datatype conclusion_line =
    Change_line string string string
  | Keep_line string string
  | Effect_line float64 float64 float64 float64 nat int
  | Reason_line keep_reason

datatype row_kind = Row_error cand_error | Row_infeasible "infeasible_reason list" | Row_recommended | Row_plain

record table_row =
  tr_rank :: nat
  tr_candidate :: nat
  tr_equivalents :: nat
  tr_kind :: row_kind

definition param :: "params \<Rightarrow> string \<Rightarrow> string" where
  "param m key = (case map_of m key of Some v \<Rightarrow> v | None \<Rightarrow> [])"

definition recommendationLines :: "params \<Rightarrow> params \<Rightarrow> Summary \<Rightarrow> Candidate option \<Rightarrow> keep_reason option \<Rightarrow> conclusion_line list" where
  "recommendationLines current displayCurrent base top_candidate reason =
     (case top_candidate of
        None \<Rightarrow> (case reason of None \<Rightarrow> [] | Some k \<Rightarrow> [Reason_line k])
      | Some c \<Rightarrow>
          concat (map (\<lambda>key. case map_of current key of
              None \<Rightarrow> []
            | Some cur \<Rightarrow>
                (case map_of (ca_Overrides c) key of
                   Some new_value \<Rightarrow>
                     if new_value \<noteq> cur then [Change_line key (param displayCurrent key) new_value]
                     else [Keep_line key (param displayCurrent key)]
                 | None \<Rightarrow> [Keep_line key (param displayCurrent key)])) OverrideKeys) @
          (let s = ca_Summary c
           in [Effect_line (sum_PUHoursSavedPercent s) (f_sub (sum_PUHoursSavedPercent s) (sum_PUHoursSavedPercent base))
                 (sum_TargetExceededMinutes s) (f_sub (sum_TargetExceededMinutes s) (sum_TargetExceededMinutes base))
                 (sum_ScaleGapsUnder10Min s) (int (sum_ScaleGapsUnder10Min s) - int (sum_ScaleGapsUnder10Min base))]))"

fun rank_of :: "nat \<Rightarrow> nat \<Rightarrow> nat list list \<Rightarrow> nat" where
  "rank_of idx rank [] = 0"
| "rank_of idx rank (g # gs) = (if idx \<in> set g then rank + 1 else rank_of idx (Suc rank) gs)"

definition groupRank :: "Candidate list \<Rightarrow> nat \<Rightarrow> nat" where
  "groupRank candidates idx = rank_of idx 0 (GroupEquivalent candidates)"

definition furtherOptionLine :: "params \<Rightarrow> Candidate \<Rightarrow> Candidate \<Rightarrow> nat \<Rightarrow> nat \<times> string \<times> float64 \<times> float64" where
  "furtherOptionLine current recommended further rank =
     (rank, DescribeChanges current (ca_Overrides further),
      f_sub (sum_PUHoursSavedPercent (ca_Summary further)) (sum_PUHoursSavedPercent (ca_Summary recommended)),
      f_sub (sum_TargetExceededMinutes (ca_Summary further)) (sum_TargetExceededMinutes (ca_Summary recommended)))"

definition row_kind_of :: "Candidate \<Rightarrow> bool \<Rightarrow> row_kind" where
  "row_kind_of c recommended =
     (case ca_Error c of
        Some err \<Rightarrow> Row_error err
      | None \<Rightarrow> if \<not> ca_Feasible c then Row_infeasible (ca_InfeasibleReasons c)
                else if recommended then Row_recommended else Row_plain)"

section \<open>Timelines\<close>

record tsBucket =
  bk_Min :: float64
  bk_Max :: float64
  bk_Mean :: float64
  bk_Has :: bool

definition empty_bucket :: tsBucket where
  "empty_bucket = \<lparr>bk_Min = f_zero, bk_Max = f_zero, bk_Mean = f_zero, bk_Has = False\<rparr>"

definition chart_buckets :: nat where
  "chart_buckets = 440"

definition UnixMilli :: "time \<Rightarrow> gint" where
  "UnixMilli t = t div 1000000 - 62135596800000"

definition f_min :: "float64 \<Rightarrow> float64 \<Rightarrow> float64" where
  "f_min x y = (if f_less y x then y else x)"

definition add_value :: "float64 \<Rightarrow> tsBucket \<Rightarrow> tsBucket" where
  "add_value v b =
     (let b = (if \<not> bk_Has b then \<lparr>bk_Min = v, bk_Max = v, bk_Mean = f_zero, bk_Has = True\<rparr>
               else b\<lparr>bk_Min := f_min (bk_Min b) v, bk_Max := f_max (bk_Max b) v\<rparr>)
      in b\<lparr>bk_Mean := f_add (bk_Mean b) v\<rparr>)"

definition bucket_index :: "nat \<Rightarrow> gint \<Rightarrow> gint \<Rightarrow> SimPoint \<Rightarrow> gint" where
  "bucket_index n start_ms span_ms p =
     min (gdiv (gmul (gsub (UnixMilli (sp_Time p)) start_ms) (int n)) span_ms) (int n - 1)"

text \<open>A bucket is kept with the count of its values.\<close>

fun fill_buckets ::
    "nat \<Rightarrow> gint \<Rightarrow> gint \<Rightarrow> (SimPoint \<Rightarrow> float64 option) \<Rightarrow> SimPoint list \<Rightarrow> (tsBucket \<times> nat) list \<Rightarrow> (tsBucket \<times> nat) list option" where
  "fill_buckets n start_ms span_ms get [] bs = Some bs"
| "fill_buckets n start_ms span_ms get (p # ps) bs =
     (case get p of
        None \<Rightarrow> fill_buckets n start_ms span_ms get ps bs
      | Some v \<Rightarrow>
          (let i = bucket_index n start_ms span_ms p
           in if i < 0 \<or> int (length bs) \<le> i then None
              else fill_buckets n start_ms span_ms get ps
                     (bs[nat i := (add_value v (fst (bs ! nat i)), snd (bs ! nat i) + 1)])))"

definition finish_bucket :: "tsBucket \<times> nat \<Rightarrow> tsBucket" where
  "finish_bucket b = (if snd b > 0 then (fst b)\<lparr>bk_Mean := f_div (bk_Mean (fst b)) (f_of_int (int (snd b)))\<rparr> else fst b)"

definition bucket_span :: "SimPoint list \<Rightarrow> gint" where
  "bucket_span points = max (gsub (UnixMilli (sp_Time (last points))) (UnixMilli (sp_Time (points ! 0)))) 1"

definition downsample :: "SimPoint list \<Rightarrow> nat \<Rightarrow> (SimPoint \<Rightarrow> float64 option) \<Rightarrow> (gint list \<times> tsBucket list) option" where
  "downsample points n get =
     (if length points = 0 then Some ([], [])
      else
        let start_ms = UnixMilli (sp_Time (points ! 0)); span_ms = bucket_span points;
            mids = map (\<lambda>i. gadd start_ms (gdiv (gmul span_ms (2 * int i + 1)) (2 * int n))) [0..<n]
        in case fill_buckets n start_ms span_ms get points (replicate n (empty_bucket, 0)) of
             None \<Rightarrow> None
           | Some bs \<Rightarrow> Some (mids, map finish_bucket bs))"

definition hasData :: "tsBucket list \<Rightarrow> bool" where
  "hasData bs = list_ex bk_Has bs"

record tsSeries =
  ts_Name :: string
  ts_Buckets :: "tsBucket list"

record line_chart =
  lc_Unit :: string
  lc_Times :: "gint list"
  lc_Series :: "tsSeries list"
  lc_Refs :: "gint list"

definition cpu_line :: "SimPoint list \<Rightarrow> string \<Rightarrow> (SimPoint \<Rightarrow> float64 option) \<Rightarrow> gint \<Rightarrow> (tsSeries list \<times> gint list) option" where
  "cpu_line points name get target =
     (case downsample points chart_buckets get of
        None \<Rightarrow> None
      | Some (_, bs) \<Rightarrow>
          Some (if hasData bs then ([\<lparr>ts_Name = name, ts_Buckets = bs\<rparr>], if target > 0 then [target] else []) else ([], [])))"

definition buildResultCharts :: "Result \<Rightarrow> gint \<Rightarrow> gint \<Rightarrow> line_chart list option" where
  "buildResultCharts result targetHigh targetTotal =
     (let points = res_Points result
      in case downsample points chart_buckets (\<lambda>p. Some (f_of_int (sp_SimPU p))) of
           None \<Rightarrow> None
         | Some (mids, simPU) \<Rightarrow>
        (case downsample points chart_buckets (\<lambda>p. Some (f_of_int (sp_ActualPU p))) of
           None \<Rightarrow> None
         | Some (_, actualPU) \<Rightarrow>
        (case cpu_line points ''high-priority (simulated)'' sp_SimHighCPU targetHigh of
           None \<Rightarrow> None
         | Some (hs, hrefs) \<Rightarrow>
        (case cpu_line points ''total (simulated)'' sp_SimTotalCPU targetTotal of
           None \<Rightarrow> None
         | Some (ts, trefs) \<Rightarrow>
             Some (\<lparr>lc_Unit = ''PU'', lc_Times = mids,
                lc_Series = [\<lparr>ts_Name = ''simulated'', ts_Buckets = simPU\<rparr>, \<lparr>ts_Name = ''recorded'', ts_Buckets = actualPU\<rparr>],
                lc_Refs = []\<rparr> #
              (if length (hs @ ts) > 0
               then [\<lparr>lc_Unit = ''%'', lc_Times = mids, lc_Series = hs @ ts, lc_Refs = hrefs @ trefs\<rparr>] else []))))))"

section \<open>Numbers and ticks\<close>

fun comma_loop :: "string \<Rightarrow> string" where
  "comma_loop [] = []"
| "comma_loop (c # s) = c # (if s \<noteq> [] \<and> length s mod 3 = 0 then [comma] else []) @ comma_loop s"

text \<open>The code negates a negative value and calls itself again; the least \<^verbatim>\<open>int\<close>, its own negation, is outside the model.\<close>

definition commaInt :: "gint \<Rightarrow> string" where
  "commaInt v = (if v < 0 then ''-'' @ comma_loop (fmt_d (- v)) else comma_loop (fmt_d v))"

definition xTickIndexes :: "nat \<Rightarrow> nat list" where
  "xTickIndexes n =
     (if n = 0 then [] else let count = min 7 n in map (\<lambda>i. i * (n - 1) div max (count - 1) 1) [0..<count])"

section \<open>Pages\<close>

record verdict_view =
  vv_MinPU :: string
  vv_Pinned :: float64
  vv_Floor :: string
  vv_Assessment :: MinPUAssessment

definition buildVerdict :: "Summary \<Rightarrow> verdict_view" where
  "buildVerdict s =
     \<lparr>vv_MinPU = commaInt (sum_SpecMinPU s), vv_Pinned = sum_MinPinnedPercent s,
      vv_Floor = (if sum_RequiredPUAtMinP95 s > 0 then commaInt (sum_RequiredPUAtMinP95 s) else []),
      vv_Assessment = AssessMinPU s\<rparr>"

record conclusion_row =
  cw_Parameter :: string
  cw_Current :: string
  cw_Recommended :: string
  cw_Changed :: bool

datatype conclusion_view =
    Conclusion_none "keep_reason option"
  | Conclusion "conclusion_row list" conclusion_line "(nat \<times> string \<times> float64 \<times> float64) option"

definition conclusion_rows :: "params \<Rightarrow> params \<Rightarrow> Candidate \<Rightarrow> conclusion_row list" where
  "conclusion_rows current displayCurrent c =
     concat (map (\<lambda>key. case map_of current key of
         None \<Rightarrow> []
       | Some cur \<Rightarrow>
           (case map_of (ca_Overrides c) key of
              Some v \<Rightarrow> if v \<noteq> cur
                then [\<lparr>cw_Parameter = key, cw_Current = param displayCurrent key, cw_Recommended = v, cw_Changed = True\<rparr>]
                else [\<lparr>cw_Parameter = key, cw_Current = param displayCurrent key, cw_Recommended = param displayCurrent key,
                       cw_Changed = False\<rparr>]
            | None \<Rightarrow> [\<lparr>cw_Parameter = key, cw_Current = param displayCurrent key, cw_Recommended = param displayCurrent key,
                       cw_Changed = False\<rparr>])) OverrideKeys)"

definition effect_of :: "Summary \<Rightarrow> Summary \<Rightarrow> conclusion_line" where
  "effect_of base s =
     Effect_line (sum_PUHoursSavedPercent s) (f_sub (sum_PUHoursSavedPercent s) (sum_PUHoursSavedPercent base))
       (sum_TargetExceededMinutes s) (f_sub (sum_TargetExceededMinutes s) (sum_TargetExceededMinutes base))
       (sum_ScaleGapsUnder10Min s) (int (sum_ScaleGapsUnder10Min s) - int (sum_ScaleGapsUnder10Min base))"

definition buildConclusion ::
    "params \<Rightarrow> params \<Rightarrow> Summary \<Rightarrow> Candidate list \<Rightarrow> nat option \<times> nat option \<times> keep_reason option \<Rightarrow> conclusion_view" where
  "buildConclusion current displayCurrent base candidates rec_index =
     (case fst rec_index of
        None \<Rightarrow> Conclusion_none (snd (snd rec_index))
      | Some idx \<Rightarrow>
          Conclusion (conclusion_rows current displayCurrent (candidates ! idx)) (effect_of base (ca_Summary (candidates ! idx)))
            (map_option (\<lambda>k. furtherOptionLine current (candidates ! idx) (candidates ! k) (groupRank candidates k))
               (fst (snd rec_index))))"

datatype dot_kind = Dot_base | Dot_feasible | Dot_infeasible

record scatter_dot =
  dot_x :: float64
  dot_y :: float64
  dot_color :: dot_kind
  dot_label :: string
  dot_reasons :: "infeasible_reason list"

definition scatter_dots :: "params \<Rightarrow> Summary \<Rightarrow> Candidate list \<Rightarrow> scatter_dot list" where
  "scatter_dots current base candidates =
     \<lparr>dot_x = sum_TargetExceededMinutes base, dot_y = sum_PUHoursSavedPercent base, dot_color = Dot_base,
      dot_label = ''(base) current config'', dot_reasons = []\<rparr> #
     map (\<lambda>c. \<lparr>dot_x = sum_TargetExceededMinutes (ca_Summary c), dot_y = sum_PUHoursSavedPercent (ca_Summary c),
        dot_color = (if ca_Feasible c then Dot_feasible else Dot_infeasible),
        dot_label = DescribeChanges current (ca_Overrides c), dot_reasons = ca_InfeasibleReasons c\<rparr>)
       (filter (\<lambda>c. ca_Error c = None) candidates)"

fun html_rows :: "Candidate list \<Rightarrow> nat option \<Rightarrow> nat list list \<Rightarrow> nat \<Rightarrow> table_row list" where
  "html_rows candidates recIdx [] rank = []"
| "html_rows candidates recIdx (g # gs) rank =
     (let rep = (case recIdx of Some r \<Rightarrow> if r \<in> set g then r else g ! 0 | None \<Rightarrow> g ! 0)
      in \<lparr>tr_rank = rank + 1, tr_candidate = rep, tr_equivalents = length g - 1,
          tr_kind = row_kind_of (candidates ! rep) (recIdx = Some rep)\<rparr> # html_rows candidates recIdx gs (Suc rank))"

definition htmlTopGroups :: nat where
  "htmlTopGroups = 10"

record simulate_page =
  pg_Points :: nat
  pg_Summary :: Summary
  pg_PerDay :: float64
  pg_Verdict :: verdict_view
  pg_Charts :: "line_chart list option"
  pg_Events :: "Event list"

definition simulate_page_of :: "Result \<Rightarrow> gint \<Rightarrow> gint \<Rightarrow> simulate_page" where
  "simulate_page_of result targetHigh targetTotal =
     (let s = res_Summary result;
          days = f_max (f_div (Hours (t_sub (sum_End s) (sum_Start s))) (f_of_int 24)) (f_of_int 1)
      in \<lparr>pg_Points = sum_DataPoints s, pg_Summary = s, pg_PerDay = f_div (sum_TargetExceededMinutes s) days,
          pg_Verdict = buildVerdict s, pg_Charts = buildResultCharts result targetHigh targetTotal,
          pg_Events = res_Events result\<rparr>)"

record recommend_page =
  rp_Evaluated :: nat
  rp_Feasible :: nat
  rp_Base :: Summary
  rp_Conclusion :: conclusion_view
  rp_Charts :: "line_chart list option"
  rp_Scatter :: "scatter_dot list"
  rp_Verdicts :: "verdict_view list"
  rp_Rows :: "table_row list"
  rp_MoreRows :: "table_row list"

definition recommend_page_of ::
    "params \<Rightarrow> params \<Rightarrow> Summary \<Rightarrow> Candidate list \<Rightarrow> nat option \<times> nat option \<times> keep_reason option \<Rightarrow>
     (Result \<times> gint \<times> gint) option \<Rightarrow> recommend_page" where
  "recommend_page_of current displayCurrent base candidates rec_index top_run =
     (let rows = html_rows candidates (fst rec_index) (GroupEquivalent candidates) 0
      in \<lparr>rp_Evaluated = length candidates, rp_Feasible = length (filter ca_Feasible candidates), rp_Base = base,
          rp_Conclusion = buildConclusion current displayCurrent base candidates rec_index,
          rp_Charts = (case top_run of None \<Rightarrow> Some [] | Some (r, high, tot) \<Rightarrow> buildResultCharts r high tot),
          rp_Scatter = scatter_dots current base candidates,
          rp_Verdicts = buildVerdict base #
            (case fst rec_index of None \<Rightarrow> [] | Some i \<Rightarrow> [buildVerdict (ca_Summary (candidates ! i))]),
          rp_Rows = take htmlTopGroups rows, rp_MoreRows = drop htmlTopGroups rows\<rparr>)"

section \<open>The pages and the text report agree\<close>

definition row_line :: "conclusion_row \<Rightarrow> conclusion_line" where
  "row_line r =
     (if cw_Changed r then Change_line (cw_Parameter r) (cw_Current r) (cw_Recommended r)
      else Keep_line (cw_Parameter r) (cw_Current r))"

lemma conclusion_agrees:
  "recommendationLines current displayCurrent base (Some c) reason =
     map row_line (conclusion_rows current displayCurrent c) @ [effect_of base (ca_Summary c)]"
proof -
  have "map row_line (concat (map f ks)) = concat (map (\<lambda>k. map row_line (f k)) ks)" for f :: "string \<Rightarrow> conclusion_row list" and ks
    by (simp add: map_concat comp_def)
  moreover have "map row_line (case map_of current key of
         None \<Rightarrow> []
       | Some cur \<Rightarrow>
           (case map_of (ca_Overrides c) key of
              Some v \<Rightarrow> if v \<noteq> cur
                then [\<lparr>cw_Parameter = key, cw_Current = param displayCurrent key, cw_Recommended = v, cw_Changed = True\<rparr>]
                else [\<lparr>cw_Parameter = key, cw_Current = param displayCurrent key, cw_Recommended = param displayCurrent key,
                       cw_Changed = False\<rparr>]
            | None \<Rightarrow> [\<lparr>cw_Parameter = key, cw_Current = param displayCurrent key, cw_Recommended = param displayCurrent key,
                       cw_Changed = False\<rparr>])) =
     (case map_of current key of
        None \<Rightarrow> []
      | Some cur \<Rightarrow>
          (case map_of (ca_Overrides c) key of
             Some v \<Rightarrow> if v \<noteq> cur then [Change_line key (param displayCurrent key) v] else [Keep_line key (param displayCurrent key)]
           | None \<Rightarrow> [Keep_line key (param displayCurrent key)]))" for key
    by (auto simp: row_line_def split: option.splits)
  ultimately show ?thesis by (simp only: recommendationLines_def conclusion_rows_def effect_of_def option.case Let_def)
qed

lemma html_rows_length: "length (html_rows candidates recIdx gs rank) = length gs"
  by (induction gs arbitrary: rank) (simp_all add: Let_def)

lemma html_rows_complete:
  "rp_Rows (recommend_page_of cur disp base cs ri top_run) @ rp_MoreRows (recommend_page_of cur disp base cs ri top_run) =
     html_rows cs (fst ri) (GroupEquivalent cs) 0"
  by (simp add: recommend_page_of_def Let_def)

lemma comma_loop_digits: "comma \<notin> set s \<Longrightarrow> filter (\<lambda>c. c \<noteq> comma) (comma_loop s) = s"
  by (induction s) auto

lemma xTickIndexes_bound: "i \<in> set (xTickIndexes n) \<Longrightarrow> i < n"
proof -
  assume i: "i \<in> set (xTickIndexes n)"
  then have n: "n \<noteq> 0" by (auto simp: xTickIndexes_def split: if_splits)
  let ?k = "max (min 7 n - 1) 1"
  obtain j where j: "j < min 7 n" "i = j * (n - 1) div ?k" using i n by (auto simp: xTickIndexes_def Let_def)
  have "j * (n - 1) \<le> ?k * (n - 1)" using j(1) by (intro mult_le_mono1) auto
  then have "j * (n - 1) div ?k \<le> n - 1" by (metis div_le_mono max.strict_coboundedI2 nonzero_mult_div_cancel_left less_numeral_extra(1) not_gr_zero)
  then show ?thesis using j(2) n by linarith
qed

section \<open>Timelines lose no point\<close>

text \<open>Points in time order within a span whose product with the number of buckets fits an \<^verbatim>\<open>int64\<close>.\<close>

definition timeline_ok :: "nat \<Rightarrow> gint \<Rightarrow> gint \<Rightarrow> SimPoint list \<Rightarrow> bool" where
  "timeline_ok n start_ms span_ms ps \<longleftrightarrow> 0 < n \<and> 0 < span_ms \<and> span_ms * int n < 2 ^ 63 \<and>
     (\<forall>p \<in> set ps. 0 \<le> UnixMilli (sp_Time p) - start_ms \<and> UnixMilli (sp_Time p) - start_ms \<le> span_ms)"

lemma bucket_index_range:
  assumes "timeline_ok n start_ms span_ms ps" "p \<in> set ps"
  shows "0 \<le> bucket_index n start_ms span_ms p" "bucket_index n start_ms span_ms p < int n"
proof -
  let ?d = "UnixMilli (sp_Time p) - start_ms"
  have d: "0 \<le> ?d" "?d \<le> span_ms" "0 < n" "0 < span_ms" "span_ms * int n < 2 ^ 63" using assms by (auto simp: timeline_ok_def)
  have s: "span_ms * 1 \<le> span_ms * int n" using d by (intro mult_left_mono) auto
  have e: "gsub (UnixMilli (sp_Time p)) start_ms = ?d" using d s by (intro gsub_id; linarith)
  have m: "?d * int n \<le> span_ms * int n" using d by (intro mult_right_mono) auto
  define q where "q = ?d * int n"
  have q: "0 \<le> q" "q < 2 ^ 63"
    using d(1) order_le_less_trans [OF m d(5)] unfolding q_def by (auto intro: mult_nonneg_nonneg)
  have g: "gmul ?d (int n) = q" unfolding q_def by (rule gmul_id) (use q in \<open>simp_all add: q_def\<close>)
  have "gdiv (gmul ?d (int n)) span_ms = q div span_ms" unfolding g using q d(4) by (rule gdiv_nonneg)
  then show "0 \<le> bucket_index n start_ms span_ms p" "bucket_index n start_ms span_ms p < int n"
    using d q by (auto simp: bucket_index_def e pos_imp_zdiv_nonneg_iff)
qed

lemma fill_buckets_counts:
  assumes "timeline_ok n start_ms span_ms ps" "length bs = n"
  shows "\<exists>bs'. fill_buckets n start_ms span_ms get ps bs = Some bs' \<and> length bs' = n \<and>
     sum_list (map snd bs') = sum_list (map snd bs) + length (filter (\<lambda>p. get p \<noteq> None) ps)"
  using assms
proof (induction ps arbitrary: bs)
  case (Cons p ps)
  have ok: "timeline_ok n start_ms span_ms ps" using Cons.prems(1) by (simp add: timeline_ok_def)
  show ?case
  proof (cases "get p")
    case None
    then show ?thesis using Cons.IH [OF ok] Cons.prems by simp
  next
    case (Some v)
    define i where "i = bucket_index n start_ms span_ms p"
    have i: "0 \<le> i" "i < int n" using bucket_index_range [OF Cons.prems(1), of p] by (simp_all add: i_def)
    let ?bs = "bs[nat i := (add_value v (fst (bs ! nat i)), snd (bs ! nat i) + 1)]"
    have "sum_list (map snd ?bs) = sum_list (map snd bs) + 1"
      using i Cons.prems(2) by (simp add: map_update sum_list_update nat_less_iff)
    moreover have "fill_buckets n start_ms span_ms get (p # ps) bs = fill_buckets n start_ms span_ms get ps ?bs"
      using i Cons.prems(2) Some by (simp add: i_def [symmetric] Let_def)
    ultimately show ?thesis using Cons.IH [OF ok, of ?bs] Cons.prems(2) Some by auto
  qed
qed simp

end
