(* ===== verification/Simulator_Cli.thy ===== *)
theory Simulator_Cli
  imports Report
begin

text \<open>
  \<^verbatim>\<open>cmd/simulator/simulate.go\<close> and \<^verbatim>\<open>cmd/simulator/recommend.go\<close>, the commands
  \<^verbatim>\<open>simulate\<close>, \<^verbatim>\<open>compare\<close> and \<^verbatim>\<open>recommend\<close> of the simulator, from their parsed flags to
  what they write.

  A command returns its error, if any, and the list of what it wrote: files and one report on
  the standard output, as values; the layout of the tables is not part of the model, and the templates of the HTML pages are
  the functions \<open>ce_html\<close> and \<open>ce_recommendHTML\<close> on the pages of \<open>Report\<close>. The file system is the two functions \<open>ce_readFile\<close> and \<open>ce_create\<close>. A
  command that does not return, because a replay does not end or panics, is \<open>None\<close>.
\<close>

section \<open>Flags and files\<close>

record commonFlags =
  cf_metricsPath :: string
  cf_initialPU :: gint
  cf_scaleUpInterval :: duration
  cf_scaleDownInterval :: duration
  cf_lowConfidenceCPU :: float64
  cf_nodeHourPrice :: float64
  cf_format :: string

text \<open>The values of the flags that are not given.\<close>

definition default_flags :: commonFlags where
  "default_flags = \<lparr>cf_metricsPath = [], cf_initialPU = 0, cf_scaleUpInterval = DefaultScaleUpInterval,
     cf_scaleDownInterval = DefaultScaleDownInterval, cf_lowConfidenceCPU = DefaultLowConfidenceCPU,
     cf_nodeHourPrice = f_zero, cf_format = ''text''\<rparr>"

datatype cli_err =
    Cli_metrics_required
  | Cli_config_required
  | Cli_no_configs
  | Cli_file string string
  | Cli_csv load_err
  | Cli_manifest string manifest_err
  | Cli_run string sim_err
  | Cli_unknown_format string
  | Cli_unknown_instance_config string
  | Cli_unknown_guideline string
  | Cli_bad_flag string string
  | Cli_recommend rec_error

record compareRow =
  cr_Config :: string
  cr_Summary :: Summary

datatype table_line = Table_row table_row | Table_more nat

record recommend_text =
  rt_ceiling :: "gint option"
  rt_limits :: "(gint \<times> gint) option"
  rt_evaluated :: nat
  rt_feasible :: nat
  rt_rows :: "table_line list"
  rt_conclusion :: "conclusion_line list"
  rt_further :: "(nat \<times> string \<times> float64 \<times> float64) option"
  rt_assessments :: "(gint \<times> MinPUAssessment) list"
  rt_note :: bool

datatype report =
    Simulate_json string Summary "Event list"
  | Simulate_text string Result
  | Compare_json "compareRow list"
  | Compare_text "compareRow list"
  | Recommend_json Summary "Candidate list"
  | Recommend_text recommend_text

datatype cli_output = Wrote_file string string | Printed report

record cli_env =
  ce_readFile :: "string \<Rightarrow> string + string"
  ce_create :: "string \<Rightarrow> string option"
  ce_text :: text_env
  ce_yaml :: yaml_env
  ce_rec :: rec_env
  ce_intstr :: "string \<Rightarrow> IntOrString"
  ce_html :: "simulate_page \<Rightarrow> string"
  ce_recommendHTML :: "recommend_page \<Rightarrow> string"

type_synonym run_result = "(cli_err option \<times> cli_output list) option"

definition loadPoints :: "cli_env \<Rightarrow> commonFlags \<Rightarrow> cli_err + Point list" where
  "loadPoints env c =
     (if cf_metricsPath c = [] then Inl Cli_metrics_required
      else case ce_readFile env (cf_metricsPath c) of
             Inl err \<Rightarrow> Inl (Cli_file (cf_metricsPath c) err)
           | Inr text \<Rightarrow> (case LoadCSV (ce_text env) text of Inl err \<Rightarrow> Inl (Cli_csv err) | Inr points \<Rightarrow> Inr points))"

definition load_config :: "cli_env \<Rightarrow> string \<Rightarrow> cli_err + SpannerAutoscaler \<times> SpannerAutoscaleSchedule list" where
  "load_config env path =
     (case ce_readFile env path of
        Inl err \<Rightarrow> Inl (Cli_file path err)
      | Inr text \<Rightarrow> (case LoadManifests (ce_yaml env) text of Inl err \<Rightarrow> Inl (Cli_manifest path err) | Inr r \<Rightarrow> Inr r))"

definition config_of :: "commonFlags \<Rightarrow> SpannerAutoscaler \<Rightarrow> SpannerAutoscaleSchedule list \<Rightarrow> Config" where
  "config_of c sa schedules =
     \<lparr>cfg_Autoscaler = Some sa, cfg_Schedules = schedules, cfg_InitialPU = cf_initialPU c,
      cfg_ScaleUpInterval = cf_scaleUpInterval c, cfg_ScaleDownInterval = cf_scaleDownInterval c,
      cfg_LowConfidenceCPU = cf_lowConfidenceCPU c\<rparr>"

definition simulate :: "cli_env \<Rightarrow> commonFlags \<Rightarrow> string \<Rightarrow> Point list \<Rightarrow> (cli_err + Result) option" where
  "simulate env c configPath points =
     (case load_config env configPath of
        Inl err \<Rightarrow> Some (Inl err)
      | Inr (sa, schedules) \<Rightarrow>
          (case Run (re_sim (ce_rec env)) (config_of c sa schedules) points of
             None \<Rightarrow> None
           | Some (Inl err) \<Rightarrow> Some (Inl (Cli_run configPath err))
           | Some (Inr r) \<Rightarrow> Some (Inr r)))"

definition cost :: "commonFlags \<Rightarrow> float64 \<Rightarrow> float64" where
  "cost c puHours = f_mul (f_div puHours (f_of_int 1000)) (cf_nodeHourPrice c)"

definition configTargets :: "cli_env \<Rightarrow> string \<Rightarrow> cli_err + gint \<times> gint" where
  "configTargets env configPath =
     (case load_config env configPath of
        Inl err \<Rightarrow> Inl err
      | Inr (sa, _) \<Rightarrow>
          Inr (target_or_zero (cpu_HighPriority (sc_TargetCPUUtilization (scale_config sa))),
               target_or_zero (cpu_Total (sc_TargetCPUUtilization (scale_config sa)))))"

text \<open>\<^verbatim>\<open>os.Create\<close>, the write and \<^verbatim>\<open>Close\<close>; a file is not asked for with the empty path.\<close>

definition write_file :: "cli_env \<Rightarrow> string \<Rightarrow> string \<Rightarrow> cli_err option \<times> cli_output list" where
  "write_file env path content =
     (case ce_create env path of Some err \<Rightarrow> (Some (Cli_file path err), []) | None \<Rightarrow> (None, [Wrote_file path content]))"

text \<open>The outputs of a step followed by the next one, which runs only without an error.\<close>

definition and_then :: "cli_err option \<times> cli_output list \<Rightarrow> run_result \<Rightarrow> run_result" where
  "and_then r next_step =
     (case fst r of
        Some err \<Rightarrow> Some r
      | None \<Rightarrow> (case next_step of None \<Rightarrow> None | Some r' \<Rightarrow> Some (fst r', snd r @ snd r')))"

section \<open>simulate and compare\<close>

definition simulate_html :: "cli_env \<Rightarrow> string \<Rightarrow> string \<Rightarrow> Result \<Rightarrow> cli_err option \<times> cli_output list" where
  "simulate_html env configPath htmlPath result =
     (if htmlPath = [] then (None, [])
      else case configTargets env configPath of
             Inl err \<Rightarrow> (Some err, [])
           | Inr (targetHigh, targetTotal) \<Rightarrow> write_file env htmlPath (ce_html env (simulate_page_of result targetHigh targetTotal)))"

definition runSimulate :: "cli_env \<Rightarrow> commonFlags \<Rightarrow> string \<Rightarrow> string \<Rightarrow> string \<Rightarrow> run_result" where
  "runSimulate env common configPath pointsCSV htmlPath =
     (if configPath = [] then Some (Some Cli_config_required, [])
      else case loadPoints env common of
             Inl err \<Rightarrow> Some (Some err, [])
           | Inr points \<Rightarrow>
          (case simulate env common configPath points of
             None \<Rightarrow> None
           | Some (Inl err) \<Rightarrow> Some (Some err, [])
           | Some (Inr result) \<Rightarrow>
               and_then (if pointsCSV = [] then (None, []) else write_file env pointsCSV (WritePointsCSV (ce_text env) result))
                 (and_then (simulate_html env configPath htmlPath result)
                    (Some (if cf_format common = ''json''
                           then (None, [Printed (Simulate_json configPath (res_Summary result) (res_Events result))])
                           else if cf_format common = ''text'' then (None, [Printed (Simulate_text configPath result)])
                           else (Some (Cli_unknown_format (cf_format common)), []))))))"

fun compare_rows :: "cli_env \<Rightarrow> commonFlags \<Rightarrow> Point list \<Rightarrow> string list \<Rightarrow> (cli_err + compareRow list) option" where
  "compare_rows env common points [] = Some (Inr [])"
| "compare_rows env common points (path # paths) =
     (case simulate env common path points of
        None \<Rightarrow> None
      | Some (Inl err) \<Rightarrow> Some (Inl err)
      | Some (Inr result) \<Rightarrow>
          (case compare_rows env common points paths of
             None \<Rightarrow> None
           | Some (Inl err) \<Rightarrow> Some (Inl err)
           | Some (Inr rows) \<Rightarrow> Some (Inr (\<lparr>cr_Config = path, cr_Summary = res_Summary result\<rparr> # rows))))"

definition runCompare :: "cli_env \<Rightarrow> commonFlags \<Rightarrow> string list \<Rightarrow> run_result" where
  "runCompare env common configPaths =
     (if length configPaths = 0 then Some (Some Cli_no_configs, [])
      else case loadPoints env common of
             Inl err \<Rightarrow> Some (Some err, [])
           | Inr points \<Rightarrow>
          (case compare_rows env common points configPaths of
             None \<Rightarrow> None
           | Some (Inl err) \<Rightarrow> Some (Some err, [])
           | Some (Inr rows) \<Rightarrow>
               Some (if cf_format common = ''json'' then (None, [Printed (Compare_json rows)])
                     else if cf_format common = ''text'' then (None, [Printed (Compare_text rows)])
                     else (Some (Cli_unknown_format (cf_format common)), []))))"

section \<open>The search space from the flags\<close>

record searchSpaceFlags =
  sf_minPUs :: string
  sf_stepSizes :: string
  sf_intervals :: string
  sf_windows :: string
  sf_scaleupStepSizes :: string
  sf_scaleupIntervals :: string
  sf_highTargets :: string
  sf_totalTargets :: string

text \<open>\<^verbatim>\<open>strings.SplitSeq\<close> with a separator of one character.\<close>

fun split_at :: "char \<Rightarrow> string \<Rightarrow> string \<Rightarrow> string list" where
  "split_at sep acc [] = [acc]"
| "split_at sep acc (c # s) = (if c = sep then acc # split_at sep [] s else split_at sep (acc @ [c]) s)"

definition splitList :: "string \<Rightarrow> char \<Rightarrow> string list" where
  "splitList s sep = (if s = [] then [] else filter (\<lambda>part. part \<noteq> []) (map TrimSpace (split_at sep [] s)))"

text \<open>\<^verbatim>\<open>strconv.Atoi\<close>: an optional sign and decimal digits, in the range of an \<^verbatim>\<open>int\<close>.\<close>

definition is_digit :: "char \<Rightarrow> bool" where
  "is_digit c \<longleftrightarrow> (let n = of_char c :: nat in 48 \<le> n \<and> n \<le> 57)"

definition Atoi :: "string \<Rightarrow> gint option" where
  "Atoi s =
     (let neg = (s \<noteq> [] \<and> hd s = CHR 0x2D); ds = (if s \<noteq> [] \<and> (hd s = CHR 0x2D \<or> hd s = CHR 0x2B) then tl s else s);
          n = int (read_from 0 ds); v = (if neg then - n else n)
      in if ds \<noteq> [] \<and> list_all is_digit ds \<and> in_int64 v then Some v else None)"

fun parse_ints :: "string list \<Rightarrow> string + gint list" where
  "parse_ints [] = Inr []"
| "parse_ints (part # parts) =
     (case Atoi part of
        None \<Rightarrow> Inl part
      | Some v \<Rightarrow> (case parse_ints parts of Inl bad \<Rightarrow> Inl bad | Inr vs \<Rightarrow> Inr (v # vs)))"

definition parseIntList :: "string \<Rightarrow> string + gint list" where
  "parseIntList s = parse_ints (splitList s CHR 0x2C)"

fun parse_durations :: "(string \<Rightarrow> string + duration) \<Rightarrow> string list \<Rightarrow> string + duration list" where
  "parse_durations parse [] = Inr []"
| "parse_durations parse (part # parts) =
     (case parse (TrimSpace part) of
        Inl err \<Rightarrow> Inl part
      | Inr d \<Rightarrow> (case parse_durations parse parts of Inl bad \<Rightarrow> Inl bad | Inr ds \<Rightarrow> Inr (d # ds)))"

definition ParseDurations :: "(string \<Rightarrow> string + duration) \<Rightarrow> string \<Rightarrow> string + duration list" where
  "ParseDurations parse s = (if s = [] then Inr [] else parse_durations parse (split_at CHR 0x2C [] s))"

definition window_alternative :: "string \<Rightarrow> string list" where
  "window_alternative alternative = (if alternative = ''none'' then [] else splitList alternative CHR 0x3B)"

definition flag_result :: "string \<Rightarrow> string + 'a \<Rightarrow> cli_err + 'a" where
  "flag_result name r = (case r of Inl bad \<Rightarrow> Inl (Cli_bad_flag name bad) | Inr v \<Rightarrow> Inr v)"

definition buildSearchSpace :: "cli_env \<Rightarrow> searchSpaceFlags \<Rightarrow> cli_err + SearchSpace" where
  "buildSearchSpace env flags =
     (let durations = ParseDurations (se_parseDuration (re_sim (ce_rec env)))
      in case flag_result ''-min-pu'' (parseIntList (sf_minPUs flags)) of
           Inl err \<Rightarrow> Inl err
         | Inr minPUs \<Rightarrow>
        (case flag_result ''-scaledown-interval'' (durations (sf_intervals flags)) of
           Inl err \<Rightarrow> Inl err
         | Inr intervals \<Rightarrow>
        (case flag_result ''-scaleup-interval'' (durations (sf_scaleupIntervals flags)) of
           Inl err \<Rightarrow> Inl err
         | Inr scaleupIntervals \<Rightarrow>
        (case flag_result ''-target-high-cpu'' (parseIntList (sf_highTargets flags)) of
           Inl err \<Rightarrow> Inl err
         | Inr highTargets \<Rightarrow>
        (case flag_result ''-target-total-cpu'' (parseIntList (sf_totalTargets flags)) of
           Inl err \<Rightarrow> Inl err
         | Inr totalTargets \<Rightarrow>
             Inr \<lparr>sp_MinPUs = minPUs,
                  sp_ScaledownStepSizes = map (ce_intstr env) (splitList (sf_stepSizes flags) CHR 0x2C),
                  sp_ScaledownIntervals = intervals,
                  sp_ScaledownAllowedTimes = map window_alternative (splitList (sf_windows flags) CHR 0x7C),
                  sp_ScaleupStepSizes = map (ce_intstr env) (splitList (sf_scaleupStepSizes flags) CHR 0x2C),
                  sp_ScaleupIntervals = scaleupIntervals, sp_TargetHighPriorityCPUs = highTargets,
                  sp_TargetTotalCPUs = totalTargets\<rparr>)))))"

section \<open>recommend\<close>

definition applyInstanceConfigGuideline :: "Constraints \<Rightarrow> string \<Rightarrow> cli_err + Constraints" where
  "applyInstanceConfigGuideline con instanceConfig =
     (if instanceConfig = ''regional'' then Inr (con\<lparr>con_MaxHighPriorityCPU := RecommendedHighPriorityCPURegional\<rparr>)
      else if instanceConfig = ''multi-region'' then Inr (con\<lparr>con_MaxHighPriorityCPU := RecommendedHighPriorityCPUMultiRegion\<rparr>)
      else if instanceConfig = ''none'' then Inr con
      else Inl (Cli_unknown_instance_config instanceConfig))"

definition applyPUChangeGuideline :: "Constraints \<Rightarrow> string \<Rightarrow> Summary \<Rightarrow> cli_err + Constraints" where
  "applyPUChangeGuideline con mode base =
     (if mode = ''base''
      then Inr (con\<lparr>con_MaxScaleStepViolations := Some (int (sum_ScaleStepViolations base)),
                    con_MaxShortScaleGaps := Some (int (sum_ScaleGapsUnder10Min base))\<rparr>)
      else if mode = ''strict'' then Inr (con\<lparr>con_MaxScaleStepViolations := Some 0, con_MaxShortScaleGaps := Some 0\<rparr>)
      else if mode = ''none'' then Inr con
      else Inl (Cli_unknown_guideline mode))"

record recommendFlags =
  rf_configPath :: string
  rf_space :: searchSpaceFlags
  rf_maxExceeded :: float64
  rf_maxP99 :: float64
  rf_instanceConfig :: string
  rf_puChangeGuideline :: string
  rf_auto :: bool
  rf_maxChanges :: gint
  rf_savingsTolerance :: float64
  rf_top :: gint
  rf_showInfeasible :: bool
  rf_htmlPath :: string

definition start_constraints :: "recommendFlags \<Rightarrow> Constraints" where
  "start_constraints flags =
     \<lparr>con_MaxTargetExceededMinutes = rf_maxExceeded flags,
      con_MaxSimCPUP99 = (if f_less f_zero (rf_maxP99 flags) then Some (rf_maxP99 flags) else None),
      con_MaxHighPriorityCPU = 0, con_MaxScaleStepViolations = None, con_MaxShortScaleGaps = None, con_MaxGapMinutes = None\<rparr>"

text \<open>The candidates generated for the dimensions that are left empty; \<open>None\<close> stands for a panic.\<close>

definition auto_space :: "recommendFlags \<Rightarrow> commonFlags \<Rightarrow> SpannerAutoscaler \<Rightarrow> Point list \<Rightarrow> SearchSpace \<Rightarrow> SearchSpace option" where
  "auto_space flags common sa points space =
     (if \<not> rf_auto flags then Some space
      else let space = FillGuidelineStepCandidates sa (cf_scaleUpInterval common) (cf_scaleDownInterval common) space
           in if length (sp_MinPUs space) = 0
              then (case MinPUCandidates sa points of None \<Rightarrow> None | Some pus \<Rightarrow> Some (space\<lparr>sp_MinPUs := pus\<rparr>))
              else Some space)"

definition RecommendedIndex_of ::
    "cli_env \<Rightarrow> recommendFlags \<Rightarrow> commonFlags \<Rightarrow> SpannerAutoscaler \<Rightarrow> Summary \<Rightarrow> Candidate list \<Rightarrow>
     nat option \<times> nat option \<times> keep_reason option" where
  "RecommendedIndex_of env flags common sa base candidates =
     RecommendedIndex (se_gsv (re_sim (ce_rec env))) base
       (CurrentParameterValues (ce_rec env) sa (cf_scaleUpInterval common) (cf_scaleDownInterval common))
       candidates (rf_savingsTolerance flags) (rf_maxChanges flags)"

record search_result =
  sr_Autoscaler :: SpannerAutoscaler
  sr_Points :: "Point list"
  sr_Config :: Config
  sr_Base :: Summary
  sr_Constraints :: Constraints
  sr_Candidates :: "Candidate list"

text \<open>\<^verbatim>\<open>runRecommend\<close> up to the candidates; the value of \<open>order\<close> is the order in which they are evaluated.\<close>

definition recommend_search ::
    "cli_env \<Rightarrow> nat list \<Rightarrow> commonFlags \<Rightarrow> recommendFlags \<Rightarrow> (cli_err + search_result) option" where
  "recommend_search env order common flags =
     (if rf_configPath flags = [] then Some (Inl Cli_config_required)
      else case buildSearchSpace env (rf_space flags) of
             Inl err \<Rightarrow> Some (Inl err)
           | Inr space \<Rightarrow>
          (case applyInstanceConfigGuideline (start_constraints flags) (rf_instanceConfig flags) of
             Inl err \<Rightarrow> Some (Inl err)
           | Inr con \<Rightarrow>
          (case loadPoints env common of
             Inl err \<Rightarrow> Some (Inl err)
           | Inr points \<Rightarrow>
          (case load_config env (rf_configPath flags) of
             Inl err \<Rightarrow> Some (Inl err)
           | Inr (sa, schedules) \<Rightarrow>
          (case auto_space flags common sa points space of
             None \<Rightarrow> None
           | Some space \<Rightarrow>
          (case Run (re_sim (ce_rec env)) (config_of common sa schedules) points of
             None \<Rightarrow> None
           | Some (Inl err) \<Rightarrow> Some (Inl (Cli_run (rf_configPath flags) err))
           | Some (Inr baseResult) \<Rightarrow>
          (case applyPUChangeGuideline con (rf_puChangeGuideline flags) (res_Summary baseResult) of
             Inl err \<Rightarrow> Some (Inl err)
           | Inr con \<Rightarrow>
               (let con = con\<lparr>con_MaxGapMinutes := Some (sum_GapMinutes (res_Summary baseResult))\<rparr>
                in case Recommend (ce_rec env) order (config_of common sa schedules) space con points of
                     None \<Rightarrow> None
                   | Some (Inl err) \<Rightarrow> Some (Inl (Cli_recommend err))
                   | Some (Inr candidates) \<Rightarrow>
                       Some (Inr \<lparr>sr_Autoscaler = sa, sr_Points = points, sr_Config = config_of common sa schedules,
                         sr_Base = res_Summary baseResult, sr_Constraints = con, sr_Candidates = candidates\<rparr>)))))))))"

text \<open>The replay of the recommended candidate for the charts of the report.\<close>

definition top_result ::
    "cli_env \<Rightarrow> recommendFlags \<Rightarrow> commonFlags \<Rightarrow> search_result \<Rightarrow> (cli_err + (Result \<times> gint \<times> gint) option) option" where
  "top_result env flags common r =
     (case fst (RecommendedIndex_of env flags common (sr_Autoscaler r) (sr_Base r) (sr_Candidates r)) of
        None \<Rightarrow> Some (Inr None)
      | Some idx \<Rightarrow>
     (case ca_Autoscaler (sr_Candidates r ! idx) of
        None \<Rightarrow> Some (Inr None)
      | Some sa \<Rightarrow>
     (case Run (re_sim (ce_rec env)) ((sr_Config r)\<lparr>cfg_Autoscaler := Some sa\<rparr>) (sr_Points r) of
        None \<Rightarrow> None
      | Some (Inl err) \<Rightarrow> Some (Inl (Cli_run [] err))
      | Some (Inr result) \<Rightarrow>
          Some (Inr (Some (result, target_or_zero (cpu_HighPriority (sc_TargetCPUUtilization (scale_config sa))),
            target_or_zero (cpu_Total (sc_TargetCPUUtilization (scale_config sa)))))))))"

definition recommend_html :: "cli_env \<Rightarrow> recommendFlags \<Rightarrow> commonFlags \<Rightarrow> search_result \<Rightarrow> run_result" where
  "recommend_html env flags common r =
     (if rf_htmlPath flags = [] then Some (None, [])
      else case top_result env flags common r of
             None \<Rightarrow> None
           | Some (Inl err) \<Rightarrow> Some (Some err, [])
           | Some (Inr top_run) \<Rightarrow>
               Some (write_file env (rf_htmlPath flags)
                 (ce_recommendHTML env
                   (recommend_page_of
                     (CurrentParameterValues (ce_rec env) (sr_Autoscaler r) (cf_scaleUpInterval common) (cf_scaleDownInterval common))
                     (CurrentParameterDisplay (ce_rec env) (sr_Autoscaler r) (cf_scaleUpInterval common) (cf_scaleDownInterval common))
                     (sr_Base r) (sr_Candidates r)
                     (RecommendedIndex_of env flags common (sr_Autoscaler r) (sr_Base r) (sr_Candidates r)) top_run))))"

fun table_rows :: "Candidate list \<Rightarrow> nat option \<Rightarrow> bool \<Rightarrow> gint \<Rightarrow> nat list list \<Rightarrow> nat \<Rightarrow> gint \<Rightarrow> table_line list" where
  "table_rows candidates recIdx showInfeasible top_n [] rank shown = []"
| "table_rows candidates recIdx showInfeasible top_n (g # gs) rank shown =
     (let rep = (case recIdx of Some r \<Rightarrow> if r \<in> set g then r else g ! 0 | None \<Rightarrow> g ! 0);
          c = candidates ! rep
      in if \<not> ca_Feasible c \<and> \<not> showInfeasible
         then table_rows candidates recIdx showInfeasible top_n gs (Suc rank) shown
         else if shown + 1 > top_n then [Table_more (length (g # gs))]
         else Table_row \<lparr>tr_rank = rank + 1, tr_candidate = rep, tr_equivalents = length g - 1,
                tr_kind = row_kind_of c (recIdx = Some rep)\<rparr> #
              table_rows candidates recIdx showInfeasible top_n gs (Suc rank) (shown + 1))"

definition recommend_report :: "cli_env \<Rightarrow> recommendFlags \<Rightarrow> commonFlags \<Rightarrow> search_result \<Rightarrow> recommend_text" where
  "recommend_report env flags common r =
     (let sa = sr_Autoscaler r; base = sr_Base r; candidates = sr_Candidates r; con = sr_Constraints r;
          current = CurrentParameterValues (ce_rec env) sa (cf_scaleUpInterval common) (cf_scaleDownInterval common);
          displayCurrent = CurrentParameterDisplay (ce_rec env) sa (cf_scaleUpInterval common) (cf_scaleDownInterval common);
          feasibleCount = length (filter ca_Feasible candidates);
          rec_index = RecommendedIndex_of env flags common sa base candidates;
          best = map_option (\<lambda>i. candidates ! i) (fst rec_index)
      in \<lparr>rt_ceiling = (if con_MaxHighPriorityCPU con > 0 then Some (con_MaxHighPriorityCPU con) else None),
          rt_limits = (case con_MaxScaleStepViolations con of None \<Rightarrow> None
             | Some m \<Rightarrow> map_option (\<lambda>g. (m, g)) (con_MaxShortScaleGaps con)),
          rt_evaluated = length candidates, rt_feasible = feasibleCount,
          rt_rows = table_rows candidates (fst rec_index) (rf_showInfeasible flags \<or> feasibleCount = 0) (rf_top flags)
             (GroupEquivalent candidates) 0 0,
          rt_conclusion = recommendationLines current displayCurrent base best (snd (snd rec_index)),
          rt_further = (case (best, fst (snd rec_index)) of
             (Some b, Some k) \<Rightarrow> Some (furtherOptionLine current b (candidates ! k) (groupRank candidates k))
           | _ \<Rightarrow> None),
          rt_assessments = (sum_SpecMinPU base, AssessMinPU base) #
             (case best of None \<Rightarrow> [] | Some b \<Rightarrow> [(sum_SpecMinPU (ca_Summary b), AssessMinPU (ca_Summary b))]),
          rt_note = f_less f_zero (sum_LowConfidenceMinutes base)\<rparr>)"

definition runRecommend :: "cli_env \<Rightarrow> nat list \<Rightarrow> commonFlags \<Rightarrow> recommendFlags \<Rightarrow> run_result" where
  "runRecommend env order common flags =
     (case recommend_search env order common flags of
        None \<Rightarrow> None
      | Some (Inl err) \<Rightarrow> Some (Some err, [])
      | Some (Inr r) \<Rightarrow>
          (case recommend_html env flags common r of
             None \<Rightarrow> None
           | Some html \<Rightarrow>
               and_then html
                 (Some (if cf_format common = ''json'' then (None, [Printed (Recommend_json (sr_Base r) (sr_Candidates r))])
                        else if cf_format common = ''text'' then (None, [Printed (Recommend_text (recommend_report env flags common r))])
                        else (Some (Cli_unknown_format (cf_format common)), [])))))"

section \<open>What the command recommends\<close>

lemma Recommend_member:
  assumes "Recommend env order base space con points = Some (Inr cs)" "cfg_Autoscaler base = Some sa" "c \<in> set cs"
  shows "\<exists>combo. evaluate env base sa con points combo = Some c"
proof -
  let ?combos = "cartesian (buildDimensions env space)" and ?e = "evaluate env base sa con points"
  define slots where "slots = fill ?e ?combos order (replicate (length ?combos) None)"
  have no: "None \<notin> set slots" and cs: "\<exists>lt. weak_order lt \<and> cs = sort_by lt (map the slots)"
    using assms(1,2) ranked_before_weak_order
    by (auto simp: Recommend_def Let_def slots_def split: if_splits)
  then have "mset cs = mset (map the slots)" using sort_ok_mset [OF sort_by_ok] by blast
  then obtain i where i: "i < length slots" "c = the (slots ! i)"
    using assms(3) by (metis in_set_conv_nth length_map nth_map set_mset_mset)
  then have "slots ! i = ?e (?combos ! i) \<or> slots ! i = None"
    by (simp add: slots_def fill_length fill_nth)
  then show ?thesis using i no by (metis nth_mem option.collapse)
qed

lemma recommend_search_Inr:
  assumes "recommend_search env order common flags = Some (Inr r)"
  obtains con con' space points sa schedules where
    "applyInstanceConfigGuideline (start_constraints flags) (rf_instanceConfig flags) = Inr con"
    "applyPUChangeGuideline con (rf_puChangeGuideline flags) (sr_Base r) = Inr con'"
    "sr_Constraints r = con'\<lparr>con_MaxGapMinutes := Some (sum_GapMinutes (sr_Base r))\<rparr>"
    "sr_Config r = config_of common sa schedules" "sr_Autoscaler r = sa"
    "Recommend (ce_rec env) order (sr_Config r) space (sr_Constraints r) (sr_Points r) = Some (Inr (sr_Candidates r))"
  using assms
  by (auto simp: recommend_search_def Let_def split: if_splits sum.splits option.splits prod.splits intro: that)

lemma guideline_limits:
  assumes "applyPUChangeGuideline con mode base = Inr con'"
  shows "con_MaxTargetExceededMinutes con' = con_MaxTargetExceededMinutes con"
    "con_MaxHighPriorityCPU con' = con_MaxHighPriorityCPU con"
    "mode \<noteq> ''none'' \<Longrightarrow> \<exists>m g. con_MaxScaleStepViolations con' = Some m \<and> con_MaxShortScaleGaps con' = Some g \<and>
       m \<le> int (sum_ScaleStepViolations base) \<and> g \<le> int (sum_ScaleGapsUnder10Min base)"
  using assms by (auto simp: applyPUChangeGuideline_def split: if_splits)

lemma instance_limits:
  assumes "applyInstanceConfigGuideline con ic = Inr con'"
  shows "con_MaxTargetExceededMinutes con' = con_MaxTargetExceededMinutes con"
    "ic = ''regional'' \<Longrightarrow> con_MaxHighPriorityCPU con' = 65"
    "ic = ''multi-region'' \<Longrightarrow> con_MaxHighPriorityCPU con' = 45"
  using assms
  by (auto simp: applyInstanceConfigGuideline_def RecommendedHighPriorityCPURegional_def
      RecommendedHighPriorityCPUMultiRegion_def split: if_splits)

lemma recommended_candidate:
  assumes "fst (RecommendedIndex_of env flags common sa base cs) = Some i"
  shows "i < length cs" "ca_Feasible (cs ! i)" "f_less (sum_SimPUHours (ca_Summary (cs ! i))) (sum_SimPUHours base)"
    "0 < rf_maxChanges flags \<Longrightarrow> changedParameterCount
       (CurrentParameterValues (ce_rec env) sa (cf_scaleUpInterval common) (cf_scaleDownInterval common)) (cs ! i)
       \<le> rf_maxChanges flags"
  using recommended_in_pool [OF assms [unfolded RecommendedIndex_of_def]] by (auto simp: inPool_def eligible_def)

text \<open>
  C36. What \<^verbatim>\<open>simulator recommend\<close> recommends can be adopted: the configuration passes the
  validation of the admission webhook, its own replay gives the figures shown, it is strictly
  cheaper than the current one, changes at most the allowed number of parameters, spends no
  more time above target than allowed, and under the guidelines has no more large steps and no
  more short gaps between changes than the current configuration, no more minutes without data,
  and a high-priority target within Google's recommendation for the instance.
\<close>

theorem recommend_command_sound:
  assumes "recommend_search env order common flags = Some (Inr r)"
    "fst (RecommendedIndex_of env flags common (sr_Autoscaler r) (sr_Base r) (sr_Candidates r)) = Some i"
  shows "\<exists>sa' res. ca_Autoscaler (sr_Candidates r ! i) = Some sa' \<and>
     ValidateSpec (re_validPercent (ce_rec env)) (se_parse (re_sim (ce_rec env))) sa' = None \<and>
     Run (re_sim (ce_rec env)) ((sr_Config r)\<lparr>cfg_Autoscaler := Some sa'\<rparr>) (sr_Points r) = Some (Inr res) \<and>
     ca_Summary (sr_Candidates r ! i) = res_Summary res \<and>
     f_less (sum_SimPUHours (res_Summary res)) (sum_SimPUHours (sr_Base r)) \<and>
     (0 < rf_maxChanges flags \<longrightarrow> changedParameterCount
        (CurrentParameterValues (ce_rec env) (sr_Autoscaler r) (cf_scaleUpInterval common) (cf_scaleDownInterval common))
        (sr_Candidates r ! i) \<le> rf_maxChanges flags) \<and>
     \<not> f_less (rf_maxExceeded flags) (sum_TargetExceededMinutes (res_Summary res)) \<and>
     \<not> f_less (sum_GapMinutes (sr_Base r)) (sum_GapMinutes (res_Summary res)) \<and>
     (rf_puChangeGuideline flags \<noteq> ''none'' \<longrightarrow>
        sum_ScaleStepViolations (res_Summary res) \<le> sum_ScaleStepViolations (sr_Base r) \<and>
        sum_ScaleGapsUnder10Min (res_Summary res) \<le> sum_ScaleGapsUnder10Min (sr_Base r)) \<and>
     (\<forall>t. cpu_HighPriority (sc_TargetCPUUtilization (scale_config sa')) = Some t \<longrightarrow>
        (rf_instanceConfig flags = ''regional'' \<longrightarrow> t \<le> 65) \<and> (rf_instanceConfig flags = ''multi-region'' \<longrightarrow> t \<le> 45))"
proof -
  obtain con con' space sa schedules where R:
    "applyInstanceConfigGuideline (start_constraints flags) (rf_instanceConfig flags) = Inr con"
    "applyPUChangeGuideline con (rf_puChangeGuideline flags) (sr_Base r) = Inr con'"
    "sr_Constraints r = con'\<lparr>con_MaxGapMinutes := Some (sum_GapMinutes (sr_Base r))\<rparr>"
    "sr_Config r = config_of common sa schedules"
    "Recommend (ce_rec env) order (sr_Config r) space (sr_Constraints r) (sr_Points r) = Some (Inr (sr_Candidates r))"
    using recommend_search_Inr [OF assms(1)] by metis
  note c = recommended_candidate [OF assms(2)]
  have "cfg_Autoscaler (sr_Config r) = Some sa" by (simp add: R(4) config_of_def)
  then obtain combo where "evaluate (ce_rec env) (sr_Config r) sa (sr_Constraints r) (sr_Points r) combo = Some (sr_Candidates r ! i)"
    using Recommend_member [OF R(5)] c(1) by (metis nth_mem)
  then obtain sa' res where e: "ca_Autoscaler (sr_Candidates r ! i) = Some sa'"
     "ValidateSpec (re_validPercent (ce_rec env)) (se_parse (re_sim (ce_rec env))) sa' = None"
     "Run (re_sim (ce_rec env)) ((sr_Config r)\<lparr>cfg_Autoscaler := Some sa'\<rparr>) (sr_Points r) = Some (Inr res)"
     "ca_Summary (sr_Candidates r ! i) = res_Summary res" "satisfies (sr_Constraints r) sa' (res_Summary res)"
    using evaluate_feasible c(2) by blast
  note g = guideline_limits [OF R(2)] and l = instance_limits [OF R(1)]
  have "\<not> f_less (rf_maxExceeded flags) (sum_TargetExceededMinutes (res_Summary res))"
    "\<not> f_less (sum_GapMinutes (sr_Base r)) (sum_GapMinutes (res_Summary res))"
    using e(5) g(1) l(1) by (simp_all add: satisfies_def R(3) start_constraints_def)
  moreover have "sum_ScaleStepViolations (res_Summary res) \<le> sum_ScaleStepViolations (sr_Base r) \<and>
        sum_ScaleGapsUnder10Min (res_Summary res) \<le> sum_ScaleGapsUnder10Min (sr_Base r)" if "rf_puChangeGuideline flags \<noteq> ''none''"
    using e(5) g(3) [OF that] by (auto simp: satisfies_def R(3))
  moreover have "(rf_instanceConfig flags = ''regional'' \<longrightarrow> t \<le> 65) \<and> (rf_instanceConfig flags = ''multi-region'' \<longrightarrow> t \<le> 45)"
    if "cpu_HighPriority (sc_TargetCPUUtilization (scale_config sa')) = Some t" for t
    using e(5) that g(2) l(2,3) by (auto simp: satisfies_def R(3))
  ultimately show ?thesis using e(1-4) c(3,4) by metis
qed

text \<open>A recording of one point at 40\% of 3000 processing units, and a search over one target.\<close>

definition sample_csv :: string where
  "sample_csv = write_all [[''time'', ''processing_units'', ''high_priority_cpu''], [''a'', ''3000'', ''40'']]"

definition sample_cli_env :: cli_env where
  "sample_cli_env = \<lparr>ce_readFile = (\<lambda>path. if path = ''m.csv'' then Inr sample_csv else Inr ''manifest''),
     ce_create = (\<lambda>_. None),
     ce_text = \<lparr>te_formatTime = (\<lambda>_. []), te_parseTime = (\<lambda>s. Inr (100 * minute)),
       te_parseFloat = (\<lambda>s. Inr (Num (if s = ''40'' then f_of_int 40 else f_of_int 3000)))\<rparr>,
     ce_yaml = \<lparr>ye_kind = (\<lambda>_. Inr ''SpannerAutoscaler''), ye_autoscaler = (\<lambda>_. Inr sample_sa), ye_schedule = (\<lambda>_. Inl [])\<rparr>,
     ce_rec = sample_rec_env, ce_intstr = intstr_FromString, ce_html = (\<lambda>_. []), ce_recommendHTML = (\<lambda>_. [])\<rparr>"

definition sample_common :: commonFlags where
  "sample_common = \<lparr>cf_metricsPath = ''m.csv'', cf_initialPU = 0, cf_scaleUpInterval = minute, cf_scaleDownInterval = 55 * minute,
     cf_lowConfidenceCPU = f_of_int 90, cf_nodeHourPrice = f_zero, cf_format = ''text''\<rparr>"

definition sample_flags :: recommendFlags where
  "sample_flags = \<lparr>rf_configPath = ''c.yaml'',
     rf_space = \<lparr>sf_minPUs = [], sf_stepSizes = [], sf_intervals = [], sf_windows = [], sf_scaleupStepSizes = [],
       sf_scaleupIntervals = [], sf_highTargets = ''64'', sf_totalTargets = []\<rparr>,
     rf_maxExceeded = f_zero, rf_maxP99 = f_zero, rf_instanceConfig = ''regional'', rf_puChangeGuideline = ''base'',
     rf_auto = False, rf_maxChanges = 1, rf_savingsTolerance = f_of_int 2, rf_top = 6, rf_showInfeasible = False, rf_htmlPath = []\<rparr>"

theorem recommend_command_sound_witness:
  "\<exists>r. recommend_search sample_cli_env [0] sample_common sample_flags = Some (Inr r) \<and>
     f_less (sum_SimPUHours (ca_Summary (sr_Candidates r ! 0))) (sum_SimPUHours (sr_Base r))"
proof -
  have "case recommend_search sample_cli_env [0] sample_common sample_flags of
      Some (Inr r) \<Rightarrow> fst (RecommendedIndex_of sample_cli_env sample_flags sample_common (sr_Autoscaler r) (sr_Base r)
        (sr_Candidates r)) = Some 0
    | _ \<Rightarrow> False" by code_simp
  then obtain r where "recommend_search sample_cli_env [0] sample_common sample_flags = Some (Inr r)"
    "fst (RecommendedIndex_of sample_cli_env sample_flags sample_common (sr_Autoscaler r) (sr_Base r) (sr_Candidates r)) = Some 0"
    by (auto split: option.splits sum.splits)
  then show ?thesis using recommend_command_sound by metis
qed

end
