(* ===== verification/Float_Error.thy ===== *)
theory Float_Error
  imports Go_Float Complex_Main
begin

text \<open>
  The values of floats as real numbers, and how far a product, a quotient and a truncation are
  from the exact ones. A rounding changes a value by at most one part in \<open>2 ^ 53\<close>.
\<close>

section \<open>Values\<close>

definition f_val :: "float64 \<Rightarrow> real" where
  "f_val x = real_of_int (f_man x) * 2 powi f_exp x"

lemma f_val_nonneg: "0 \<le> f_man x \<Longrightarrow> 0 \<le> f_val x"
  by (simp add: f_val_def)

lemma f_val_pos: "0 < f_val x \<longleftrightarrow> 0 < f_man x"
proof -
  define p :: real where "p = 2 powi f_exp x"
  have "0 < p" "f_val x = real_of_int (f_man x) * p" by (simp_all add: p_def f_val_def)
  then show ?thesis by (auto simp: zero_less_mult_iff)
qed

lemma f_val_of_int: "0 \<le> n \<Longrightarrow> n < 2 ^ 53 \<Longrightarrow> f_val (f_of_int n) = real_of_int n"
  by (simp add: f_val_def f_of_int_def round_float64_def excess_bits_zero Let_def sgn_if)

lemma f_of_int_man: "0 \<le> n \<Longrightarrow> n < 2 ^ 53 \<Longrightarrow> f_man (f_of_int n) = n \<and> f_exp (f_of_int n) = 0"
  by (simp add: f_of_int_def round_float64_def excess_bits_zero Let_def sgn_if)

section \<open>Rounding\<close>

lemma round_shift_close: "2 * \<bar>round_shift k n * 2 ^ k - n\<bar> \<le> (2 :: int) ^ k"
proof -
  define q r where "q = n div 2 ^ k" and "r = n mod 2 ^ k"
  have n: "n = q * 2 ^ k + r" unfolding q_def r_def by (rule div_mult_mod_eq [symmetric])
  have r: "0 \<le> r" "r < 2 ^ k" unfolding r_def by simp_all
  have s: "round_shift k n = (if 2 * r > 2 ^ k \<or> (2 * r = 2 ^ k \<and> q mod 2 = 1) then q + 1 else q)"
    by (simp add: round_shift_def q_def r_def Let_def)
  have e: "(q + 1) * 2 ^ k - n = 2 ^ k - r" "q * 2 ^ k - n = - r" unfolding n by (simp_all add: algebra_simps)
  show ?thesis
  proof (cases "2 * r > 2 ^ k \<or> (2 * r = 2 ^ k \<and> q mod 2 = 1)")
    case True
    then have "round_shift k n = q + 1" unfolding s by (rule if_P)
    then have "round_shift k n * 2 ^ k - n = 2 ^ k - r" using e(1) by simp
    moreover have "2 * r \<ge> 2 ^ k" using True by auto
    ultimately show ?thesis using r by (simp add: abs_if)
  next
    case False
    then have "round_shift k n = q" unfolding s by (rule if_not_P)
    then have "round_shift k n * 2 ^ k - n = - r" using e(2) by simp
    moreover have "2 * r \<le> 2 ^ k" using False by auto
    ultimately show ?thesis using r by (simp add: abs_if)
  qed
qed

lemma round_float64_man: "0 \<le> m \<Longrightarrow> 0 \<le> f_man (round_float64 m e)"
  by (simp add: round_float64_def Let_def round_shift_nonneg sgn_if excess_bits_zero)

lemma round_float64_near:
  assumes "0 \<le> m"
  shows "\<bar>f_val (round_float64 m e) - real_of_int m * 2 powi e\<bar> \<le> real_of_int m * 2 powi e / 2 ^ 53"
proof -
  define k where "k = excess_bits m"
  have "f_val (round_float64 m e) = real_of_int (sgn m * round_shift k m) * 2 powi (e + int k)"
    using assms by (simp add: f_val_def round_float64_def Let_def k_def)
  also have "sgn m * round_shift k m = round_shift k m"
    using assms by (cases "m = 0") (simp_all add: k_def excess_bits_zero)
  also have "real_of_int (round_shift k m) * 2 powi (e + int k) = real_of_int (round_shift k m * 2 ^ k) * 2 powi e"
    by (simp add: power_int_add)
  finally have v: "f_val (round_float64 m e) - real_of_int m * 2 powi e =
      real_of_int (round_shift k m * 2 ^ k - m) * 2 powi e" by (simp add: algebra_simps)
  have "2 ^ 53 * \<bar>round_shift k m * 2 ^ k - m\<bar> \<le> m"
  proof (cases "m < 2 ^ 53")
    case True
    then show ?thesis using assms by (simp add: k_def excess_bits_zero)
  next
    case False
    then have "(2 :: int) ^ (52 + k) \<le> m" unfolding k_def by (intro excess_bits_ge) simp
    moreover have "(2 :: int) ^ 52 * (2 * \<bar>round_shift k m * 2 ^ k - m\<bar>) \<le> 2 ^ 52 * 2 ^ k"
      by (intro mult_left_mono round_shift_close) simp
    ultimately show ?thesis by (simp add: power_add)
  qed
  then have "2 ^ 53 * \<bar>real_of_int (round_shift k m * 2 ^ k - m)\<bar> \<le> real_of_int m"
    by (metis (mono_tags, opaque_lifting) of_int_abs of_int_le_iff of_int_mult of_int_numeral of_int_power)
  then have "\<bar>real_of_int (round_shift k m * 2 ^ k - m)\<bar> * 2 powi e \<le> real_of_int m / 2 ^ 53 * 2 powi e"
    by (intro mult_right_mono) (simp_all add: field_simps)
  then show ?thesis unfolding v by (simp add: abs_mult)
qed

section \<open>Products and quotients\<close>

lemma f_mul_near:
  assumes "0 \<le> f_man x" "0 \<le> f_man y"
  shows "\<bar>f_val (f_mul x y) - f_val x * f_val y\<bar> \<le> f_val x * f_val y / 2 ^ 53" and "0 \<le> f_man (f_mul x y)"
proof -
  have "real_of_int (f_man x * f_man y) * 2 powi (f_exp x + f_exp y) = f_val x * f_val y"
    by (simp add: f_val_def power_int_add)
  then show "\<bar>f_val (f_mul x y) - f_val x * f_val y\<bar> \<le> f_val x * f_val y / 2 ^ 53"
    using round_float64_near [of "f_man x * f_man y" "f_exp x + f_exp y"] assms by (simp add: f_mul_def)
  show "0 \<le> f_man (f_mul x y)" using assms by (simp add: f_mul_def round_float64_man)
qed

lemma sticky_quotient:
  fixes n d :: int
  assumes "0 < d" "0 \<le> n"
  shows "\<bar>real_of_int (2 * (n div d) + (if n mod d = 0 then 0 else 1)) - 2 * real_of_int n / real_of_int d\<bar> \<le> 1"
proof -
  have n: "real_of_int n = real_of_int (n div d) * real_of_int d + real_of_int (n mod d)"
    by (metis div_mult_mod_eq of_int_add of_int_mult)
  have "real_of_int n / real_of_int d = real_of_int (n div d) + real_of_int (n mod d) / real_of_int d"
    using assms(1) by (subst n) (simp add: field_simps)
  moreover have "0 \<le> real_of_int (n mod d) / real_of_int d" "real_of_int (n mod d) / real_of_int d \<le> 1"
    using assms(1) pos_mod_bound [OF assms(1), of n] by (simp_all add: field_simps less_imp_le)
  ultimately show ?thesis by (auto simp: abs_le_iff)
qed

lemma near_trans: "\<bar>a - b\<bar> \<le> b / 2 ^ 53 \<Longrightarrow> \<bar>b - c\<bar> \<le> c / 2 ^ 57 \<Longrightarrow> 0 \<le> c \<Longrightarrow> \<bar>a - c\<bar> \<le> c / 2 ^ 52" for a b c :: real
  using abs_triangle_ineq [of "a - b" "b - c"] abs_ge_self [of "b - c"] by simp

lemma f_div_near:
  assumes "0 \<le> f_man x" "0 < f_man y" "f_man y < 2 ^ 53"
  shows "\<bar>f_val (f_div x y) - f_val x / f_val y\<bar> \<le> f_val x / f_val y / 2 ^ 52" and "0 \<le> f_man (f_div x y)"
proof -
  define n d where "n = f_man x * 2 ^ 110" and "d = f_man y"
  define q where "q = 2 * (n div d) + (if n mod d = 0 then 0 else 1)"
  define e where "e = f_exp x - f_exp y - 111"
  have nd: "0 \<le> n" "0 < d" "d < 2 ^ 53" using assms by (simp_all add: n_def d_def)
  have q0: "0 \<le> q" using nd by (simp add: q_def pos_imp_zdiv_nonneg_iff)
  have div: "f_div x y = round_float64 q e"
  proof (cases "f_man x = 0")
    case True
    then show ?thesis by (simp add: f_div_def e_def q_def n_def Let_def)
  next
    case False
    then show ?thesis using assms by (simp add: f_div_def e_def q_def n_def d_def Let_def sgn_if)
  qed
  show "0 \<le> f_man (f_div x y)" unfolding div by (rule round_float64_man [OF q0])
  define V where "V = 2 * real_of_int n / real_of_int d"
  have V0: "0 \<le> V" using nd by (simp add: V_def)
  have "2 powi e = 2 powi f_exp x / 2 powi f_exp y / (2 :: real) ^ 111" by (simp add: e_def power_int_diff)
  then have val: "V * 2 powi e = f_val x / f_val y"
    using nd(2) by (simp add: V_def n_def d_def f_val_def)
  have qV: "\<bar>real_of_int q - V\<bar> \<le> V / 2 ^ 57"
  proof (cases "f_man x = 0")
    case True
    then show ?thesis by (simp add: q_def V_def n_def)
  next
    case False
    then have "1 \<le> f_man x" using assms(1) by linarith
    then have "(2 :: real) ^ 110 \<le> real_of_int n" by (simp add: n_def)
    moreover have "real_of_int d \<le> 2 ^ 53" using nd(3) by (metis less_imp_le of_int_le_iff of_int_numeral of_int_power)
    ultimately have "2 * 2 ^ 110 / 2 ^ 53 \<le> V" unfolding V_def using nd by (intro frac_le) auto
    then have "1 \<le> V / 2 ^ 57" by simp
    then show ?thesis using sticky_quotient [OF nd(2,1)] unfolding q_def V_def by linarith
  qed
  have "\<bar>f_val (f_div x y) - real_of_int q * 2 powi e\<bar> \<le> real_of_int q * 2 powi e / 2 ^ 53"
    unfolding div by (rule round_float64_near [OF q0])
  moreover have "\<bar>real_of_int q * 2 powi e - V * 2 powi e\<bar> \<le> V * 2 powi e / 2 ^ 57"
    using mult_right_mono [OF qV, of "2 powi e"] by (simp add: abs_mult flip: left_diff_distrib)
  moreover have "0 \<le> V * 2 powi e" using V0 by simp
  ultimately show "\<bar>f_val (f_div x y) - f_val x / f_val y\<bar> \<le> f_val x / f_val y / 2 ^ 52"
    unfolding val by (rule near_trans)
qed

lemma f_to_int_val:
  assumes "0 \<le> f_man x"
  shows "real_of_int (f_to_int x) \<le> f_val x" "f_val x < real_of_int (f_to_int x) + 1" "0 \<le> f_to_int x"
proof -
  have fl: "f_to_int x = \<lfloor>f_val x\<rfloor>"
  proof (cases "0 \<le> f_exp x")
    case True
    then have "f_val x = real_of_int (f_man x * 2 ^ nat (f_exp x))" by (simp add: f_val_def power_int_def)
    then show ?thesis using True by (simp only: floor_of_int f_to_int_def if_True)
  next
    case False
    define j where "j = nat (- f_exp x)"
    have "f_exp x = - int j" using False by (simp add: j_def)
    then have "f_val x = real_of_int (f_man x) / real_of_int (2 ^ j)"
      by (simp add: f_val_def power_int_minus divide_inverse)
    then have "\<lfloor>f_val x\<rfloor> = f_man x div 2 ^ j" by (simp only: floor_divide_of_int_eq)
    moreover have "f_to_int x = sgn (f_man x) * (\<bar>f_man x\<bar> div 2 ^ j)" using False by (simp add: f_to_int_def j_def)
    ultimately show ?thesis using assms by (cases "f_man x = 0") (simp_all add: sgn_if)
  qed
  show "real_of_int (f_to_int x) \<le> f_val x" "f_val x < real_of_int (f_to_int x) + 1"
    unfolding fl using floor_correct [of "f_val x"] by simp_all
  show "0 \<le> f_to_int x" unfolding fl using f_val_nonneg [OF assms] by simp
qed

section \<open>Order and sums\<close>

lemma f_val_at:
  assumes "e \<le> f_exp x"
  shows "f_val x = real_of_int (f_at e x) * 2 powi e"
proof -
  define k where "k = nat (f_exp x - e)"
  have x: "f_exp x = int k + e" using assms by (simp add: k_def)
  have "2 powi f_exp x = (2 :: real) ^ k * 2 powi e" unfolding x by (simp add: power_int_add)
  then show ?thesis by (simp add: f_val_def f_at_def k_def)
qed

lemma f_less_val: "f_less x y \<longleftrightarrow> f_val x < f_val y"
proof -
  define e where "e = min (f_exp x) (f_exp y)"
  have e: "e \<le> f_exp x" "e \<le> f_exp y" by (simp_all add: e_def)
  have "f_val x < f_val y \<longleftrightarrow> f_at e x < f_at e y" by (simp add: f_val_at [OF e(1)] f_val_at [OF e(2)])
  then show ?thesis using f_less_at [OF e] by simp
qed

lemma f_add_near:
  assumes "0 \<le> f_man x" "0 \<le> f_man y"
  shows "\<bar>f_val (f_add x y) - (f_val x + f_val y)\<bar> \<le> (f_val x + f_val y) / 2 ^ 53" and "0 \<le> f_man (f_add x y)"
proof -
  define e where "e = min (f_exp x) (f_exp y)"
  have e: "e \<le> f_exp x" "e \<le> f_exp y" by (simp_all add: e_def)
  have a: "f_align x y = (f_at e x, f_at e y, e)" by (simp add: f_align_def f_at_def e_def Let_def)
  have n: "0 \<le> f_at e x + f_at e y" using assms by (simp add: f_at_def)
  have s: "real_of_int (f_at e x + f_at e y) * 2 powi e = f_val x + f_val y"
    by (simp add: f_val_at [OF e(1)] f_val_at [OF e(2)] algebra_simps)
  have z: "f_val x = 0" if "f_man x = 0" for x using that by (simp add: f_val_def)
  show "\<bar>f_val (f_add x y) - (f_val x + f_val y)\<bar> \<le> (f_val x + f_val y) / 2 ^ 53"
    using round_float64_near [OF n, of e] f_val_nonneg [OF assms(1)] f_val_nonneg [OF assms(2)] z [of x] z [of y]
    unfolding s by (simp add: f_add_def a)
  show "0 \<le> f_man (f_add x y)" using assms n by (simp add: f_add_def a round_float64_man)
qed

end
