(* ===== verification/Chart_View.thy ===== *)
theory Chart_View
  imports Report Float_Error
begin

text \<open>
  The charts of \<^verbatim>\<open>cmd/simulator/report.go\<close> on the page: the ticks of an axis
  (\<^verbatim>\<open>niceTicks\<close>), the scales, the paths of a series (\<^verbatim>\<open>seriesPaths\<close>), and the views
  \<^verbatim>\<open>buildLineChart\<close> and \<^verbatim>\<open>buildScatter\<close> give to the templates. The power of ten below a
  value, \<^verbatim>\<open>math.Pow(10, math.Floor(math.Log10(x)))\<close>, and the formats of times are parameters;
  a loop that does not end is \<open>None\<close>. The payload of the tooltips is a value.
\<close>

section \<open>Ticks\<close>

fun nice_step :: "float64 list \<Rightarrow> float64 \<Rightarrow> float64 \<Rightarrow> float64 \<Rightarrow> float64" where
  "nice_step [] mag rawStep step = step"
| "nice_step (m # ms) mag rawStep step =
     (let step = f_mul m mag in if \<not> f_less step rawStep then step else nice_step ms mag rawStep step)"

partial_function (option) tick_loop :: "float64 \<Rightarrow> float64 \<Rightarrow> float64 \<Rightarrow> float64 list \<Rightarrow> float64 list option" where
  "tick_loop step maxVal v ticks =
     (if \<not> f_less v maxVal then Some (ticks @ [v]) else tick_loop step maxVal (f_add v step) (ticks @ [v]))"

declare tick_loop.simps [code]

definition two_and_half :: float64 where
  "two_and_half = \<lparr>f_man = 5, f_exp = - 1\<rparr>"

definition niceTicks :: "(float64 \<Rightarrow> float64) \<Rightarrow> float64 \<Rightarrow> float64 list option" where
  "niceTicks pow10 maxVal =
     (if \<not> f_less f_zero maxVal then Some [f_zero, f_of_int 1]
      else
        let rawStep = f_div maxVal (f_of_int 4); mag = pow10 rawStep;
            step = nice_step [f_of_int 1, f_of_int 2, two_and_half, f_of_int 5, f_of_int 10] mag rawStep f_zero
        in tick_loop step maxVal step [f_zero])"

section \<open>Numbers\<close>

text \<open>\<^verbatim>\<open>%.0f\<close> has no decimal point.\<close>

definition fmt_f0 :: "float64 \<Rightarrow> string" where
  "fmt_f0 v = (if f_man v < 0 then ''-'' else []) @ digits (nat (f_scaled 0 v))"

definition coord :: "float64 \<Rightarrow> string" where
  "coord v = FormatFloat 1 v"

definition is_whole :: "float64 \<Rightarrow> bool" where
  "is_whole v \<longleftrightarrow> f_exp v \<ge> 0 \<or> f_man v mod 2 ^ nat (- f_exp v) = 0"

definition formatTick :: "float64 \<Rightarrow> string \<Rightarrow> string" where
  "formatTick v unit =
     (if unit = ''%'' then (if is_whole v then fmt_f0 v @ ''%'' else FormatFloat 1 v @ ''%'') else commaInt (f_round v))"

section \<open>Paths\<close>

text \<open>A point of a path, its two coordinates as text.\<close>

definition path_point :: "float64 \<Rightarrow> float64 \<Rightarrow> string" where
  "path_point x y = FormatFloat 1 x @ '' '' @ FormatFloat 1 y"

text \<open>The closed envelope of the points above and below that were collected.\<close>

definition flush :: "string list \<Rightarrow> string list \<Rightarrow> string" where
  "flush ups lows =
     (case ups of [] \<Rightarrow> []
      | p # ps \<Rightarrow> ''M'' @ p @ '' '' @ concat (map (\<lambda>q. ''L'' @ q @ '' '') (ps @ rev lows)) @ ''Z '')"

fun paths_loop ::
    "(nat \<Rightarrow> float64) \<Rightarrow> (float64 \<Rightarrow> float64) \<Rightarrow> nat \<Rightarrow> tsBucket list \<Rightarrow> string \<Rightarrow> string list \<Rightarrow> string list \<Rightarrow>
     string \<Rightarrow> string \<Rightarrow> string \<times> string" where
  "paths_loop xAt yAt i [] pen ups lows bands mean = (bands @ flush ups lows, mean)"
| "paths_loop xAt yAt i (b # bs) pen ups lows bands mean =
     (if \<not> bk_Has b then paths_loop xAt yAt (Suc i) bs ''M'' [] [] (bands @ flush ups lows) mean
      else paths_loop xAt yAt (Suc i) bs ''L'' (ups @ [path_point (xAt i) (yAt (bk_Max b))])
             (lows @ [path_point (xAt i) (yAt (bk_Min b))]) bands
             (mean @ pen @ path_point (xAt i) (yAt (bk_Mean b)) @ '' ''))"

definition seriesPaths :: "tsBucket list \<Rightarrow> (nat \<Rightarrow> float64) \<Rightarrow> (float64 \<Rightarrow> float64) \<Rightarrow> string \<times> string" where
  "seriesPaths bs xAt yAt =
     (case paths_loop xAt yAt 0 bs ''M'' [] [] [] [] of (bands, mean) \<Rightarrow> (TrimSpace bands, TrimSpace mean))"

section \<open>Line charts\<close>

record tickView =
  tv_Pos :: string
  tv_LabelPos :: string
  tv_Label :: string

record refView =
  rv_Y :: string
  rv_LabelY :: string
  rv_Label :: string

record seriesView =
  sv_Band :: string
  sv_Line :: string

record jsSeries =
  js_Name :: string
  js_Min :: "float64 option list"
  js_Max :: "float64 option list"
  js_Mean :: "float64 option list"

record chart_payload =
  cp_T :: "gint list"
  cp_Unit :: string
  cp_Series :: "jsSeries list"
  cp_Plot :: "(string \<times> gint) list"

record lineChartView =
  lv_Title :: string
  lv_Unit :: string
  lv_Legend :: "string list"
  lv_YTicks :: "tickView list"
  lv_XTicks :: "tickView list"
  lv_Refs :: "refView list"
  lv_Series :: "seriesView list"
  lv_Data :: chart_payload
  lv_BucketHeaders :: "string list"
  lv_BucketRows :: "(string \<times> string list) list"

record chart_env =
  ch_pow10 :: "float64 \<Rightarrow> float64"
  ch_day :: "gint \<Rightarrow> string"
  ch_minute :: "gint \<Rightarrow> string"

definition plotX0 :: gint where "plotX0 = 68"
definition plotX1 :: gint where "plotX1 = 940"
definition plotY0 :: gint where "plotY0 = 14"
definition plotY1 :: gint where "plotY1 = 250"
definition scatterY0 :: gint where "scatterY0 = 16"
definition scatterY1 :: gint where "scatterY1 = 366"

definition bucket_values :: "(tsBucket \<Rightarrow> float64) \<Rightarrow> tsBucket list \<Rightarrow> float64 option list" where
  "bucket_values get bs = map (\<lambda>b. if \<not> bk_Has b then None else Some (get b)) bs"

definition chartJSON :: "string \<Rightarrow> gint list \<Rightarrow> tsSeries list \<Rightarrow> chart_payload" where
  "chartJSON unit mids series =
     \<lparr>cp_T = mids, cp_Unit = unit,
      cp_Series = map (\<lambda>s. \<lparr>js_Name = ts_Name s, js_Min = bucket_values bk_Min (ts_Buckets s),
        js_Max = bucket_values bk_Max (ts_Buckets s), js_Mean = bucket_values bk_Mean (ts_Buckets s)\<rparr>) series,
      cp_Plot = [(''x0'', plotX0), (''x1'', plotX1), (''w'', 960)]\<rparr>"

definition chart_max :: "tsSeries list \<Rightarrow> gint list \<Rightarrow> float64" where
  "chart_max series refs =
     (let yMax = fold (\<lambda>s m. fold (\<lambda>b m. if bk_Has b then f_max m (bk_Max b) else m) (ts_Buckets s) m) series f_zero;
          yMax = fold (\<lambda>r m. f_max m (f_of_int r)) refs yMax
      in if f_man yMax = 0 then f_of_int 1 else yMax)"

definition chart_xAt :: "nat \<Rightarrow> nat \<Rightarrow> float64" where
  "chart_xAt n i =
     (if n \<le> 1 then f_of_int plotX0
      else f_add (f_of_int plotX0)
             (f_mul (f_div (f_of_int (int i)) (f_of_int (int (n - 1)))) (f_of_int (plotX1 - plotX0))))"

definition chart_yAt :: "gint \<Rightarrow> gint \<Rightarrow> float64 \<Rightarrow> float64 \<Rightarrow> float64" where
  "chart_yAt y0 y1 yTop v = f_sub (f_of_int y1) (f_mul (f_div v yTop) (f_of_int (y1 - y0)))"

definition bucket_cells :: "string \<Rightarrow> tsSeries list \<Rightarrow> nat \<Rightarrow> string list" where
  "bucket_cells unit series i =
     concat (map (\<lambda>s. let b = ts_Buckets s ! i
        in if \<not> bk_Has b then [[], []] else [formatTick (bk_Min b) unit, formatTick (bk_Max b) unit]) series)"

definition buildLineChart :: "chart_env \<Rightarrow> string \<Rightarrow> string \<Rightarrow> gint list \<Rightarrow> tsSeries list \<Rightarrow> (gint \<times> string) list \<Rightarrow> lineChartView option" where
  "buildLineChart env title unit mids series refs =
     (case niceTicks (ch_pow10 env) (f_mul (chart_max series (map fst refs)) (f_div (f_of_int 105) (f_of_int 100))) of
        None \<Rightarrow> None
      | Some ticks \<Rightarrow>
          (let xAt = chart_xAt (length mids); yAt = chart_yAt plotY0 plotY1 (last ticks)
           in Some \<lparr>lv_Title = title, lv_Unit = unit, lv_Legend = map ts_Name series,
                lv_YTicks = map (\<lambda>t. \<lparr>tv_Pos = coord (yAt t), tv_LabelPos = coord (f_add (yAt t) (f_of_int 4)),
                  tv_Label = formatTick t unit\<rparr>) ticks,
                lv_XTicks = map (\<lambda>i. \<lparr>tv_Pos = coord (xAt i), tv_LabelPos = [], tv_Label = ch_day env (mids ! i)\<rparr>)
                  (xTickIndexes (length mids)),
                lv_Refs = map (\<lambda>(y, label). \<lparr>rv_Y = coord (yAt (f_of_int y)),
                  rv_LabelY = coord (f_sub (yAt (f_of_int y)) (f_of_int 4)), rv_Label = label\<rparr>) refs,
                lv_Series = map (\<lambda>s. case seriesPaths (ts_Buckets s) xAt yAt of (band, line) \<Rightarrow>
                  \<lparr>sv_Band = band, sv_Line = line\<rparr>) series,
                lv_Data = chartJSON unit mids series,
                lv_BucketHeaders = concat (map (\<lambda>s. [ts_Name s @ '' (min)'', ts_Name s @ '' (max)'']) series),
                lv_BucketRows = map (\<lambda>i. (ch_minute env (mids ! i), bucket_cells unit series i)) [0..<length mids]\<rparr>))"

section \<open>The scatter plot\<close>

record dotView =
  dv_CX :: string
  dv_CY :: string
  dv_dot :: scatter_dot

record scatterView =
  sc_YTicks :: "tickView list"
  sc_XTicks :: "tickView list"
  sc_Dots :: "dotView list"

definition scatter_xAt :: "float64 \<Rightarrow> float64 \<Rightarrow> float64" where
  "scatter_xAt xTop v = f_add (f_of_int plotX0) (f_mul (f_div v xTop) (f_of_int (plotX1 - plotX0)))"

definition scatter_yAt :: "float64 \<Rightarrow> float64 \<Rightarrow> float64 \<Rightarrow> float64" where
  "scatter_yAt yBottom yTop v =
     f_sub (f_of_int scatterY1)
       (f_mul (f_div (f_sub v yBottom) (f_sub yTop yBottom)) (f_of_int (scatterY1 - scatterY0)))"

definition buildScatter :: "chart_env \<Rightarrow> params \<Rightarrow> Summary \<Rightarrow> Candidate list \<Rightarrow> scatterView option" where
  "buildScatter env current base candidates =
     (let dots = scatter_dots current base candidates;
          xMax = fold (\<lambda>d m. f_max m (dot_x d)) dots f_zero;
          yMax = fold (\<lambda>d m. f_max m (dot_y d)) dots f_zero;
          yMin = fold (\<lambda>d m. f_min m (dot_y d)) dots f_zero
      in case niceTicks (ch_pow10 env) (f_mul xMax (f_div (f_of_int 105) (f_of_int 100))) of
           None \<Rightarrow> None
         | Some xTicks \<Rightarrow>
        (case niceTicks (ch_pow10 env) (f_mul (f_max yMax (f_of_int 1)) (f_div (f_of_int 11) (f_of_int 10))) of
           None \<Rightarrow> None
         | Some yTicks \<Rightarrow>
             (let yBottom = f_min (f_mul yMin (f_div (f_of_int 11) (f_of_int 10))) f_zero;
                  xAt = scatter_xAt (last xTicks); yAt = scatter_yAt yBottom (last yTicks)
              in Some \<lparr>sc_YTicks = map (\<lambda>t. \<lparr>tv_Pos = coord (yAt t), tv_LabelPos = coord (f_add (yAt t) (f_of_int 4)),
                    tv_Label = formatTick t ''%''\<rparr>) (takeWhile (\<lambda>t. \<not> f_less (last yTicks) t) yTicks),
                  sc_XTicks = map (\<lambda>t. \<lparr>tv_Pos = coord (xAt t), tv_LabelPos = [], tv_Label = commaInt (f_to_int t)\<rparr>) xTicks,
                  sc_Dots = map (\<lambda>d. \<lparr>dv_CX = coord (xAt (dot_x d)), dv_CY = coord (yAt (dot_y d)), dv_dot = d\<rparr>) dots\<rparr>)))"

section \<open>Ticks are found\<close>

text \<open>
  What the code relies on of the power of ten below a positive value: it is positive, and ten
  times it is at least the value, up to the rounding of \<^verbatim>\<open>math.Pow\<close> and \<^verbatim>\<open>math.Log10\<close>.
\<close>

definition pow10_ok :: "(float64 \<Rightarrow> float64) \<Rightarrow> bool" where
  "pow10_ok pow10 \<longleftrightarrow> (\<forall>x. 0 < f_man x \<longrightarrow> 0 < f_man (pow10 x) \<and> f_val x * (1 - 1 / 2 ^ 40) \<le> 10 * f_val (pow10 x))"

lemma nice_step_large:
  assumes "\<forall>m \<in> set ms. 0 < f_man m" "0 < f_man mag" "ms \<noteq> []" "f_val raw * (1 - 1 / 2 ^ 40) \<le> f_val (last ms) * f_val mag"
    and "0 \<le> f_val raw"
  shows "0 \<le> f_man (nice_step ms mag raw s) \<and> f_val raw * (1 - 1 / 2 ^ 39) \<le> f_val (nice_step ms mag raw s)"
  using assms
proof (induction ms arbitrary: s)
  case (Cons m ms)
  note near = f_mul_near [of m mag]
  have m: "0 \<le> f_man m" "0 \<le> f_man mag" using Cons.prems by auto
  show ?case
  proof (cases "f_less (f_mul m mag) raw")
    case False
    then have "f_val raw \<le> f_val (f_mul m mag)" by (simp add: f_less_val)
    moreover have "f_val raw * (1 - 1 / 2 ^ 39) \<le> f_val raw" using Cons.prems(5) by simp
    ultimately have "f_val raw * (1 - 1 / 2 ^ 39) \<le> f_val (f_mul m mag)" by linarith
    then show ?thesis using False near(2) m by (simp add: Let_def)
  next
    case True
    show ?thesis
    proof (cases "ms = []")
      case False
      then show ?thesis using Cons.IH [of "f_mul m mag"] Cons.prems True by (simp add: Let_def)
    next
      case nil: True
      define p where "p = f_val m * f_val mag"
      have "f_val raw * (1 - 1 / 2 ^ 40) \<le> p" using Cons.prems(4) nil by (simp add: p_def)
      moreover have "p - p / 2 ^ 53 \<le> f_val (f_mul m mag)" using near(1) m unfolding p_def [symmetric] by linarith
      ultimately have "f_val raw * (1 - 1 / 2 ^ 39) \<le> f_val (f_mul m mag)" using Cons.prems(5) by (simp add: field_simps)
      then show ?thesis using nil near(2) m by (simp add: Let_def)
    qed
  qed
qed simp

lemma tick_next:
  assumes "0 \<le> f_man v" "0 \<le> f_man step"
  shows "(f_val v + f_val step) - (f_val v + f_val step) / 2 ^ 53 \<le> f_val (f_add v step)"
  using f_add_near(1) [OF assms] by linarith

lemma tick_loop_returns:
  "\<not> f_less (((\<lambda>v. f_add v step) ^^ n) v) maxVal \<Longrightarrow>
     \<exists>ts. tick_loop step maxVal v acc = Some (acc @ ts) \<and> ts \<noteq> [] \<and> length ts \<le> Suc n \<and> \<not> f_less (last ts) maxVal"
proof (induction n arbitrary: v acc)
  case 0
  then show ?case by (subst tick_loop.simps) (intro exI [of _ "[v]"], simp)
next
  case (Suc n)
  show ?case
  proof (cases "f_less v maxVal")
    case False
    then show ?thesis by (subst tick_loop.simps) (intro exI [of _ "[v]"], simp)
  next
    case True
    obtain ts where "tick_loop step maxVal (f_add v step) (acc @ [v]) = Some ((acc @ [v]) @ ts)" "ts \<noteq> []"
      "length ts \<le> Suc n" "\<not> f_less (last ts) maxVal"
      using Suc.IH [of "f_add v step" "acc @ [v]"] Suc.prems [unfolded funpow_Suc_right o_apply] by auto
    then show ?thesis using True by (subst tick_loop.simps) (intro exI [of _ "v # ts"], simp)
  qed
qed

lemma five_ticks:
  assumes "0 \<le> f_man step" "x / 4 * (1 - 1 / 2 ^ 38) \<le> f_val step" "0 \<le> x"
  shows "x \<le> f_val (((\<lambda>v. f_add v step) ^^ 4) step)"
proof -
  define v1 v2 v3 v4 where "v1 = f_add step step" and "v2 = f_add v1 step" and "v3 = f_add v2 step" and "v4 = f_add v3 step"
  have p: "0 \<le> f_man v1" "0 \<le> f_man v2" "0 \<le> f_man v3" using assms(1) by (auto simp: v1_def v2_def v3_def intro!: f_add_near(2))
  note t = tick_next [OF assms(1,1), folded v1_def] tick_next [OF p(1) assms(1), folded v2_def]
    tick_next [OF p(2) assms(1), folded v3_def] tick_next [OF p(3) assms(1), folded v4_def]
  have "(((\<lambda>v. f_add v step) ^^ 4) step) = v4" by (simp add: numeral_eq_Suc v1_def v2_def v3_def v4_def)
  moreover have "x \<le> f_val v4" using t assms(2,3) f_val_nonneg [OF assms(1)] by (simp add: field_simps)
  ultimately show ?thesis by simp
qed

text \<open>\<^verbatim>\<open>niceTicks\<close> returns: from zero, at most six ticks, and the last one is not below the value.\<close>

theorem niceTicks_returns:
  assumes "pow10_ok pow10"
  shows "\<exists>ticks. niceTicks pow10 maxVal = Some (f_zero # ticks) \<and> ticks \<noteq> [] \<and> length ticks \<le> 5 \<and>
     \<not> f_less (last ticks) maxVal"
proof (cases "f_less f_zero maxVal")
  case False
  then have "f_val maxVal \<le> 0" by (simp add: f_less_val f_val_def f_zero_def)
  then have "\<not> f_less (f_of_int 1) maxVal" using f_val_of_int [of 1] by (simp add: f_less_val)
  then show ?thesis using False by (simp add: niceTicks_def)
next
  case True
  define raw where "raw = f_div maxVal (f_of_int 4)"
  let ?ms = "[f_of_int 1, f_of_int 2, two_and_half, f_of_int 5, f_of_int 10]"
  define step where "step = nice_step ?ms (pow10 raw) raw f_zero"
  have x: "0 < f_val maxVal" using True by (simp add: f_less_val f_val_def f_zero_def)
  then have xm: "0 < f_man maxVal" by (simp add: f_val_pos)
  have four: "f_man (f_of_int 4) = 4" "f_val (f_of_int 4) = 4" using f_of_int_man [of 4] f_val_of_int [of 4] by simp_all
  have near: "\<bar>f_val raw - f_val maxVal / 4\<bar> \<le> f_val maxVal / 4 / 2 ^ 52" "0 \<le> f_man raw"
    using f_div_near [of maxVal "f_of_int 4"] xm four by (simp_all add: raw_def)
  have rv: "f_val maxVal / 4 - f_val maxVal / 4 / 2 ^ 52 \<le> f_val raw" using near(1) by linarith
  then have r0: "0 < f_val raw" using x by (simp add: field_simps)
  then have "0 < f_man raw" by (simp add: f_val_pos)
  then have mag: "0 < f_man (pow10 raw)" "f_val raw * (1 - 1 / 2 ^ 40) \<le> 10 * f_val (pow10 raw)"
    using assms by (auto simp: pow10_ok_def)
  have "f_val (f_of_int 10) = 10" using f_val_of_int [of 10] by simp
  then have st: "0 \<le> f_man step" "f_val raw * (1 - 1 / 2 ^ 39) \<le> f_val step"
    using nice_step_large [of ?ms "pow10 raw" raw f_zero] mag r0 f_of_int_man
    by (simp_all add: step_def two_and_half_def)
  have "f_val maxVal / 4 * (1 - 1 / 2 ^ 38) \<le> f_val step" using st(2) rv x by (simp add: field_simps)
  from five_ticks [OF st(1) this] x have "\<not> f_less (((\<lambda>v. f_add v step) ^^ 4) step) maxVal" by (simp add: f_less_val)
  from tick_loop_returns [OF this, of "[f_zero]"]
  obtain ts where "tick_loop step maxVal step [f_zero] = Some ([f_zero] @ ts)" "ts \<noteq> []" "length ts \<le> 5"
    "\<not> f_less (last ts) maxVal" by auto
  moreover have "niceTicks pow10 maxVal = tick_loop step maxVal step [f_zero]"
    by (simp only: niceTicks_def Let_def raw_def step_def True not_True_eq_False if_False)
  ultimately show ?thesis by simp
qed

corollary charts_returned:
  assumes "pow10_ok (ch_pow10 env)"
  shows "buildLineChart env title unit mids series refs \<noteq> None" "buildScatter env current base candidates \<noteq> None"
proof -
  have "\<exists>ticks. niceTicks (ch_pow10 env) v = Some ticks" for v using niceTicks_returns [OF assms, of v] by blast
  then show "buildLineChart env title unit mids series refs \<noteq> None" "buildScatter env current base candidates \<noteq> None"
    by (auto simp: buildLineChart_def buildScatter_def Let_def split: option.splits dest: sym) (metis option.distinct(1))+
qed

section \<open>Paths do not bridge gaps\<close>

text \<open>The maximal runs of buckets with data, each bucket with its index.\<close>

function data_runs :: "nat \<Rightarrow> tsBucket list \<Rightarrow> (nat \<times> tsBucket) list list" where
  "data_runs i [] = []"
| "\<not> bk_Has b \<Longrightarrow> data_runs i (b # bs) = data_runs (Suc i) bs"
| "bk_Has b \<Longrightarrow> data_runs i (b # bs) =
     (let r = b # takeWhile bk_Has bs in zip [i..<i + length r] r # data_runs (i + length r) (dropWhile bk_Has bs))"
  by (atomize_elim, auto) (metis neq_Nil_conv)

termination data_runs
  by (relation "measure (\<lambda>(i, bs). length bs)") (auto simp: le_imp_less_Suc length_dropWhile_le)

definition run_band :: "(nat \<Rightarrow> float64) \<Rightarrow> (float64 \<Rightarrow> float64) \<Rightarrow> (nat \<times> tsBucket) list \<Rightarrow> string" where
  "run_band xAt yAt r = flush (map (\<lambda>(i, b). path_point (xAt i) (yAt (bk_Max b))) r)
     (map (\<lambda>(i, b). path_point (xAt i) (yAt (bk_Min b))) r)"

definition run_points :: "(nat \<Rightarrow> float64) \<Rightarrow> (float64 \<Rightarrow> float64) \<Rightarrow> (nat \<times> tsBucket) list \<Rightarrow> string list" where
  "run_points xAt yAt r = map (\<lambda>(i, b). path_point (xAt i) (yAt (bk_Mean b)) @ '' '') r"

definition run_line :: "(nat \<Rightarrow> float64) \<Rightarrow> (float64 \<Rightarrow> float64) \<Rightarrow> (nat \<times> tsBucket) list \<Rightarrow> string" where
  "run_line xAt yAt r = (case run_points xAt yAt r of [] \<Rightarrow> [] | p # ps \<Rightarrow> ''M'' @ p @ concat (map (\<lambda>q. ''L'' @ q) ps))"

text \<open>Over buckets with data the loop only collects points.\<close>

lemma paths_loop_data:
  assumes "\<forall>b \<in> set hs. bk_Has b"
  shows "paths_loop xAt yAt i (hs @ bs) pen ups lows bands mean =
     paths_loop xAt yAt (i + length hs) bs (if hs = [] then pen else ''L'')
       (ups @ map (\<lambda>(i, b). path_point (xAt i) (yAt (bk_Max b))) (zip [i..<i + length hs] hs))
       (lows @ map (\<lambda>(i, b). path_point (xAt i) (yAt (bk_Min b))) (zip [i..<i + length hs] hs)) bands
       (mean @ (case run_points xAt yAt (zip [i..<i + length hs] hs) of [] \<Rightarrow> [] | p # ps \<Rightarrow> pen @ p @ concat (map (\<lambda>q. ''L'' @ q) ps)))"
  using assms
proof (induction hs arbitrary: i pen ups lows mean)
  case (Cons h hs)
  have z: "zip [i..<i + length (h # hs)] (h # hs) = (i, h) # zip [Suc i..<Suc i + length hs] hs"
    by (simp add: upt_conv_Cons del: upt_Suc)
  show ?case unfolding z using Cons
    by (cases "zip [Suc i..<Suc i + length hs] hs") (auto simp: run_points_def split: list.splits)
qed (simp add: run_points_def)

lemma paths_loop_lift:
  assumes "bs = [] \<or> \<not> bk_Has (hd bs)"
  shows "paths_loop xAt yAt j bs ''L'' ups lows bands mean = paths_loop xAt yAt j bs ''M'' [] [] (bands @ flush ups lows) mean"
proof (cases bs)
  case Nil
  then show ?thesis by (simp add: flush_def [of "[]"])
next
  case (Cons b cs)
  then show ?thesis using assms by (simp add: flush_def [of "[]"])
qed

lemma paths_loop_runs:
  "paths_loop xAt yAt i bs ''M'' [] [] bands mean =
     (bands @ concat (map (run_band xAt yAt) (data_runs i bs)), mean @ concat (map (run_line xAt yAt) (data_runs i bs)))"
proof (induction i bs arbitrary: bands mean rule: data_runs.induct)
  case (1 i)
  then show ?case by (simp add: flush_def)
next
  case (2 b i bs)
  then show ?case by (simp add: flush_def)
next
  case (3 b i bs)
  define r where "r = b # takeWhile bk_Has bs"
  define rest where "rest = dropWhile bk_Has bs"
  have bs: "b # bs = r @ rest" by (simp add: r_def rest_def)
  have h: "\<forall>x \<in> set r. bk_Has x" using 3(1) by (auto simp: r_def dest: set_takeWhileD)
  let ?z = "zip [i..<i + length r] r"
  have z: "?z \<noteq> []" by (simp add: r_def)
  have run: "data_runs i (b # bs) = ?z # data_runs (i + length r) rest" using 3(1) by (simp add: r_def rest_def Let_def)
  have IH: "paths_loop xAt yAt (i + length r) rest ''M'' [] [] bands mean =
      (bands @ concat (map (run_band xAt yAt) (data_runs (i + length r) rest)),
       mean @ concat (map (run_line xAt yAt) (data_runs (i + length r) rest)))" for bands mean
    using 3(2) [OF r_def] by (simp add: rest_def)
  have "rest = [] \<or> \<not> bk_Has (hd rest)" using hd_dropWhile [of bk_Has bs] by (auto simp: rest_def)
  note lift = paths_loop_lift [OF this]
  show ?case unfolding run unfolding bs
    using z by (simp add: paths_loop_data [OF h] r_def [symmetric] lift IH run_band_def [of _ _ ?z] run_line_def [of _ _ ?z])
qed

text \<open>
  The paths of a series: one closed envelope and one line for each maximal run of buckets with
  data, in their order, so that neither bridges a gap.
\<close>

theorem seriesPaths_runs:
  "seriesPaths bs xAt yAt =
     (TrimSpace (concat (map (run_band xAt yAt) (data_runs 0 bs))), TrimSpace (concat (map (run_line xAt yAt) (data_runs 0 bs))))"
  by (simp add: seriesPaths_def paths_loop_runs)

end
