(* ===== verification/Simulator_Main.thy ===== *)
theory Simulator_Main
  imports Simulator_Cli Chart_View
begin

text \<open>
  The rest of \<^verbatim>\<open>cmd/simulator\<close>: the command \<^verbatim>\<open>fetch\<close> (\<^verbatim>\<open>fetch.go\<close>), the dispatch of the
  subcommands (\<^verbatim>\<open>main.go\<close>), and the text \<^verbatim>\<open>simulate\<close> and \<^verbatim>\<open>compare\<close> print. The layout of a
  table by \<^verbatim>\<open>text/tabwriter\<close> is modelled for what is printed here: rows of the same number
  of ASCII cells without tabs. The API client, the clock, the file system and the formats of times
  are parameters.
\<close>

section \<open>fetch\<close>

record fetchFlags =
  ff_project :: string
  ff_instance :: string
  ff_start :: string
  ff_end :: string
  ff_out :: string

datatype fetch_cli_err =
    Fetch_required
  | Fetch_bad_start string
  | Fetch_bad_end string
  | Fetch_range
  | Fetch_client string
  | Fetch_failed fetch_err
  | Fetch_create string

record fetch_env =
  fe_text :: text_env
  fe_now :: time
  fe_newClient :: "string + (fetch_request \<Rightarrow> (string + series) list)"
  fe_create :: "string \<Rightarrow> string option"

datatype fetch_output = Fetched_file string string | Fetched_stdout string

definition fetch_end :: "fetch_env \<Rightarrow> fetchFlags \<Rightarrow> string + time" where
  "fetch_end env f = (if ff_end f \<noteq> [] then te_parseTime (fe_text env) (ff_end f) else Inr (fe_now env))"

definition fetch_write :: "fetch_env \<Rightarrow> string \<Rightarrow> Point list \<Rightarrow> fetch_cli_err option \<times> fetch_output list" where
  "fetch_write env out points =
     (if out \<noteq> [] then
        (case fe_create env out of
           Some err \<Rightarrow> (Some (Fetch_create err), [])
         | None \<Rightarrow> (None, [Fetched_file out (WriteCSV (fe_text env) points)]))
      else (None, [Fetched_stdout (WriteCSV (fe_text env) points)]))"

definition runFetch :: "fetch_env \<Rightarrow> fetchFlags \<Rightarrow> fetch_cli_err option \<times> fetch_output list" where
  "runFetch env f =
     (if ff_project f = [] \<or> ff_instance f = [] \<or> ff_start f = [] then (Some Fetch_required, [])
      else case te_parseTime (fe_text env) (ff_start f) of
             Inl err \<Rightarrow> (Some (Fetch_bad_start err), [])
           | Inr start_time \<Rightarrow>
          (case fetch_end env f of
             Inl err \<Rightarrow> (Some (Fetch_bad_end err), [])
           | Inr end_time \<Rightarrow>
               (if \<not> end_time > start_time then (Some Fetch_range, [])
                else case fe_newClient env of
                       Inl err \<Rightarrow> (Some (Fetch_client err), [])
                     | Inr client \<Rightarrow>
                    (case fetchPoints client (ff_project f) (ff_instance f) start_time end_time of
                       Inl err \<Rightarrow> (Some (Fetch_failed err), [])
                     | Inr points \<Rightarrow> fetch_write env (ff_out f) points))))"

section \<open>The subcommands\<close>

datatype subcommand = Cmd_simulate | Cmd_compare | Cmd_recommend | Cmd_fetch

definition subcommand_of :: "string \<Rightarrow> subcommand option" where
  "subcommand_of name =
     (if name = ''simulate'' then Some Cmd_simulate else if name = ''compare'' then Some Cmd_compare
      else if name = ''recommend'' then Some Cmd_recommend else if name = ''fetch'' then Some Cmd_fetch else None)"

text \<open>
  The exit code and whether the usage is printed. \<open>run\<close> is a command on its arguments: whether it
  reports an error, or \<open>None\<close> when it does not return.
\<close>

definition simulator_main :: "(subcommand \<Rightarrow> string list \<Rightarrow> bool option) \<Rightarrow> string list \<Rightarrow> (nat \<times> bool) option" where
  "simulator_main run args =
     (if length args < 2 then Some (2, True)
      else case subcommand_of (args ! 1) of
             Some cmd \<Rightarrow> (case run cmd (drop 2 args) of None \<Rightarrow> None | Some failed \<Rightarrow> Some (if failed then 1 else 0, False))
           | None \<Rightarrow> if args ! 1 \<in> set [''help'', ''-h'', ''--help''] then Some (0, True) else Some (2, True))"

section \<open>The text reports\<close>

text \<open>\<^verbatim>\<open>%.pf\<close> and \<^verbatim>\<open>%6d\<close>.\<close>

definition fmt_f :: "nat \<Rightarrow> float64 \<Rightarrow> string" where
  "fmt_f p v = (if p = 0 then fmt_f0 v else FormatFloat p v)"

definition fmt_6d :: "gint \<Rightarrow> string" where
  "fmt_6d n = (let s = fmt_d n in replicate (6 - length s) (CHR '' '') @ s)"

definition em_dash :: string where
  "em_dash = [CHR 0xE2, CHR 0x80, CHR 0x94]"

fun lower_text :: "lower_verdict \<Rightarrow> string" where
  "lower_text (Lower_rarely_binds p) =
     ''not indicated: min rarely binds (pinned '' @ fmt_f 0 p @ ''% of the run), lowering it changes little''"
| "lower_text Lower_no_signal = ''no signal: never pinned with usable CPU data''"
| "lower_text (Lower_needed r m) =
     ''not indicated: while pinned the workload already needs the min (p95 required '' @ fmt_d r @ '' >= min '' @ fmt_d m @ '')''"
| "lower_text (Lower_possible r m p) =
     ''possible down to ~'' @ fmt_d r @ '' PU: workload floor while pinned (p95) is '' @ fmt_d r @ '' vs min '' @ fmt_d m @
     '', and the min sets the cost '' @ fmt_f 0 p @ ''% of the run '' @ em_dash @
     '' test -min-pu around the floor; verify the storage floor and spike headroom first''"

definition share_text :: "float64 \<Rightarrow> float64 \<Rightarrow> string" where
  "share_text a b = fmt_f 0 a @ '' of '' @ fmt_f 0 b @ '' minutes above target ('' @ fmt_f 0 (f_mul (f_div a b) (f_of_int 100)) @
     ''%) start while the instance sits at the min''"

fun raise_text :: "raise_verdict \<Rightarrow> string" where
  "raise_text Raise_not_indicated = ''not indicated: no time above target''"
| "raise_text (Raise_consider a b) =
     ''consider raising or pre-scaling: '' @ share_text a b @ '', so a higher min would reduce them''"
| "raise_text (Raise_would_not_help a b) =
     ''not indicated: only '' @ share_text a b @ '', so a higher min would not reduce the time above target''"

definition formatCPUStats :: "CPUStats \<Rightarrow> string" where
  "formatCPUStats s = ''mean '' @ fmt_f 1 (cs_Mean s) @ ''%  p50 '' @ fmt_f 1 (cs_P50 s) @ ''%  p95 '' @ fmt_f 1 (cs_P95 s) @
     ''%  p99 '' @ fmt_f 1 (cs_P99 s) @ ''%  max '' @ fmt_f 1 (cs_Max s) @ ''%''"

definition formatP95 :: "CPUStats option \<Rightarrow> string" where
  "formatP95 s = (case s of None \<Rightarrow> ''-'' | Some s \<Rightarrow> fmt_f 1 (cs_P95 s) @ ''%'')"

definition formatP99 :: "CPUStats option \<Rightarrow> string" where
  "formatP99 s = (case s of None \<Rightarrow> ''-'' | Some s \<Rightarrow> fmt_f 1 (cs_P99 s) @ ''%'')"

text \<open>The first ten events, and how many more there are.\<close>

fun event_lines :: "text_env \<Rightarrow> nat \<Rightarrow> Event list \<Rightarrow> string list" where
  "event_lines env i [] = []"
| "event_lines env i (e # es) =
     (if i = 10 then [''    ... '' @ fmt_d (int (length (e # es))) @ '' more (use -format json or -points-csv for the full list)'']
      else (''    '' @ te_formatTime env (ev_Time e) @ ''  '' @ fmt_6d (ev_FromPU e) @ '' -> '' @ fmt_6d (ev_ToPU e)) #
           event_lines env (Suc i) es)"

definition writeTextReport :: "text_env \<Rightarrow> string \<Rightarrow> Result \<Rightarrow> commonFlags \<Rightarrow> string list" where
  "writeTextReport env name result common =
     (let s = res_Summary result; n = \<lambda>k. fmt_d (int k);
          days = f_div (Hours (t_sub (sum_End s) (sum_Start s))) (f_of_int 24);
          perDay = (if \<not> f_less days (f_of_int 1)
                    then '' ('' @ fmt_f 0 (f_div (sum_TargetExceededMinutes s) days) @ ''/day)'' else []);
          assessment = AssessMinPU s
      in [''Simulation of '' @ name,
          ''  period:            '' @ te_formatTime env (sum_Start s) @ '' .. '' @ te_formatTime env (sum_End s) @ '' ('' @
            n (sum_DataPoints s) @ '' points, '' @ fmt_f 0 (sum_GapMinutes s) @ '' gap minutes)'',
          ''  PU-hours:          recorded '' @ fmt_f 1 (sum_ActualPUHours s) @ '' -> simulated '' @ fmt_f 1 (sum_SimPUHours s) @
            '' ('' @ fmt_f 1 (sum_PUHoursSavedPercent s) @ ''% saved)''] @
         (if f_less f_zero (cf_nodeHourPrice common)
          then [''  cost:              recorded '' @ fmt_f 2 (cost common (sum_ActualPUHours s)) @ '' -> simulated '' @
                  fmt_f 2 (cost common (sum_SimPUHours s)) @ '' (price '' @ fmt_f 4 (cf_nodeHourPrice common) @
                  '' per 1000 PU-hour)'']
          else []) @
         [''  scale events:      '' @ n (sum_ScaleUps s) @ '' up / '' @ n (sum_ScaleDowns s) @ '' down'',
          ''  PU-change guide:   '' @ n (sum_ScaleStepViolations s) @ '' steps beyond 2x/half, '' @
            n (sum_ScaleGapsUnder10Min s) @ '' gaps < 10m, '' @ n (sum_ScaleGapsUnder30Min s) @ '' gaps < 30m''] @
         (case sum_SimHighPriorityCPU s of Some c \<Rightarrow> [''  sim high-pri CPU:  '' @ formatCPUStats c] | None \<Rightarrow> []) @
         (case sum_SimTotalCPU s of Some c \<Rightarrow> [''  sim total CPU:     '' @ formatCPUStats c] | None \<Rightarrow> []) @
         [''  above target:      '' @ fmt_f 0 (sum_TargetExceededMinutes s) @ '' minutes'' @ perDay,
          ''  low confidence:    '' @ fmt_f 0 (sum_LowConfidenceMinutes s) @ '' minutes (recorded CPU >= '' @
            fmt_f 0 (cf_lowConfidenceCPU common) @ ''%)'',
          ''  pinned at min PU:  '' @ fmt_f 0 (sum_MinPinnedMinutes s) @ '' minutes ('' @ fmt_f 0 (sum_MinPinnedPercent s) @
            ''% of the run)'',
          ''  min PU (lower?):   '' @ lower_text (as_Lower assessment),
          ''  min PU (raise?):   '' @ raise_text (as_Raise assessment)] @
         (if length (res_Events result) > 0 then ''  first events:'' # event_lines env 0 (res_Events result) else []))"

definition printMinPUAssessment :: "string \<Rightarrow> Summary \<Rightarrow> string list" where
  "printMinPUAssessment label s =
     [[], ''min PU assessment ('' @ label @ ''): min '' @ fmt_d (sum_SpecMinPU s) @ '', pinned '' @
        fmt_f 0 (sum_MinPinnedPercent s) @ ''% of the run'' @
        (if sum_RequiredPUAtMinP95 s > 0
         then '', workload floor while pinned (p95) = '' @ fmt_d (sum_RequiredPUAtMinP95 s) @ '' PU'' else []),
      ''  lower? '' @ lower_text (as_Lower (AssessMinPU s)), ''  raise? '' @ raise_text (as_Raise (AssessMinPU s))]"

section \<open>The table of compare\<close>

text \<open>
  A table laid out by \<^verbatim>\<open>tabwriter.NewWriter(w, 2, 8, 2, ' ', 0)\<close>: every cell but the last of a row
  is padded with blanks to the width of its column, the longest of its cells and two more, and
  at least two.
\<close>

definition col_width :: "string list list \<Rightarrow> nat \<Rightarrow> nat" where
  "col_width rows j = fold (\<lambda>r w. max w (length (r ! j) + 2)) rows 2"

definition pad_cell :: "nat \<Rightarrow> string \<Rightarrow> string" where
  "pad_cell w c = c @ replicate (w - length c) (CHR '' '')"

definition tab_line :: "string list list \<Rightarrow> string list \<Rightarrow> string" where
  "tab_line rows r = concat (map (\<lambda>j. pad_cell (col_width rows j) (r ! j)) [0..<length r - 1]) @ last r"

definition compare_cells :: "compareRow list \<Rightarrow> string list list option" where
  "compare_cells rows =
     (case rows of
        [] \<Rightarrow> None
      | first # _ \<Rightarrow>
          Some ([[''CONFIG'', ''PU-HOURS'', ''SAVED%'', ''UPS'', ''DOWNS'', ''P95 HI-CPU'', ''P95 TOTAL-CPU'', ''>TARGET MIN'',
                  ''LOW-CONF MIN''],
                 [''(recorded)'', fmt_f 1 (sum_ActualPUHours (cr_Summary first)), [], [], [], [], [], [], []]] @
                map (\<lambda>r. let s = cr_Summary r in [cr_Config r, fmt_f 1 (sum_SimPUHours s), fmt_f 1 (sum_PUHoursSavedPercent s),
                  fmt_d (int (sum_ScaleUps s)), fmt_d (int (sum_ScaleDowns s)), formatP95 (sum_SimHighPriorityCPU s),
                  formatP95 (sum_SimTotalCPU s), fmt_f 0 (sum_TargetExceededMinutes s), fmt_f 0 (sum_LowConfidenceMinutes s)]) rows))"

definition writeCompareTable :: "compareRow list \<Rightarrow> string list option" where
  "writeCompareTable rows = map_option (\<lambda>cells. map (tab_line cells) cells) (compare_cells rows)"

section \<open>What the commands guarantee\<close>

text \<open>A recording written by \<^verbatim>\<open>fetch\<close> is one \<^verbatim>\<open>simulate\<close> loads, to the precision of the file.\<close>

theorem fetch_then_load:
  assumes "runFetch env f = (None, [Fetched_file path text])" "text_env_ok (fe_text env)"
    and "ce_text cli = fe_text env" "ce_readFile cli path = Inr text" "path \<noteq> []"
  shows "\<exists>client start_time end_time points.
     fe_newClient env = Inr client \<and> te_parseTime (fe_text env) (ff_start f) = Inr start_time \<and>
     fetch_end env f = Inr end_time \<and> start_time < end_time \<and>
     fetchPoints client (ff_project f) (ff_instance f) start_time end_time = Inr points \<and>
     ((\<forall>p \<in> set points. recordable p) \<longrightarrow>
        loadPoints cli (default_flags\<lparr>cf_metricsPath := path\<rparr>) = Inr (map stored points))"
proof -
  obtain client start_time end_time points where c: "fe_newClient env = Inr client"
    "te_parseTime (fe_text env) (ff_start f) = Inr start_time" "fetch_end env f = Inr end_time" "start_time < end_time"
    "fetchPoints client (ff_project f) (ff_instance f) start_time end_time = Inr points"
    "fetch_write env (ff_out f) points = (None, [Fetched_file path text])"
    using assms(1) unfolding runFetch_def by (auto split: if_splits sum.splits)
  have t: "text = WriteCSV (fe_text env) points" using c(6) by (auto simp: fetch_write_def split: if_splits option.splits)
  have "points \<noteq> []" using c(5) by (auto simp: fetchPoints_def Let_def split: sum.splits if_splits)
  then have "LoadCSV (fe_text env) text = Inr (map stored points)" if "\<forall>p \<in> set points. recordable p"
    using load_written [OF assms(2) _ that] t by simp
  then show ?thesis using c assms(3-5) by (auto simp: loadPoints_def)
qed

lemma simulator_main_exit:
  assumes "simulator_main run args = Some (code, usage)"
  shows "code \<le> 2" "code = 0 \<longleftrightarrow> length args \<ge> 2 \<and>
     ((\<exists>cmd. subcommand_of (args ! 1) = Some cmd \<and> run cmd (drop 2 args) = Some False) \<or>
      subcommand_of (args ! 1) = None \<and> args ! 1 \<in> set [''help'', ''-h'', ''--help''])"
  using assms by (auto simp: simulator_main_def simp del: set_simps list.set split: if_splits option.splits)

lemma event_lines_length: "length (event_lines env i es) = (if i \<le> 10 then min (length es) (11 - i) else length es)"
proof (induction es arbitrary: i)
  case (Cons e es)
  show ?case by (cases "i = 10") (auto simp: Cons min_def)
qed simp

text \<open>In every line of a table a column starts at the same place.\<close>

lemma col_width_ge:
  assumes "r \<in> set rows"
  shows "length (r ! j) \<le> col_width rows j"
proof -
  have m: "w \<le> fold (\<lambda>r w. max w (length (r ! j) + 2)) rs w" for rs :: "string list list" and w
    by (induction rs arbitrary: w) (auto intro: order_trans [OF max.cobounded1])
  have "length (r ! j) \<le> fold (\<lambda>r w. max w (length (r ! j) + 2)) rs w" if "r \<in> set rs" for rs :: "string list list" and w
    using that
  proof (induction rs arbitrary: w)
    case (Cons q rs)
    show ?case
    proof (cases "r = q")
      case True
      have "length (r ! j) \<le> max w (length (r ! j) + 2)" by simp
      also have "\<dots> \<le> fold (\<lambda>r w. max w (length (r ! j) + 2)) rs (max w (length (r ! j) + 2))" by (rule m)
      finally show ?thesis using True by simp
    qed (use Cons in simp)
  qed simp
  then show ?thesis using assms by (simp add: col_width_def)
qed

lemma table_aligned:
  assumes "r \<in> set rows"
  shows "length (concat (map (\<lambda>j. pad_cell (col_width rows j) (r ! j)) [0..<k])) = (\<Sum>j<k. col_width rows j)"
  by (induction k) (simp_all add: pad_cell_def col_width_ge [OF assms])

end
