(* ===== verification/Report_Text.thy ===== *)
theory Report_Text
  imports Simulator_Main
begin

text \<open>
  The text of what \<open>Report\<close> and \<open>Simulator_Cli\<close> hold as values: the reasons of
  \<^verbatim>\<open>internal/simulator/recommend.go\<close>, the table and the conclusion \<^verbatim>\<open>recommend\<close> prints
  (\<^verbatim>\<open>cmd/simulator/recommend.go\<close>), and the cards and cells of the HTML pages
  (\<^verbatim>\<open>cmd/simulator/report.go\<close>) up to the templates. The message of an error, which the
  libraries render, and the formats of times are parameters. Texts are bytes in UTF-8.
\<close>

section \<open>Formats\<close>

text \<open>\<^verbatim>\<open>%+.pf\<close> and \<^verbatim>\<open>%+d\<close>.\<close>

definition fmt_plus_f :: "nat \<Rightarrow> float64 \<Rightarrow> string" where
  "fmt_plus_f p v = (if f_man v < 0 then [] else ''+'') @ fmt_f p v"

definition fmt_plus_d :: "int \<Rightarrow> string" where
  "fmt_plus_d n = (if n < 0 then [] else ''+'') @ fmt_d n"

definition fmt_n :: "nat \<Rightarrow> string" where
  "fmt_n k = fmt_d (int k)"

definition middle_dot :: string where "middle_dot = [CHR 0xC2, CHR 0xB7]"
definition right_arrow :: string where "right_arrow = [CHR 0xE2, CHR 0x86, CHR 0x92]"
definition up_arrow :: string where "up_arrow = [CHR 0xE2, CHR 0x86, CHR 0x91]"
definition down_arrow :: string where "down_arrow = [CHR 0xE2, CHR 0x86, CHR 0x93]"

section \<open>Reasons\<close>

fun reason_text :: "infeasible_reason \<Rightarrow> string" where
  "reason_text (Above_target v m) = ''above target '' @ fmt_f 0 v @ ''m > '' @ fmt_f 0 m @ ''m allowed''"
| "reason_text (P99_high v m) = ''p99 high-priority CPU '' @ fmt_f 1 v @ ''% > '' @ fmt_f 1 m @ ''%''"
| "reason_text (P99_total v m) = ''p99 total CPU '' @ fmt_f 1 v @ ''% > '' @ fmt_f 1 m @ ''%''"
| "reason_text (Target_above_recommended t m) =
     ''high-priority CPU target '' @ fmt_d t @ ''% > recommended '' @ fmt_d m @ ''%''"
| "reason_text (P99_above_recommended v m) =
     ''p99 high-priority CPU '' @ fmt_f 1 v @ ''% > recommended '' @ fmt_d m @ ''%''"
| "reason_text (Steps_beyond n m) = ''steps beyond 2x/half '' @ fmt_n n @ '' > '' @ fmt_d m @ '' allowed''"
| "reason_text (Short_gaps n m) = ''scale gaps <10m '' @ fmt_n n @ '' > '' @ fmt_d m @ '' allowed''"
| "reason_text (Data_gaps v m) = ''data gaps '' @ fmt_f 0 v @ ''m > '' @ fmt_f 0 m @ ''m in the base replay '' @ em_dash @
     '' a metric this candidate enables is missing from the recording''"

fun keep_text :: "keep_reason \<Rightarrow> string" where
  "keep_text Keep_none_feasible = ''no candidate satisfies the constraints '' @ em_dash @
     '' keep the current configuration, or relax the constraints / widen the search space''"
| "keep_text Keep_none_cheaper = ''every candidate that satisfies the constraints costs at least as much as the current configuration '' @
     em_dash @ '' keep the current configuration''"
| "keep_text (Keep_too_many_changes n) = ''every candidate cheaper than the current configuration changes more than '' @ fmt_d n @
     '' parameter(s) '' @ em_dash @ '' keep the current configuration, or allow more changes per step''"

section \<open>The conclusion\<close>

fun conclusion_text :: "conclusion_line \<Rightarrow> string" where
  "conclusion_text (Change_line key cur v) = key @ '': '' @ cur @ '' -> '' @ v"
| "conclusion_text (Keep_line key cur) = key @ '': '' @ cur @ '' (keep)''"
| "conclusion_text (Effect_line s ds e de g dg) =
     ''effect: saves '' @ fmt_f 1 s @ ''% PU-hours ('' @ fmt_plus_f 1 ds @ '' vs current), above target '' @ fmt_f 0 e @ ''m ('' @
     fmt_plus_f 0 de @ ''), gaps<10m '' @ fmt_n g @ '' ('' @ fmt_plus_d dg @ '')''"
| "conclusion_text (Reason_line k) = keep_text k"

fun further_text :: "nat \<times> string \<times> float64 \<times> float64 \<Rightarrow> string" where
  "further_text (rank, changes, saved, exceeded) =
     ''further option (rank '' @ fmt_n rank @ ''): '' @ changes @ '' '' @ em_dash @ '' saves '' @ fmt_plus_f 1 saved @
     '' pt more with '' @ fmt_plus_f 0 exceeded @ '' min more above target; consider it after the recommendation has proven out''"

text \<open>The same effect on the page, with other separators.\<close>

fun page_effect :: "conclusion_line \<Rightarrow> string" where
  "page_effect (Effect_line s ds e de g dg) =
     ''effect: saves '' @ fmt_f 1 s @ ''% PU-hours ('' @ fmt_plus_f 1 ds @ '' vs current) '' @ middle_dot @ '' above target '' @
     fmt_f 0 e @ '' min ('' @ fmt_plus_f 0 de @ '') '' @ middle_dot @ '' gaps<10m '' @ fmt_n g @ '' ('' @ fmt_plus_d dg @ '')''"
| "page_effect _ = []"

section \<open>The candidate table\<close>

definition row_label :: "params \<Rightarrow> Candidate list \<Rightarrow> table_row \<Rightarrow> string" where
  "row_label current candidates r =
     DescribeChanges current (ca_Overrides (candidates ! tr_candidate r)) @
     (if tr_equivalents r > 0 then '' (+'' @ fmt_n (tr_equivalents r) @ '' equivalent)'' else [])"

fun marker :: "row_kind \<Rightarrow> string" where
  "marker (Row_infeasible rs) = '' [infeasible]''"
| "marker Row_recommended = '' [recommended]''"
| "marker _ = []"

fun row_cells :: "(cand_error \<Rightarrow> string) \<Rightarrow> params \<Rightarrow> Summary \<Rightarrow> Candidate list \<Rightarrow> table_line \<Rightarrow> string list" where
  "row_cells err_text current base candidates (Table_more n) =
     [[], ''... '' @ fmt_n n @ '' more distinct outcomes (raise -top or use -format json)''] @ replicate 9 []"
| "row_cells err_text current base candidates (Table_row r) =
     (let label = row_label current candidates r; s = ca_Summary (candidates ! tr_candidate r)
      in case tr_kind r of
           Row_error err \<Rightarrow> [fmt_n (tr_rank r), label, ''ERROR: '' @ err_text err] @ replicate 8 []
         | k \<Rightarrow>
             [fmt_n (tr_rank r), label @ marker k, fmt_f 1 (sum_SimPUHours s),
              fmt_f 1 (sum_PUHoursSavedPercent s) @ '' ('' @
                fmt_plus_f 1 (f_sub (sum_PUHoursSavedPercent s) (sum_PUHoursSavedPercent base)) @ '')'',
              formatP95 (sum_SimHighPriorityCPU s), formatP99 (sum_SimHighPriorityCPU s),
              fmt_f 0 (sum_TargetExceededMinutes s) @ '' ('' @
                fmt_plus_f 0 (f_sub (sum_TargetExceededMinutes s) (sum_TargetExceededMinutes base)) @ '')'',
              fmt_n (sum_ScaleUps s), fmt_n (sum_ScaleDowns s), fmt_n (sum_ScaleStepViolations s),
              fmt_n (sum_ScaleGapsUnder10Min s) @ '' ('' @
                fmt_plus_d (int (sum_ScaleGapsUnder10Min s) - int (sum_ScaleGapsUnder10Min base)) @ '')''])"

definition head_cells :: "Summary \<Rightarrow> string list list" where
  "head_cells base =
     [[''RANK'', ''OVERRIDES'', ''PU-HOURS'', ''SAVED%'', ''P95 HI-CPU'', ''P99 HI-CPU'', ''>TARGET MIN'', ''UPS'', ''DOWNS'',
       ''STEP>2X'', ''GAP<10M''],
      [''-'', ''(recorded)'', fmt_f 1 (sum_ActualPUHours base)] @ replicate 8 [],
      [''-'', ''(base)'', fmt_f 1 (sum_SimPUHours base), fmt_f 1 (sum_PUHoursSavedPercent base),
       formatP95 (sum_SimHighPriorityCPU base), formatP99 (sum_SimHighPriorityCPU base),
       fmt_f 0 (sum_TargetExceededMinutes base), fmt_n (sum_ScaleUps base), fmt_n (sum_ScaleDowns base),
       fmt_n (sum_ScaleStepViolations base), fmt_n (sum_ScaleGapsUnder10Min base)]]"

definition rejections :: "table_line list \<Rightarrow> (nat \<times> infeasible_reason list) list" where
  "rejections lines = concat (map (\<lambda>l. case l of
       Table_row r \<Rightarrow> (case tr_kind r of Row_infeasible rs \<Rightarrow> [(tr_rank r, rs)] | _ \<Rightarrow> [])
     | Table_more n \<Rightarrow> []) lines)"

definition writeRecommendTable ::
    "(cand_error \<Rightarrow> string) \<Rightarrow> scaled_value \<Rightarrow> params \<Rightarrow> params \<Rightarrow> Summary \<Rightarrow> Candidate list \<Rightarrow> float64 \<Rightarrow> gint \<Rightarrow>
     commonFlags \<Rightarrow> gint \<Rightarrow> bool \<Rightarrow> string list" where
  "writeRecommendTable err_text gsv current displayCurrent base candidates tolerance maxChanges common top_n showInfeasible =
     (let feasibleCount = length (filter ca_Feasible candidates);
          all_shown = showInfeasible \<or> feasibleCount = 0;
          rec_index = RecommendedIndex gsv base current candidates tolerance maxChanges;
          rows = table_rows candidates (fst rec_index) all_shown top_n (GroupEquivalent candidates) 0 0;
          cells = head_cells base @ map (row_cells err_text current base candidates) rows;
          best = map_option (\<lambda>i. candidates ! i) (fst rec_index)
      in [''Evaluated '' @ fmt_n (length candidates) @ '' candidates ('' @ fmt_n feasibleCount @ '' feasible) against '' @
            fmt_n (sum_DataPoints base) @ '' recorded points''] @
         (if feasibleCount = 0 \<and> \<not> showInfeasible
          then [''no candidate satisfies the constraints '' @ em_dash @
                '' showing the cheapest infeasible ones with the reasons they were rejected'']
          else []) @
         [[]] @ map (tab_line cells) cells @
         (if length (rejections rows) > 0
          then [[], ''why infeasible:''] @
               map (\<lambda>(rank, rs). ''  '' @ fmt_n rank @ '': '' @ join ''; '' (map reason_text rs)) (rejections rows)
          else []) @
         [[], ''recommended configuration:''] @
         map (\<lambda>l. ''  '' @ conclusion_text l) (recommendationLines current displayCurrent base best (snd (snd rec_index))) @
         (case (best, fst (snd rec_index)) of
            (Some b, Some k) \<Rightarrow> [''  '' @ further_text (furtherOptionLine current b (candidates ! k) (groupRank candidates k))]
          | _ \<Rightarrow> []) @
         printMinPUAssessment ''base'' base @
         (case best of None \<Rightarrow> [] | Some b \<Rightarrow> printMinPUAssessment ''recommended candidate'' (ca_Summary b)) @
         (if f_less f_zero (sum_LowConfidenceMinutes base)
          then [[], ''note: '' @ fmt_f 0 (sum_LowConfidenceMinutes base) @ '' minutes of the recording are above '' @
                  fmt_f 0 (cf_lowConfidenceCPU common) @
                  ''% CPU; the workload model is less reliable there (see -low-confidence-cpu)'']
          else []))"

text \<open>The guidelines \<^verbatim>\<open>runRecommend\<close> prints above the table.\<close>

definition guideline_lines :: "string \<Rightarrow> string \<Rightarrow> recommend_text \<Rightarrow> string list" where
  "guideline_lines instanceConfig puChangeGuideline t =
     (case rt_ceiling t of
        Some m \<Rightarrow> [''guideline: high-priority CPU target and simulated p99 must stay <= '' @ fmt_d m @ ''% ('' @ instanceConfig @
                    '' instance configuration)'']
      | None \<Rightarrow> []) @
     (case rt_limits t of
        Some (m, g) \<Rightarrow> [''guideline: at most '' @ fmt_d m @ '' scale events beyond 2x/half and '' @ fmt_d g @
                         '' gaps < 10m allowed (-pu-change-guideline '' @ puChangeGuideline @ '')'']
      | None \<Rightarrow> [''guideline: PU-change pacing checks are disabled (-pu-change-guideline none); check the STEP>2X and GAP<10M columns before adopting a candidate''])"

section \<open>Cards and cells of the pages\<close>

record kpiView =
  kv_Label :: string
  kv_Value :: string
  kv_Note :: string

definition simulate_kpis :: "simulate_page \<Rightarrow> kpiView list" where
  "simulate_kpis p =
     (let s = pg_Summary p; days = f_max (f_div (Hours (t_sub (sum_End s) (sum_Start s))) (f_of_int 24)) (f_of_int 1)
      in [\<lparr>kv_Label = ''PU-hours saved'', kv_Value = fmt_f 1 (sum_PUHoursSavedPercent s) @ ''%'',
           kv_Note = ''recorded '' @ commaInt (f_to_int (sum_ActualPUHours s)) @ '' '' @ right_arrow @ '' simulated '' @
             commaInt (f_to_int (sum_SimPUHours s))\<rparr>,
          \<lparr>kv_Label = ''above target'', kv_Value = fmt_f 0 (sum_TargetExceededMinutes s) @ '' min'',
           kv_Note = fmt_f 1 (f_div (sum_TargetExceededMinutes s) days) @ '' min/day''\<rparr>,
          \<lparr>kv_Label = ''pinned at min PU'', kv_Value = fmt_f 0 (sum_MinPinnedPercent s) @ ''%'',
           kv_Note = ''workload floor p95 '' @ commaInt (sum_RequiredPUAtMinP95 s) @ '' PU''\<rparr>,
          \<lparr>kv_Label = ''scale events'',
           kv_Value = fmt_n (sum_ScaleUps s) @ '' '' @ up_arrow @ '' / '' @ fmt_n (sum_ScaleDowns s) @ '' '' @ down_arrow,
           kv_Note = fmt_n (sum_ScaleStepViolations s) @ '' steps >2x, '' @ fmt_n (sum_ScaleGapsUnder10Min s) @ '' gaps <10m''\<rparr>,
          \<lparr>kv_Label = ''low confidence'', kv_Value = fmt_f 0 (sum_LowConfidenceMinutes s) @ '' min'',
           kv_Note = ''recorded CPU above the model threshold''\<rparr>])"

definition recommend_kpis :: "recommend_page \<Rightarrow> kpiView list" where
  "recommend_kpis p =
     [\<lparr>kv_Label = ''base PU-hours saved'', kv_Value = fmt_f 1 (sum_PUHoursSavedPercent (rp_Base p)) @ ''%'',
       kv_Note = ''replay of the current config vs recorded''\<rparr>,
      \<lparr>kv_Label = ''base above target'', kv_Value = fmt_f 0 (sum_TargetExceededMinutes (rp_Base p)) @ '' min'',
       kv_Note = ''risk reference for the deltas''\<rparr>,
      \<lparr>kv_Label = ''feasible candidates'', kv_Value = fmt_n (rp_Feasible p) @ '' / '' @ fmt_n (rp_Evaluated p),
       kv_Note = ''under the given constraints''\<rparr>]"

record eventView =
  evw_Time :: string
  evw_From :: string
  evw_To :: string
  evw_Delta :: string

definition event_views :: "(time \<Rightarrow> string) \<Rightarrow> simulate_page \<Rightarrow> eventView list" where
  "event_views format_minute p =
     map (\<lambda>e. \<lparr>evw_Time = format_minute (ev_Time e), evw_From = commaInt (ev_FromPU e), evw_To = commaInt (ev_ToPU e),
       evw_Delta = fmt_plus_d (gsub (ev_ToPU e) (ev_FromPU e))\<rparr>) (pg_Events p)"

record verdictText =
  vt_Label :: string
  vt_MinPU :: string
  vt_Pinned :: string
  vt_Floor :: string
  vt_Lower :: string
  vt_Raise :: string

definition verdict_text :: "string \<Rightarrow> verdict_view \<Rightarrow> verdictText" where
  "verdict_text label v =
     \<lparr>vt_Label = label, vt_MinPU = vv_MinPU v, vt_Pinned = fmt_f 0 (vv_Pinned v) @ ''%'', vt_Floor = vv_Floor v,
      vt_Lower = lower_text (as_Lower (vv_Assessment v)), vt_Raise = raise_text (as_Raise (vv_Assessment v))\<rparr>"

record candidateRowView =
  cv_Rank :: string
  cv_Label :: string
  cv_Error :: string
  cv_Infeasible :: bool
  cv_Recommended :: bool
  cv_Saved :: string
  cv_DSaved :: string
  cv_Exceeded :: string
  cv_DExceeded :: string
  cv_Gaps :: string
  cv_Steps :: string
  cv_P99 :: string
  cv_Status :: string

definition candidate_row :: "(cand_error \<Rightarrow> string) \<Rightarrow> params \<Rightarrow> Summary \<Rightarrow> Candidate list \<Rightarrow> table_row \<Rightarrow> candidateRowView" where
  "candidate_row err_text current base candidates r =
     (let s = ca_Summary (candidates ! tr_candidate r);
          row = \<lparr>cv_Rank = fmt_n (tr_rank r), cv_Label = row_label current candidates r, cv_Error = [],
            cv_Infeasible = False, cv_Recommended = False, cv_Saved = fmt_f 1 (sum_PUHoursSavedPercent s) @ ''%'',
            cv_DSaved = fmt_plus_f 1 (f_sub (sum_PUHoursSavedPercent s) (sum_PUHoursSavedPercent base)),
            cv_Exceeded = fmt_f 0 (sum_TargetExceededMinutes s) @ '' min'',
            cv_DExceeded = fmt_plus_f 0 (f_sub (sum_TargetExceededMinutes s) (sum_TargetExceededMinutes base)),
            cv_Gaps = fmt_n (sum_ScaleGapsUnder10Min s), cv_Steps = fmt_n (sum_ScaleStepViolations s),
            cv_P99 = formatP99 (sum_SimHighPriorityCPU s), cv_Status = ''feasible''\<rparr>
      in case tr_kind r of
           Row_error err \<Rightarrow> row\<lparr>cv_Error := err_text err, cv_Saved := [], cv_DSaved := [], cv_Exceeded := [],
             cv_DExceeded := [], cv_Gaps := [], cv_Steps := [], cv_P99 := [], cv_Status := []\<rparr>
         | Row_infeasible rs \<Rightarrow> row\<lparr>cv_Infeasible := True, cv_Status := ''infeasible: '' @ join ''; '' (map reason_text rs)\<rparr>
         | Row_recommended \<Rightarrow> row\<lparr>cv_Recommended := True, cv_Status := ''recommended''\<rparr>
         | Row_plain \<Rightarrow> row)"

text \<open>The lines in the tooltip of a dot.\<close>

definition dot_lines :: "Summary \<Rightarrow> Summary option \<Rightarrow> infeasible_reason list \<Rightarrow> string list" where
  "dot_lines base candidate reasons =
     (case candidate of
        None \<Rightarrow> [''saved '' @ fmt_f 1 (sum_PUHoursSavedPercent base) @ ''%'',
                 ''above target '' @ fmt_f 0 (sum_TargetExceededMinutes base) @ '' min'']
      | Some s \<Rightarrow>
          [''saved '' @ fmt_f 1 (sum_PUHoursSavedPercent s) @ ''% ('' @
             fmt_plus_f 1 (f_sub (sum_PUHoursSavedPercent s) (sum_PUHoursSavedPercent base)) @ '' vs base)'',
           ''above target '' @ fmt_f 0 (sum_TargetExceededMinutes s) @ '' min ('' @
             fmt_plus_f 0 (f_sub (sum_TargetExceededMinutes s) (sum_TargetExceededMinutes base)) @ '')'',
           ''gaps<10m '' @ fmt_n (sum_ScaleGapsUnder10Min s) @ '' ('' @
             fmt_plus_d (int (sum_ScaleGapsUnder10Min s) - int (sum_ScaleGapsUnder10Min base)) @ ''), steps>2x '' @
             fmt_n (sum_ScaleStepViolations s)] @
          map (\<lambda>r. ''infeasible: '' @ reason_text r) reasons)"

section \<open>The table and the page show the same rows\<close>

text \<open>
  The rows of the table are the first \<open>top_n\<close> rows of the page whose candidate may be shown; a
  last line says how many groups, shown or not, there are from the first one that is cut.
\<close>

theorem table_rows_of_page:
  fixes cs ri all_shown gs rank
  defines "vis \<equiv> filter (\<lambda>r. all_shown \<or> ca_Feasible (cs ! tr_candidate r)) (html_rows cs ri gs rank)"
  shows "table_rows cs ri all_shown top_n gs rank shown =
     map Table_row (take (nat (top_n - shown)) vis) @
     (if nat (top_n - shown) < length vis
      then [Table_more (rank + length gs + 1 - tr_rank (vis ! nat (top_n - shown)))] else [])"
  unfolding vis_def
proof (induction gs arbitrary: rank shown)
  case (Cons g gs)
  define rep where "rep = (case ri of Some r \<Rightarrow> if r \<in> set g then r else g ! 0 | None \<Rightarrow> g ! 0)"
  define row where "row = \<lparr>tr_rank = rank + 1, tr_candidate = rep, tr_equivalents = length g - 1,
    tr_kind = row_kind_of (cs ! rep) (ri = Some rep)\<rparr>"
  define rest where "rest = filter (\<lambda>r. all_shown \<or> ca_Feasible (cs ! tr_candidate r)) (html_rows cs ri gs (Suc rank))"
  have h: "html_rows cs ri (g # gs) rank = row # html_rows cs ri gs (Suc rank)"
    by (simp add: row_def rep_def Let_def)
  have row: "tr_rank row = Suc rank" "tr_candidate row = rep" by (simp_all add: row_def)
  note IH = Cons.IH [of "Suc rank", folded rest_def]
  have v: "filter (\<lambda>r. all_shown \<or> ca_Feasible (cs ! tr_candidate r)) (html_rows cs ri (g # gs) rank) =
     (if all_shown \<or> ca_Feasible (cs ! rep) then row # rest else rest)" unfolding h by (simp add: row rest_def)
  have t: "table_rows cs ri all_shown top_n (g # gs) rank shown =
     (if \<not> ca_Feasible (cs ! rep) \<and> \<not> all_shown then table_rows cs ri all_shown top_n gs (Suc rank) shown
      else if shown + 1 > top_n then [Table_more (length (g # gs))]
      else Table_row row # table_rows cs ri all_shown top_n gs (Suc rank) (shown + 1))"
    by (simp add: row_def rep_def Let_def)
  have step: "nat (top_n - shown) = Suc (nat (top_n - (shown + 1)))" if "shown < top_n" using that by linarith
  consider "\<not> ca_Feasible (cs ! rep) \<and> \<not> all_shown" | "all_shown \<or> ca_Feasible (cs ! rep)" "top_n \<le> shown"
    | "all_shown \<or> ca_Feasible (cs ! rep)" "shown < top_n"
    by linarith
  then show ?case
  proof cases
    case 1
    then have "(\<not> ca_Feasible (cs ! rep) \<and> \<not> all_shown) = True" "(all_shown \<or> ca_Feasible (cs ! rep)) = False" by simp_all
    then show ?thesis unfolding t v by (simp only: if_True if_False IH) simp
  next
    case 2
    then show ?thesis unfolding t v by (auto simp: row)
  next
    case 3
    have "\<not> shown + 1 > top_n" using 3(2) by linarith
    then show ?thesis using 3(1) unfolding t v step [OF 3(2)] by (auto simp: IH row)
  qed
qed simp

text \<open>Every row of the table has the cells of the head, so that the columns are aligned.\<close>

lemma row_cells_length: "length (row_cells err_text current base candidates l) = 11"
  by (cases l) (auto simp: Let_def split: row_kind.splits)

lemma table_cells_length:
  assumes "r \<in> set (head_cells base @ map (row_cells err_text current base candidates) rows)"
  shows "length r = 11"
proof -
  have "\<forall>r \<in> set (head_cells base). length r = 11" by (simp add: head_cells_def)
  then show ?thesis using assms row_cells_length by auto
qed

text \<open>The reasons printed below the table are those of the infeasible rows above, in their order.\<close>

lemma rejections_of_rows:
  "(rank, rs) \<in> set (rejections lines) \<longleftrightarrow> (\<exists>r. Table_row r \<in> set lines \<and> tr_rank r = rank \<and> tr_kind r = Row_infeasible rs)"
proof (induction lines)
  case (Cons l ls)
  have "rejections (l # ls) = (case l of Table_row r \<Rightarrow> (case tr_kind r of Row_infeasible rs \<Rightarrow> [(tr_rank r, rs)] | _ \<Rightarrow> [])
     | Table_more n \<Rightarrow> []) @ rejections ls" by (simp add: rejections_def)
  then show ?case using Cons by (cases l) (auto split: row_kind.splits)
qed (simp add: rejections_def)

text \<open>
  What is marked as infeasible has a reason next to it: on the page in its status, in the table
  in the list below it.
\<close>

theorem infeasible_rows_explained:
  assumes "\<forall>c \<in> set cs. ca_Error c = None \<longrightarrow> (ca_Feasible c \<longleftrightarrow> ca_InfeasibleReasons c = [])"
    and "tr_kind r = Row_infeasible rs" "tr_candidate r < length cs" "tr_kind r = row_kind_of (cs ! tr_candidate r) b"
  shows "rs \<noteq> []" "Table_row r \<in> set lines \<Longrightarrow> (tr_rank r, rs) \<in> set (rejections lines)"
    "cv_Status (candidate_row err_text current base cs r) = ''infeasible: '' @ join ''; '' (map reason_text rs)"
proof -
  have "ca_Error (cs ! tr_candidate r) = None" "\<not> ca_Feasible (cs ! tr_candidate r)" "rs = ca_InfeasibleReasons (cs ! tr_candidate r)"
    using assms(2,4) by (auto simp: row_kind_of_def split: option.splits if_splits)
  then show "rs \<noteq> []" using assms(1,3) nth_mem by metis
  show "(tr_rank r, rs) \<in> set (rejections lines)" if "Table_row r \<in> set lines"
    using that assms(2) rejections_of_rows by blast
  show "cv_Status (candidate_row err_text current base cs r) = ''infeasible: '' @ join ''; '' (map reason_text rs)"
    using assms(2) by (simp add: candidate_row_def Let_def)
qed

end
