(* ===== verification/Control_Loop.thy ===== *)
theory Control_Loop
  imports Emulated_Metrics Float_Error Simulator Syncer
begin

text \<open>
  The autoscaler in a closed loop with an instance under a constant load. The load determines
  the CPU at every size (\<open>cpu = load / processing units\<close>, as \<^verbatim>\<open>workload_store.go\<close> and the
  simulator put it); the metrics client truncates it to a percentage, the scaling decision
  derives a size from the percentage, and the instance gets that size. The interface
  \<open>proportional_load\<close> says what the decision needs of a percentage; the monitoring emulator
  in workload mode and the simulator provide it, up to the rounding of floats.
\<close>

section \<open>Sizes\<close>

text \<open>The valid size below a valid one.\<close>

definition pred_pu :: "int \<Rightarrow> int" where
  "pred_pu n = (if n \<le> 1000 then n - 100 else n - 1000)"

lemma multiple_le_diff:
  fixes p n :: int
  assumes "0 < k" "p mod k = 0" "n mod k = 0" "p < n"
  shows "p \<le> n - k"
proof -
  have "(p div k + 1) * k \<le> n" using assms by (intro next_multiple_le) auto
  moreover have "p div k * k = p" using assms(2) by (metis add.right_neutral div_mult_mod_eq)
  ultimately show ?thesis by (simp add: algebra_simps)
qed

lemma pred_pu_ge:
  assumes "valid_pu p" "valid_pu n" "p < n"
  shows "p \<le> pred_pu n"
proof (cases "n \<le> 1000")
  case True
  then show ?thesis using multiple_le_diff [of 100 p n] assms valid_pu_mod_100 by (simp add: pred_pu_def)
next
  case False
  then have n: "n mod 1000 = 0" using assms(2) by (simp add: valid_pu_def)
  have "1000 \<le> n - 1000" using False n by (intro multiple_le_diff) auto
  moreover have "p \<le> n - 1000" if "1000 \<le> p"
    using multiple_le_diff [of 1000 p n] valid_pu_mod_1000 [OF assms(1) that] n assms(3) by simp
  ultimately show ?thesis using False by (cases "1000 \<le> p") (auto simp: pred_pu_def)
qed

text \<open>
  A load is given in percent times processing units. The size at which it can rest is the
  least valid one whose CPU is below the target. \<open>slack\<close> bounds the rounding of floats; a load
  within it of a multiple of the target is excluded. There is headroom when the CPU at the
  next smaller size exceeds the target by more than a percentage loses by truncation.
\<close>

definition slack :: real where
  "slack = 1 / 2 ^ 50"

definition rest_size :: "real \<Rightarrow> int \<Rightarrow> int \<Rightarrow> bool" where
  "rest_size load tgt n \<longleftrightarrow> valid_pu n \<and> load * (1 + slack) < real_of_int (n * tgt) \<and>
     (n = 100 \<or> real_of_int (pred_pu n * tgt) \<le> load * (1 - slack))"

definition headroom :: "real \<Rightarrow> int \<Rightarrow> int \<Rightarrow> bool" where
  "headroom load tgt n \<longleftrightarrow> n = 100 \<or> real_of_int (pred_pu n * tgt + n) \<le> load * (1 - slack)"

section \<open>What the decision relies on\<close>

locale proportional_load =
  fixes ok :: "'l \<Rightarrow> bool"
    and load :: "'l \<Rightarrow> real"
    and reading :: "'l \<Rightarrow> int \<Rightarrow> int"
  assumes load_range: "ok l \<Longrightarrow> 0 \<le> load l \<and> load l < 2 ^ 31"
    and reading_nonneg: "ok l \<Longrightarrow> valid_pu p \<Longrightarrow> pu_range p \<Longrightarrow> 0 \<le> reading l p"
    and reading_upper: "ok l \<Longrightarrow> valid_pu p \<Longrightarrow> pu_range p \<Longrightarrow> real_of_int (reading l p * p) \<le> load l * (1 + slack)"
    and reading_lower: "ok l \<Longrightarrow> valid_pu p \<Longrightarrow> pu_range p \<Longrightarrow> load l * (1 - slack) < real_of_int ((reading l p + 1) * p)"
begin

lemma reading_range:
  assumes "ok l" "valid_pu p" "pu_range p"
  shows "pu_range (reading l p)"
proof -
  have n: "0 \<le> reading l p" using assms by (rule reading_nonneg)
  have "reading l p * 100 \<le> reading l p * p" using n valid_pu_ge_100 [OF assms(2)] by (rule mult_left_mono [rotated])
  then have "real_of_int (reading l p * 100) \<le> load l * (1 + slack)" using reading_upper [OF assms] by linarith
  also have "\<dots> < 2 ^ 31 * 100" using load_range [OF assms(1)] by (simp add: slack_def)
  finally have "reading l p < 2 ^ 31" by simp
  with n show ?thesis by (simp add: pu_range_def)
qed

text \<open>Below the size of rest the CPU reads as at or above the target; no size asks for more than it.\<close>

lemma reading_hot:
  assumes "ok l" "rest_size (load l) tgt n" "valid_pu p" "pu_range p" "p < n" "0 < tgt"
  shows "tgt \<le> reading l p"
proof -
  have v: "valid_pu n" using assms(2) by (simp add: rest_size_def)
  have "100 < n" using assms(3,5) valid_pu_ge_100 by fastforce
  then have "real_of_int (pred_pu n * tgt) \<le> load l * (1 - slack)" using assms(2) by (simp add: rest_size_def)
  moreover have "p * tgt \<le> pred_pu n * tgt" using pred_pu_ge [OF assms(3) v assms(5)] assms(6) by (intro mult_right_mono) auto
  ultimately have "real_of_int (p * tgt) < real_of_int ((reading l p + 1) * p)"
    using reading_lower [OF assms(1,3,4)] by linarith
  then have "tgt * p < (reading l p + 1) * p" by (simp only: of_int_less_iff mult.commute [of tgt])
  then have "tgt < reading l p + 1" using valid_pu_ge_100 [OF assms(3)] by (simp add: mult_less_cancel_right)
  then show ?thesis by simp
qed

lemma ideal_capped:
  assumes "ok l" "rest_size (load l) tgt n" "valid_pu p" "pu_range p" "0 < tgt"
  shows "ideal_pu (reading l p) tgt p \<le> n"
proof (rule ideal_pu_least [OF assms(5)])
  show "valid_pu n" using assms(2) by (simp add: rest_size_def)
  have "load l * (1 + slack) < real_of_int (n * tgt)" using assms(2) by (simp add: rest_size_def)
  then have "real_of_int (reading l p * p) < real_of_int (n * tgt)" using reading_upper [OF assms(1,3,4)] by linarith
  then show "reading l p * p < n * tgt" by (simp only: of_int_less_iff)
qed

lemma ideal_at_rest:
  assumes "ok l" "rest_size (load l) tgt n" "headroom (load l) tgt n" "pu_range n" "0 < tgt"
  shows "ideal_pu (reading l n) tgt n = n"
proof -
  have v: "valid_pu n" using assms(2) by (simp add: rest_size_def)
  note r = reading_nonneg [OF assms(1) v assms(4)]
  have n: "0 \<le> n" using assms(4) by (simp add: pu_range_def)
  have iv: "valid_pu (ideal_pu (reading l n) tgt n)" using r n assms(5) by (rule ideal_pu_valid)
  have "\<not> ideal_pu (reading l n) tgt n < n"
  proof
    assume less: "ideal_pu (reading l n) tgt n < n"
    then have "100 < n" using iv valid_pu_ge_100 by fastforce
    then have h: "real_of_int (pred_pu n * tgt + n) \<le> load l * (1 - slack)" using assms(3) by (simp add: headroom_def)
    have "reading l n * n < ideal_pu (reading l n) tgt n * tgt" using r n assms(5) by (rule ideal_pu_below_target)
    also have "\<dots> \<le> pred_pu n * tgt" using pred_pu_ge [OF iv v less] assms(5) by (intro mult_right_mono) auto
    finally have "(reading l n + 1) * n < pred_pu n * tgt + n" by (simp add: algebra_simps)
    then have "real_of_int ((reading l n + 1) * n) < real_of_int (pred_pu n * tgt + n)" by (simp only: of_int_less_iff)
    then show False using h reading_lower [OF assms(1) v assms(4)] by linarith
  qed
  then show ?thesis using ideal_capped [OF assms(1,2) v assms(4,5)] by linarith
qed

text \<open>One decision: it moves towards the size of rest from below without passing it, and down from above.\<close>

lemma desired_moves:
  assumes "ok l" "rest_size (load l) tgt n" "0 < tgt" "scaling_ok gsv sa" "valid_pu (cur_pu sa)"
    and "effective_min sa \<le> n" "n \<le> effective_max sa" "effective_min sa \<le> cur_pu sa" "cur_pu sa \<le> effective_max sa"
  defines "d \<equiv> DesiredPUFromCPU gsv (reading l (cur_pu sa)) tgt sa"
  shows "cur_pu sa < n \<Longrightarrow> cur_pu sa < d \<and> d \<le> n"
    and "n < cur_pu sa \<Longrightarrow> d < cur_pu sa"
    and "cur_pu sa = n \<Longrightarrow> headroom (load l) tgt n \<Longrightarrow> d = n"
    and "cur_pu sa = n \<Longrightarrow> ideal_pu (reading l n) tgt n < n \<Longrightarrow> effective_min sa < n \<Longrightarrow> d < n"
    and "cur_pu sa = n \<Longrightarrow> ideal_pu (reading l n) tgt n < n \<Longrightarrow> ideal_pu (reading l n) tgt n \<le> d"
proof -
  let ?c = "cur_pu sa"
  let ?i = "ideal_pu (reading l ?c) tgt ?c"
  have r: "pu_range ?c" using assms(4) by (simp add: scaling_ok_def)
  note rr = reading_range [OF assms(1,5) r]
  have iv: "valid_pu ?i" using rr r assms(3) by (intro ideal_pu_valid) (auto simp: pu_range_def)
  have d: "d = min (effective_max sa) (max (effective_min sa) (limited_pu gsv sa ?i))"
    using DesiredPUFromCPU_eq [OF assms(4) rr assms(3)] assms(6,7) by (simp add: d_def clamp_range_eq)
  have cap: "?i \<le> n" by (rule ideal_capped [OF assms(1,2,5) r assms(3)])
  note dir = limited_pu_direction [OF assms(4) iv]
  have down: "limited_pu gsv sa ?i < ?c" if "?i < ?c"
    using that limited_pu_down [OF assms(4), of ?i] scaling_ok_steps(4) [OF assms(4)] by auto
  show "?c < d \<and> d \<le> n" if "?c < n"
  proof -
    have "?c < ?i" using reading_hot [OF assms(1,2,5) r that assms(3)] assms(3) r
      by (intro ideal_pu_gt_cur) (auto simp: pu_range_def)
    then show ?thesis using dir(1) cap that assms(6-9) d by auto
  qed
  show "d < ?c" if "n < ?c" using down that cap assms(6-9) d by auto
  show "d = n" if "?c = n" "headroom (load l) tgt n"
  proof -
    have "?i = n" using ideal_at_rest [OF assms(1,2) that(2)] r assms(3) that(1) by simp
    then show ?thesis using dir(2) that(1) assms(6,7) d by auto
  qed
  show "d < n" if "?c = n" "ideal_pu (reading l n) tgt n < n" "effective_min sa < n"
    using down that d by auto
  show "ideal_pu (reading l n) tgt n \<le> d" if "?c = n" "ideal_pu (reading l n) tgt n < n"
    using limited_pu_down [OF assms(4), of ?i] that assms(7) d by auto
qed

end

section \<open>The emulator and the simulator provide it\<close>

text \<open>The percentage the client reads from the emulator for a workload at a size.\<close>

definition workload_percent :: "float64 \<Rightarrow> int \<Rightarrow> int" where
  "workload_percent w pu = f_to_int (f_mul (f_div w (f_of_int pu)) (f_of_int 100))"

definition workload_ok :: "float64 \<Rightarrow> bool" where
  "workload_ok w \<longleftrightarrow> 0 \<le> f_man w \<and> 100 * f_val w < 2 ^ 31"

lemma slack_two:
  fixes a b c :: real
  assumes "\<bar>b - c\<bar> \<le> c / 2 ^ 52" "\<bar>a - b\<bar> \<le> b / 2 ^ 52" "0 \<le> c"
  shows "a \<le> c * (1 + slack)" "c * (1 - slack) \<le> a"
proof -
  have "b \<le> c + c / 2 ^ 52" "c - c / 2 ^ 52 \<le> b" using assms(1) by linarith+
  moreover have "a \<le> b + b / 2 ^ 52" "b - b / 2 ^ 52 \<le> a" using assms(2) by linarith+
  ultimately show "a \<le> c * (1 + slack)" "c * (1 - slack) \<le> a" using assms(3) by (simp_all add: slack_def field_simps)
qed

lemma near_52: "\<bar>a - b\<bar> \<le> b / 2 ^ 53 \<Longrightarrow> 0 \<le> b \<Longrightarrow> \<bar>a - b\<bar> \<le> b / 2 ^ 52" for a b :: real
  by simp

lemma truncated_load:
  assumes "0 \<le> f_man v" "f_val v \<le> x / real_of_int p * (1 + slack)" "x / real_of_int p * (1 - slack) \<le> f_val v" "0 < p"
  shows "real_of_int (f_to_int v * p) \<le> x * (1 + slack)" "x * (1 - slack) < real_of_int ((f_to_int v + 1) * p)"
proof -
  note t = f_to_int_val [OF assms(1)]
  have p: "0 < real_of_int p" using assms(4) by simp
  have "real_of_int (f_to_int v) * real_of_int p \<le> x / real_of_int p * (1 + slack) * real_of_int p"
    using t(1) assms(2) p by (intro mult_right_mono) auto
  then show "real_of_int (f_to_int v * p) \<le> x * (1 + slack)" using p by simp
  have "x / real_of_int p * (1 - slack) * real_of_int p < (real_of_int (f_to_int v) + 1) * real_of_int p"
    using t(2) assms(3) p by (intro mult_strict_right_mono) auto
  then show "x * (1 - slack) < real_of_int ((f_to_int v + 1) * p)" using p by simp
qed

lemma workload_value:
  assumes "workload_ok w" "valid_pu p" "pu_range p"
  defines "v \<equiv> f_mul (f_div w (f_of_int p)) (f_of_int 100)"
  shows "0 \<le> f_man v" "f_val v \<le> 100 * f_val w / real_of_int p * (1 + slack)"
    "100 * f_val w / real_of_int p * (1 - slack) \<le> f_val v"
proof -
  have p: "0 < p" "p < 2 ^ 53" using assms(2,3) by (auto simp: valid_pu_def pu_range_def)
  have w: "0 \<le> f_man w" using assms(1) by (simp add: workload_ok_def)
  note fp = f_of_int_man [of p] f_val_of_int [of p]
  note f100 = f_of_int_man [of 100] f_val_of_int [of 100]
  note dv = f_div_near [of w "f_of_int p"]
  have d: "\<bar>f_val (f_div w (f_of_int p)) - f_val w / real_of_int p\<bar> \<le> f_val w / real_of_int p / 2 ^ 52"
    "0 \<le> f_man (f_div w (f_of_int p))" using dv w p fp by simp_all
  have m: "\<bar>f_val v - f_val (f_div w (f_of_int p)) * 100\<bar> \<le> f_val (f_div w (f_of_int p)) * 100 / 2 ^ 53" "0 \<le> f_man v"
    using f_mul_near [of "f_div w (f_of_int p)" "f_of_int 100"] d(2) f100 by (simp_all add: v_def)
  show "0 \<le> f_man v" by (rule m(2))
  have "\<bar>f_val (f_div w (f_of_int p)) * 100 - 100 * f_val w / real_of_int p\<bar> \<le> 100 * f_val w / real_of_int p / 2 ^ 52"
    using d(1) by (simp add: abs_le_iff field_simps)
  from slack_two [OF this near_52 [OF m(1)]] show "f_val v \<le> 100 * f_val w / real_of_int p * (1 + slack)"
    "100 * f_val w / real_of_int p * (1 - slack) \<le> f_val v" using f_val_nonneg [OF w] f_val_nonneg [OF d(2)] p by simp_all
qed

interpretation emulated: proportional_load workload_ok "\<lambda>w. 100 * f_val w" workload_percent
proof
  fix w
  assume "workload_ok w"
  then show "0 \<le> 100 * f_val w \<and> 100 * f_val w < 2 ^ 31" using f_val_nonneg [of w] by (simp add: workload_ok_def)
next
  fix w p
  assume a: "workload_ok w" "valid_pu p" "pu_range p"
  note v = workload_value [OF a]
  have p: "0 < p" using a(2) by (simp add: valid_pu_def)
  show "0 \<le> workload_percent w p" unfolding workload_percent_def by (rule f_to_int_val(3) [OF v(1)])
  show "real_of_int (workload_percent w p * p) \<le> 100 * f_val w * (1 + slack)"
    "100 * f_val w * (1 - slack) < real_of_int ((workload_percent w p + 1) * p)"
    unfolding workload_percent_def by (rule truncated_load [OF v p])+
qed

text \<open>The percentage the simulator derives from a recorded point.\<close>

definition point_percent :: "Point \<Rightarrow> int \<Rightarrow> int" where
  "point_percent pt pu = f_to_int (the (scale_cpu pt pu (pt_HighPriorityCPU pt)))"

definition point_load :: "Point \<Rightarrow> real" where
  "point_load pt = f_val (the (pt_HighPriorityCPU pt)) * real_of_int (pt_ProcessingUnits pt)"

definition point_ok :: "Point \<Rightarrow> bool" where
  "point_ok pt \<longleftrightarrow> pt_HighPriorityCPU pt \<noteq> None \<and> 0 \<le> f_man (the (pt_HighPriorityCPU pt)) \<and>
     pu_range (pt_ProcessingUnits pt) \<and> point_load pt < 2 ^ 31"

lemma point_value:
  assumes "point_ok pt" "valid_pu p" "pu_range p"
  defines "v \<equiv> the (scale_cpu pt p (pt_HighPriorityCPU pt))"
  shows "0 \<le> f_man v" "f_val v \<le> point_load pt / real_of_int p * (1 + slack)"
    "point_load pt / real_of_int p * (1 - slack) \<le> f_val v"
proof -
  obtain c where c: "pt_HighPriorityCPU pt = Some c" "0 \<le> f_man c" using assms(1) by (auto simp: point_ok_def)
  let ?u = "pt_ProcessingUnits pt"
  have p: "0 < p" "p < 2 ^ 53" "0 \<le> ?u" "?u < 2 ^ 53"
    using assms(1-3) by (auto simp: valid_pu_def pu_range_def point_ok_def)
  have l: "point_load pt = f_val c * real_of_int ?u" by (simp add: point_load_def c)
  have m: "\<bar>f_val (f_mul c (f_of_int ?u)) - point_load pt\<bar> \<le> point_load pt / 2 ^ 53" "0 \<le> f_man (f_mul c (f_of_int ?u))"
    using f_mul_near [of c "f_of_int ?u"] c f_of_int_man [of ?u] f_val_of_int [of ?u] p by (simp_all add: l)
  have v: "v = f_div (f_mul c (f_of_int ?u)) (f_of_int p)" by (simp add: v_def scale_cpu_def c)
  have d: "\<bar>f_val v - f_val (f_mul c (f_of_int ?u)) / real_of_int p\<bar> \<le> f_val (f_mul c (f_of_int ?u)) / real_of_int p / 2 ^ 52"
    "0 \<le> f_man v"
    using f_div_near [of "f_mul c (f_of_int ?u)" "f_of_int p"] m(2) f_of_int_man [of p] f_val_of_int [of p] p by (simp_all add: v)
  show "0 \<le> f_man v" by (rule d(2))
  have "0 \<le> point_load pt" using f_val_nonneg [OF c(2)] p by (simp add: l)
  define a b e where "a = f_val v" and "b = f_val (f_mul c (f_of_int ?u)) / real_of_int p" and "e = point_load pt / real_of_int p"
  have be: "\<bar>b - e\<bar> \<le> e / 2 ^ 53"
  proof -
    have "\<bar>f_val (f_mul c (f_of_int ?u)) - point_load pt\<bar> / real_of_int p \<le> point_load pt / 2 ^ 53 / real_of_int p"
      using m(1) p by (intro divide_right_mono) auto
    moreover have "\<bar>b - e\<bar> = \<bar>f_val (f_mul c (f_of_int ?u)) - point_load pt\<bar> / real_of_int p"
      using p by (simp add: b_def e_def abs_divide flip: diff_divide_distrib)
    ultimately show ?thesis by (simp add: e_def)
  qed
  have e0: "0 \<le> e" using \<open>0 \<le> point_load pt\<close> p by (simp add: e_def)
  have "a \<le> e * (1 + slack)" "e * (1 - slack) \<le> a"
    using slack_two [OF near_52 [OF be e0] _ e0, of a] d(1) by (simp_all add: a_def b_def)
  then show "f_val v \<le> point_load pt / real_of_int p * (1 + slack)"
    "point_load pt / real_of_int p * (1 - slack) \<le> f_val v" by (simp_all add: a_def e_def)
qed

interpretation simulated: proportional_load point_ok point_load point_percent
proof
  fix pt
  assume "point_ok pt"
  then show "0 \<le> point_load pt \<and> point_load pt < 2 ^ 31"
    using f_val_nonneg [of "the (pt_HighPriorityCPU pt)"] by (simp add: point_ok_def point_load_def pu_range_def)
next
  fix pt p
  assume a: "point_ok pt" "valid_pu p" "pu_range p"
  note v = point_value [OF a]
  have p: "0 < p" using a(2) by (simp add: valid_pu_def)
  show "0 \<le> point_percent pt p" unfolding point_percent_def by (rule f_to_int_val(3) [OF v(1)])
  show "real_of_int (point_percent pt p * p) \<le> point_load pt * (1 + slack)"
    "point_load pt * (1 - slack) < real_of_int ((point_percent pt p + 1) * p)"
    unfolding point_percent_def by (rule truncated_load [OF v p])+
qed

section \<open>The loop\<close>

text \<open>
  One round: the syncer reads the size of the instance and the CPU and writes the status, and
  the reconciler decides on the new status and updates the instance. Both use the clients and
  the emulators of the repository.
\<close>

record loop_env =
  le_gsv :: scaled_value
  le_parse :: cron_parser
  le_scaleUpInterval :: duration
  le_scaleDownInterval :: duration
  le_spanner :: spanner_client
  le_metrics :: metrics_client
  le_stores :: stores

type_synonym loop_state = "server \<times> SpannerAutoscaler"

definition observe_load :: "loop_env \<Rightarrow> time \<Rightarrow> loop_state \<Rightarrow> SpannerAutoscaler option" where
  "observe_load env now x =
     (case GetInstance server_GetInstance (le_spanner env) (fst x) of
        (Inl err, _) \<Rightarrow> None
      | (Inr i, _) \<Rightarrow>
          (case GetInstanceMetrics (emu_series (Some server_GetInstance) now (le_stores env)) (le_metrics env)
                  MetricTypeHighPriority now (fst x) of
             (Inl err, _) \<Rightarrow> None
           | (Inr m, _) \<Rightarrow>
               Some ((snd x)\<lparr>sa_Status := sync_status CPUMetricFlagHighPriority
                 \<lparr>g_instance = Some i, g_highPriority = Some m, g_total = None\<rparr> now (sa_Status (snd x))\<rparr>)))"

definition control_round :: "loop_env \<Rightarrow> time \<Rightarrow> loop_state \<Rightarrow> loop_state" where
  "control_round env now x =
     (case observe_load env now x of
        None \<Rightarrow> x
      | Some sa \<Rightarrow>
          (let d = DesiredProcessingUnits (le_gsv env) sa
           in if InstanceState (sa_Status sa) = InstanceStateReady \<and>
                 fst (Decide (le_parse env) sa d now (le_scaleUpInterval env) (le_scaleDownInterval env)) = DecisionScale
              then (case UpdateInstance server_GetInstance server_UpdateInstance (le_spanner env)
                           \<lparr>inst_ProcessingUnits = d, inst_InstanceState = InstanceState_other []\<rparr> (fst x) of
                      (Some err, server) \<Rightarrow> (server, sa)
                    | (None, server) \<Rightarrow> (server, sa\<lparr>sa_Status := (sa_Status sa)\<lparr>LastScaleTime := now\<rparr>\<rparr>))
              else (fst x, sa)))"

primrec control_loop :: "loop_env \<Rightarrow> (nat \<Rightarrow> time) \<Rightarrow> loop_state \<Rightarrow> nat \<Rightarrow> loop_state" where
  "control_loop env ts x 0 = x"
| "control_loop env ts x (Suc k) = control_round env (ts k) (control_loop env ts x k)"

definition loop_name :: "loop_env \<Rightarrow> string" where
  "loop_name env = instance_name (cl_projectID (le_spanner env)) (cl_instanceID (le_spanner env))"

definition loop_pu :: "loop_env \<Rightarrow> loop_state \<Rightarrow> int" where
  "loop_pu env x = (case fst x (loop_name env) of Some i \<Rightarrow> pb_ProcessingUnits i | None \<Rightarrow> 0)"

text \<open>
  What is fixed: both clients name the instance, the emulator has the workload \<open>w\<close> for it and
  no scenario.
\<close>

definition loop_env_ok :: "loop_env \<Rightarrow> float64 \<Rightarrow> bool" where
  "loop_env_ok env w \<longleftrightarrow>
     quote \<notin> set (mc_instanceID (le_metrics env)) \<and> mc_instanceID (le_metrics env) \<noteq> [] \<and>
     mc_projectID (le_metrics env) \<noteq> [] \<and>
     cl_projectID (le_spanner env) = mc_projectID (le_metrics env) \<and>
     cl_instanceID (le_spanner env) = mc_instanceID (le_metrics env) \<and>
     mes_scenario (le_stores env) (storeKey (mc_projectID (le_metrics env)) (mc_instanceID (le_metrics env))) = None \<and>
     map_option wp_Workload (WorkloadStore_Get (mc_projectID (le_metrics env)) (mc_instanceID (le_metrics env))
       MetricKindHighPriority (mes_workload (le_stores env))) = Some w \<and>
     workload_ok w"

text \<open>The autoscaler is configured for the CPU of high priority with a valid range, and the instance is within it.\<close>

definition loop_sa_ok :: "scaled_value \<Rightarrow> int \<Rightarrow> SpannerAutoscaler \<Rightarrow> bool" where
  "loop_sa_ok gsv tgt sa \<longleftrightarrow>
     sc_TargetCPUUtilization (scale_config sa) = \<lparr>cpu_HighPriority = Some tgt, cpu_Total = None\<rparr> \<and> 0 < tgt \<and>
     step_bounded gsv (Some (sc_ScaledownStepSize (scale_config sa))) \<and>
     step_bounded gsv (Some (sc_ScaleupStepSize (scale_config sa))) \<and>
     valid_pu (effective_min sa) \<and> valid_pu (effective_max sa) \<and> pu_range (effective_max sa)"

definition loop_ok :: "loop_env \<Rightarrow> int \<Rightarrow> loop_state \<Rightarrow> bool" where
  "loop_ok env tgt x \<longleftrightarrow> server_ok (fst x) \<and>
     map_option (instanceState \<circ> pb_State) (fst x (loop_name env)) = Some InstanceStateReady \<and>
     valid_pu (loop_pu env x) \<and> effective_min (snd x) \<le> loop_pu env x \<and> loop_pu env x \<le> effective_max (snd x) \<and>
     loop_sa_ok (le_gsv env) tgt (snd x)"

text \<open>A round at \<open>now\<close> is neither too early after the last change nor outside the windows.\<close>

definition round_time :: "loop_env \<Rightarrow> SpannerAutoscaler \<Rightarrow> time \<Rightarrow> bool" where
  "round_time env sa now \<longleftrightarrow>
     LastScaleTime (sa_Status sa) + DurationOr (sc_ScaleupInterval (scale_config sa)) (le_scaleUpInterval env) \<le> now \<and>
     LastScaleTime (sa_Status sa) + DurationOr (sc_ScaledownInterval (scale_config sa)) (le_scaleDownInterval env) \<le> now \<and>
     IsScaledownAllowed (le_parse env) (sc_ScaledownAllowedTimes (scale_config sa))
       (sc_ScaledownNotAllowedTimes (scale_config sa)) now = Inr True"

definition round_times :: "loop_env \<Rightarrow> SpannerAutoscaler \<Rightarrow> (nat \<Rightarrow> time) \<Rightarrow> bool" where
  "round_times env sa ts \<longleftrightarrow>
     (\<forall>k. round_time env sa (ts k)) \<and>
     (\<forall>j k. j < k \<longrightarrow> ts j + DurationOr (sc_ScaleupInterval (scale_config sa)) (le_scaleUpInterval env) \<le> ts k \<and>
        ts j + DurationOr (sc_ScaledownInterval (scale_config sa)) (le_scaleDownInterval env) \<le> ts k)"

section \<open>One round\<close>

lemma emulated_workload:
  assumes "loop_env_ok env w" "server (loop_name env) = Some i" "0 < pb_ProcessingUnits i" "pb_ProcessingUnits i < 2 ^ 53"
  shows "GetInstanceMetrics (emu_series (Some server_GetInstance) now (le_stores env)) (le_metrics env)
           MetricTypeHighPriority now server =
     (Inr \<lparr>im_CurrentHighPriorityCPUUtilization = workload_percent w (pb_ProcessingUnits i),
           im_CurrentTotalCPUUtilization = 0\<rparr>, server)"
proof -
  let ?p = "mc_projectID (le_metrics env)" and ?i = "mc_instanceID (le_metrics env)"
  let ?req = "buildListTimeSeriesRequest (le_metrics env) MetricTypeHighPriority now"
  note e = assms(1) [unfolded loop_env_ok_def]
  have f: "extractProjectID (req_Name ?req) = Inr ?p" "extractInstanceID (req_Filter ?req) = Inr ?i"
    "extractMetricKind (req_Filter ?req) = MetricKindHighPriority"
    using request_fields [of "le_metrics env" MetricTypeHighPriority now] e by simp_all
  obtain params where pa: "WorkloadStore_Get ?p ?i MetricKindHighPriority (mes_workload (le_stores env)) = Some params"
    "wp_Workload params = w" using e by auto
  have sc: "ScenarioStore_Get now ?p ?i (mes_scenario (le_stores env)) = None" using e by (simp add: ScenarioStore_Get_def)
  have g: "server_GetInstance (instance_name ?p ?i) server = (Inr i, server)"
    using assms(2) e by (simp add: server_GetInstance_def loop_name_def)
  have nz: "f_man (f_of_int (pb_ProcessingUnits i)) \<noteq> 0" using f_of_int_man [of "pb_ProcessingUnits i"] assms(3,4) by simp
  have "ListTimeSeries (Some server_GetInstance) now (le_stores env) ?req server =
      (Inr [[f_div w (f_of_int (pb_ProcessingUnits i))]], server)"
    using nz by (simp add: ListTimeSeries_def f sc pa g one_value_def calcCPUFromWorkload_def buildResponse_def)
  then show ?thesis
    by (simp add: GetInstanceMetrics_def emu_series_def firstPointAsPercent_def workload_percent_def)
qed

definition observed :: "int \<Rightarrow> int \<Rightarrow> time \<Rightarrow> SpannerAutoscaler \<Rightarrow> SpannerAutoscaler" where
  "observed pu cpu now sa = sa\<lparr>sa_Status := (sa_Status sa)\<lparr>CurrentProcessingUnits := pu, InstanceState := InstanceStateReady,
     CurrentHighPriorityCPUUtilization := cpu, CurrentTotalCPUUtilization := 0,
     CurrentCPUMetricType := CPUMetricTypeHighPriority, LastSyncTime := now\<rparr>\<rparr>"

lemma observed_simps [simp]:
  "sa_Spec (observed pu cpu now sa) = sa_Spec sa"
  "cur_pu (observed pu cpu now sa) = pu"
  "LastScaleTime (sa_Status (observed pu cpu now sa)) = LastScaleTime (sa_Status sa)"
  "InstanceState (sa_Status (observed pu cpu now sa)) = InstanceStateReady"
  "effective_min (observed pu cpu now sa) = effective_min sa"
  "effective_max (observed pu cpu now sa) = effective_max sa"
  by (simp_all add: observed_def effective_min_def effective_max_def)

lemma observe_ok:
  assumes "loop_env_ok env w" "loop_ok env tgt x"
  shows "observe_load env now x = Some (observed (loop_pu env x) (workload_percent w (loop_pu env x)) now (snd x))"
proof -
  obtain i where i: "fst x (loop_name env) = Some i" "instanceState (pb_State i) = InstanceStateReady"
    using assms(2) by (auto simp: loop_ok_def)
  have pu: "loop_pu env x = pb_ProcessingUnits i" by (simp add: loop_pu_def i)
  have b: "0 < pb_ProcessingUnits i" "pb_ProcessingUnits i < 2 ^ 53"
    using assms(2) by (auto simp: loop_ok_def loop_sa_ok_def valid_pu_def pu_range_def pu)
  have g: "GetInstance server_GetInstance (le_spanner env) (fst x) =
      (Inr \<lparr>inst_ProcessingUnits = pb_ProcessingUnits i, inst_InstanceState = InstanceStateReady\<rparr>, fst x)"
    using i by (simp add: GetInstance_def server_GetInstance_def loop_name_def [symmetric])
  have fl: "CPUMetricFlagHighPriority \<noteq> both_flags" "CPUMetricFlagHighPriority \<noteq> CPUMetricFlagTotal"
    by (simp_all add: both_flags_def flag_distinct [symmetric] flag_distinct)
  show ?thesis
    unfolding observe_load_def g emulated_workload [OF assms(1), of "fst x" i, OF i(1) b] pu
    by (simp add: sync_status_def observed_def Let_def fl)
qed

lemma desired_observed:
  assumes "loop_sa_ok gsv tgt sa"
  shows "DesiredProcessingUnits gsv (observed pu cpu now sa) = DesiredPUFromCPU gsv cpu tgt (observed pu cpu now sa)"
proof -
  have t: "sc_TargetCPUUtilization (scale_config sa) = \<lparr>cpu_HighPriority = Some tgt, cpu_Total = None\<rparr>"
    using assms by (simp add: loop_sa_ok_def)
  have s: "CurrentCPUMetricType (sa_Status (observed pu cpu now sa)) = CPUMetricTypeHighPriority"
    "CurrentHighPriorityCPUUtilization (sa_Status (observed pu cpu now sa)) = cpu" by (simp_all add: observed_def)
  show ?thesis by (simp add: DesiredProcessingUnits_def Let_def t s ActiveMetricFlags_cases flag_distinct [symmetric] flag_distinct)
qed

text \<open>What one round makes of the size: the size the decision asks for, within the range, at the latest change.\<close>

lemma control_round_ok:
  assumes "loop_env_ok env w" "loop_ok env tgt x" "round_time env (snd x) now"
  defines "sa \<equiv> observed (loop_pu env x) (workload_percent w (loop_pu env x)) now (snd x)"
  shows "loop_pu env (control_round env now x) = DesiredPUFromCPU (le_gsv env) (workload_percent w (loop_pu env x)) tgt sa"
    and "loop_ok env tgt (control_round env now x)"
    and "sa_Spec (snd (control_round env now x)) = sa_Spec (snd x)"
    and "effective_min (snd (control_round env now x)) = effective_min (snd x)"
    and "effective_max (snd (control_round env now x)) = effective_max (snd x)"
    and "LastScaleTime (sa_Status (snd (control_round env now x))) \<in> {LastScaleTime (sa_Status (snd x)), now}"
proof -
  let ?pu = "loop_pu env x" and ?cpu = "workload_percent w (loop_pu env x)"
  define d where "d = DesiredPUFromCPU (le_gsv env) ?cpu tgt sa"
  obtain i where i: "fst x (loop_name env) = Some i" "instanceState (pb_State i) = InstanceStateReady"
    using assms(2) by (auto simp: loop_ok_def)
  have pu: "?pu = pb_ProcessingUnits i" by (simp add: loop_pu_def i)
  have so: "server_ok (fst x)" using assms(2) by (simp add: loop_ok_def)
  have lo: "loop_sa_ok (le_gsv env) tgt (snd x)" using assms(2) by (simp add: loop_ok_def)
  have r: "valid_pu ?pu" "pu_range ?pu" "effective_min (snd x) \<le> effective_max (snd x)"
    using assms(2) by (auto simp: loop_ok_def loop_sa_ok_def valid_pu_def pu_range_def)
  have sok: "scaling_ok (le_gsv env) sa" using lo r by (simp add: scaling_ok_def sa_def loop_sa_ok_def)
  have w: "workload_ok w" using assms(1) by (simp add: loop_env_ok_def)
  have rr: "pu_range ?cpu" using emulated.reading_range [OF w r(1,2)] .
  have dv: "valid_pu d" unfolding d_def
    by (rule DesiredPUFromCPU_valid) (use sok rr lo r in \<open>simp_all add: loop_sa_ok_def sa_def\<close>)
  have dr: "effective_min (snd x) \<le> d" "d \<le> effective_max (snd x)"
    using DesiredPUFromCPU_clamped [of tgt sa "le_gsv env" ?cpu] lo r(3) by (simp_all add: d_def loop_sa_ok_def sa_def)
  have d32: "in_int32 d" using dr dv lo by (auto simp: in_int32_def loop_sa_ok_def pu_range_def valid_pu_def)
  have des: "DesiredProcessingUnits (le_gsv env) sa = d" unfolding sa_def d_def by (rule desired_observed [OF lo])
  let ?D = "fst (Decide (le_parse env) sa d now (le_scaleUpInterval env) (le_scaleDownInterval env))"
  have dec: "?D = (if d = ?pu then DecisionSkipSame else DecisionScale)"
    using assms(3) by (simp add: Decide_def Let_def sa_def round_time_def)
  let ?upd = "UpdateInstance server_GetInstance server_UpdateInstance (le_spanner env)
      \<lparr>inst_ProcessingUnits = d, inst_InstanceState = InstanceState_other []\<rparr> (fst x)"
  obtain s' where u: "?upd = (None, s')" "server_ok s'" "s' = (fst x)(loop_name env \<mapsto> i\<lparr>pb_ProcessingUnits := d\<rparr>)"
    using emulator.UpdateInstance_known [OF so, of "le_spanner env" i
        "\<lparr>inst_ProcessingUnits = d, inst_InstanceState = InstanceState_other []\<rparr>"] i(1) wrap32_id [OF d32]
    by (auto simp: loop_name_def)
  have st: "InstanceState (sa_Status sa) = InstanceStateReady" by (simp add: sa_def)
  have c: "control_round env now x =
      (if d = ?pu then (fst x, sa) else (s', sa\<lparr>sa_Status := (sa_Status sa)\<lparr>LastScaleTime := now\<rparr>\<rparr>))"
    unfolding control_round_def observe_ok [OF assms(1,2)] sa_def [symmetric] option.case Let_def des dec u(1) st by simp
  show p: "loop_pu env (control_round env now x) = DesiredPUFromCPU (le_gsv env) ?cpu tgt sa"
    unfolding c d_def [symmetric] using i(1) pu by (auto simp: loop_pu_def u(3))
  show s: "sa_Spec (snd (control_round env now x)) = sa_Spec (snd x)"
    and mn: "effective_min (snd (control_round env now x)) = effective_min (snd x)"
    and mx: "effective_max (snd (control_round env now x)) = effective_max (snd x)"
    unfolding c by (simp_all add: sa_def observed_def effective_min_def effective_max_def)
  show "LastScaleTime (sa_Status (snd (control_round env now x))) \<in> {LastScaleTime (sa_Status (snd x)), now}"
    unfolding c by (simp add: sa_def)
  have "server_ok (fst (control_round env now x))" unfolding c using so u(2) by simp
  moreover have "map_option (instanceState \<circ> pb_State) (fst (control_round env now x) (loop_name env)) = Some InstanceStateReady"
    unfolding c using i by (simp add: u(3))
  ultimately show "loop_ok env tgt (control_round env now x)"
    using dv dr lo s mn mx by (simp add: loop_ok_def loop_sa_ok_def p d_def [symmetric])
qed

section \<open>Many rounds\<close>

lemma control_loop_ok:
  assumes "loop_env_ok env w" "loop_ok env tgt x" "round_times env (snd x) ts"
  defines "y \<equiv> control_loop env ts x"
  shows "loop_ok env tgt (y k)" "sa_Spec (snd (y k)) = sa_Spec (snd x)"
    "effective_min (snd (y k)) = effective_min (snd x)" "effective_max (snd (y k)) = effective_max (snd x)"
    "round_time env (snd (y k)) (ts k)"
proof -
  define P where "P k \<longleftrightarrow> loop_ok env tgt (y k) \<and> sa_Spec (snd (y k)) = sa_Spec (snd x) \<and>
    effective_min (snd (y k)) = effective_min (snd x) \<and> effective_max (snd (y k)) = effective_max (snd x) \<and>
    LastScaleTime (sa_Status (snd (y k))) \<in> insert (LastScaleTime (sa_Status (snd x))) (ts ` {..<k})" for k
  have rt: "round_time env (snd (y k)) (ts k)" if "P k" for k
    using that assms(3) by (auto simp: P_def round_times_def round_time_def)
  have "P k" for k
  proof (induction k)
    case 0
    then show ?case using assms(2) by (simp add: P_def y_def)
  next
    case (Suc k)
    have "loop_ok env tgt (y k)" using Suc.IH by (simp add: P_def)
    note c = control_round_ok [OF assms(1) this rt [OF Suc.IH]]
    have y: "y (Suc k) = control_round env (ts k) (y k)" by (simp add: y_def)
    show ?case using c(2-6) Suc.IH unfolding P_def y by (auto simp: lessThan_Suc)
  qed
  with rt have "P k" "round_time env (snd (y k)) (ts k)" by blast+
  then show "loop_ok env tgt (y k)" "sa_Spec (snd (y k)) = sa_Spec (snd x)"
    "effective_min (snd (y k)) = effective_min (snd x)" "effective_max (snd (y k)) = effective_max (snd x)"
    "round_time env (snd (y k)) (ts k)" by (simp_all add: P_def)
qed

text \<open>The move of each round, from the moves of a decision.\<close>

lemma control_loop_moves:
  assumes "loop_env_ok env w" "loop_ok env tgt x" "round_times env (snd x) ts"
    and "rest_size (100 * f_val w) tgt n" "effective_min (snd x) \<le> n" "n \<le> effective_max (snd x)"
  defines "a \<equiv> \<lambda>k. loop_pu env (control_loop env ts x k)"
  shows "valid_pu (a k)"
    and "a k < n \<Longrightarrow> a k < a (Suc k) \<and> a (Suc k) \<le> n"
    and "n < a k \<Longrightarrow> a (Suc k) < a k"
    and "a k = n \<Longrightarrow> headroom (100 * f_val w) tgt n \<Longrightarrow> a (Suc k) = n"
    and "a k = n \<Longrightarrow> ideal_pu (workload_percent w n) tgt n < n \<Longrightarrow> effective_min (snd x) < n \<Longrightarrow> a (Suc k) < n"
    and "a k = n \<Longrightarrow> ideal_pu (workload_percent w n) tgt n < n \<Longrightarrow> ideal_pu (workload_percent w n) tgt n \<le> a (Suc k)"
proof -
  let ?x = "control_loop env ts x k"
  let ?sa = "observed (a k) (workload_percent w (a k)) (ts k) (snd ?x)"
  note c = control_loop_ok [OF assms(1-3), of k]
  note s = control_round_ok(1) [OF assms(1) c(1,5)]
  have w: "workload_ok w" using assms(1) by (simp add: loop_env_ok_def)
  have lo: "loop_sa_ok (le_gsv env) tgt (snd ?x)" "valid_pu (a k)" "effective_min (snd x) \<le> a k" "a k \<le> effective_max (snd x)"
    using c by (simp_all add: loop_ok_def a_def)
  have t: "0 < tgt" and sok: "scaling_ok (le_gsv env) ?sa"
    using lo c by (auto simp: loop_sa_ok_def scaling_ok_def pu_range_def valid_pu_def)
  have n: "a (Suc k) = DesiredPUFromCPU (le_gsv env) (workload_percent w (cur_pu ?sa)) tgt ?sa"
    using s by (simp add: a_def)
  have m: "valid_pu (cur_pu ?sa)" "effective_min ?sa \<le> n" "n \<le> effective_max ?sa" "effective_min ?sa \<le> cur_pu ?sa"
    "cur_pu ?sa \<le> effective_max ?sa" using lo assms(5,6) c by simp_all
  note d = emulated.desired_moves [OF w assms(4) t sok m]
  show "valid_pu (a k)" by (rule lo(2))
  show "a k < n \<Longrightarrow> a k < a (Suc k) \<and> a (Suc k) \<le> n" using d(1) n by simp
  show "n < a k \<Longrightarrow> a (Suc k) < a k" using d(2) n by simp
  show "a k = n \<Longrightarrow> headroom (100 * f_val w) tgt n \<Longrightarrow> a (Suc k) = n" using d(3) n by simp
  show "a k = n \<Longrightarrow> ideal_pu (workload_percent w n) tgt n < n \<Longrightarrow> effective_min (snd x) < n \<Longrightarrow> a (Suc k) < n"
    using d(4) n c(3) by simp
  show "a k = n \<Longrightarrow> ideal_pu (workload_percent w n) tgt n < n \<Longrightarrow> ideal_pu (workload_percent w n) tgt n \<le> a (Suc k)"
    using d(5) n by simp
qed

text \<open>A sequence of sizes that moves this way reaches the size of rest.\<close>

lemma climbs_to:
  fixes a :: "nat \<Rightarrow> int"
  assumes "\<And>k. a k < n \<Longrightarrow> a k + 100 \<le> a (Suc k) \<and> a (Suc k) \<le> n" "a i \<le> n"
  shows "\<exists>m. int m * 100 \<le> n - a i \<and> a (i + m) = n"
  using assms(2)
proof (induction "nat (n - a i)" arbitrary: i rule: less_induct)
  case less
  show ?case
  proof (cases "a i = n")
    case True
    then show ?thesis by (intro exI [of _ 0]) simp
  next
    case False
    then have s: "a i + 100 \<le> a (Suc i)" "a (Suc i) \<le> n" using less.prems assms(1) [of i] by auto
    then obtain m where m: "int m * 100 \<le> n - a (Suc i)" "a (Suc i + m) = n" using less.hyps [of "Suc i"] less.prems by auto
    then show ?thesis using s by (intro exI [of _ "Suc m"]) simp
  qed
qed

lemma descends_to:
  fixes a :: "nat \<Rightarrow> int"
  assumes "\<And>k. n < a k \<Longrightarrow> a (Suc k) + 100 \<le> a k" "\<And>k. 0 \<le> a k"
  shows "\<exists>m. int m * 100 + a (i + m) \<le> a i \<and> a (i + m) \<le> max n 0"
proof (induction "nat (a i)" arbitrary: i rule: less_induct)
  case less
  show ?case
  proof (cases "n < a i")
    case True
    then have s: "a (Suc i) + 100 \<le> a i" by (rule assms(1))
    then have "nat (a (Suc i)) < nat (a i)" using assms(2) [of "Suc i"] by linarith
    from less.hyps [OF this] obtain m where m: "int m * 100 + a (Suc i + m) \<le> a (Suc i)" "a (Suc i + m) \<le> max n 0" by blast
    then show ?thesis using s by (intro exI [of _ "Suc m"]) simp
  qed (intro exI [of _ 0], simp)
qed

text \<open>The first time a sequence that climbs from below and descends from above has the size \<open>n\<close>.\<close>

lemma reaches:
  fixes a :: "nat \<Rightarrow> int"
  assumes "\<And>k. a k < n \<Longrightarrow> a k + 100 \<le> a (Suc k) \<and> a (Suc k) \<le> n" "\<And>k. n < a k \<Longrightarrow> a (Suc k) + 100 \<le> a k"
    and "\<And>k. 0 \<le> a k" "0 < n"
  shows "\<exists>k. int k * 100 \<le> a 0 + n \<and> a k = n"
proof -
  obtain m where m: "int m * 100 + a m \<le> a 0" "a m \<le> n"
    using descends_to [of n a 0] assms(2-4) by auto
  obtain l where l: "int l * 100 \<le> n - a m" "a (m + l) = n" using climbs_to [OF assms(1) m(2)] by auto
  have "int (m + l) * 100 \<le> a 0 + n" using m(1) l(1) assms(3) [of m] by simp
  with l(2) show ?thesis by blast
qed

lemma settles:
  fixes a :: "nat \<Rightarrow> int"
  assumes "\<And>k. a k < n \<Longrightarrow> a k + 100 \<le> a (Suc k) \<and> a (Suc k) \<le> n" "\<And>k. n < a k \<Longrightarrow> a (Suc k) + 100 \<le> a k"
    and "\<And>k. a k = n \<Longrightarrow> a (Suc k) = n" "\<And>k. 0 \<le> a k" "0 < n"
  shows "\<exists>k. int k * 100 \<le> a 0 + n \<and> (\<forall>j \<ge> k. a j = n)"
proof -
  obtain m where m: "int m * 100 \<le> a 0 + n" "a m = n" using reaches [of a n, OF assms(1,2,4,5)] by blast
  have "a (m + i) = n" for i by (induction i) (simp_all add: m(2) assms(3))
  then have "\<forall>j \<ge> m. a j = n" by (metis le_add_diff_inverse)
  with m(1) show ?thesis by blast
qed

text \<open>A sequence that leaves \<open>n\<close> for \<open>p\<close> and \<open>p\<close> for \<open>n\<close> alternates from then on.\<close>

lemma alternates:
  assumes "a m = n" "\<And>k. a k = n \<Longrightarrow> a (Suc k) = p" "\<And>k. a k = p \<Longrightarrow> a (Suc k) = n"
  shows "a (m + 2 * j) = n \<and> a (m + 2 * j + 1) = p"
  by (induction j) (use assms in simp_all)

lemma valid_pu_less: "valid_pu p \<Longrightarrow> valid_pu q \<Longrightarrow> p < q \<Longrightarrow> p + 100 \<le> q"
  using multiple_le_diff [of 100 p q] valid_pu_mod_100 by simp

lemma pred_pu_valid:
  assumes "valid_pu n" "100 < n"
  shows "valid_pu (pred_pu n)"
proof (cases "n \<le> 1000")
  case True
  moreover have "(n - 100) mod 100 = 0" using valid_pu_mod_100 [OF assms(1)] by (simp add: mod_diff_eq [symmetric])
  ultimately show ?thesis using assms(2) by (auto simp: pred_pu_def intro!: valid_puI_small)
next
  case False
  then have "n mod 1000 = 0" using assms(1) by (simp add: valid_pu_def)
  then have "(n - 1000) mod 1000 = 0" by (simp add: mod_diff_eq [symmetric])
  then show ?thesis using False by (auto simp: pred_pu_def intro!: valid_puI_large)
qed

text \<open>When the next smaller size seems enough and the one below it does not, the decision asks for the former.\<close>

lemma ideal_one_below:
  assumes "0 < tgt" "valid_pu n" "100 < n" "0 \<le> cpu" "cpu * n < pred_pu n * tgt" "pred_pu (pred_pu n) * tgt \<le> cpu * n"
  shows "ideal_pu cpu tgt n = pred_pu n"
proof (rule antisym)
  note p = pred_pu_valid [OF assms(2,3)]
  show "ideal_pu cpu tgt n \<le> pred_pu n" using assms(1,5) p by (intro ideal_pu_least)
  have iv: "valid_pu (ideal_pu cpu tgt n)" using assms(1,3,4) by (intro ideal_pu_valid) auto
  show "pred_pu n \<le> ideal_pu cpu tgt n"
  proof (rule ccontr)
    assume "\<not> pred_pu n \<le> ideal_pu cpu tgt n"
    then have "ideal_pu cpu tgt n \<le> pred_pu (pred_pu n)" using pred_pu_ge [OF iv p] by simp
    then have "ideal_pu cpu tgt n * tgt \<le> pred_pu (pred_pu n) * tgt" using assms(1) by (intro mult_right_mono) auto
    moreover have "cpu * n < ideal_pu cpu tgt n * tgt" using assms(1,3,4) by (intro ideal_pu_below_target) auto
    ultimately show False using assms(6) by linarith
  qed
qed

section \<open>A sample loop\<close>

text \<open>
  The sample autoscaler on an instance of the emulator under a workload, with the default
  intervals and a round every 55 minutes.
\<close>

definition sample_loop :: "int \<Rightarrow> loop_env" where
  "sample_loop v = \<lparr>le_gsv = sample_gsv, le_parse = (\<lambda>e. Inl []), le_scaleUpInterval = 60 * second,
     le_scaleDownInterval = 55 * minute, le_spanner = \<lparr>cl_projectID = ''p'', cl_instanceID = ''i''\<rparr>,
     le_metrics = sample_metrics_client,
     le_stores = \<lparr>mes_static = NewStaticStore,
       mes_workload = WorkloadStore_Set ''p'' ''i''
         \<lparr>we_HighPriority = Some \<lparr>wp_Workload = \<lparr>f_man = v, f_exp = 0\<rparr>, wp_ReferenceCPU = \<lparr>f_man = v, f_exp = 0\<rparr>,
            wp_ReferencePU = 1\<rparr>, we_Total = None\<rparr> NewWorkloadStore,
       mes_scenario = NewScenarioStore\<rparr>\<rparr>"

definition sample_start :: loop_state where
  "sample_start = (AdminUpsertInstance (instance_name ''p'' ''i'') 3000 NewServer, sample_sa)"

definition every_55 :: "nat \<Rightarrow> time" where
  "every_55 k = (int k + 1) * (55 * minute)"

lemma sample_loop_env:
  assumes "0 \<le> v" "v < 1000000"
  shows "loop_env_ok (sample_loop v) \<lparr>f_man = v, f_exp = 0\<rparr>"
  using assms
  by (simp add: loop_env_ok_def sample_loop_def sample_metrics_client_def WorkloadStore_Get_def WorkloadStore_Set_def
      NewScenarioStore_def workload_ok_def f_val_def)

lemma sample_loop_ok: "loop_ok (sample_loop v) 60 sample_start"
  by (simp add: loop_ok_def sample_loop_def sample_start_def loop_name_def loop_pu_def AdminUpsertInstance_def
      server_ok_def NewServer_def in_int32_def valid_pu_def loop_sa_ok_def effective_min_def effective_max_def
      sample_defs pu_range_def step_bounded_def sample_gsv_def intstr_FromInt_def)

lemma sample_loop_times: "round_times (sample_loop v) (snd sample_start) every_55"
proof -
  have "every_55 j + 60 * second \<le> every_55 k" "every_55 j + 55 * minute \<le> every_55 k" if "j < k" for j k
  proof -
    have "(int j + 1 + 1) * (55 * minute) \<le> (int k + 1) * (55 * minute)" using that by (intro mult_right_mono) (auto simp: minute_def)
    then show "every_55 j + 55 * minute \<le> every_55 k" by (simp add: every_55_def algebra_simps)
    then show "every_55 j + 60 * second \<le> every_55 k" by (simp add: minute_def second_def)
  qed
  moreover have "60 * second \<le> every_55 k" "55 * minute \<le> every_55 k" for k
    by (simp_all add: every_55_def minute_def second_def)
  ultimately show ?thesis
    by (simp add: round_times_def round_time_def sample_loop_def sample_start_def sample_defs DurationOr_def
        IsScaledownAllowed_def)
qed

section \<open>Properties\<close>

text \<open>
  C39. Under a constant load the autoscaler comes to rest. Let \<open>n\<close> be the least valid size at
  which the CPU of the load is below the target, in the configured range, with headroom: at the
  next smaller size the CPU exceeds the target by more than the truncation to a percentage can
  hide. Whatever the size at the start and the step limits, after at most one round per 100
  processing units of the two sizes the instance has exactly \<open>n\<close> processing units and keeps
  them. A round reads the instance and the CPU with the clients, from the emulators, in
  floating point, and updates the instance; rounds are spaced by the scaling intervals.
\<close>

theorem constant_load_settles:
  assumes "loop_env_ok env w" "loop_ok env tgt x" "round_times env (snd x) ts"
    and "rest_size (100 * f_val w) tgt n" "headroom (100 * f_val w) tgt n"
    and "effective_min (snd x) \<le> n" "n \<le> effective_max (snd x)"
  shows "\<exists>k. int k * 100 \<le> loop_pu env x + n \<and> (\<forall>j \<ge> k. loop_pu env (control_loop env ts x j) = n)"
proof -
  let ?a = "\<lambda>k. loop_pu env (control_loop env ts x k)"
  note m = control_loop_moves [OF assms(1-4,6,7)]
  have n: "valid_pu n" using assms(4) by (simp add: rest_size_def)
  have "\<exists>k. int k * 100 \<le> ?a 0 + n \<and> (\<forall>j \<ge> k. ?a j = n)"
  proof (rule settles)
    show "?a k + 100 \<le> ?a (Suc k) \<and> ?a (Suc k) \<le> n" if "?a k < n" for k
      using m(2) [OF that] valid_pu_less [OF m(1) m(1)] by blast
    show "?a (Suc k) + 100 \<le> ?a k" if "n < ?a k" for k
      using m(3) [OF that] by (intro valid_pu_less m(1))
    show "?a (Suc k) = n" if "?a k = n" for k using m(4) [OF that assms(5)] .
    show "0 \<le> ?a k" for k using valid_pu_ge_100 [OF m(1) [of k]] by linarith
    show "0 < n" using n by (simp add: valid_pu_def)
  qed
  then show ?thesis by simp
qed

theorem constant_load_settles_witness:
  "\<exists>k. int k * 100 \<le> 7000 \<and>
     (\<forall>j \<ge> k. loop_pu (sample_loop 2000) (control_loop (sample_loop 2000) every_55 sample_start j) = 4000)"
proof -
  have pu: "loop_pu (sample_loop 2000) sample_start = 3000"
    by (simp add: loop_pu_def sample_loop_def sample_start_def loop_name_def AdminUpsertInstance_def)
  have "loop_env_ok (sample_loop 2000) \<lparr>f_man = 2000, f_exp = 0\<rparr>" by (rule sample_loop_env) simp_all
  from constant_load_settles [OF this sample_loop_ok sample_loop_times, of 4000]
  show ?thesis unfolding pu
    by (simp add: rest_size_def headroom_def valid_pu_def slack_def pred_pu_def f_val_def
        sample_start_def sample_defs effective_min_def effective_max_def)
qed

text \<open>
  C40. Without headroom the autoscaler never rests under a constant load. When the percentage
  read at the size of rest \<open>n\<close> is truncated so far that the next smaller size seems enough
  (and the one below that does not), then after at most one round per 100 processing units of
  the two sizes the instance alternates for ever, one round after the other, between \<open>n\<close>
  and the next smaller size. The CPU of the load is below the target at \<open>n\<close> and at or above it at
  the smaller size.
\<close>

theorem constant_load_flaps:
  assumes "loop_env_ok env w" "loop_ok env tgt x" "round_times env (snd x) ts"
    and "rest_size (100 * f_val w) tgt n" "workload_percent w n * n < pred_pu n * tgt"
    and "pred_pu (pred_pu n) * tgt \<le> workload_percent w n * n"
    and "effective_min (snd x) < n" "n \<le> effective_max (snd x)"
  shows "(\<exists>m. int m * 100 \<le> loop_pu env x + n \<and>
       (\<forall>j. loop_pu env (control_loop env ts x (m + 2 * j)) = n \<and>
            loop_pu env (control_loop env ts x (m + 2 * j + 1)) = pred_pu n)) \<and>
     100 * f_val w < real_of_int (n * tgt) \<and> real_of_int (pred_pu n * tgt) \<le> 100 * f_val w"
proof
  let ?a = "\<lambda>k. loop_pu env (control_loop env ts x k)" and ?i = "ideal_pu (workload_percent w n) tgt n"
  note m = control_loop_moves [OF assms(1-4) less_imp_le [OF assms(7)] assms(8)]
  have n: "valid_pu n" using assms(4) by (simp add: rest_size_def)
  have t: "0 < tgt" and "valid_pu (effective_min (snd x))" using assms(2) by (auto simp: loop_ok_def loop_sa_ok_def)
  then have n100: "100 < n" using assms(7) valid_pu_ge_100 by fastforce
  have less: "pred_pu n < n" by (simp add: pred_pu_def)
  have w: "workload_ok w" using assms(1) by (simp add: loop_env_ok_def)
  have nr: "pu_range n" using assms(2,8) n by (auto simp: loop_ok_def loop_sa_ok_def pu_range_def valid_pu_def)
  have r: "0 \<le> workload_percent w n" by (rule emulated.reading_nonneg [OF w n nr])
  have i: "?i = pred_pu n" by (rule ideal_one_below [OF t n n100 r assms(5,6)])
  have down: "?a (Suc k) = pred_pu n" if "?a k = n" for k
    using m(5,6) [OF that] i less assms(7) pred_pu_ge [OF m(1) n, of "Suc k"] by auto
  have up: "?a (Suc k) = n" if "?a k = pred_pu n" for k
    using m(2) [of k] that less pred_pu_ge [OF m(1) n, of "Suc k"] by fastforce
  have "\<exists>k. int k * 100 \<le> ?a 0 + n \<and> ?a k = n"
  proof (rule reaches)
    show "?a k + 100 \<le> ?a (Suc k) \<and> ?a (Suc k) \<le> n" if "?a k < n" for k
      using m(2) [OF that] valid_pu_less [OF m(1) m(1)] by blast
    show "?a (Suc k) + 100 \<le> ?a k" if "n < ?a k" for k
      using m(3) [OF that] by (intro valid_pu_less m(1))
    show "0 \<le> ?a k" for k using valid_pu_ge_100 [OF m(1) [of k]] by linarith
  qed (use n100 in simp)
  then obtain k where k: "int k * 100 \<le> loop_pu env x + n" "?a k = n" by auto
  have "\<forall>j. ?a (k + 2 * j) = n \<and> ?a (k + 2 * j + 1) = pred_pu n"
    using alternates [of ?a k n "pred_pu n", OF k(2) down up] by blast
  with k(1) show "\<exists>m. int m * 100 \<le> loop_pu env x + n \<and> (\<forall>j. ?a (m + 2 * j) = n \<and> ?a (m + 2 * j + 1) = pred_pu n)"
    by blast
  have "0 \<le> 100 * f_val w * slack" using emulated.load_range [OF w] by (simp add: slack_def)
  then show "100 * f_val w < real_of_int (n * tgt) \<and> real_of_int (pred_pu n * tgt) \<le> 100 * f_val w"
    using assms(4) n100 by (simp add: rest_size_def algebra_simps)
qed

theorem constant_load_flaps_witness:
  "\<exists>m. int m * 100 \<le> 10000 \<and>
     (\<forall>j. loop_pu (sample_loop 3620) (control_loop (sample_loop 3620) every_55 sample_start (m + 2 * j)) = 7000 \<and>
          loop_pu (sample_loop 3620) (control_loop (sample_loop 3620) every_55 sample_start (m + 2 * j + 1)) = 6000)"
proof -
  have pu: "loop_pu (sample_loop 3620) sample_start = 3000"
    by (simp add: loop_pu_def sample_loop_def sample_start_def loop_name_def AdminUpsertInstance_def)
  have p: "pred_pu 7000 = 6000" by (simp add: pred_pu_def)
  have "loop_env_ok (sample_loop 3620) \<lparr>f_man = 3620, f_exp = 0\<rparr>" by (rule sample_loop_env) simp_all
  moreover have "workload_percent \<lparr>f_man = 3620, f_exp = 0\<rparr> 7000 = 51" by code_simp
  moreover have "rest_size (100 * f_val \<lparr>f_man = 3620, f_exp = 0\<rparr>) 60 7000"
    by (simp add: rest_size_def valid_pu_def slack_def pred_pu_def f_val_def)
  moreover have "effective_min (snd sample_start) < 7000" "7000 \<le> effective_max (snd sample_start)"
    by (simp_all add: sample_start_def sample_defs effective_min_def effective_max_def)
  moreover have "pred_pu (pred_pu 7000) = 5000" by (simp add: pred_pu_def)
  ultimately show ?thesis
    using constant_load_flaps [OF _ sample_loop_ok sample_loop_times, of 3620 "\<lparr>f_man = 3620, f_exp = 0\<rparr>" 7000]
    unfolding pu p by simp
qed

end
