(* ===== verification/Processes.thy ===== *)
theory Processes
  imports Workers Manual_Webhook Emulated_Metrics
begin

text \<open>
  The entry points: \<^verbatim>\<open>cmd/main.go\<close>, which registers the controllers and webhooks with a
  manager of controller-runtime, and the \<^verbatim>\<open>main.go\<close> of the two emulators. A program is the
  sequence of the steps it performs on the outside, each of which can fail; the first failure
  ends it with exit code 1. What the flags and the environment select is in the steps. Also
  here: the loop of the schedule worker, which a process keeps running.
\<close>

section \<open>Running steps\<close>

fun run_steps :: "('s \<Rightarrow> 'w \<Rightarrow> bool \<times> 'w) \<Rightarrow> 's list \<Rightarrow> 'w \<Rightarrow> nat \<times> 's list \<times> 'w" where
  "run_steps exec [] w = (0, [], w)"
| "run_steps exec (s # ss) w =
     (case exec s w of
        (False, w) \<Rightarrow> (1, [s], w)
      | (True, w) \<Rightarrow> (case run_steps exec ss w of (code, performed, w) \<Rightarrow> (code, s # performed, w)))"

lemma run_steps_prefix:
  "run_steps exec ss w = (code, performed, w') \<Longrightarrow>
     (\<exists>rest. ss = performed @ rest) \<and> (code = 0 \<longrightarrow> performed = ss) \<and> code \<le> 1"
proof (induction ss arbitrary: w w' code performed)
  case (Cons s ss)
  obtain ok w1 where e: "exec s w = (ok, w1)" by fastforce
  show ?case
  proof (cases ok)
    case True
    obtain c p w2 where r: "run_steps exec ss w1 = (c, p, w2)" by (metis prod_cases3)
    with Cons.IH [OF r] Cons.prems e True show ?thesis by auto
  next
    case False
    with Cons.prems e show ?thesis by auto
  qed
qed auto

text \<open>The last step is performed only after all others.\<close>

lemma run_steps_last:
  assumes "run_steps exec (ss @ [s]) w = (code, performed, w')" "s \<in> set performed" "s \<notin> set ss"
  shows "performed = ss @ [s]"
proof -
  obtain rest where r: "ss @ [s] = performed @ rest" using run_steps_prefix [OF assms(1)] by blast
  then show ?thesis
  proof (cases rest rule: rev_cases)
    case (snoc ys y)
    with r have "ss = performed @ ys" by simp
    with assms(2,3) show ?thesis by auto
  qed simp
qed

section \<open>The manager\<close>

record manager_flags =
  mf_metricsAddr :: string
  mf_probeAddr :: string
  mf_enableLeaderElection :: bool
  mf_leaderElectionID :: string
  mf_secureMetrics :: bool
  mf_enableHTTP2 :: bool
  mf_webhookCertPath :: string
  mf_webhookCertName :: string
  mf_webhookCertKey :: string
  mf_metricsCertPath :: string
  mf_metricsCertName :: string
  mf_metricsCertKey :: string
  mf_scaleDownInterval :: duration
  mf_scaleUpInterval :: duration
  mf_spannerEndpoint :: string
  mf_metricsEndpoint :: string
  mf_rejectManualScaledown :: bool
  mf_manualScalingHistoryPerNamespace :: gint

definition default_manager_flags :: manager_flags where
  "default_manager_flags = \<lparr>mf_metricsAddr = '':8080'', mf_probeAddr = '':8081'', mf_enableLeaderElection = True,
     mf_leaderElectionID = ''54b82eb3.mercari.com'', mf_secureMetrics = True, mf_enableHTTP2 = False,
     mf_webhookCertPath = [], mf_webhookCertName = ''tls.crt'', mf_webhookCertKey = ''tls.key'',
     mf_metricsCertPath = [], mf_metricsCertName = ''tls.crt'', mf_metricsCertKey = ''tls.key'',
     mf_scaleDownInterval = 55 * minute, mf_scaleUpInterval = 60 * second,
     mf_spannerEndpoint = [], mf_metricsEndpoint = [], mf_rejectManualScaledown = False,
     mf_manualScalingHistoryPerNamespace = 0\<rparr>"

text \<open>A change of the TLS configuration: the application protocols a server offers.\<close>

datatype tls_opt = NextProtos "string list"

definition tls_opts :: "manager_flags \<Rightarrow> tls_opt list" where
  "tls_opts f = (if \<not> mf_enableHTTP2 f then [NextProtos [''http/1.1'']] else [])"

record server_options =
  so_TLSOpts :: "tls_opt list"
  so_CertDir :: string
  so_CertName :: string
  so_KeyName :: string

definition webhookServerOptions :: "manager_flags \<Rightarrow> server_options" where
  "webhookServerOptions f =
     (let opts = \<lparr>so_TLSOpts = tls_opts f, so_CertDir = [], so_CertName = [], so_KeyName = []\<rparr>
      in if mf_webhookCertPath f \<noteq> []
         then opts\<lparr>so_CertDir := mf_webhookCertPath f, so_CertName := mf_webhookCertName f, so_KeyName := mf_webhookCertKey f\<rparr>
         else opts)"

record metrics_options = server_options +
  mo_BindAddress :: string
  mo_SecureServing :: bool
  mo_Authentication :: bool

definition metricsServerOptions :: "manager_flags \<Rightarrow> metrics_options" where
  "metricsServerOptions f =
     (let opts = \<lparr>so_TLSOpts = tls_opts f, so_CertDir = [], so_CertName = [], so_KeyName = [],
            mo_BindAddress = mf_metricsAddr f, mo_SecureServing = mf_secureMetrics f, mo_Authentication = False\<rparr>;
          opts = (if mf_secureMetrics f then opts\<lparr>mo_Authentication := True\<rparr> else opts)
      in if mf_metricsCertPath f \<noteq> []
         then opts\<lparr>so_CertDir := mf_metricsCertPath f, so_CertName := mf_metricsCertName f, so_KeyName := mf_metricsCertKey f\<rparr>
         else opts)"

record manager_options =
  ma_Metrics :: metrics_options
  ma_WebhookServer :: server_options
  ma_HealthProbeBindAddress :: string
  ma_LeaderElection :: bool
  ma_LeaderElectionID :: string

definition reconcilerOpts :: "manager_flags \<Rightarrow> ('w, 't, 'c) option_fn list" where
  "reconcilerOpts f =
     [WithScaleDownInterval (mf_scaleDownInterval f), WithScaleUpInterval (mf_scaleUpInterval f),
      WithRejectManualScaledown (mf_rejectManualScaledown f),
      WithManualScalingHistoryPerNamespace (mf_manualScalingHistoryPerNamespace f)] @
     (if mf_spannerEndpoint f \<noteq> [] then [WithSpannerEndpoint (mf_spannerEndpoint f)] else []) @
     (if mf_metricsEndpoint f \<noteq> [] then [WithMetricsEndpoint (mf_metricsEndpoint f)] else [])"

text \<open>
  What a controller is registered for: the kind it reconciles, whether only changes of the
  generation count, and the kinds whose events enqueue another object.
\<close>

datatype kind = Kind_SpannerAutoscaler | Kind_SpannerAutoscaleSchedule | Kind_SpannerManualScaling

record watches =
  wa_For :: kind
  wa_GenerationChanged :: bool
  wa_Watches :: "kind list"

definition autoscaler_watches :: watches where
  "autoscaler_watches = \<lparr>wa_For = Kind_SpannerAutoscaler, wa_GenerationChanged = False,
     wa_Watches = [Kind_SpannerAutoscaleSchedule, Kind_SpannerManualScaling]\<rparr>"

definition schedule_watches :: watches where
  "schedule_watches = \<lparr>wa_For = Kind_SpannerAutoscaleSchedule, wa_GenerationChanged = False, wa_Watches = []\<rparr>"

definition manual_watches :: watches where
  "manual_watches = \<lparr>wa_For = Kind_SpannerManualScaling, wa_GenerationChanged = True, wa_Watches = []\<rparr>"

text \<open>A webhook of a kind: whether it has a defaulter, and the policy of the validator of overrides.\<close>

record webhook =
  wh_Kind :: kind
  wh_Defaulter :: bool
  wh_rejectScaledown :: bool

definition SetupSpannerAutoscalerWebhook :: webhook where
  "SetupSpannerAutoscalerWebhook = \<lparr>wh_Kind = Kind_SpannerAutoscaler, wh_Defaulter = True, wh_rejectScaledown = False\<rparr>"

definition SetupSpannerAutoscaleScheduleWebhook :: webhook where
  "SetupSpannerAutoscaleScheduleWebhook =
     \<lparr>wh_Kind = Kind_SpannerAutoscaleSchedule, wh_Defaulter = False, wh_rejectScaledown = False\<rparr>"

definition webhook_WithRejectManualScaledown :: "bool \<Rightarrow> webhook \<Rightarrow> webhook" where
  "webhook_WithRejectManualScaledown enabled w = w\<lparr>wh_rejectScaledown := enabled\<rparr>"

definition SetupWebhookWithManager :: "(webhook \<Rightarrow> webhook) list \<Rightarrow> webhook" where
  "SetupWebhookWithManager opts =
     fold (\<lambda>opt w. opt w) opts \<lparr>wh_Kind = Kind_SpannerManualScaling, wh_Defaulter = False, wh_rejectScaledown = False\<rparr>"

datatype 'r setup_step =
    Register_metrics
  | New_manager manager_options
  | Add_healthz
  | Add_readyz
  | Setup_autoscaler watches 'r
  | Setup_controller watches
  | Setup_webhook webhook
  | Start_manager

definition setup_webhooks :: "manager_flags \<Rightarrow> string \<Rightarrow> 'r setup_step list" where
  "setup_webhooks f ENABLE_WEBHOOKS =
     (if ENABLE_WEBHOOKS \<noteq> ''false''
      then [Setup_webhook SetupSpannerAutoscalerWebhook, Setup_webhook SetupSpannerAutoscaleScheduleWebhook,
            Setup_webhook (SetupWebhookWithManager [webhook_WithRejectManualScaledown (mf_rejectManualScaledown f)])]
      else [])"

definition manager_setup ::
    "('w, 't, 'c) process \<Rightarrow> manager_flags \<Rightarrow> string \<Rightarrow> (('w, 't, 'c) cenv \<times> ('t, 'c) creg) setup_step list" where
  "manager_setup p f ENABLE_WEBHOOKS =
     [Register_metrics,
      New_manager \<lparr>ma_Metrics = metricsServerOptions f, ma_WebhookServer = webhookServerOptions f,
        ma_HealthProbeBindAddress = mf_probeAddr f, ma_LeaderElection = mf_enableLeaderElection f,
        ma_LeaderElectionID = mf_leaderElectionID f\<rparr>,
      Add_healthz, Add_readyz,
      Setup_autoscaler autoscaler_watches (NewSpannerAutoscalerReconciler p (reconcilerOpts f)),
      Setup_controller manual_watches, Setup_controller schedule_watches] @
     setup_webhooks f ENABLE_WEBHOOKS"

definition manager_main ::
    "((('w, 't, 'c) cenv \<times> ('t, 'c) creg) setup_step \<Rightarrow> 'm \<Rightarrow> bool \<times> 'm) \<Rightarrow> ('w, 't, 'c) process \<Rightarrow>
     manager_flags \<Rightarrow> string \<Rightarrow> 'm \<Rightarrow> nat \<times> (('w, 't, 'c) cenv \<times> ('t, 'c) creg) setup_step list \<times> 'm" where
  "manager_main exec p f ENABLE_WEBHOOKS m = run_steps exec (manager_setup p f ENABLE_WEBHOOKS @ [Start_manager]) m"

section \<open>The emulators\<close>

definition envOrDefault :: "(string \<Rightarrow> string) \<Rightarrow> string \<Rightarrow> string \<Rightarrow> string" where
  "envOrDefault getenv key defaultVal = (if getenv key \<noteq> [] then getenv key else defaultVal)"

text \<open>
  The monitoring emulator: the stores, filled from the scenario file, the client of the Spanner
  emulator when its host is given, and the ports of the service and of the admin API. Dialling
  and listening are parameters; they return whether they succeed.
\<close>

record 's monitoring_emulator =
  em_stores :: stores
  em_admin :: "'s get_instance option"
  em_grpcPort :: string
  em_adminPort :: string

datatype emulator_exit = Exit_scenario load_err | Exit_client | Exit_listen string

definition monitoring_main ::
    "(string \<Rightarrow> string) \<Rightarrow> (string \<Rightarrow> string option) \<Rightarrow> (string \<Rightarrow> instanceScenario list option) \<Rightarrow>
     (string \<Rightarrow> 's get_instance option) \<Rightarrow> (string \<Rightarrow> bool) \<Rightarrow> time \<Rightarrow> emulator_exit + 's monitoring_emulator" where
  "monitoring_main getenv read_file yaml dial listen now =
     (let grpcPort = envOrDefault getenv ''GRPC_PORT'' ''9090'';
          adminPort = envOrDefault getenv ''ADMIN_PORT'' ''9091'';
          host = getenv ''SPANNER_EMULATOR_HOST''; scenarioFile = getenv ''SCENARIO_FILE''
      in case (if scenarioFile \<noteq> [] then LoadFile read_file yaml now scenarioFile NewScenarioStore
               else (None, NewScenarioStore)) of
           (Some err, _) \<Rightarrow> Inl (Exit_scenario err)
         | (None, scenarios) \<Rightarrow>
             (if host \<noteq> [] \<and> dial host = None then Inl Exit_client
              else if \<not> listen ('':'' @ grpcPort) then Inl (Exit_listen grpcPort)
              else Inr \<lparr>em_stores = NewStores\<lparr>mes_scenario := scenarios\<rparr>,
                        em_admin = (if host \<noteq> [] then dial host else None),
                        em_grpcPort = grpcPort, em_adminPort = adminPort\<rparr>))"

definition spanner_emulator_main :: "(string \<Rightarrow> string) \<Rightarrow> (string \<Rightarrow> bool) \<Rightarrow> emulator_exit + server \<times> string \<times> string" where
  "spanner_emulator_main getenv listen =
     (let grpcPort = envOrDefault getenv ''GRPC_PORT'' ''9010''; adminPort = envOrDefault getenv ''ADMIN_PORT'' ''9011''
      in if \<not> listen ('':'' @ grpcPort) then Inl (Exit_listen grpcPort) else Inr (NewServer, grpcPort, adminPort))"

section \<open>The schedule worker\<close>

text \<open>Every tick runs an update whose error is only logged, until the stop signal.\<close>

fun scheduler_Start ::
    "((SpannerAutoscaler \<times> ActiveSchedule list \<times> 'w rstate) attempt \<Rightarrow>
      (SpannerAutoscaler \<times> ActiveSchedule list \<times> 'w rstate) attempt) \<Rightarrow>
     'w kube \<Rightarrow> NamespacedName \<Rightarrow> syncer_signal list \<Rightarrow> 'w rstate \<Rightarrow> 'w rstate" where
  "scheduler_Start retry k nn [] st = st"
| "scheduler_Start retry k nn (Tick # sigs) st = scheduler_Start retry k nn sigs (snd (Update retry k nn st))"
| "scheduler_Start retry k nn (StopSignal # sigs) st = st"

definition scheduler_interval :: duration where
  "scheduler_interval = 10 * second"

section \<open>What a started process has\<close>

text \<open>The configuration of the reconciler is the one of the flags; the defaults of the flags change nothing.\<close>

lemma reconcilerOpts_config:
  fixes p :: "('w, 't, 'c) process"
  defines "r \<equiv> NewSpannerAutoscalerReconciler p"
  shows "r (reconcilerOpts f) =
     ((fst (r []))\<lparr>c_r := (c_r (fst (r [])))\<lparr>r_scaleDownInterval := mf_scaleDownInterval f,
          r_scaleUpInterval := mf_scaleUpInterval f, r_rejectManualScaledown := mf_rejectManualScaledown f,
          r_manualScalingHistoryPerNamespace := mf_manualScalingHistoryPerNamespace f\<rparr>,
        c_spannerEndpoint := mf_spannerEndpoint f, c_metricsEndpoint := mf_metricsEndpoint f\<rparr>, NewRegistry)"
  by (simp add: r_def NewSpannerAutoscalerReconciler_def reconcilerOpts_def upd_r_def WithScaleDownInterval_def
      WithScaleUpInterval_def WithRejectManualScaledown_def WithManualScalingHistoryPerNamespace_def
      WithSpannerEndpoint_def WithMetricsEndpoint_def)

lemma default_flags_are_defaults:
  "NewSpannerAutoscalerReconciler p (reconcilerOpts default_manager_flags) = NewSpannerAutoscalerReconciler p []"
  unfolding reconcilerOpts_config by (simp add: NewSpannerAutoscalerReconciler_def default_manager_flags_def)

lemma manager_setup_autoscaler:
  "Setup_autoscaler ws r \<in> set (manager_setup p f e @ [Start_manager]) \<Longrightarrow> r = NewSpannerAutoscalerReconciler p (reconcilerOpts f)"
  by (simp add: manager_setup_def setup_webhooks_def split: if_splits)

lemma manager_setup_webhooks:
  "Setup_webhook w \<in> set (manager_setup p f e @ [Start_manager]) \<longleftrightarrow> e \<noteq> ''false'' \<and>
     w \<in> {SetupSpannerAutoscalerWebhook, SetupSpannerAutoscaleScheduleWebhook,
       SetupWebhookWithManager [webhook_WithRejectManualScaledown (mf_rejectManualScaledown f)]}"
  by (simp add: manager_setup_def setup_webhooks_def)

lemma manager_setup_no_start: "Start_manager \<notin> set (manager_setup p f e)"
  by (simp add: manager_setup_def setup_webhooks_def)

lemmas webhook_defs = SetupSpannerAutoscalerWebhook_def SetupSpannerAutoscaleScheduleWebhook_def
  SetupWebhookWithManager_def webhook_WithRejectManualScaledown_def

text \<open>
  A manager is started only when everything is registered, with one policy for the overrides
  in the webhook and in the reconciler, and with a webhook for every kind unless webhooks are
  disabled.
\<close>

theorem manager_started_complete:
  assumes "manager_main exec p f e m = (code, performed, m')" "Start_manager \<in> set performed"
  shows "performed = manager_setup p f e @ [Start_manager]"
    and "Setup_autoscaler ws r \<in> set performed \<Longrightarrow> r_rejectManualScaledown (c_r (fst r)) = mf_rejectManualScaledown f"
    and "Setup_webhook w \<in> set performed \<Longrightarrow> wh_Kind w = Kind_SpannerManualScaling \<Longrightarrow>
       wh_rejectScaledown w = mf_rejectManualScaledown f"
    and "e \<noteq> ''false'' \<Longrightarrow> \<exists>w. Setup_webhook w \<in> set performed \<and> wh_Kind w = kind"
proof -
  show p: "performed = manager_setup p f e @ [Start_manager]"
    by (rule run_steps_last [OF assms(1) [unfolded manager_main_def] assms(2) manager_setup_no_start])
  show "r_rejectManualScaledown (c_r (fst r)) = mf_rejectManualScaledown f" if "Setup_autoscaler ws r \<in> set performed"
    using manager_setup_autoscaler [OF that [unfolded p]] by (simp add: reconcilerOpts_config)
  show "wh_rejectScaledown w = mf_rejectManualScaledown f"
    if "Setup_webhook w \<in> set performed" "wh_Kind w = Kind_SpannerManualScaling"
    using that(2) that(1) [unfolded p manager_setup_webhooks] by (auto simp: webhook_defs)
  show "\<exists>w. Setup_webhook w \<in> set performed \<and> wh_Kind w = kind" if "e \<noteq> ''false''"
  proof (cases kind)
    case Kind_SpannerAutoscaler
    with that show ?thesis unfolding p manager_setup_webhooks
      by (intro exI [of _ SetupSpannerAutoscalerWebhook]) (simp add: SetupSpannerAutoscalerWebhook_def)
  next
    case Kind_SpannerAutoscaleSchedule
    with that show ?thesis unfolding p manager_setup_webhooks
      by (intro exI [of _ SetupSpannerAutoscaleScheduleWebhook]) (simp add: SetupSpannerAutoscaleScheduleWebhook_def)
  next
    case Kind_SpannerManualScaling
    with that show ?thesis unfolding p manager_setup_webhooks
      by (intro exI [of _ "SetupWebhookWithManager [webhook_WithRejectManualScaledown (mf_rejectManualScaledown f)]"])
        (simp add: SetupWebhookWithManager_def webhook_WithRejectManualScaledown_def)
  qed
qed

text \<open>The emulator starts in a state from which the invariants of its theory hold.\<close>

lemma monitoring_main_reachable:
  assumes "monitoring_main getenv read_file yaml dial listen now = Inr em"
  shows "emu_reachable d yaml (em_stores em)"
proof -
  define L where "L = (if getenv ''SCENARIO_FILE'' \<noteq> [] then LoadFile read_file yaml now (getenv ''SCENARIO_FILE'') NewScenarioStore
      else (None, NewScenarioStore))"
  obtain err sc where L: "L = (err, sc)" by fastforce
  have "err = None" using assms L unfolding monitoring_main_def Let_def L_def [symmetric] by (cases err) simp_all
  have em: "em_stores em = NewStores\<lparr>mes_scenario := sc\<rparr>"
    using assms unfolding monitoring_main_def Let_def L_def [symmetric] L \<open>err = None\<close>
    by (simp only: prod.case option.case split: if_splits) auto
  have n: "mes_scenario NewStores = NewScenarioStore" by (simp add: NewStores_def)
  show ?thesis
  proof (cases "getenv ''SCENARIO_FILE'' = []")
    case True
    then have "sc = mes_scenario NewStores" using L n by (simp add: L_def)
    then show ?thesis using emu_new by (simp add: em)
  next
    case False
    then have "sc = snd (LoadFile read_file yaml now (getenv ''SCENARIO_FILE'') (mes_scenario NewStores))"
      using L n by (simp add: L_def)
    then show ?thesis unfolding em using emu_load [OF emu_new] by blast
  qed
qed

lemma scheduler_stops: "scheduler_Start retry k nn (sigs @ StopSignal # rest) st = scheduler_Start retry k nn sigs st"
proof (induction sigs arbitrary: st)
  case (Cons s sigs)
  then show ?case by (cases s) simp_all
qed simp

end
