(* ===== verification/Test_Doubles.thy ===== *)
theory Test_Doubles
  imports Syncer
begin

text \<open>
  The doubles the tests of the controllers run against: \<^verbatim>\<open>internal/spanner/fake/fake.go\<close>,
  \<^verbatim>\<open>internal/spanner/fake.go\<close>, \<^verbatim>\<open>internal/metrics/fake.go\<close> and
  \<^verbatim>\<open>internal/syncer/fake/fake.go\<close>. What a controller can observe of a Spanner client is the
  interface \<open>instance_client\<close>; the real client over the emulator and \<^verbatim>\<open>fake.Client\<close> provide it,
  so a controller cannot tell them apart. \<^verbatim>\<open>FakeClient\<close> of package \<^verbatim>\<open>spanner\<close> does not: an
  update replaces the state of the instance too.
\<close>

section \<open>The doubles\<close>

record fake_Client =
  fk_processingUnits :: gint
  fk_instanceState :: InstanceState

definition fake_NewClient :: "gint \<Rightarrow> fake_Client" where
  "fake_NewClient processingUnits = \<lparr>fk_processingUnits = processingUnits, fk_instanceState = InstanceStateReady\<rparr>"

definition fake_GetInstance :: "fake_Client \<Rightarrow> (grpc_err + Instance) \<times> fake_Client" where
  "fake_GetInstance c = (Inr \<lparr>inst_ProcessingUnits = fk_processingUnits c, inst_InstanceState = fk_instanceState c\<rparr>, c)"

definition fake_UpdateInstance :: "Instance \<Rightarrow> fake_Client \<Rightarrow> grpc_err option \<times> fake_Client" where
  "fake_UpdateInstance instance c = (None, c\<lparr>fk_processingUnits := inst_ProcessingUnits instance\<rparr>)"

text \<open>\<^verbatim>\<open>FakeClient\<close> of package \<^verbatim>\<open>spanner\<close> keeps the last instance it was given.\<close>

definition FakeClient_GetInstance :: "Instance \<Rightarrow> (grpc_err + Instance) \<times> Instance" where
  "FakeClient_GetInstance c = (Inr c, c)"

definition FakeClient_UpdateInstance :: "Instance \<Rightarrow> Instance \<Rightarrow> grpc_err option \<times> Instance" where
  "FakeClient_UpdateInstance instance c = (None, instance)"

definition FakeClient_GetInstanceMetrics ::
    "MetricType \<Rightarrow> time \<Rightarrow> InstanceMetrics \<Rightarrow> (metrics_err + InstanceMetrics) \<times> InstanceMetrics" where
  "FakeClient_GetInstanceMetrics metricType now c =
     (Inr (case metricType of
             MetricTypeTotal \<Rightarrow>
               \<lparr>im_CurrentHighPriorityCPUUtilization = 0, im_CurrentTotalCPUUtilization = im_CurrentTotalCPUUtilization c\<rparr>
           | MetricTypeHighPriority \<Rightarrow>
               \<lparr>im_CurrentHighPriorityCPUUtilization = im_CurrentHighPriorityCPUUtilization c, im_CurrentTotalCPUUtilization = 0\<rparr>),
      c)"

text \<open>The fake syncer accepts any credentials and every update.\<close>

definition fake_HasCredentials :: "Credentials \<Rightarrow> bool" where
  "fake_HasCredentials credentials = True"

definition fake_syncer_UpdateInstance :: "gint \<Rightarrow> 'w \<Rightarrow> kube_err option \<times> 'w" where
  "fake_syncer_UpdateInstance desiredProcessingUnits w = (None, w)"

section \<open>What a controller observes of a client\<close>

locale instance_client =
  fixes get :: "'s \<Rightarrow> (grpc_err + Instance) \<times> 's"
    and upd :: "Instance \<Rightarrow> 's \<Rightarrow> grpc_err option \<times> 's"
    and ok :: "'s \<Rightarrow> bool"
    and view :: "'s \<Rightarrow> Instance"
  assumes get_view: "ok s \<Longrightarrow> get s = (Inr (view s), s)"
    and upd_view: "ok s \<Longrightarrow> in_int32 (inst_ProcessingUnits x) \<Longrightarrow> \<exists>s'. upd x s = (None, s') \<and> ok s' \<and>
      view s' = (view s)\<lparr>inst_ProcessingUnits := inst_ProcessingUnits x\<rparr>"
begin

text \<open>The answers to a sequence of requests, a read or an update each.\<close>

fun answers :: "Instance option list \<Rightarrow> 's \<Rightarrow> (grpc_err option \<times> Instance option) list" where
  "answers [] s = []"
| "answers (None # rs) s =
     (case get s of (Inl err, s) \<Rightarrow> (Some err, None) # answers rs s | (Inr i, s) \<Rightarrow> (None, Some i) # answers rs s)"
| "answers (Some x # rs) s = (case upd x s of (err, s) \<Rightarrow> (err, None) # answers rs s)"

lemma answers_view:
  "ok s \<Longrightarrow> \<forall>x \<in> set rs. \<forall>i. x = Some i \<longrightarrow> in_int32 (inst_ProcessingUnits i) \<Longrightarrow>
     answers rs s = (let f = (\<lambda>r (out, v). case r of None \<Rightarrow> (out @ [(None, Some v)], v)
         | Some x \<Rightarrow> (out @ [(None, None)], v\<lparr>inst_ProcessingUnits := inst_ProcessingUnits x\<rparr>))
       in fst (fold f rs ([], view s)))"
proof -
  let ?f = "\<lambda>r (out, v). case r of None \<Rightarrow> (out @ [(None :: grpc_err option, Some v)], v)
         | Some x \<Rightarrow> (out @ [(None, None)], v\<lparr>inst_ProcessingUnits := inst_ProcessingUnits x\<rparr>)"
  have "fst (fold ?f rs (out, view s)) = out @ answers rs s"
    if "ok s" "\<forall>x \<in> set rs. \<forall>i. x = Some i \<longrightarrow> in_int32 (inst_ProcessingUnits i)" for out rs s
    using that
  proof (induction rs arbitrary: out s)
    case (Cons r rs)
    show ?case
    proof (cases r)
      case None
      then show ?thesis using Cons get_view [of s] by simp
    next
      case (Some x)
      then obtain s' where "upd x s = (None, s')" "ok s'" "view s' = (view s)\<lparr>inst_ProcessingUnits := inst_ProcessingUnits x\<rparr>"
        using upd_view [of s x] Cons.prems by auto
      then show ?thesis using Cons.IH [of s' "out @ [(None, None)]"] Cons.prems Some by simp
    qed
  qed simp
  then show "ok s \<Longrightarrow> \<forall>x \<in> set rs. \<forall>i. x = Some i \<longrightarrow> in_int32 (inst_ProcessingUnits i) \<Longrightarrow> ?thesis"
    by (simp add: Let_def)
qed

end

definition client_ok :: "spanner_client \<Rightarrow> server \<Rightarrow> bool" where
  "client_ok c s \<longleftrightarrow> server_ok s \<and> s (instance_name (cl_projectID c) (cl_instanceID c)) \<noteq> None"

definition client_view :: "spanner_client \<Rightarrow> server \<Rightarrow> Instance" where
  "client_view c s = (let i = the (s (instance_name (cl_projectID c) (cl_instanceID c)))
     in \<lparr>inst_ProcessingUnits = pb_ProcessingUnits i, inst_InstanceState = instanceState (pb_State i)\<rparr>)"

interpretation real_client: instance_client "GetInstance server_GetInstance c"
  "UpdateInstance server_GetInstance server_UpdateInstance c" "client_ok c" "client_view c" for c
proof
  fix s
  assume "client_ok c s"
  then show "GetInstance server_GetInstance c s = (Inr (client_view c s), s)"
    using emulator.GetInstance_peek [of s c] by (auto simp: client_ok_def client_view_def)
next
  fix s and x :: Instance
  assume a: "client_ok c s" "in_int32 (inst_ProcessingUnits x)"
  then obtain i where i: "s (instance_name (cl_projectID c) (cl_instanceID c)) = Some i" "server_ok s"
    by (auto simp: client_ok_def)
  from emulator.UpdateInstance_known [OF i(2,1), of x] wrap32_id [OF a(2)]
  show "\<exists>s'. UpdateInstance server_GetInstance server_UpdateInstance c x s = (None, s') \<and> client_ok c s' \<and>
      client_view c s' = (client_view c s)\<lparr>inst_ProcessingUnits := inst_ProcessingUnits x\<rparr>"
    using i by (auto simp: client_ok_def client_view_def)
qed

definition fake_view :: "fake_Client \<Rightarrow> Instance" where
  "fake_view c = \<lparr>inst_ProcessingUnits = fk_processingUnits c, inst_InstanceState = fk_instanceState c\<rparr>"

interpretation fake_client: instance_client fake_GetInstance fake_UpdateInstance "\<lambda>c. True" fake_view
  by unfold_locales (simp_all add: fake_GetInstance_def fake_UpdateInstance_def fake_view_def)

section \<open>The doubles are faithful\<close>

text \<open>
  A controller that reads and updates an instance in any order gets the same answers from the
  real client over the emulator and from \<^verbatim>\<open>fake.Client\<close>, when both start with the same instance.
\<close>

theorem fake_client_faithful:
  assumes "client_ok c s" "client_view c s = fake_view f"
    and "\<forall>x \<in> set rs. \<forall>i. x = Some i \<longrightarrow> in_int32 (inst_ProcessingUnits i)"
  shows "real_client.answers c rs s = fake_client.answers rs f"
  using real_client.answers_view [OF assms(1,3)] fake_client.answers_view [OF TrueI assms(3), of f] assms(2) by simp

text \<open>The syncer updates with an instance that has no state; \<^verbatim>\<open>FakeClient\<close> then reports that as the state.\<close>

theorem FakeClient_loses_state:
  "fst (FakeClient_GetInstance (snd (FakeClient_UpdateInstance
      \<lparr>inst_ProcessingUnits = pu, inst_InstanceState = InstanceState_other []\<rparr> c))) =
     Inr \<lparr>inst_ProcessingUnits = pu, inst_InstanceState = InstanceState_other []\<rparr>"
  by (simp add: FakeClient_GetInstance_def FakeClient_UpdateInstance_def)

text \<open>Like the real client, the fake metrics client sets only the metric it is asked for.\<close>

theorem FakeClient_metrics_shape:
  assumes "GetInstanceMetrics list_series c mt now w = (Inr m, w')" "FakeClient_GetInstanceMetrics mt now fm = (Inr m', fm')"
  shows "(case mt of MetricTypeTotal \<Rightarrow> im_CurrentHighPriorityCPUUtilization m = 0 \<and> im_CurrentHighPriorityCPUUtilization m' = 0
     | MetricTypeHighPriority \<Rightarrow> im_CurrentTotalCPUUtilization m = 0 \<and> im_CurrentTotalCPUUtilization m' = 0)"
  using assms
  by (cases mt) (auto simp: GetInstanceMetrics_def FakeClient_GetInstanceMetrics_def Let_def
      split: prod.splits sum.splits if_splits)

end
