(* ===== verification/Spec2Isabelle.thy ===== *)
theory Spec2Isabelle
  imports Autoscaler_Webhook Manual_Webhook Manual_Controller Workers Conversion Emulated_Metrics Report_Text
    Control_Loop Processes Test_Doubles
begin

text \<open>
  \<^bold>\<open>Spanner Autoscaler.\<close> A Kubernetes operator that keeps the processing units of Cloud Spanner
  instances in line with their CPU load. Three custom resources drive it: a
  \<^verbatim>\<open>SpannerAutoscaler\<close> names an instance and a scale configuration, a
  \<^verbatim>\<open>SpannerAutoscaleSchedule\<close> adds processing units for a while at the firings of a cron
  expression, a \<^verbatim>\<open>SpannerManualScaling\<close> overrides the autoscaler with a fixed target. A syncer per
  autoscaler reads the instance and its metrics into the status; the reconciler reads the
  status, decides and calls the Spanner API; cron runners append active schedules; webhooks
  default and validate the resources. A simulator replays recorded metrics through the same
  decision code and searches for better configurations, and two emulators stand in for the
  Google APIs. This library models these parts and proves what makes them correct.

  \<^bold>\<open>Reading the model.\<close> Go structs are records, enums datatypes, a pointer an option, a result
  with an error a sum with the error on the left. An \<^verbatim>\<open>int\<close> is an integer whose operations
  \<open>gadd\<close>, \<open>gsub\<close>, \<open>gmul\<close>, \<open>gdiv\<close> wrap at 64 bits; a \<^verbatim>\<open>float64\<close> is a mantissa of 53 bits and an
  exponent, every operation rounds; times and durations are nanoseconds. Effects are explicit:
  a function that talks to the API server takes and returns a state \<open>rstate\<close>, which holds the
  world of the server and the trace of what was done (reads, writes, events, metrics, calls of
  the Spanner API), so that a property can speak about every call in order. Panics and loops
  that do not end are \<open>None\<close>.

  \<^bold>\<open>Theories and sources.\<close>
  \<^item> \<open>Go_Prelude\<close>, \<open>Go_Float\<close>, \<open>Float_Error\<close>, \<open>Csv_Text\<close>: integers, times, floats with the error of their rounding and \<^verbatim>\<open>encoding/csv\<close>; shared lemmas.
  \<^item> \<open>Api_Types\<close>: \<^verbatim>\<open>api/v1beta1/*_types.go\<close>, the resources field by field and their methods.
    \<open>Conversion\<close>: \<^verbatim>\<open>api/v1alpha1\<close>, the old version and its conversion.
  \<^item> \<open>Step_Size\<close>, \<open>Cron_Cache\<close>, \<open>Scaling\<close>: \<^verbatim>\<open>internal/scaling/stepsize.go\<close>,
    \<^verbatim>\<open>internal/cron\<close>, \<^verbatim>\<open>internal/scaling/scaling.go\<close>: step sizes and ramps, the cache of cron expressions as a step
    relation over concurrent goroutines, the desired value, the range and the decision.
  \<^item> \<open>Autoscaler_Webhook\<close>, \<open>Manual_Webhook\<close>: \<^verbatim>\<open>internal/webhook/v1beta1\<close> and
    \<^verbatim>\<open>api/v1beta1/spannermanualscaling_webhook.go\<close>, defaulting and validation.
  \<^item> \<open>Observability\<close>: \<^verbatim>\<open>internal/observability/metrics.go\<close>, the calls on the metric vectors.
  \<^item> \<open>Kube\<close>: the API server as a record of operations, the trace, and \<^verbatim>\<open>RetryOnConflict\<close>.
  \<^item> \<open>Scheduler\<close>: \<^verbatim>\<open>internal/scheduler/scheduler.go\<close> and the schedule controller.
  \<^item> \<open>Manual_Scaling\<close>, \<open>Manual_Controller\<close>: \<^verbatim>\<open>internal/controller/manualscaling.go\<close> and the controller of
    the overrides.
  \<^item> \<open>Spanner_Client\<close>, \<open>Metrics_Client\<close>, \<open>Syncer\<close>: \<^verbatim>\<open>internal/spanner\<close> with its emulator,
    \<^verbatim>\<open>internal/metrics\<close> and \<^verbatim>\<open>internal/syncer\<close>.
  \<^item> \<open>Autoscaler_Controller\<close>, \<open>Workers\<close>: \<^verbatim>\<open>internal/controller/spannerautoscaler_controller.go\<close>, one
    reconcile, and the registries of syncers and cron runners over all histories of reconciles.
  \<^item> \<open>Monitoring_Emulator\<close>, \<open>Emulated_Metrics\<close>: \<^verbatim>\<open>internal/monitoringemulator\<close>, the stores, the service
    and the admin API, and what the metrics client reads from it. \<open>Control_Loop\<close>: syncer, clients,
    emulators and decision in a closed loop. \<open>Test_Doubles\<close>: the \<^verbatim>\<open>fake.go\<close> files.
  \<^item> \<open>Simulator\<close>, \<open>Simulation\<close>, \<open>Recommender\<close>, \<open>Csv_Text\<close>, \<open>Recordings\<close>,
    \<open>Report\<close>, \<open>Chart_View\<close>, \<open>Simulator_Cli\<close>, \<open>Simulator_Main\<close>, \<open>Report_Text\<close>: \<^verbatim>\<open>internal/simulator\<close> and \<^verbatim>\<open>cmd/simulator\<close>, the replay and its
    summary, the search for a recommendation, \<^verbatim>\<open>encoding/csv\<close> as far as it is used, the
    recordings, what the reports show and where on the page, the commands and their texts.
  \<^item> \<open>Processes\<close>: \<^verbatim>\<open>cmd/main.go\<close>, the \<^verbatim>\<open>main.go\<close> of the emulators, the \<^verbatim>\<open>SetupWithManager\<close>
    functions and the loop of the schedule worker.
  \<^item> This theory: the property that spans admission, decision and reconcile.

  \<^bold>\<open>What is shown.\<close>
  \<^item> Scaling: the desired value is the least valid one whose predicted CPU is below the target,
    limited by the steps and the range; a decision to scale is taken exactly when the cooldown
    and the windows allow it; ramps reach their target and where they leave the valid values.
  \<^item> Reconcile: at most one call of the Spanner API, only for a ready instance, with the value of
    the newest accepted override or of the decision; for an admitted autoscaler a value Cloud
    Spanner accepts, in range. Workers are never leaked or started twice, and the cron
    jobs refine the schedules of the status as far as these can be read.
  \<^item> Closed loop: under a constant load the instance comes to rest at the least size below the
    target when the truncation of percentages leaves headroom; otherwise it can alternate for ever
    between that size and the next smaller one.
  \<^item> Processes: a manager that starts has everything registered, with one policy in webhook and
    reconciler; the monitoring emulator starts in a reachable state; the fake client cannot be
    told from the real one.
  \<^item> Writes: activating, expiring and unregistering a schedule are chains of attempts
    (\<open>conflict_writes\<close>), all but the last refused with a conflict; each attempt writes what it read
    itself, changed in the entry concerned only, and what happened is counted once. A deleted
    schedule is unregistered before it is released if its autoscaler can be read, and is released
    without it otherwise. Overrides are selected, superseded, deleted and marked invalid exactly
    when they should be; the syncer writes only what the services returned, in any order of its
    fetches.
  \<^item> Webhooks and conversion: admission is characterized exactly, with the point where it is wider
    than the README says; conversion round trips.
  \<^item> Emulators: what is set is what the clients read; a scenario step is the one its time says,
    when the steps last less than \<open>2 ^ 63\<close> nanoseconds in total.
  \<^item> Simulator: it decides as the controller does, it returns on every input, its trace respects
    the cooldowns; recordings survive storing; the search is complete and independent of the
    order of the goroutines, and what is recommended can be adopted and is cheaper; the axes of the charts
    are computed by a loop that ends, and a path of a chart never bridges a gap; the printed table
    shows the rows of the page.

  \<^bold>\<open>Interfaces.\<close> \<open>ramp_progress\<close> (a ramp that moves towards its target), \<open>instance_service\<close> (what the
  client needs of the Spanner API), \<open>keyed_store\<close> (the stores of the emulator),
  \<open>series_field\<close> (what a series writes into a point), \<open>proportional_load\<close> (what the decision needs of
  a CPU reading) and \<open>instance_client\<close> (what a controller observes of a client) are locales, each interpreted on the
  definitions of the component that provides it.

  \<^bold>\<open>Parameters and what is assumed of them.\<close> Code outside the repository is an argument with a
  named predicate, used as a hypothesis where a property needs it and satisfied by the sample
  instance of its witness: \<open>step_bounded\<close> and \<open>step_nonneg\<close> (scaled values of
  \<^verbatim>\<open>intstr\<close>), \<open>cron_next_ok\<close> (the next time of a cron schedule is its first firing after the given one, at the
  start of a minute), \<open>cron_ops_ok\<close> (the runner's entries), \<open>retry_ok\<close> (\<^verbatim>\<open>RetryOnConflict\<close> repeats only after a conflict), \<open>sort_ok\<close>
  (\<^verbatim>\<open>slices.SortFunc\<close> sorts), \<open>order_ok\<close> (the goroutines of a group each run once),
  \<open>sim_env_ok\<close> (the schedules and the sorting of the replay), \<open>text_env_ok\<close> (times and decimals are parsed as they are
  printed), \<open>pow10_ok\<close> (the power of ten below a value). The API server is arbitrary: whatever it answers, in any order.

  \<^bold>\<open>Bounds and fuel.\<close> No definition runs on fuel: \<open>last_fire\<close>, the search for the last firing of a
  schedule, and \<open>tick_loop\<close>, the ticks of an axis, are partial functions whose value \<open>None\<close> is not
  returning; \<open>simulation_returns\<close> and \<open>niceTicks_returns\<close> show that they return. Bounds in hypotheses keep the arithmetic exact: processing units below
  \<open>2 ^ 31\<close> as in the API, recordings of fewer than \<open>2 ^ 53\<close> points, stored percentages below
  \<open>2 ^ 50 / 10 ^ 4\<close>.

  \<^bold>\<open>Not modelled.\<close> The HTML templates with their style sheet and script (the commands take the
  rendering of a page as a function; \<open>Report\<close>, \<open>Chart_View\<close> and \<open>Report_Text\<close> have what it is
  given), JSON as text, package \<^verbatim>\<open>flag\<close>, TLS,
  signals and the shutdown of the servers, generated deep copies and scheme registration, log
  lines and event texts, and failures of writers below \<^verbatim>\<open>encoding/csv\<close>. Overflow of floats to infinity and NaN do not arise from the values the
  sources compute with and are not part of \<open>Go_Float\<close>; where a recorded number can exceed an
  \<^verbatim>\<open>int\<close>, its conversion is that of amd64 (\<open>f_round\<close>).
\<close>

section \<open>Admission and reconciling together\<close>

lemma cpu_view_publish:
  assumes "CurrentlyActiveSchedules (sa_Status sa) = []"
  shows "cpu_view sa = publish_range (upd_status (\<lambda>s. s\<lparr>ActiveManualScaling := None\<rparr>) sa)"
proof -
  let ?sa = "upd_status (\<lambda>s. s\<lparr>ActiveManualScaling := None\<rparr>) sa"
  have p: "pruned sa = sa" using assms by (simp add: pruned_def upd_status_def)
  obtain lo hi ch cap where r: "DesiredPURange ?sa = (lo, hi, ch, cap)" by (metis prod_cases4)
  show ?thesis using publish_range_eq [OF r] r by (simp add: cpu_view_def with_range_def p upd_status_def)
qed

lemma scaled_not_current:
  "Decide parse sa d now up down = (DecisionScale, None) \<Longrightarrow> d \<noteq> cur_pu sa"
  by (rule Decide_Scale(1))

text \<open>
  C1. From admission to the API call: when the object a reconcile reads has a spec that passed
  defaulting, validation and the CRD schema with a positive minimum, and no schedule is active
  on it, then the reconcile calls the Spanner API at most once, and the value is a step of a
  manual override or is accepted by Cloud Spanner, lies in the configured range and differs
  from the current one.
\<close>

theorem reconcile_admitted_valid:
  assumes "ValidateCreate validPercent parse (Default obj) = None"
    and "crd_schema (ScaleConfig (sa_Spec (Default obj)))" "sa_Spec sa = sa_Spec (Default obj)"
    and "0 < pus_Min (sc_ProcessingUnits (scale_config sa))" "pus_Max (sc_ProcessingUnits (scale_config sa)) < 2 ^ 31"
    and "CurrentlyActiveSchedules (sa_Status sa) = []"
    and "scaling_ok (r_gsv (c_r env)) sa" "valid_pu (cur_pu sa)" "\<forall>(cpu, tgt) \<in> set (metric_pairs sa). pu_range cpu"
    and "kread (k_get_sa (r_kube (c_r env)) nn) st = (Inr sa, st1)" "AutoscalerReconcile env nn reg st = (res, reg', st')"
  shows "update_calls st' = update_calls st \<or>
    (\<exists>pu e. update_calls st' = update_calls st @ [UpdateInstanceCall pu e] \<and>
       (manual_call env sa pu \<or>
        valid_pu pu \<and> pu \<noteq> cur_pu sa \<and> pus_Min (sc_ProcessingUnits (scale_config sa)) \<le> pu \<and>
        pu \<le> pus_Max (sc_ProcessingUnits (scale_config sa))))"
proof -
  let ?sa = "upd_status (\<lambda>s. s\<lparr>ActiveManualScaling := None\<rparr>) sa" and ?gsv = "r_gsv (c_r env)"
  have f: "sa_Spec ?sa = sa_Spec sa" "cur_pu ?sa = cur_pu sa" "metric_pairs ?sa = metric_pairs sa"
    "CurrentlyActiveSchedules (sa_Status ?sa) = CurrentlyActiveSchedules (sa_Status sa)" "scaling_ok ?gsv ?sa = scaling_ok ?gsv sa"
    by (simp_all add: upd_status_def metric_pairs_def scaling_ok_def Let_def split: option.splits)
  note d = admitted_desired [OF assms(1,2), of ?sa ?gsv]
  note view = cpu_view_publish [OF assms(6)]
  have cpu: "valid_pu pu \<and> pu \<noteq> cur_pu sa \<and> pus_Min (sc_ProcessingUnits (scale_config sa)) \<le> pu \<and>
      pu \<le> pus_Max (sc_ProcessingUnits (scale_config sa))" if c: "cpu_call env sa pu" for pu
  proof -
    have pu: "pu = DesiredProcessingUnits ?gsv (publish_range ?sa)" "pu \<noteq> cur_pu (publish_range ?sa)"
      using c scaled_not_current unfolding cpu_call_def view by blast+
    have "metrics_synced ?sa"
      using pu DesiredProcessingUnits_unsynced [of "publish_range ?sa" ?gsv] by (auto simp: publish_range_fields)
    then show ?thesis using d assms(3-9) pu f by (simp add: publish_range_fields)
  qed
  show ?thesis using reconcile_calls_sound [OF assms(11)] assms(10) cpu by fastforce
qed

theorem reconcile_admitted_valid_witness:
  "\<exists>pu e. update_calls (snd (snd (AutoscalerReconcile sample_cenv sample_nn sample_reg
      (mem_state (100 * minute) [sample_sa] [] [])))) = [UpdateInstanceCall pu e] \<and>
     (manual_call sample_cenv sample_sa pu \<or> valid_pu pu \<and> 1000 \<le> pu \<and> pu \<le> 10000)"
proof -
  let ?st = "mem_state (100 * minute) [sample_sa] [] []"
  let ?R = "AutoscalerReconcile sample_cenv sample_nn sample_reg ?st"
  obtain res reg' st' where R: "?R = (res, reg', st')" by (metis prod_cases3)
  have "update_calls (snd (snd ?R)) = [UpdateInstanceCall 4000 None]" by code_simp
  then have c: "update_calls st' = [UpdateInstanceCall 4000 None]" by (simp add: R)
  have u: "update_calls ?st = []" by (simp add: update_calls_def mem_state_def)
  have k: "kread (k_get_sa (r_kube (c_r sample_cenv)) sample_nn) ?st = (Inr sample_sa, ?st)"
    by (simp add: kread_def sample_cenv_def sample_renv_def mem_kube_def mem_state_def sample_nn_def mem_get_def sample_defs object_key_def)
  have d: "Default sample_sa = sample_sa"
    by (simp add: Default_def default_authentication_def default_scaleConfig_def sample_defs
        intstr_FromInt_def intstr_zero_def in_int32_def)
  have g: "step_on_grid (\<lambda>s. []) (intstr_FromInt 2000)" "step_on_grid (\<lambda>s. []) (intstr_FromInt 0)"
    by (simp_all add: step_on_grid_def intstr_FromInt_def in_int32_def)
  have v: "ValidateCreate (\<lambda>s. []) (\<lambda>e. Inl ''no cron'') (Default sample_sa) = None"
    using g unfolding d by (simp add: ValidateCreate_def validateSpec_def validateAuthentication_def
        validateScaleConfig_None_iff config_accepted_def sample_defs)
  have s: "crd_schema (ScaleConfig (sa_Spec (Default sample_sa)))" "sa_Spec sample_sa = sa_Spec (Default sample_sa)"
    "\<forall>(cpu, tgt) \<in> set (metric_pairs sample_sa). pu_range cpu" "valid_pu (cur_pu sample_sa)"
    "scaling_ok (r_gsv (c_r sample_cenv)) sample_sa" "pus_Min (sc_ProcessingUnits (scale_config sample_sa)) = 1000"
    "pus_Max (sc_ProcessingUnits (scale_config sample_sa)) = 10000" "CurrentlyActiveSchedules (sa_Status sample_sa) = []"
    using sample_scaling_ok unfolding d
    by (simp_all add: crd_schema_def sample_metrics sample_cenv_def sample_renv_def) (simp_all add: sample_defs valid_pu_def pu_range_def)
  show ?thesis
    using reconcile_admitted_valid [OF v s(1,2) _ _ s(8,5,4,3) k R] c u s(6,7) R by auto
qed

end
